(* ===== verification/Prelude.thy ===== *)
theory Prelude
  imports Main "HOL-Library.Word"
begin

text \<open>
  The shared base of the development: JavaScript exceptions as values of a sum type, the part of
  Node's \<^verbatim>\<open>Buffer\<close> that the sources use (bounds-checked reads, \<^verbatim>\<open>subarray\<close>, \<^verbatim>\<open>concat\<close>, hexadecimal
  conversion), big-endian integers, and the list lemmas the components rest on.  A
  \<^verbatim>\<open>Buffer\<close> is a list of 8-bit words; a \<^verbatim>\<open>subarray\<close> is modelled by value, because no source
  modelled here writes to a buffer after it has taken a subarray of it.
\<close>

named_theorems res_simps \<open>rewrite rules for the exception monad\<close>
named_theorems buffer_simps \<open>rewrite rules for reads and slices of byte buffers\<close>

section \<open>Exceptions as values\<close>

text \<open>
  \<^verbatim>\<open>throw new Error(msg)\<close> is \<open>Inl (Error msg)\<close>; the range errors of the \<^verbatim>\<open>Buffer\<close> accessors and the
  type errors of dereferencing \<^verbatim>\<open>undefined\<close> are constructors of their own.
\<close>

datatype js_error = Error string | RangeError | TypeError

type_synonym 'a res = "js_error + 'a"

definition res_bind :: "'e + 'a \<Rightarrow> ('a \<Rightarrow> 'e + 'b) \<Rightarrow> 'e + 'b" where
  "res_bind m f = (case m of Inl e \<Rightarrow> Inl e | Inr x \<Rightarrow> f x)"

lemma res_bind_Inl [simp, res_simps]: "res_bind (Inl e) f = Inl e"
  by (simp add: res_bind_def)

lemma res_bind_Inr [simp, res_simps]: "res_bind (Inr x) f = f x"
  by (simp add: res_bind_def)

lemma res_bind_eq_Inr [res_simps]:
  "res_bind m f = Inr y \<longleftrightarrow> (\<exists>x. m = Inr x \<and> f x = Inr y)"
  by (cases m) auto

lemma res_bind_eq_Inl:
  "res_bind m f = Inl e \<longleftrightarrow> m = Inl e \<or> (\<exists>x. m = Inr x \<and> f x = Inl e)"
  by (cases m) auto

lemma res_bind_cong [fundef_cong]:
  assumes "m = m'" and "\<And>x. m' = Inr x \<Longrightarrow> f x = g x"
  shows "res_bind m f = res_bind m' g"
  using assms by (cases m') auto

lemma res_bind_assoc: "res_bind (res_bind m f) g = res_bind m (\<lambda>x. res_bind (f x) g)"
  by (cases m) auto

text \<open>A loop body that may throw, run over an array: the first exception ends the loop.\<close>

fun map_res :: "('a \<Rightarrow> 'e + 'b) \<Rightarrow> 'a list \<Rightarrow> 'e + 'b list" where
  "map_res f [] = Inr []"
| "map_res f (x # xs) = res_bind (f x) (\<lambda>y. res_bind (map_res f xs) (\<lambda>ys. Inr (y # ys)))"

lemma map_res_Inr_map: "(\<And>x. x \<in> set xs \<Longrightarrow> f x = Inr (g x)) \<Longrightarrow> map_res f xs = Inr (map g xs)"
  by (induction xs) auto

lemma map_res_length: "map_res f xs = Inr ys \<Longrightarrow> length ys = length xs"
  by (induction xs arbitrary: ys) (auto simp: res_simps)

lemma map_res_cong [fundef_cong]:
  "xs = ys \<Longrightarrow> (\<And>x. x \<in> set ys \<Longrightarrow> f x = g x) \<Longrightarrow> map_res f xs = map_res g ys"
  by (induction ys arbitrary: xs) auto

lemma map_res_Inr_iff: "map_res f xs = Inr ys \<longleftrightarrow> list_all2 (\<lambda>x y. f x = Inr y) xs ys"
  by (induction xs arbitrary: ys) (auto simp: res_bind_eq_Inr list_all2_Cons1)

lemma enumerate_snd: "p \<in> set (List.enumerate n xs) \<Longrightarrow> snd p \<in> set xs"
  using map_snd_enumerate [of n xs] by (metis image_eqI list.set_map)

lemma enumerate_ex: "x \<in> set xs \<Longrightarrow> \<exists>i. (i, x) \<in> set (List.enumerate n xs)"
  using map_snd_enumerate [of n xs] by (metis imageE list.set_map prod.collapse)

lemma map_res_all2:
  assumes "\<And>x. x \<in> set xs \<Longrightarrow> \<exists>y. f x = Inr y \<and> P x y"
  shows "\<exists>ys. map_res f xs = Inr ys \<and> list_all2 P xs ys"
  using assms
proof (induction xs)
  case (Cons x xs)
  then obtain y ys where "f x = Inr y" "P x y" "map_res f xs = Inr ys" "list_all2 P xs ys" by fastforce
  then show ?case by simp
qed simp

lemma map_res_Inl: "x \<in> set xs \<Longrightarrow> f x = Inl e \<Longrightarrow> \<exists>e'. map_res f xs = Inl e'"
proof (induction xs)
  case (Cons y ys)
  then show ?case by (cases "f y") (auto simp: res_bind_def split: sum.splits)
qed simp

lemma map_res_id: "(\<And>x. x \<in> set xs \<Longrightarrow> f x = Inr x) \<Longrightarrow> map_res f xs = Inr xs"
  by (induction xs) auto

section \<open>JavaScript sets\<close>

text \<open>A \<^verbatim>\<open>Set\<close> as the list of its elements in insertion order.\<close>

definition set_add :: "'a \<Rightarrow> 'a list \<Rightarrow> 'a list" where
  "set_add x xs = (if x \<in> set xs then xs else xs @ [x])"

definition js_Set :: "'a list \<Rightarrow> 'a list" where
  "js_Set xs = foldl (\<lambda>s x. set_add x s) [] xs"

lemma set_set_add [simp]: "set (set_add x xs) = insert x (set xs)"
  by (auto simp: set_add_def)

lemma set_js_Set [simp]: "set (js_Set xs) = set xs"
  by (induction xs rule: rev_induct) (simp_all add: js_Set_def)

lemma distinct_js_Set [simp]: "distinct (js_Set xs)"
  by (induction xs rule: rev_induct) (simp_all add: js_Set_def set_add_def)

section \<open>Byte buffers\<close>

type_synonym byte = "8 word"
type_synonym bytes = "byte list"

definition byte_of_nat :: "nat \<Rightarrow> byte" where
  "byte_of_nat n = word_of_nat n"

lemma unat_byte_of_nat [simp]: "unat (byte_of_nat n) = n mod 256"
  by (simp add: byte_of_nat_def unat_of_nat)

lemma unat_byte_less [simp]: "unat (b :: byte) < 256"
  using unsigned_less [of b] by simp

lemma byte_of_nat_unat [simp]: "byte_of_nat (unat b) = b"
  by (simp add: byte_of_nat_def)

text \<open>\<^verbatim>\<open>buf.subarray(s, e)\<close> with non-negative arguments: both ends are clamped to the length.\<close>

definition buf_subarray :: "'a list \<Rightarrow> nat \<Rightarrow> nat \<Rightarrow> 'a list" where
  "buf_subarray b s e = take (e - s) (drop s b)"

text \<open>\<^verbatim>\<open>buf[i]\<close>: \<^verbatim>\<open>undefined\<close> outside the buffer.\<close>

definition buf_at :: "'a list \<Rightarrow> nat \<Rightarrow> 'a option" where
  "buf_at b i = (if i < length b then Some (b ! i) else None)"

lemma length_buf_subarray: "length (buf_subarray b s e) = min (e - s) (length b - s)"
  by (simp add: buf_subarray_def)

lemma buf_subarray_whole [simp]: "length b \<le> e \<Longrightarrow> buf_subarray b 0 e = b"
  by (simp add: buf_subarray_def)

lemma buf_subarray_append_left [buffer_simps]:
  "length p = s \<Longrightarrow> s + length m = e \<Longrightarrow> buf_subarray (p @ m @ r) s e = m"
  by (auto simp: buf_subarray_def)

lemma buf_subarray_split:
  "s \<le> m \<Longrightarrow> m \<le> e \<Longrightarrow> buf_subarray b s m @ buf_subarray b m e = buf_subarray b s e"
proof -
  assume "s \<le> m" and "m \<le> e"
  then obtain j k where "m = s + j" and "e = s + j + k"
    by (metis le_iff_add)
  then show ?thesis
    by (simp add: buf_subarray_def take_add add.commute)
qed

section \<open>Big-endian integers\<close>

definition be_nat :: "bytes \<Rightarrow> nat" where
  "be_nat bs = foldl (\<lambda>acc b. acc * 256 + unat b) 0 bs"

primrec be_bytes :: "nat \<Rightarrow> nat \<Rightarrow> bytes" where
  "be_bytes 0 n = []"
| "be_bytes (Suc k) n = be_bytes k (n div 256) @ [byte_of_nat n]"

lemma be_nat_Nil [simp]: "be_nat [] = 0"
  by (simp add: be_nat_def)

lemma be_nat_single [simp]: "be_nat [b] = unat b"
  by (simp add: be_nat_def)

lemma be_nat_snoc [simp]: "be_nat (bs @ [b]) = be_nat bs * 256 + unat b"
  by (simp add: be_nat_def)

lemma length_be_bytes [simp]: "length (be_bytes k n) = k"
  by (induction k arbitrary: n) auto

lemma be_nat_less: "be_nat bs < 256 ^ length bs"
proof (induction bs rule: rev_induct)
  case (snoc b bs)
  have "be_nat bs * 256 + unat b < 256 * 256 ^ length bs"
    using snoc unat_byte_less [of b] by linarith
  then show ?case by simp
qed simp

lemma be_nat_be_bytes: "be_nat (be_bytes k n) = n mod 256 ^ k"
  by (induction k arbitrary: n) (simp_all add: mod_mult2_eq)

lemma be_nat_be_bytes_id [simp]: "n < 256 ^ k \<Longrightarrow> be_nat (be_bytes k n) = n"
  by (simp add: be_nat_be_bytes)

lemma be_bytes_be_nat: "be_bytes (length bs) (be_nat bs) = bs"
proof (induction bs rule: rev_induct)
  case (snoc b bs)
  have "(be_nat bs * 256 + unat b) div 256 = be_nat bs"
    by simp
  moreover have "byte_of_nat (be_nat bs * 256 + unat b) = b"
    by (simp add: word_unat_eq_iff)
  ultimately show ?case using snoc by simp
qed simp

lemma be_nat_inject: "length bs = length cs \<Longrightarrow> be_nat bs = be_nat cs \<longleftrightarrow> bs = cs"
  by (metis be_bytes_be_nat)

text \<open>Little-endian integers are the reversed bytes.\<close>

definition le_nat :: "bytes \<Rightarrow> nat" where
  "le_nat bs = be_nat (rev bs)"

definition le_bytes :: "nat \<Rightarrow> nat \<Rightarrow> bytes" where
  "le_bytes k n = rev (be_bytes k n)"

lemma length_le_bytes [simp]: "length (le_bytes k n) = k"
  by (simp add: le_bytes_def)

lemma le_nat_le_bytes [simp]: "n < 256 ^ k \<Longrightarrow> le_nat (le_bytes k n) = n"
  by (simp add: le_bytes_def le_nat_def)

section \<open>Bounds-checked reads\<close>

text \<open>
  \<^verbatim>\<open>buf.readUInt8\<close>, \<^verbatim>\<open>readUInt16BE\<close>, \<^verbatim>\<open>readUInt32BE\<close>, \<^verbatim>\<open>readInt8\<close> and \<^verbatim>\<open>readInt32BE\<close> throw a
  \<^verbatim>\<open>RangeError\<close> when the bytes are not all inside the buffer.
\<close>

definition read_be :: "nat \<Rightarrow> bytes \<Rightarrow> nat \<Rightarrow> nat res" where
  "read_be k b off = (if off + k \<le> length b then Inr (be_nat (buf_subarray b off (off + k)))
                      else Inl RangeError)"

abbreviation readUInt8 :: "bytes \<Rightarrow> nat \<Rightarrow> nat res" where
  "readUInt8 \<equiv> read_be 1"

abbreviation readUInt16BE :: "bytes \<Rightarrow> nat \<Rightarrow> nat res" where
  "readUInt16BE \<equiv> read_be 2"

abbreviation readUInt32BE :: "bytes \<Rightarrow> nat \<Rightarrow> nat res" where
  "readUInt32BE \<equiv> read_be 4"

definition to_signed :: "nat \<Rightarrow> nat \<Rightarrow> int" where
  "to_signed k n = (if n < 256 ^ k div 2 then int n else int n - 256 ^ k)"

definition readInt32BE :: "bytes \<Rightarrow> nat \<Rightarrow> int res" where
  "readInt32BE b off = res_bind (read_be 4 b off) (\<lambda>n. Inr (to_signed 4 n))"

definition readInt8 :: "bytes \<Rightarrow> nat \<Rightarrow> int res" where
  "readInt8 b off = res_bind (read_be 1 b off) (\<lambda>n. Inr (to_signed 1 n))"

lemma read_be_append [buffer_simps]:
  "length p = off \<Longrightarrow> length m = k \<Longrightarrow> read_be k (p @ m @ r) off = Inr (be_nat m)"
  by (simp add: read_be_def buf_subarray_def)

lemma read_be_error: "read_be k b off = Inl e \<longleftrightarrow> length b < off + k \<and> e = RangeError"
  by (auto simp: read_be_def)

lemma read_be_InrD:
  "read_be k b off = Inr n \<Longrightarrow>
     off + k \<le> length b \<and> n < 256 ^ k \<and> buf_subarray b off (off + k) = be_bytes k n"
proof -
  assume "read_be k b off = Inr n"
  then have le: "off + k \<le> length b" and n: "n = be_nat (buf_subarray b off (off + k))"
    by (auto simp: read_be_def split: if_splits)
  moreover from le have len: "length (buf_subarray b off (off + k)) = k"
    by (simp add: length_buf_subarray)
  moreover have "n < 256 ^ k"
    using be_nat_less [of "buf_subarray b off (off + k)"] len n by simp
  ultimately show ?thesis using be_bytes_be_nat [of "buf_subarray b off (off + k)"] by simp
qed

lemma readUInt8_less: "readUInt8 b off = Inr n \<Longrightarrow> n < 256"
  by (drule read_be_InrD) simp

text \<open>The signed 32-bit big-endian write that \<^verbatim>\<open>readInt32BE\<close> inverts.\<close>

definition int_be_bytes :: "nat \<Rightarrow> int \<Rightarrow> bytes" where
  "int_be_bytes k i = be_bytes k (nat (i mod 256 ^ k))"

lemma length_int_be_bytes [simp]: "length (int_be_bytes k i) = k"
  by (simp add: int_be_bytes_def)

lemma nat_mod_less_power: "nat (i mod (256 ^ k)) < 256 ^ k" for i :: int
proof -
  have "i mod 256 ^ k < (256 :: int) ^ k"
    by simp
  then have "nat (i mod 256 ^ k) < nat (256 ^ k)"
    by (simp add: nat_mono_iff)
  then show ?thesis by (simp add: nat_power_eq)
qed

lemma to_signed_int_be_bytes:
  assumes "- (2 ^ 31) \<le> i" and "i < 2 ^ 31"
  shows "to_signed 4 (be_nat (int_be_bytes 4 i)) = i"
proof -
  have "be_nat (int_be_bytes 4 i) = nat (i mod 256 ^ 4)"
    unfolding int_be_bytes_def by (rule be_nat_be_bytes_id) (rule nat_mod_less_power)
  moreover have "i mod 256 ^ 4 = (if 0 \<le> i then i else i + 256 ^ 4)"
  proof (cases "0 \<le> i")
    case False
    have "i mod 256 ^ 4 = (i + 256 ^ 4) mod 256 ^ 4" by (simp only: mod_add_self2)
    also have "\<dots> = i + 256 ^ 4" by (rule mod_pos_pos_trivial) (use False assms in simp_all)
    finally show ?thesis using False by simp
  qed (use assms in simp)
  ultimately show ?thesis using assms by (auto simp: to_signed_def)
qed

end
