(* ===== verification/Hex.thy ===== *)
theory Hex
  imports Prelude
begin

text \<open>
  Node's hexadecimal conversion of buffers: \<^verbatim>\<open>buf.toString("hex")\<close> prints two lower-case digits per
  byte; \<^verbatim>\<open>Buffer.from(s, "hex")\<close> and \<^verbatim>\<open>buf.write(s, "hex")\<close> read pairs of digits of either case and
  stop at the first pair that is not hexadecimal (an odd last digit is dropped).  Also the string
  helpers \<^verbatim>\<open>removeLeading0x\<close> and \<^verbatim>\<open>addLeading0x\<close> of \<^verbatim>\<open>apps/price_pusher/src/utils.ts\<close>.
\<close>

definition hex_digit :: "nat \<Rightarrow> char" where
  "hex_digit n = (if n < 10 then char_of (48 + n) else char_of (87 + n))"

definition hex_value :: "char \<Rightarrow> nat option" where
  "hex_value c =
     (let n = of_char c in
      if 48 \<le> n \<and> n \<le> 57 then Some (n - 48)
      else if 97 \<le> n \<and> n \<le> 102 then Some (n - 87)
      else if 65 \<le> n \<and> n \<le> 70 then Some (n - 55)
      else None)"

definition byte_to_hex :: "byte \<Rightarrow> string" where
  "byte_to_hex b = [hex_digit (unat b div 16), hex_digit (unat b mod 16)]"

definition bytes_to_hex :: "bytes \<Rightarrow> string" where
  "bytes_to_hex bs = concat (map byte_to_hex bs)"

fun hex_to_bytes :: "string \<Rightarrow> bytes" where
  "hex_to_bytes (c # d # s) =
     (case (hex_value c, hex_value d) of
        (Some x, Some y) \<Rightarrow> byte_of_nat (16 * x + y) # hex_to_bytes s
      | _ \<Rightarrow> [])"
| "hex_to_bytes _ = []"

lemma hex_value_hex_digit [simp]: "n < 16 \<Longrightarrow> hex_value (hex_digit n) = Some n"
  by (auto simp: hex_value_def hex_digit_def Let_def)

lemma hex_to_bytes_byte_to_hex [simp]: "hex_to_bytes (byte_to_hex b @ s) = b # hex_to_bytes s"
proof -
  have "unat b div 16 < 16"
    using unat_byte_less [of b] by linarith
  moreover have "byte_of_nat (16 * (unat b div 16) + unat b mod 16) = b"
    by (simp del: mult_div_mod_eq add: mult_div_mod_eq)
  ultimately show ?thesis
    by (simp add: byte_to_hex_def)
qed

lemma bytes_to_hex_Nil [simp]: "bytes_to_hex [] = []"
  by (simp add: bytes_to_hex_def)

lemma bytes_to_hex_Cons [simp]: "bytes_to_hex (b # bs) = byte_to_hex b @ bytes_to_hex bs"
  by (simp add: bytes_to_hex_def)

lemma bytes_to_hex_append [simp]: "bytes_to_hex (bs @ cs) = bytes_to_hex bs @ bytes_to_hex cs"
  by (simp add: bytes_to_hex_def)

lemma length_byte_to_hex [simp]: "length (byte_to_hex b) = 2"
  by (simp add: byte_to_hex_def)

lemma length_bytes_to_hex [simp]: "length (bytes_to_hex bs) = 2 * length bs"
  by (induction bs) auto

lemma hex_to_bytes_bytes_to_hex_append: "hex_to_bytes (bytes_to_hex bs @ s) = bs @ hex_to_bytes s"
  by (induction bs) auto

lemma hex_to_bytes_bytes_to_hex [simp]: "hex_to_bytes (bytes_to_hex bs) = bs"
  using hex_to_bytes_bytes_to_hex_append [of bs "[]"] by simp

lemma bytes_to_hex_inject [simp]: "bytes_to_hex bs = bytes_to_hex cs \<longleftrightarrow> bs = cs"
  by (metis hex_to_bytes_bytes_to_hex)

lemma take_bytes_to_hex: "take (2 * n) (bytes_to_hex bs) = bytes_to_hex (take n bs)"
proof (induction bs arbitrary: n)
  case (Cons b bs)
  then show ?case by (cases n) (simp_all add: byte_to_hex_def)
qed simp

section \<open>String prefixes\<close>

definition startsWith :: "string \<Rightarrow> string \<Rightarrow> bool" where
  "startsWith s p \<longleftrightarrow> take (length p) s = p"

definition removeLeading0x :: "string \<Rightarrow> string" where
  "removeLeading0x i = (if startsWith i ''0x'' then drop 2 i else i)"

definition addLeading0x :: "string \<Rightarrow> string" where
  "addLeading0x i = (if startsWith i ''0x'' then i else ''0x'' @ i)"

lemma startsWith_iff: "startsWith s p \<longleftrightarrow> (\<exists>r. s = p @ r)"
  unfolding startsWith_def by (metis append_eq_conv_conj append_take_drop_id)

lemma startsWith_bytes_to_hex:
  "startsWith (bytes_to_hex bs) (bytes_to_hex ps) \<longleftrightarrow> take (length ps) bs = ps"
  by (simp add: startsWith_def take_bytes_to_hex)

lemma removeLeading0x_addLeading0x:
  "\<not> startsWith i ''0x'' \<Longrightarrow> removeLeading0x (addLeading0x i) = i"
  by (simp add: removeLeading0x_def addLeading0x_def startsWith_def)

lemma addLeading0x_idem [simp]: "addLeading0x (addLeading0x i) = addLeading0x i"
  by (simp add: addLeading0x_def startsWith_def)

text \<open>\<^verbatim>\<open>Buffer.from(s)\<close> of an ASCII literal.\<close>

definition ascii_bytes :: "string \<Rightarrow> bytes" where
  "ascii_bytes s = map (\<lambda>c. byte_of_nat (of_char c)) s"

section \<open>Decimal numbers\<close>

text \<open>The decimal digits of a number, as string concatenation and \<^verbatim>\<open>toString\<close> print them.\<close>

definition decimal_digit :: "nat \<Rightarrow> char" where
  "decimal_digit n = char_of (48 + n)"

definition digit_value :: "char \<Rightarrow> nat option" where
  "digit_value c = (let n = of_char c in if 48 \<le> n \<and> n \<le> 57 then Some (n - 48) else None)"

fun show_nat :: "nat \<Rightarrow> string" where
  "show_nat n = (if n < 10 then [decimal_digit n] else show_nat (n div 10) @ [decimal_digit (n mod 10)])"

declare show_nat.simps [simp del]

definition show_int :: "int \<Rightarrow> string" where
  "show_int i = (if i < 0 then CHR ''-'' # show_nat (nat (- i)) else show_nat (nat i))"

definition decimal_value :: "string \<Rightarrow> nat" where
  "decimal_value s = foldl (\<lambda>acc c. 10 * acc + (case digit_value c of None \<Rightarrow> 0 | Some d \<Rightarrow> d)) 0 s"

definition is_decimal :: "char \<Rightarrow> bool" where
  "is_decimal c \<longleftrightarrow> digit_value c \<noteq> None"

lemma digit_value_decimal_digit [simp]: "n < 10 \<Longrightarrow> digit_value (decimal_digit n) = Some n"
  by (simp add: digit_value_def decimal_digit_def)

lemma is_decimal_digit [simp]: "n < 10 \<Longrightarrow> is_decimal (decimal_digit n)"
  by (simp add: is_decimal_def)

lemma show_nat_decimal: "\<forall>c \<in> set (show_nat n). is_decimal c"
  by (induction n rule: show_nat.induct) (subst show_nat.simps, simp)

lemma show_nat_not_Nil [simp]: "show_nat n \<noteq> []"
  by (subst show_nat.simps) simp

lemma decimal_value_snoc: "decimal_value (s @ [c]) = 10 * decimal_value s +
    (case digit_value c of None \<Rightarrow> 0 | Some d \<Rightarrow> d)"
  by (simp add: decimal_value_def)

lemma decimal_value_show_nat [simp]: "decimal_value (show_nat n) = n"
proof (induction n rule: show_nat.induct)
  case (1 n)
  show ?case
  proof (cases "n < 10")
    case True
    then show ?thesis using decimal_value_snoc [of "[]"] by (subst show_nat.simps) (simp add: decimal_value_def)
  next
    case False
    with 1 show ?thesis by (subst show_nat.simps) (simp add: decimal_value_snoc)
  qed
qed

end
