(* ===== verification/Accumulator.thy ===== *)
theory Accumulator
  imports Hex
begin

text \<open>
  The accumulator wire format of \<^verbatim>\<open>price_service/sdk/js/src/AccumulatorUpdateData.ts\<close>: the magic
  check, the two message parsers, \<^verbatim>\<open>parseAccumulatorUpdateData\<close> and \<^verbatim>\<open>sliceAccumulatorUpdateData\<close>.
  Cursors are natural numbers; every bounds-checked read may throw; \<^verbatim>\<open>subarray\<close> clamps.  The class
  \<^verbatim>\<open>BN\<close> of \<^verbatim>\<open>bn.js\<close> is a parameter: \<open>newBN\<close> stands for \<^verbatim>\<open>new BN(bytes, "be")\<close>.
  An abstract serialiser of the format is the specification the parsers are checked against.
\<close>

section \<open>The parsers\<close>

definition ACCUMULATOR_MAGIC :: string where
  "ACCUMULATOR_MAGIC = ''504e4155''"

definition MAJOR_VERSION :: byte where "MAJOR_VERSION = 1"
definition MINOR_VERSION :: byte where "MINOR_VERSION = 0"
definition KECCAK160_HASH_SIZE :: nat where "KECCAK160_HASH_SIZE = 20"
definition PRICE_FEED_MESSAGE_VARIANT :: nat where "PRICE_FEED_MESSAGE_VARIANT = 0"
definition TWAP_MESSAGE_VARIANT :: nat where "TWAP_MESSAGE_VARIANT = 1"

record accumulator_update =
  upd_message :: bytes
  upd_proof :: "bytes list"

record accumulator_update_data =
  aud_vaa :: bytes
  aud_updates :: "accumulator_update list"

record 'bn price_feed_message =
  pfm_feedId :: bytes
  pfm_price :: 'bn
  pfm_confidence :: 'bn
  pfm_exponent :: int
  pfm_publishTime :: 'bn
  pfm_prevPublishTime :: 'bn
  pfm_emaPrice :: 'bn
  pfm_emaConf :: 'bn

record 'bn twap_message =
  twm_feedId :: bytes
  twm_cumulativePrice :: 'bn
  twm_cumulativeConf :: 'bn
  twm_numDownSlots :: 'bn
  twm_exponent :: int
  twm_publishTime :: 'bn
  twm_prevPublishTime :: 'bn
  twm_publishSlot :: 'bn

definition isAccumulatorUpdateData :: "bytes \<Rightarrow> bool" where
  "isAccumulatorUpdateData updateBytes \<longleftrightarrow>
     startsWith (bytes_to_hex updateBytes) ACCUMULATOR_MAGIC \<and>
     buf_at updateBytes 4 = Some MAJOR_VERSION \<and>
     buf_at updateBytes 5 = Some MINOR_VERSION"

definition parsePriceFeedMessage :: "(bytes \<Rightarrow> 'bn) \<Rightarrow> bytes \<Rightarrow> 'bn price_feed_message res" where
  "parsePriceFeedMessage newBN msg =
     res_bind (readUInt8 msg 0) (\<lambda>variant.
     if variant \<noteq> PRICE_FEED_MESSAGE_VARIANT then Inl (Error ''Not a price feed message'')
     else
       let cursor = 1;
           fid = buf_subarray msg cursor (cursor + 32); cursor = cursor + 32;
           p = newBN (buf_subarray msg cursor (cursor + 8)); cursor = cursor + 8;
           c = newBN (buf_subarray msg cursor (cursor + 8)); cursor = cursor + 8
       in res_bind (readInt32BE msg cursor) (\<lambda>ex.
       let cursor = cursor + 4;
           pt = newBN (buf_subarray msg cursor (cursor + 8)); cursor = cursor + 8;
           ppt = newBN (buf_subarray msg cursor (cursor + 8)); cursor = cursor + 8;
           ep = newBN (buf_subarray msg cursor (cursor + 8)); cursor = cursor + 8;
           ec = newBN (buf_subarray msg cursor (cursor + 8))
       in Inr \<lparr>pfm_feedId = fid, pfm_price = p, pfm_confidence = c, pfm_exponent = ex, pfm_publishTime = pt,
               pfm_prevPublishTime = ppt, pfm_emaPrice = ep, pfm_emaConf = ec\<rparr>))"

definition parseTwapMessage :: "(bytes \<Rightarrow> 'bn) \<Rightarrow> bytes \<Rightarrow> 'bn twap_message res" where
  "parseTwapMessage newBN msg =
     res_bind (readUInt8 msg 0) (\<lambda>variant.
     if variant \<noteq> TWAP_MESSAGE_VARIANT then Inl (Error ''Not a twap message'')
     else
       let cursor = 1;
           fid = buf_subarray msg cursor (cursor + 32); cursor = cursor + 32;
           cp = newBN (buf_subarray msg cursor (cursor + 16)); cursor = cursor + 16;
           cc = newBN (buf_subarray msg cursor (cursor + 16)); cursor = cursor + 16;
           nds = newBN (buf_subarray msg cursor (cursor + 8)); cursor = cursor + 8
       in res_bind (readInt32BE msg cursor) (\<lambda>ex.
       let cursor = cursor + 4;
           pt = newBN (buf_subarray msg cursor (cursor + 8)); cursor = cursor + 8;
           ppt = newBN (buf_subarray msg cursor (cursor + 8)); cursor = cursor + 8;
           ps = newBN (buf_subarray msg cursor (cursor + 8))
       in Inr \<lparr>twm_feedId = fid, twm_cumulativePrice = cp, twm_cumulativeConf = cc, twm_numDownSlots = nds,
               twm_exponent = ex, twm_publishTime = pt, twm_prevPublishTime = ppt, twm_publishSlot = ps\<rparr>))"

text \<open>
  Both functions on whole updates start by skipping the trailing payload and the proof type and
  reading the size of the VAA; the helper returns where the VAA starts and its size.
\<close>

definition accumulator_header :: "bytes \<Rightarrow> (nat \<times> nat) res" where
  "accumulator_header d =
     res_bind (readUInt8 d 6) (\<lambda>trailingPayloadSize.
       let cursor = 6 + (1 + trailingPayloadSize) + 1 in
       res_bind (readUInt16BE d cursor) (\<lambda>vaaSize. Inr (cursor + 2, vaaSize)))"

fun slice_updates :: "bytes \<Rightarrow> nat \<Rightarrow> nat \<Rightarrow> (bytes list \<times> nat) res" where
  "slice_updates d cursor 0 = Inr ([], cursor)"
| "slice_updates d cursor (Suc n) =
     res_bind (readUInt16BE d cursor) (\<lambda>messageSize.
     let c1 = cursor + 2 + messageSize in
     res_bind (readUInt8 d c1) (\<lambda>numProofs.
     let c2 = c1 + 1 + KECCAK160_HASH_SIZE * numProofs in
     res_bind (slice_updates d c2 n) (\<lambda>(us, c). Inr (buf_subarray d cursor c2 # us, c))))"

fun parse_proofs :: "bytes \<Rightarrow> nat \<Rightarrow> nat \<Rightarrow> bytes list \<times> nat" where
  "parse_proofs d cursor 0 = ([], cursor)"
| "parse_proofs d cursor (Suc n) =
     (let (ps, c) = parse_proofs d (cursor + KECCAK160_HASH_SIZE) n
      in (buf_subarray d cursor (cursor + KECCAK160_HASH_SIZE) # ps, c))"

fun parse_updates :: "bytes \<Rightarrow> nat \<Rightarrow> nat \<Rightarrow> (accumulator_update list \<times> nat) res" where
  "parse_updates d cursor 0 = Inr ([], cursor)"
| "parse_updates d cursor (Suc n) =
     res_bind (readUInt16BE d cursor) (\<lambda>messageSize.
     let c0 = cursor + 2; msg = buf_subarray d c0 (c0 + messageSize); c1 = c0 + messageSize in
     res_bind (readUInt8 d c1) (\<lambda>numProofs.
     let (pfs, c2) = parse_proofs d (c1 + 1) numProofs in
     res_bind (parse_updates d c2 n) (\<lambda>(us, c).
       Inr (\<lparr>upd_message = msg, upd_proof = pfs\<rparr> # us, c))))"

text \<open>\<^verbatim>\<open>arr.slice(start, end)\<close>: negative arguments count from the end, missing ones are the ends.\<close>

definition slice_index :: "nat \<Rightarrow> int \<Rightarrow> nat" where
  "slice_index len i = (if i < 0 then nat (int len + i) else min len (nat i))"

definition js_slice :: "int option \<Rightarrow> int option \<Rightarrow> 'a list \<Rightarrow> 'a list" where
  "js_slice start end xs =
     (let s = (case start of None \<Rightarrow> 0 | Some i \<Rightarrow> slice_index (length xs) i);
          e = (case end of None \<Rightarrow> length xs | Some i \<Rightarrow> slice_index (length xs) i)
      in take (e - s) (drop s xs))"

definition sliceAccumulatorUpdateData :: "bytes \<Rightarrow> int option \<Rightarrow> int option \<Rightarrow> bytes res" where
  "sliceAccumulatorUpdateData d start end =
     (if \<not> isAccumulatorUpdateData d then Inl (Error ''Invalid accumulator message'') else
      res_bind (accumulator_header d) (\<lambda>(vaaStart, vaaSize).
      let endOfVaa = vaaStart + vaaSize in
      res_bind (readUInt8 d endOfVaa) (\<lambda>numUpdates.
      res_bind (slice_updates d (endOfVaa + 1) numUpdates) (\<lambda>(updates, cursor).
      if cursor \<noteq> length d then Inl (Error ''Didn't reach the end of the message'')
      else
        let sliceUpdates = js_slice start end updates in
        Inr (buf_subarray d 0 endOfVaa @ [byte_of_nat (length sliceUpdates)] @
             concat sliceUpdates)))))"

definition parseAccumulatorUpdateData :: "bytes \<Rightarrow> accumulator_update_data res" where
  "parseAccumulatorUpdateData d =
     (if \<not> isAccumulatorUpdateData d then Inl (Error ''Invalid accumulator message'') else
      res_bind (accumulator_header d) (\<lambda>(vaaStart, vaaSize).
      let vaa = buf_subarray d vaaStart (vaaStart + vaaSize); cursor = vaaStart + vaaSize in
      res_bind (readUInt8 d cursor) (\<lambda>numUpdates.
      res_bind (parse_updates d (cursor + 1) numUpdates) (\<lambda>(updates, cursor).
      if cursor \<noteq> length d then Inl (Error ''Didn't reach the end of the message'')
      else Inr \<lparr>aud_vaa = vaa, aud_updates = updates\<rparr>))))"

section \<open>The format, and that the parsers decode exactly it\<close>

text \<open>
  The abstract serialiser: header with a trailing payload \<open>tr\<close> and a proof type \<open>pt\<close> that the
  parsers skip, the VAA with a 16-bit length, and the updates with an 8-bit count.
\<close>

definition encode_update :: "accumulator_update \<Rightarrow> bytes" where
  "encode_update u =
     be_bytes 2 (length (upd_message u)) @ upd_message u @
     [byte_of_nat (length (upd_proof u))] @ concat (upd_proof u)"

definition wf_update :: "accumulator_update \<Rightarrow> bool" where
  "wf_update u \<longleftrightarrow> length (upd_message u) < 65536 \<and> length (upd_proof u) < 256 \<and>
     list_all (\<lambda>p. length p = KECCAK160_HASH_SIZE) (upd_proof u)"

definition encode_prefix :: "bytes \<Rightarrow> byte \<Rightarrow> bytes \<Rightarrow> bytes" where
  "encode_prefix tr pt v =
     [0x50, 0x4e, 0x41, 0x55, 1, 0, byte_of_nat (length tr)] @ tr @ [pt] @
     be_bytes 2 (length v) @ v"

definition encode_accumulator :: "bytes \<Rightarrow> byte \<Rightarrow> accumulator_update_data \<Rightarrow> bytes" where
  "encode_accumulator tr pt a =
     encode_prefix tr pt (aud_vaa a) @ [byte_of_nat (length (aud_updates a))] @
     concat (map encode_update (aud_updates a))"

definition wf_accumulator :: "accumulator_update_data \<Rightarrow> bool" where
  "wf_accumulator a \<longleftrightarrow> length (aud_vaa a) < 65536 \<and> length (aud_updates a) < 256 \<and>
     list_all wf_update (aud_updates a)"

subsection \<open>The proof loop\<close>

lemma parse_proofs_cursor: "snd (parse_proofs d c n) = c + KECCAK160_HASH_SIZE * n"
  by (induction n arbitrary: c) (auto simp: case_prod_beta Let_def)

lemma parse_proofs_length: "length (fst (parse_proofs d c n)) = n"
  by (induction n arbitrary: c) (auto simp: case_prod_beta Let_def)

lemma parse_proofs_sound:
  assumes "c + KECCAK160_HASH_SIZE * n \<le> length d"
  shows "list_all (\<lambda>p. length p = KECCAK160_HASH_SIZE) (fst (parse_proofs d c n)) \<and>
    concat (fst (parse_proofs d c n)) = buf_subarray d c (c + KECCAK160_HASH_SIZE * n)"
  using assms
proof (induction n arbitrary: c)
  case (Suc n)
  let ?c = "c + KECCAK160_HASH_SIZE"
  have "buf_subarray d c ?c @ buf_subarray d ?c (?c + KECCAK160_HASH_SIZE * n) =
        buf_subarray d c (c + KECCAK160_HASH_SIZE * Suc n)"
    using buf_subarray_split [of c ?c "?c + KECCAK160_HASH_SIZE * n" d] by (simp add: add.assoc)
  with Suc show ?case
    by (auto simp: case_prod_beta Let_def length_buf_subarray)
qed (simp add: buf_subarray_def)

lemma parse_proofs_complete:
  "list_all (\<lambda>p. length p = KECCAK160_HASH_SIZE) ps \<Longrightarrow>
   parse_proofs (pre @ concat ps @ post) (length pre) (length ps) =
     (ps, length pre + length (concat ps))"
proof (induction ps arbitrary: pre)
  case (Cons p ps)
  then have "parse_proofs ((pre @ p) @ concat ps @ post) (length (pre @ p)) (length ps) =
      (ps, length (pre @ p) + length (concat ps))"
    by (intro Cons.IH) simp
  moreover from Cons.prems have "buf_subarray (pre @ p @ concat ps @ post) (length pre)
      (length pre + KECCAK160_HASH_SIZE) = p"
    by (auto intro: buf_subarray_append_left)
  ultimately show ?case using Cons.prems by simp
qed simp

subsection \<open>The update loops\<close>

lemma slice_updates_cursor: "slice_updates d c n = Inr (us, c') \<Longrightarrow> c \<le> c' \<and> length us = n"
  by (induction n arbitrary: c us) (fastforce simp: res_simps Let_def)+

text \<open>One update, read off the buffer between two cursors that are both inside it.\<close>

lemma encode_update_subarray:
  assumes msg: "readUInt16BE d c = Inr sz" and num: "readUInt8 d (c + 2 + sz) = Inr np"
    and le: "c + 2 + sz + 1 + KECCAK160_HASH_SIZE * np \<le> length d"
  shows "encode_update \<lparr>upd_message = buf_subarray d (c + 2) (c + 2 + sz),
           upd_proof = fst (parse_proofs d (c + 2 + sz + 1) np)\<rparr> =
         buf_subarray d c (c + 2 + sz + 1 + KECCAK160_HASH_SIZE * np)"
    and "wf_update \<lparr>upd_message = buf_subarray d (c + 2) (c + 2 + sz),
           upd_proof = fst (parse_proofs d (c + 2 + sz + 1) np)\<rparr>"
proof -
  let ?c1 = "c + 2 + sz" and ?c2 = "c + 2 + sz + 1 + KECCAK160_HASH_SIZE * np"
  from msg have sz: "be_bytes 2 sz = buf_subarray d c (c + 2)" "sz < 65536"
    by (auto dest!: read_be_InrD)
  from num have np: "[byte_of_nat np] = buf_subarray d ?c1 (?c1 + 1)" "np < 256"
    by (auto dest!: read_be_InrD)
  have pfs: "list_all (\<lambda>p. length p = KECCAK160_HASH_SIZE) (fst (parse_proofs d (?c1 + 1) np)) \<and>
      concat (fst (parse_proofs d (?c1 + 1) np)) = buf_subarray d (?c1 + 1) ?c2"
    by (rule parse_proofs_sound) (rule le)
  have "buf_subarray d c (c + 2) @ buf_subarray d (c + 2) ?c1 @ buf_subarray d ?c1 (?c1 + 1) @
        buf_subarray d (?c1 + 1) ?c2 = buf_subarray d c ?c2"
    by (simp add: buf_subarray_split)
  with sz np pfs show "encode_update \<lparr>upd_message = buf_subarray d (c + 2) ?c1,
      upd_proof = fst (parse_proofs d (?c1 + 1) np)\<rparr> = buf_subarray d c ?c2"
    using le by (simp add: encode_update_def length_buf_subarray parse_proofs_length add.assoc)
  show "wf_update \<lparr>upd_message = buf_subarray d (c + 2) ?c1,
      upd_proof = fst (parse_proofs d (?c1 + 1) np)\<rparr>"
    using le sz np pfs by (simp add: wf_update_def length_buf_subarray parse_proofs_length)
qed

lemma parse_updates_sound:
  "parse_updates d c n = Inr (us, c') \<Longrightarrow> c' \<le> length d \<Longrightarrow>
     c \<le> c' \<and> length us = n \<and> list_all wf_update us \<and>
     slice_updates d c n = Inr (map encode_update us, c') \<and>
     concat (map encode_update us) = buf_subarray d c c'"
proof (induction n arbitrary: c us)
  case 0
  then show ?case by (simp add: buf_subarray_def)
next
  case (Suc n)
  from Suc.prems(1) obtain sz np us' where
      sz: "readUInt16BE d c = Inr sz" and np: "readUInt8 d (c + 2 + sz) = Inr np" and
      rest: "parse_updates d (c + 2 + sz + 1 + KECCAK160_HASH_SIZE * np) n = Inr (us', c')" and
      us: "us = \<lparr>upd_message = buf_subarray d (c + 2) (c + 2 + sz),
                 upd_proof = fst (parse_proofs d (c + 2 + sz + 1) np)\<rparr> # us'"
    by (auto simp: res_simps Let_def case_prod_beta parse_proofs_cursor)
  note IH = Suc.IH [OF rest Suc.prems(2)]
  then have le: "c + 2 + sz + 1 + KECCAK160_HASH_SIZE * np \<le> length d"
    using Suc.prems(2) by linarith
  note one = encode_update_subarray [OF sz np le]
  have "buf_subarray d c (c + 2 + sz + 1 + KECCAK160_HASH_SIZE * np) @
        buf_subarray d (c + 2 + sz + 1 + KECCAK160_HASH_SIZE * np) c' = buf_subarray d c c'"
    using IH by (intro buf_subarray_split) auto
  then show ?case
    using IH one sz np us by (simp add: res_simps Let_def add.assoc)
qed

lemma parse_updates_complete:
  "list_all wf_update us \<Longrightarrow>
   parse_updates (pre @ concat (map encode_update us) @ post) (length pre) (length us) =
     Inr (us, length pre + length (concat (map encode_update us)))"
proof (induction us arbitrary: pre)
  case (Cons u us)
  obtain m p where u: "u = \<lparr>upd_message = m, upd_proof = p\<rparr>"
    by (metis accumulator_update.cases)
  let ?r = "concat (map encode_update us) @ post"
  let ?d = "pre @ be_bytes 2 (length m) @ m @ [byte_of_nat (length p)] @ concat p @ ?r"
  let ?p1 = "pre @ be_bytes 2 (length m)" and ?p2 = "(pre @ be_bytes 2 (length m)) @ m"
  let ?p3 = "?p2 @ [byte_of_nat (length p)]"
  from Cons.prems u have wf: "length m < 256 ^ 2" "length p < 256"
      "list_all (\<lambda>q. length q = KECCAK160_HASH_SIZE) p" "list_all wf_update us"
    by (auto simp: wf_update_def [of "\<lparr>upd_message = m, upd_proof = p\<rparr>"])
  have sz: "readUInt16BE ?d (length pre) = Inr (length m)"
    using wf(1) read_be_append [of pre _ "be_bytes 2 (length m)" 2] by simp
  have msg: "buf_subarray ?d (length pre + 2) (length pre + 2 + length m) = m"
    using buf_subarray_append_left [of ?p1 "length pre + 2" m] by simp
  have np: "readUInt8 ?d (length pre + 2 + length m) = Inr (length p)"
    using wf(2) read_be_append [of ?p2 _ "[byte_of_nat (length p)]" 1]
    by (simp add: be_nat_def)
  have pfs: "parse_proofs ?d (length pre + 2 + length m + 1) (length p) =
      (p, length pre + 2 + length m + 1 + length (concat p))"
    using parse_proofs_complete [OF wf(3), of ?p3 ?r] by (simp add: add.assoc)
  have "parse_updates ((?p3 @ concat p) @ ?r) (length (?p3 @ concat p)) (length us) =
      Inr (us, length (?p3 @ concat p) + length (concat (map encode_update us)))"
    by (rule Cons.IH) (rule wf)
  then have rest: "parse_updates ?d (length pre + 2 + length m + 1 + length (concat p)) (length us) =
      Inr (us, length pre + 2 + length m + 1 + length (concat p) +
               length (concat (map encode_update us)))"
    by (simp add: add.assoc)
  have eu: "encode_update u = be_bytes 2 (length m) @ m @ [byte_of_nat (length p)] @ concat p"
    by (simp add: u encode_update_def)
  then have d: "pre @ concat (map encode_update (u # us)) @ post = ?d"
    by simp
  show ?case
    unfolding d using sz msg np pfs rest by (simp add: u eu [unfolded u] Let_def)
qed simp

subsection \<open>The header\<close>

definition magic_version :: bytes where
  "magic_version = [0x50, 0x4e, 0x41, 0x55, 1, 0]"

lemma ACCUMULATOR_MAGIC_hex: "ACCUMULATOR_MAGIC = bytes_to_hex [0x50, 0x4e, 0x41, 0x55]"
  by code_simp

lemma isAccumulatorUpdateData_iff: "isAccumulatorUpdateData d \<longleftrightarrow> take 6 d = magic_version"
proof -
  have split: "take 6 d = take 4 d @ take 1 (drop 4 d) @ take 1 (drop 5 d)"
    using take_add [of 4 2 d] take_add [of 1 1 "drop 4 d"] by (simp add: numeral_2_eq_2)
  have magic: "startsWith (bytes_to_hex d) ACCUMULATOR_MAGIC \<longleftrightarrow> take 4 d = [0x50, 0x4e, 0x41, 0x55]"
    using startsWith_bytes_to_hex [of d "[0x50, 0x4e, 0x41, 0x55]"]
    by (simp only: ACCUMULATOR_MAGIC_hex) (simp add: numeral_eq_Suc)
  have at: "take (Suc 0) (drop i d) = [x] \<longleftrightarrow> buf_at d i = Some x" for i x
    by (cases "drop i d") (auto simp: buf_at_def dest: nth_via_drop)
  have "take 6 d = magic_version \<longleftrightarrow> take 4 d = [0x50, 0x4e, 0x41, 0x55] \<and>
      take 1 (drop 4 d) = [1] \<and> take 1 (drop 5 d) = [0]"
    unfolding split magic_version_def
    by (cases "length d < 5"; cases "length d < 6") (auto simp: append_eq_conv_conj)
  then show ?thesis
    by (simp add: isAccumulatorUpdateData_def magic at MAJOR_VERSION_def MINOR_VERSION_def)
qed

lemma encode_prefix_magic:
  "encode_prefix tr pt v =
     magic_version @ [byte_of_nat (length tr)] @ tr @ [pt] @ be_bytes 2 (length v) @ v"
  by (simp add: encode_prefix_def magic_version_def)

lemma length_magic_version [simp]: "length magic_version = 6"
  by (simp add: magic_version_def)

lemma isAccumulatorUpdateData_encode_prefix [simp]:
  "isAccumulatorUpdateData (encode_prefix tr pt v @ r)"
  by (simp add: isAccumulatorUpdateData_iff encode_prefix_magic)

lemma accumulator_header_complete:
  assumes "length tr < 256" and "length v < 65536"
  shows "accumulator_header (encode_prefix tr pt v @ r) = Inr (10 + length tr, length v)"
proof -
  let ?p = "magic_version @ [byte_of_nat (length tr)] @ tr @ [pt]"
  have "readUInt8 (magic_version @ [byte_of_nat (length tr)] @ (tr @ [pt] @ be_bytes 2 (length v) @ v @ r)) 6
        = Inr (length tr)"
    using assms(1) by (subst read_be_append) (simp_all add: be_nat_def)
  moreover have "readUInt16BE (?p @ be_bytes 2 (length v) @ (v @ r)) (8 + length tr) = Inr (length v)"
    using assms(2) by (subst read_be_append) simp_all
  ultimately show ?thesis
    by (simp add: accumulator_header_def encode_prefix_magic Let_def)
qed

lemma accumulator_header_sound:
  assumes magic: "isAccumulatorUpdateData d" and hdr: "accumulator_header d = Inr (vs, sz)"
    and le: "vs + sz \<le> length d"
  obtains tr pt where "length tr < 256" and "sz < 65536" and "vs = 10 + length tr"
    and "buf_subarray d 0 (vs + sz) = encode_prefix tr pt (buf_subarray d vs (vs + sz))"
proof -
  from hdr obtain t where t: "readUInt8 d 6 = Inr t" and z: "readUInt16BE d (8 + t) = Inr sz"
      and vs: "vs = 10 + t"
    by (auto simp: accumulator_header_def res_simps Let_def)
  have tb: "[byte_of_nat t] = buf_subarray d 6 7" "t < 256" and
      zb: "be_bytes 2 sz = buf_subarray d (8 + t) (10 + t)" "sz < 65536"
    using read_be_InrD [OF t] read_be_InrD [OF z] by (auto simp: numeral_2_eq_2)
  define tr where "tr = buf_subarray d 7 (7 + t)"
  have tr: "length tr = t" and pt: "buf_subarray d (7 + t) (8 + t) = [d ! (7 + t)]"
    using le vs by (auto simp: tr_def length_buf_subarray buf_subarray_def take_Suc_conv_app_nth
        hd_drop_conv_nth take_Suc)
  have "buf_subarray d 0 6 @ buf_subarray d 6 7 @ buf_subarray d 7 (7 + t) @
      buf_subarray d (7 + t) (8 + t) @ buf_subarray d (8 + t) (10 + t) @
      buf_subarray d (10 + t) (vs + sz) = buf_subarray d 0 (vs + sz)"
    using vs by (simp add: buf_subarray_split)
  moreover have "buf_subarray d 0 6 = magic_version"
    using magic by (simp add: isAccumulatorUpdateData_iff buf_subarray_def)
  ultimately have "buf_subarray d 0 (vs + sz) =
      encode_prefix tr (d ! (7 + t)) (buf_subarray d vs (vs + sz))"
    using tb zb tr pt vs le
    by (simp add: encode_prefix_magic length_buf_subarray flip: tr_def)
  then show thesis using that [of tr] tb zb tr vs by blast
qed

subsection \<open>Whole messages\<close>

lemma parse_encode_accumulator:
  assumes wf: "wf_accumulator a" and tr: "length tr < 256"
  shows "parseAccumulatorUpdateData (encode_accumulator tr pt a) = Inr a"
proof -
  let ?us = "aud_updates a" and ?v = "aud_vaa a"
  let ?pre = "encode_prefix tr pt ?v" and ?n = "[byte_of_nat (length (aud_updates a))]"
  let ?body = "concat (map encode_update ?us)"
  have len: "length ?pre = 10 + length tr + length ?v"
    by (simp add: encode_prefix_def)
  have hdr: "accumulator_header (?pre @ ?n @ ?body) = Inr (10 + length tr, length ?v)"
    using wf tr by (intro accumulator_header_complete) (auto simp: wf_accumulator_def)
  have vaa: "buf_subarray (?pre @ ?n @ ?body) (10 + length tr) (10 + length tr + length ?v) = ?v"
    using buf_subarray_append_left [of "magic_version @ [byte_of_nat (length tr)] @ tr @ [pt] @
        be_bytes 2 (length ?v)" "10 + length tr" ?v] by (simp add: encode_prefix_magic)
  have num: "readUInt8 (?pre @ ?n @ ?body) (10 + length tr + length ?v) = Inr (length ?us)"
    using wf len read_be_append [of ?pre _ ?n 1] by (simp add: wf_accumulator_def be_nat_def)
  have upds: "parse_updates (?pre @ ?n @ ?body) (10 + length tr + length ?v + 1) (length ?us) =
      Inr (?us, length (?pre @ ?n @ ?body))"
    using parse_updates_complete [of ?us "?pre @ ?n" "[]"] wf len by (simp add: wf_accumulator_def)
  show ?thesis
    unfolding parseAccumulatorUpdateData_def encode_accumulator_def
    using hdr vaa num upds isAccumulatorUpdateData_encode_prefix [of tr pt ?v "?n @ ?body"]
    by (simp add: Let_def)
qed

text \<open>What a successful parse says about the bytes, and what the slicing loop then returns.\<close>

lemma parse_accumulator_sound:
  assumes "parseAccumulatorUpdateData d = Inr a"
  obtains tr pt where "length tr < 256" and "wf_accumulator a"
    and "d = encode_accumulator tr pt a"
    and "\<And>s e. sliceAccumulatorUpdateData d s e =
           Inr (encode_accumulator tr pt (a\<lparr>aud_updates := js_slice s e (aud_updates a)\<rparr>))"
proof -
  from assms obtain vs sz n us where
      magic: "isAccumulatorUpdateData d" and hdr: "accumulator_header d = Inr (vs, sz)" and
      n: "readUInt8 d (vs + sz) = Inr n" and
      us: "parse_updates d (vs + sz + 1) n = Inr (us, length d)" and
      a: "a = \<lparr>aud_vaa = buf_subarray d vs (vs + sz), aud_updates = us\<rparr>"
    by (auto simp: parseAccumulatorUpdateData_def res_simps Let_def split: if_splits)
  from n have nb: "vs + sz + 1 \<le> length d" "n < 256"
      "buf_subarray d (vs + sz) (vs + sz + 1) = [byte_of_nat n]"
    by (auto dest: read_be_InrD)
  obtain tr pt where pre: "length tr < 256" "sz < 65536" "vs = 10 + length tr"
      "buf_subarray d 0 (vs + sz) = encode_prefix tr pt (buf_subarray d vs (vs + sz))"
    using accumulator_header_sound [OF magic hdr] nb by auto
  note upd = parse_updates_sound [OF us order_refl]
  have "buf_subarray d 0 (vs + sz) @ buf_subarray d (vs + sz) (vs + sz + 1) @
      buf_subarray d (vs + sz + 1) (length d) = d"
    using nb(1) by (simp add: buf_subarray_split)
  then have d: "d = encode_accumulator tr pt a"
    using pre upd nb by (simp add: encode_accumulator_def a)
  have wf: "wf_accumulator a"
    using upd nb pre by (simp add: wf_accumulator_def a length_buf_subarray)
  have "sliceAccumulatorUpdateData d s e =
      Inr (encode_accumulator tr pt (a\<lparr>aud_updates := js_slice s e (aud_updates a)\<rparr>))" for s e
    using magic hdr n upd pre
    by (simp add: sliceAccumulatorUpdateData_def encode_accumulator_def a Let_def js_slice_def
        take_map drop_map split: option.split)
  with pre(1) wf d show thesis by (rule that)
qed

lemma wf_accumulator_slice:
  assumes "wf_accumulator a"
  shows "wf_accumulator (a\<lparr>aud_updates := js_slice s e (aud_updates a)\<rparr>)"
proof -
  have "set (js_slice s e (aud_updates a)) \<subseteq> set (aud_updates a)"
    by (auto simp: js_slice_def Let_def dest!: in_set_takeD in_set_dropD)
  moreover have "length (js_slice s e (aud_updates a)) \<le> length (aud_updates a)"
    by (simp add: js_slice_def Let_def min_le_iff_disj)
  ultimately show ?thesis using assms
    by (auto simp: wf_accumulator_def list_all_iff)
qed

lemma slice_parse_updates_cursor:
  "map_sum id snd (slice_updates d c n) = map_sum id snd (parse_updates d c n)"
proof (induction n arbitrary: c)
  case (Suc n)
  have IH: "map_sum id snd (slice_updates d c n) = map_sum id snd (parse_updates d c n)" for c
    by (rule Suc)
  show ?case
  proof (cases "readUInt16BE d c")
    case (Inr sz)
    then show ?thesis
    proof (cases "readUInt8 d (c + 2 + sz)")
      case (Inr np)
      let ?c = "c + 2 + sz + 1 + KECCAK160_HASH_SIZE * np"
      show ?thesis
        using \<open>readUInt16BE d c = Inr sz\<close> Inr IH [of ?c]
        by (cases "slice_updates d ?c n"; cases "parse_updates d ?c n")
          (auto simp: Let_def case_prod_beta parse_proofs_cursor add.assoc)
    qed (simp add: Let_def)
  qed simp
qed simp

lemma slice_parse_error:
  "sliceAccumulatorUpdateData d s e = Inl err \<longleftrightarrow> parseAccumulatorUpdateData d = Inl err"
proof (cases "isAccumulatorUpdateData d")
  case True
  show ?thesis
  proof (cases "accumulator_header d")
    case (Inr h)
    obtain vs sz where h: "h = (vs, sz)" by (cases h)
    show ?thesis
    proof (cases "readUInt8 d (vs + sz)")
      case (Inr n)
      with \<open>accumulator_header d = Inr h\<close> h True show ?thesis
        using slice_parse_updates_cursor [of d "vs + sz + 1" n]
        by (cases "slice_updates d (vs + sz + 1) n"; cases "parse_updates d (vs + sz + 1) n")
          (auto simp: sliceAccumulatorUpdateData_def parseAccumulatorUpdateData_def Let_def)
    qed (use Inr h True in
        \<open>simp add: sliceAccumulatorUpdateData_def parseAccumulatorUpdateData_def Let_def\<close>)
  qed (use True in \<open>simp add: sliceAccumulatorUpdateData_def parseAccumulatorUpdateData_def\<close>)
qed (simp add: sliceAccumulatorUpdateData_def parseAccumulatorUpdateData_def)

text \<open>
  C1. The accumulator parser accepts exactly the serialisations of well-formed update data and
  returns the data: \<^verbatim>\<open>parseAccumulatorUpdateData(d)\<close> returns \<open>a\<close> if and only if \<open>a\<close> is well formed
  (16-bit VAA and message sizes, 8-bit counts, 20-byte proof nodes) and \<open>d\<close> is its encoding with
  some trailing payload of less than 256 bytes and some proof type.
\<close>

theorem parseAccumulatorUpdateData_exact:
  "parseAccumulatorUpdateData d = Inr a \<longleftrightarrow>
     wf_accumulator a \<and> (\<exists>tr pt. length tr < 256 \<and> d = encode_accumulator tr pt a)"
  by (metis parse_accumulator_sound parse_encode_accumulator)

text \<open>
  C2. Slicing an update and parsing the result is parsing the update and slicing its list of
  updates, for every start and end (missing, negative or beyond the end), and the two sides fail
  with the same error on every buffer that is not an accumulator update.
\<close>

theorem sliceAccumulatorUpdateData_parse:
  "res_bind (sliceAccumulatorUpdateData d s e) parseAccumulatorUpdateData =
   res_bind (parseAccumulatorUpdateData d)
     (\<lambda>a. Inr (a\<lparr>aud_updates := js_slice s e (aud_updates a)\<rparr>))"
proof (cases "parseAccumulatorUpdateData d")
  case (Inl err)
  then show ?thesis using slice_parse_error [of d s e err] by simp
next
  case (Inr a)
  then obtain tr pt where "length tr < 256" and "wf_accumulator a" and
      "sliceAccumulatorUpdateData d s e =
         Inr (encode_accumulator tr pt (a\<lparr>aud_updates := js_slice s e (aud_updates a)\<rparr>))"
    by (metis parse_accumulator_sound)
  then show ?thesis using Inr by (simp add: parse_encode_accumulator wf_accumulator_slice)
qed

section \<open>Price feed and TWAP messages\<close>

text \<open>The layout of the two messages: a variant byte, then fixed-width big-endian fields.\<close>

definition encode_price_feed_message :: "bytes price_feed_message \<Rightarrow> bytes" where
  "encode_price_feed_message m =
     [0] @ pfm_feedId m @ pfm_price m @ pfm_confidence m @ int_be_bytes 4 (pfm_exponent m) @
     pfm_publishTime m @ pfm_prevPublishTime m @ pfm_emaPrice m @ pfm_emaConf m"

definition wf_price_feed_message :: "bytes price_feed_message \<Rightarrow> bool" where
  "wf_price_feed_message m \<longleftrightarrow> length (pfm_feedId m) = 32 \<and>
     list_all (\<lambda>b. length b = 8) [pfm_price m, pfm_confidence m, pfm_publishTime m,
       pfm_prevPublishTime m, pfm_emaPrice m, pfm_emaConf m] \<and>
     - (2 ^ 31) \<le> pfm_exponent m \<and> pfm_exponent m < 2 ^ 31"

definition encode_twap_message :: "bytes twap_message \<Rightarrow> bytes" where
  "encode_twap_message m =
     [1] @ twm_feedId m @ twm_cumulativePrice m @ twm_cumulativeConf m @ twm_numDownSlots m @
     int_be_bytes 4 (twm_exponent m) @ twm_publishTime m @ twm_prevPublishTime m @ twm_publishSlot m"

definition wf_twap_message :: "bytes twap_message \<Rightarrow> bool" where
  "wf_twap_message m \<longleftrightarrow> length (twm_feedId m) = 32 \<and>
     list_all (\<lambda>b. length b = 16) [twm_cumulativePrice m, twm_cumulativeConf m] \<and>
     list_all (\<lambda>b. length b = 8) [twm_numDownSlots m, twm_publishTime m,
       twm_prevPublishTime m, twm_publishSlot m] \<and>
     - (2 ^ 31) \<le> twm_exponent m \<and> twm_exponent m < 2 ^ 31"

lemma readUInt8_Cons [buffer_simps]: "read_be (Suc 0) (b # bs) 0 = Inr (unat b)"
  by (simp add: read_be_def buf_subarray_def be_nat_def)

lemma readInt32BE_append [buffer_simps]:
  assumes "length p = off" and "- (2 ^ 31) \<le> i" and "i < 2 ^ 31"
  shows "readInt32BE (p @ int_be_bytes 4 i @ r) off = Inr i"
  using assms by (simp add: readInt32BE_def read_be_append to_signed_int_be_bytes)

definition map_price_feed_message :: "('a \<Rightarrow> 'b) \<Rightarrow> 'a price_feed_message \<Rightarrow> 'b price_feed_message" where
  "map_price_feed_message f m =
     \<lparr>pfm_feedId = pfm_feedId m, pfm_price = f (pfm_price m), pfm_confidence = f (pfm_confidence m),
      pfm_exponent = pfm_exponent m, pfm_publishTime = f (pfm_publishTime m),
      pfm_prevPublishTime = f (pfm_prevPublishTime m), pfm_emaPrice = f (pfm_emaPrice m),
      pfm_emaConf = f (pfm_emaConf m)\<rparr>"

definition map_twap_message :: "('a \<Rightarrow> 'b) \<Rightarrow> 'a twap_message \<Rightarrow> 'b twap_message" where
  "map_twap_message f m =
     \<lparr>twm_feedId = twm_feedId m, twm_cumulativePrice = f (twm_cumulativePrice m),
      twm_cumulativeConf = f (twm_cumulativeConf m), twm_numDownSlots = f (twm_numDownSlots m),
      twm_exponent = twm_exponent m, twm_publishTime = f (twm_publishTime m),
      twm_prevPublishTime = f (twm_prevPublishTime m), twm_publishSlot = f (twm_publishSlot m)\<rparr>"

lemma parsePriceFeedMessage_encode_aux:
  assumes "wf_price_feed_message m"
  shows "parsePriceFeedMessage newBN (encode_price_feed_message m @ rest) =
    Inr (map_price_feed_message newBN m)"
proof -
  let ?pre = "[0] @ pfm_feedId m @ pfm_price m @ pfm_confidence m"
  let ?post = "pfm_publishTime m @ pfm_prevPublishTime m @ pfm_emaPrice m @ pfm_emaConf m @ rest"
  have "readInt32BE (?pre @ int_be_bytes 4 (pfm_exponent m) @ ?post) 49 = Inr (pfm_exponent m)"
    using assms by (intro readInt32BE_append) (simp_all add: wf_price_feed_message_def)
  then show ?thesis
    using assms
    by (simp add: parsePriceFeedMessage_def encode_price_feed_message_def readUInt8_Cons
        PRICE_FEED_MESSAGE_VARIANT_def Let_def wf_price_feed_message_def buf_subarray_def
        map_price_feed_message_def)
qed

text \<open>
  A price feed message parses back to its fields: the 32-byte feed id and the signed 32-bit
  exponent as values, and each 8-byte field handed to \<^verbatim>\<open>new BN(_, "be")\<close> exactly as it was
  written, whatever bytes follow the message.
\<close>

theorem parsePriceFeedMessage_encode:
  assumes "wf_price_feed_message m"
  shows "parsePriceFeedMessage newBN (encode_price_feed_message m @ rest) =
    Inr (map_price_feed_message newBN m)"
  using assms by (rule parsePriceFeedMessage_encode_aux)

theorem parsePriceFeedMessage_encode_witness:
  "parsePriceFeedMessage be_nat
     (encode_price_feed_message
        \<lparr>pfm_feedId = replicate 32 7, pfm_price = be_bytes 8 4689500, pfm_confidence = be_bytes 8 6174,
         pfm_exponent = -5, pfm_publishTime = be_bytes 8 1715627146,
         pfm_prevPublishTime = be_bytes 8 1715627145, pfm_emaPrice = be_bytes 8 4690654,
         pfm_emaConf = be_bytes 8 6257\<rparr> @ [1, 2, 3]) =
   Inr \<lparr>pfm_feedId = replicate 32 7, pfm_price = 4689500, pfm_confidence = 6174, pfm_exponent = -5,
        pfm_publishTime = 1715627146, pfm_prevPublishTime = 1715627145, pfm_emaPrice = 4690654,
        pfm_emaConf = 6257\<rparr>"
  by (subst parsePriceFeedMessage_encode)
    (simp_all add: wf_price_feed_message_def map_price_feed_message_def)

text \<open>
  A TWAP message parses back to its fields, with 16-byte cumulative values.
\<close>

theorem parseTwapMessage_encode:
  assumes "wf_twap_message m"
  shows "parseTwapMessage newBN (encode_twap_message m @ rest) = Inr (map_twap_message newBN m)"
proof -
  let ?pre = "[1] @ twm_feedId m @ twm_cumulativePrice m @ twm_cumulativeConf m @ twm_numDownSlots m"
  let ?post = "twm_publishTime m @ twm_prevPublishTime m @ twm_publishSlot m @ rest"
  have "readInt32BE (?pre @ int_be_bytes 4 (twm_exponent m) @ ?post) 73 = Inr (twm_exponent m)"
    using assms by (intro readInt32BE_append) (simp_all add: wf_twap_message_def)
  then show ?thesis
    using assms
    by (simp add: parseTwapMessage_def encode_twap_message_def readUInt8_Cons
        TWAP_MESSAGE_VARIANT_def Let_def wf_twap_message_def buf_subarray_def map_twap_message_def)
qed

theorem parseTwapMessage_encode_witness:
  "parseTwapMessage be_nat
     (encode_twap_message
        \<lparr>twm_feedId = replicate 32 9, twm_cumulativePrice = be_bytes 16 1000, twm_cumulativeConf = be_bytes 16 20,
         twm_numDownSlots = be_bytes 8 3, twm_exponent = -8, twm_publishTime = be_bytes 8 50,
         twm_prevPublishTime = be_bytes 8 49, twm_publishSlot = be_bytes 8 77\<rparr> @ []) =
   Inr \<lparr>twm_feedId = replicate 32 9, twm_cumulativePrice = 1000, twm_cumulativeConf = 20,
        twm_numDownSlots = 3, twm_exponent = -8, twm_publishTime = 50,
        twm_prevPublishTime = 49, twm_publishSlot = 77\<rparr>"
  by (subst parseTwapMessage_encode)
    (simp_all add: wf_twap_message_def map_twap_message_def)

text \<open>
  When the price feed parser throws: on an empty buffer (a range error), on another variant
  byte, and on a message that ends before the exponent does; every buffer of 53 bytes or more
  that starts with the variant byte parses, also when its last fields are cut short.
\<close>

theorem parsePriceFeedMessage_outcome:
  "parsePriceFeedMessage newBN msg =
     (if msg = [] then Inl RangeError
      else if hd msg \<noteq> 0 then Inl (Error ''Not a price feed message'')
      else if length msg < 53 then Inl RangeError
      else Inr \<lparr>pfm_feedId = take 32 (drop 1 msg), pfm_price = newBN (take 8 (drop 33 msg)),
                pfm_confidence = newBN (take 8 (drop 41 msg)),
                pfm_exponent = to_signed 4 (be_nat (take 4 (drop 49 msg))),
                pfm_publishTime = newBN (take 8 (drop 53 msg)),
                pfm_prevPublishTime = newBN (take 8 (drop 61 msg)),
                pfm_emaPrice = newBN (take 8 (drop 69 msg)),
                pfm_emaConf = newBN (take 8 (drop 77 msg))\<rparr>)"
proof (cases msg)
  case Nil
  then show ?thesis by (simp add: parsePriceFeedMessage_def read_be_def)
next
  case (Cons b bs)
  then show ?thesis
    by (auto simp: parsePriceFeedMessage_def readUInt8_Cons PRICE_FEED_MESSAGE_VARIANT_def Let_def
        readInt32BE_def read_be_def buf_subarray_def unat_eq_0)
qed

text \<open>
  The 64-bit price field is signed in the message format (\<^verbatim>\<open>i64\<close> in the pythnet SDK), but the
  parser reads it with \<^verbatim>\<open>new BN(_, "be")\<close>, which is unsigned: where \<open>newBN\<close> is the documented
  unsigned big-endian reading, a negative price \<open>p\<close> comes out as \<open>p + 2\<^sup>6\<^sup>4\<close>.
\<close>

theorem parsePriceFeedMessage_negative_price:
  assumes "wf_price_feed_message m" and "\<And>bs. newBN bs = int (be_nat bs)"
    and "pfm_price m = int_be_bytes 8 p" and "- (2 ^ 63) \<le> p" and "p < 0"
  shows "\<exists>r. parsePriceFeedMessage newBN (encode_price_feed_message m) = Inr r \<and>
    pfm_price r = p + 2 ^ 64"
proof -
  have "p mod 256 ^ 8 = (p + 256 ^ 8) mod 256 ^ 8" by (simp only: mod_add_self2)
  also have "\<dots> = p + 256 ^ 8" by (rule mod_pos_pos_trivial) (use assms(4,5) in simp_all)
  finally have "int (be_nat (int_be_bytes 8 p)) = p + 2 ^ 64"
    using assms(4) be_nat_be_bytes_id [OF nat_mod_less_power, of 8 p]
    by (simp add: int_be_bytes_def)
  moreover have "parsePriceFeedMessage newBN (encode_price_feed_message m) =
      Inr (map_price_feed_message newBN m)"
    using parsePriceFeedMessage_encode_aux [OF assms(1), of newBN "[]"] by simp
  ultimately show ?thesis
    using assms(2,3) by (simp add: map_price_feed_message_def)
qed

theorem parsePriceFeedMessage_negative_price_witness:
  "\<exists>r. parsePriceFeedMessage (\<lambda>bs. int (be_nat bs))
     (encode_price_feed_message
        \<lparr>pfm_feedId = replicate 32 7, pfm_price = int_be_bytes 8 (-7), pfm_confidence = be_bytes 8 1,
         pfm_exponent = -5, pfm_publishTime = be_bytes 8 2, pfm_prevPublishTime = be_bytes 8 1,
         pfm_emaPrice = be_bytes 8 3, pfm_emaConf = be_bytes 8 4\<rparr>) = Inr r \<and>
     pfm_price r = 18446744073709551609"
  using parsePriceFeedMessage_negative_price [of "\<lparr>pfm_feedId = replicate 32 7,
      pfm_price = int_be_bytes 8 (-7), pfm_confidence = be_bytes 8 1, pfm_exponent = -5,
      pfm_publishTime = be_bytes 8 2, pfm_prevPublishTime = be_bytes 8 1,
      pfm_emaPrice = be_bytes 8 3, pfm_emaConf = be_bytes 8 4\<rparr>" "\<lambda>bs. int (be_nat bs)" "-7"]
  by (simp add: wf_price_feed_message_def)

end
