(* ===== verification/Chains.thy ===== *)
theory Chains
  imports Prelude "HOL-Library.AList"
begin

text \<open>
  Chain names and Wormhole chain ids (\<^verbatim>\<open>governance/xc_admin/packages/xc_admin_common/src/chains.ts\<close>).
  The table \<^verbatim>\<open>CHAINS\<close> of \<^verbatim>\<open>@certusone/wormhole-sdk\<close> is a parameter \<open>W\<close>, an object as the list of its
  entries in insertion order; spreading \<^verbatim>\<open>RECEIVER_CHAINS\<close> over it replaces the entries with the
  same name in place and appends the others.  An object lookup that finds nothing is \<^verbatim>\<open>undefined\<close>,
  here \<open>None\<close>.
\<close>

type_synonym chain_table = "(string \<times> nat) list"

definition RECEIVER_CHAINS :: chain_table where
  "RECEIVER_CHAINS = [
    (''unset'', 0), (''ethereum'', 2), (''bsc'', 4), (''polygon'', 5), (''avalanche'', 6),
    (''aurora'', 9), (''fantom'', 10), (''celo'', 14), (''injective'', 19), (''arbitrum'', 23),
    (''optimism'', 24), (''eclipse_devnet'', 40001), (''eclipse_testnet'', 40002),
    (''eclipse_mainnet'', 40003), (''mantis_testnet'', 40004), (''sonic_devnet'', 40005),
    (''sonic_testnet'', 40006), (''atlas_testnet'', 40007), (''mantis_mainnet'', 40008),
    (''sonic_mainnet'', 40009), (''fogo_testnet'', 40010), (''fogo_mainnet'', 40011),
    (''cronos'', 60001), (''kcc'', 60002), (''zksync'', 60003), (''shimmer'', 60004),
    (''gnosis'', 60005), (''evmos'', 60006), (''neon'', 60007), (''polygon_zkevm'', 60008),
    (''canto'', 60009), (''meter'', 60010), (''mantle'', 60011), (''conflux_espace'', 60012),
    (''osmosis'', 60014), (''sei_pacific_1'', 60017), (''neutron'', 60019), (''juno'', 60020),
    (''kava'', 60022), (''wemix'', 60023), (''linea'', 60024), (''eos'', 60026),
    (''syndr'', 60027), (''scroll'', 60028), (''ronin'', 60029), (''horizen_eon'', 60030),
    (''boba'', 60031), (''manta'', 60032), (''chiliz'', 60033), (''zetachain'', 60034),
    (''astar_zkevm'', 60035), (''coredao'', 60036), (''viction'', 60037), (''stacks'', 60038),
    (''mode'', 60039), (''bttc'', 60040), (''zkfair'', 60041), (''hedera'', 60042),
    (''filecoin'', 60043), (''lightlink_phoenix'', 60044), (''injective_inevm'', 60045),
    (''blast'', 60046), (''merlin'', 60047), (''parallel'', 60048), (''iota'', 60049),
    (''flow_previewnet'', 60050), (''starknet'', 60051), (''opbnb'', 60052),
    (''gravity'', 60053), (''polynomial'', 60054), (''etherlink'', 60055), (''kaia'', 60056),
    (''kinto'', 60057), (''b3_mainnet'', 60058), (''cronos_zkevm_mainnet'', 60059),
    (''idex_xchain_mainnet'', 60060), (''apechain_mainnet'', 60061), (''flow_mainnet'', 60062),
    (''sanko'', 60063), (''skate'', 60064), (''morph'', 60065), (''superseed_mainnet'', 60066),
    (''fuel_mainnet'', 60067), (''hemi_mainnet'', 60068), (''ton_mainnet'', 60069),
    (''unichain'', 60070), (''abstract'', 60071), (''fantom_sonic_mainnet'', 60072),
    (''eventum_mainnet'', 60073), (''soneium'', 60074), (''kraken_ink_mainnet'', 60075),
    (''berachain_mainnet'', 60076), (''movement_mainnet'', 60077), (''story'', 60078),
    (''hyperevm'', 60079), (''bittensor_mainnet'', 60080), (''xion'', 60081),
    (''worldchain'', 60082), (''swellchain'', 60083), (''mezo'', 60084),
    (''iota_sui_mainnet'', 60085), (''camp_network'', 60086), (''monad'', 60087),
    (''zero_gravity'', 60088), (''itsnotreal'', 60089), (''plasma'', 60090),
    (''ethereal'', 60091), (''injective_evm'', 60092), (''orange'', 60093), (''tempo'', 60094),
    (''megaeth'', 60095), (''fluent'', 60096), (''injective_testnet'', 60013),
    (''osmosis_testnet_4'', 60015), (''osmosis_testnet_5'', 60016),
    (''sei_testnet_atlantic_2'', 60018), (''juno_testnet'', 60021),
    (''neutron_testnet_pion_1'', 60025), (''linea_goerli'', 50001), (''fuji'', 50002),
    (''base_goerli'', 50003), (''cronos_testnet'', 50004), (''zksync_goerli'', 50005),
    (''canto_testnet'', 50006), (''polygon_zkevm_testnet'', 50007), (''aurora_testnet'', 50008),
    (''mantle_sepolia'', 50009), (''fantom_testnet'', 50010), (''mumbai'', 50011),
    (''neon_devnet'', 50012), (''chiado'', 50013), (''kava_testnet'', 50014),
    (''evmos_testnet'', 50015), (''bsc_testnet'', 50016), (''conflux_espace_testnet'', 50017),
    (''optimism_goerli'', 50018), (''wemix_testnet'', 50019),
    (''celo_alfajores_testnet'', 50020), (''syndr_nitro_testnet'', 50021),
    (''kcc_testnet'', 50022), (''eos_testnet'', 50023), (''meter_testnet'', 50024),
    (''shimmer_testnet'', 50025), (''scroll_sepolia'', 50026), (''saigon'', 50027),
    (''horizen_gobi'', 50028), (''sepolia'', 50029), (''arbitrum_sepolia'', 50030),
    (''boba_goerli'', 50031), (''manta_testnet'', 50032), (''optimism_sepolia'', 50033),
    (''chiliz_spicy'', 50034), (''zetachain_testnet'', 50035), (''astar_zkevm_testnet'', 50036),
    (''coredao_testnet'', 50037), (''viction_testnet'', 50038), (''stacks_testnet'', 50039),
    (''mode_testnet'', 50040), (''bttc_testnet'', 50041), (''zksync_sepolia'', 50042),
    (''base_sepolia'', 50043), (''movement_evm_devnet'', 50044), (''movement_m1_devnet'', 50045),
    (''zkfair_testnet'', 50046), (''blast_s2_testnet'', 50047), (''hedera_testnet'', 50048),
    (''filecoin_calibration'', 50049), (''lightlink_pegasus_testnet'', 50050),
    (''fantom_sonic_testnet'', 50052), (''dela_deperp_testnet'', 50053),
    (''injective_inevm_testnet'', 50054), (''idex_xchain_testnet'', 50055),
    (''berachain_testnet'', 50056), (''merlin_testnet'', 50057), (''manta_sepolia'', 50058),
    (''polygon_blackberry'', 50059), (''arbitrum_blueberry'', 50060),
    (''optimism_celestia_raspberry'', 50061), (''parallel_testnet'', 50062),
    (''polynomial_testnet'', 50063), (''linea_sepolia'', 50064), (''rol_testnet'', 50065),
    (''morph_testnet'', 50066), (''sei_evm_devnet'', 50067), (''boba_sepolia'', 50068),
    (''astar_zkyoto_testnet'', 50069), (''xion_testnet'', 50070), (''taiko_hekla'', 50071),
    (''olive_testnet'', 50072), (''orange_testnet'', 50073), (''polygon_amoy'', 50074),
    (''starknet_sepolia'', 50075), (''movement_m2_devnet'', 50076), (''taiko_mainnet'', 50077),
    (''sei_evm_mainnet'', 50078), (''kakarot_sepolia'', 50079),
    (''dela_mithreum_deperp_testnet'', 50080), (''berachain_testnet_v2'', 50081),
    (''opbnb_testnet'', 50082), (''etherlink_testnet'', 50083), (''fuel_testnet'', 50084),
    (''sei_evm_testnet'', 50085), (''kaia_testnet'', 50086), (''morph_holesky_testnet'', 50087),
    (''tabi_testnet'', 50088), (''movement_suzuka_testnet'', 50089), (''b3_testnet'', 50090),
    (''cronos_zkevm_testnet'', 50091), (''reya_testnet'', 50092),
    (''movement_evm_devnet_imola'', 50093), (''flow_testnet'', 50094),
    (''apechain_testnet'', 50095), (''soneium_minato_testnet'', 50096), (''nighthawk'', 50097),
    (''unichain_sepolia'', 50099), (''abstract_testnet'', 50100), (''sanko_testnet'', 50101),
    (''skate_testnet'', 50102), (''movement_porto_testnet'', 50103), (''ton_testnet'', 50104),
    (''kraken_ink_testnet'', 50105), (''ethena_testnet'', 50106), (''superseed_testnet'', 50107),
    (''happy_bird_song_ends_with_tio'', 50108), (''hyperevm_testnet'', 50109),
    (''eventum_testnet'', 50110), (''sonic_blaze_testnet'', 50111),
    (''movement_bardock_testnet'', 50112), (''story_testnet'', 50113),
    (''coredao_testnet_v2'', 50114), (''bittensor_testnet'', 50115), (''monad_devnet'', 50116),
    (''monad_testnet'', 50117), (''iota_sui_testnet'', 50118), (''berachain_bepolia'', 50119),
    (''megaeth_testnet'', 50120), (''converge_testnet'', 50121), (''swellchain_testnet'', 50122),
    (''worldchain_testnet'', 50123), (''mezo_testnet'', 50124), (''hemi_testnet'', 50125),
    (''injective_evm_testnet'', 50126), (''ethereal_testnet'', 50127),
    (''ethereal_devnet'', 50128), (''ethereal_testnet_v2'', 50129), (''fluent_testnet'', 50130),
    (''giwa_testnet'', 50131), (''sonic_evm_testnet'', 50132),
    (''etherlink_new_testnet'', 50133), (''hoodi'', 50134), (''taiko_hoodi'', 50135),
    (''morph_hoodi'', 50136), (''celo_sepolia_testnet'', 50137), (''arc_testnet'', 50138),
    (''tempo_testnet'', 50139)
  ]"

definition spread :: "('k \<times> 'v) list \<Rightarrow> ('k \<times> 'v) list \<Rightarrow> ('k \<times> 'v) list" where
  "spread xs ys = fold (\<lambda>(k, v) obj. AList.update k v obj) ys xs"

definition CHAINS :: "chain_table \<Rightarrow> chain_table" where
  "CHAINS W = spread W RECEIVER_CHAINS"

definition toChainId :: "chain_table \<Rightarrow> string \<Rightarrow> nat option" where
  "toChainId W chainName = map_of (CHAINS W) chainName"

definition CHAIN_ID_TO_NAME :: "chain_table \<Rightarrow> (nat \<times> string) list" where
  "CHAIN_ID_TO_NAME W = fold (\<lambda>(name, i) obj. AList.update i name obj) (CHAINS W) []"

definition toChainName :: "chain_table \<Rightarrow> nat \<Rightarrow> string option" where
  "toChainName W chainId = map_of (CHAIN_ID_TO_NAME W) chainId"

section \<open>The spread\<close>

lemma map_of_fold_update:
  "map_of (fold (\<lambda>x obj. AList.update (f x) (g x) obj) ys obj) =
     map_of obj ++ map_of (rev (map (\<lambda>x. (f x, g x)) ys))"
  by (induction ys arbitrary: obj) (auto simp: update_conv' map_add_def fun_eq_iff split: option.splits)

lemma map_of_rev_distinct: "distinct (map fst xs) \<Longrightarrow> map_of (rev xs) = map_of xs"
  by (intro map_of_eqI) (auto simp: rev_map [symmetric] map_of_eq_Some_iff)

lemma distinct_spread: "distinct (map fst xs) \<Longrightarrow> distinct (map fst (spread xs ys))"
  unfolding spread_def by (induction ys arbitrary: xs) (auto simp: distinct_update)

text \<open>
  The names are pairwise distinct, and so are the ids.  For the names, each is first mapped to a
  number, so that the comparisons are comparisons of numerals.
\<close>

primrec name_key :: "string \<Rightarrow> nat" where
  "name_key [] = 0"
| "name_key (c # s) = of_char c + 256 * name_key s"

lemma RECEIVER_CHAINS_distinct_names: "distinct (map fst RECEIVER_CHAINS)"
proof -
  have "distinct (map name_key (map fst RECEIVER_CHAINS))"
    unfolding RECEIVER_CHAINS_def list.map fst_conv name_key.simps by simp
  then show ?thesis by (simp only: distinct_map)
qed

lemma RECEIVER_CHAINS_distinct_ids: "distinct (map snd RECEIVER_CHAINS)"
  unfolding RECEIVER_CHAINS_def list.map snd_conv by simp

lemma RECEIVER_CHAINS_u16: "list_all (\<lambda>(_, i). i < 65536) RECEIVER_CHAINS"
  by (simp add: RECEIVER_CHAINS_def)

section \<open>Positions of the spread entries\<close>

lemma update_append:
  "AList.update k v (xs @ ys) =
     (if k \<in> fst ` set xs then AList.update k v xs @ ys else xs @ AList.update k v ys)"
  by (induction xs) auto

lemma update_fresh: "k \<notin> fst ` set xs \<Longrightarrow> AList.update k v xs = xs @ [(k, v)]"
  by (induction xs) auto

lemma spread_shape:
  "distinct (map fst ys) \<Longrightarrow>
   \<exists>xs' zs. spread xs ys = xs' @ zs \<and> map fst xs' = map fst xs \<and> set zs \<subseteq> set ys \<and>
     (\<forall>k v. (k, v) \<in> set ys \<longrightarrow> k \<notin> fst ` set xs \<longrightarrow> (k, v) \<in> set zs)"
proof (induction ys rule: rev_induct)
  case Nil
  then show ?case by (auto simp: spread_def)
next
  case (snoc y ys)
  obtain k v where y: "y = (k, v)" by (cases y)
  from snoc obtain xs' zs where IH: "spread xs ys = xs' @ zs" "map fst xs' = map fst xs"
      "set zs \<subseteq> set ys" "\<forall>k v. (k, v) \<in> set ys \<longrightarrow> k \<notin> fst ` set xs \<longrightarrow> (k, v) \<in> set zs"
    by auto
  have keys: "fst ` set xs' = fst ` set xs" using IH(2) by (metis list.set_map)
  have "k \<notin> fst ` set zs" using snoc.prems IH(3) y by auto
  then have eq: "spread xs (ys @ [y]) =
      (if k \<in> fst ` set xs then AList.update k v xs' @ zs else xs' @ zs @ [(k, v)])"
    using IH(1) keys by (simp add: spread_def y update_append update_fresh)
  show ?case
  proof (cases "k \<in> fst ` set xs")
    case True
    then have "map fst (AList.update k v xs') = map fst xs"
      using IH(2) keys by (simp add: update_keys)
    then show ?thesis using True eq IH y by (intro exI [of _ "AList.update k v xs'"] exI [of _ zs]) auto
  next
    case False
    then show ?thesis using eq IH y by (intro exI [of _ xs'] exI [of _ "zs @ [(k, v)]"]) auto
  qed
qed

section \<open>Names and ids\<close>

lemma toChainName_map_of:
  "toChainName W i = map_of (rev (map (\<lambda>x. (snd x, fst x)) (CHAINS W))) i"
proof -
  have "(\<lambda>(name, i) obj. AList.update i name obj) =
      (\<lambda>x obj. AList.update (snd x) (fst x) (obj :: (nat \<times> string) list))"
    by (auto simp: fun_eq_iff)
  then show ?thesis
    by (simp add: toChainName_def CHAIN_ID_TO_NAME_def map_of_fold_update)
qed

lemma toChainName_in_CHAINS: "toChainName W i = Some n \<Longrightarrow> (n, i) \<in> set (CHAINS W)"
  by (auto simp: toChainName_map_of dest!: map_of_SomeD)

lemma toChainId_toChainName_aux:
  assumes "distinct (map fst W)" and "toChainName W i = Some n"
  shows "toChainId W n = Some i"
  using toChainName_in_CHAINS [OF assms(2)] distinct_spread [OF assms(1)]
  by (simp add: toChainId_def CHAINS_def)

lemma toChainName_receiver_aux:
  assumes mem: "(n, i) \<in> set RECEIVER_CHAINS" and new: "n \<notin> fst ` set W"
  shows "toChainName W i = Some n"
proof -
  obtain xs' zs where sp: "CHAINS W = xs' @ zs" "set zs \<subseteq> set RECEIVER_CHAINS" "(n, i) \<in> set zs"
    using spread_shape [OF RECEIVER_CHAINS_distinct_names, of W] mem new
    unfolding CHAINS_def by metis
  then have "(i, n) \<in> set (rev (map (\<lambda>x. (snd x, fst x)) zs))"
    by force
  then obtain m where m: "map_of (rev (map (\<lambda>x. (snd x, fst x)) zs)) i = Some m"
    by (metis weak_map_of_SomeI)
  then have "(m, i) \<in> set zs"
    by (auto dest!: map_of_SomeD)
  with sp(2) have "(m, i) \<in> set RECEIVER_CHAINS"
    by (rule subsetD)
  moreover have "inj_on snd (set RECEIVER_CHAINS)"
    using RECEIVER_CHAINS_distinct_ids by (simp only: distinct_map)
  ultimately have "m = n"
    using inj_onD [of snd "set RECEIVER_CHAINS" "(m, i)" "(n, i)"] mem by simp
  then show ?thesis using m sp(1) by (simp add: toChainName_map_of map_add_def)
qed

lemma toChainId_receiver_aux:
  assumes "(n, i) \<in> set RECEIVER_CHAINS"
  shows "toChainId W n = Some i"
proof -
  have "(\<lambda>(k, v) obj. AList.update k v obj) =
      (\<lambda>x obj. AList.update (fst x) (snd x) (obj :: chain_table))"
    by (auto simp: fun_eq_iff)
  then have "map_of (CHAINS W) = map_of W ++ map_of RECEIVER_CHAINS"
    using map_of_rev_distinct [OF RECEIVER_CHAINS_distinct_names]
    by (simp add: CHAINS_def spread_def map_of_fold_update)
  then show ?thesis
    using assms RECEIVER_CHAINS_distinct_names by (simp add: toChainId_def)
qed

text \<open>
  Looking a chain id up and going back is the identity: if \<^verbatim>\<open>toChainName(id)\<close> is \<open>n\<close>, then
  \<^verbatim>\<open>toChainId(n)\<close> is \<open>id\<close>, for every Wormhole table (whose keys, being those of an object, are
  distinct).
\<close>

theorem toChainId_toChainName:
  assumes "distinct (map fst W)" and "toChainName W i = Some n"
  shows "toChainId W n = Some i"
  using assms by (rule toChainId_toChainName_aux)

theorem toChainId_toChainName_witness: "toChainId [] ''fluent_testnet'' = Some 50130"
proof (rule toChainId_toChainName)
  have "(''fluent_testnet'', 50130) \<in> set RECEIVER_CHAINS"
    by (simp add: RECEIVER_CHAINS_def)
  then show "toChainName [] 50130 = Some ''fluent_testnet''"
    by (rule toChainName_receiver_aux) simp
qed simp

text \<open>
  Every receiver chain resolves both ways, whatever table the Wormhole SDK ships: its name
  always has the id of \<^verbatim>\<open>RECEIVER_CHAINS\<close>, and unless the SDK itself declares that name, its id
  always has this name, also where the SDK gives the same id to another name.
\<close>

theorem receiver_chain_resolves:
  "\<forall>(n, i) \<in> set RECEIVER_CHAINS.
     toChainId W n = Some i \<and> (n \<notin> fst ` set W \<longrightarrow> toChainName W i = Some n)"
  using toChainId_receiver_aux toChainName_receiver_aux by blast

theorem receiver_chain_resolves_witness:
  "toChainId [(''near'', 15), (''my_clone'', 50130)] ''fluent_testnet'' = Some 50130 \<and>
   toChainName [(''near'', 15), (''my_clone'', 50130)] 50130 = Some ''fluent_testnet''"
proof -
  have "(''fluent_testnet'', 50130) \<in> set RECEIVER_CHAINS"
    by (simp add: RECEIVER_CHAINS_def)
  then show ?thesis
    using receiver_chain_resolves [of "[(''near'', 15), (''my_clone'', 50130)]"] by auto
qed

end
