(* ===== verification/Buffer_Layout.thy ===== *)
theory Buffer_Layout
  imports Hex
begin

text \<open>
  The interface to the npm package \<^verbatim>\<open>@solana/buffer-layout\<close>, which the governance payloads are built
  on and which is not part of the repository: a record \<open>buffer_layout\<close> of the constructors the
  sources call, passed as an argument to every definition that uses them.  A layout is an object
  with a span (\<open>-1\<close> when it is not fixed), a property name and the methods \<^verbatim>\<open>decode\<close>, \<^verbatim>\<open>encode\<close> and
  \<^verbatim>\<open>getSpan\<close>; its values are JavaScript values.  \<open>buffer_layout_spec\<close> states the documented behaviour
  of the package, and \<open>codes\<close> is the contract "this layout writes this value as these bytes and reads
  them back", with one lemma per way of building a layout.
\<close>

datatype jsval =
    JNum int
  | JBig int
  | JStr string
  | JBuf bytes
  | JArr "jsval list"
  | JObj "(string \<times> jsval) list"

record layout =
  lay_span :: int
  lay_property :: string
  lay_decode :: "bytes \<Rightarrow> nat \<Rightarrow> jsval res"
  lay_encode :: "jsval \<Rightarrow> bytes \<Rightarrow> nat \<Rightarrow> (nat \<times> bytes) res"
  lay_getSpan :: "bytes \<Rightarrow> nat \<Rightarrow> int res"

record buffer_layout =
  bl_u8 :: "string \<Rightarrow> layout"
  bl_u16be :: "string \<Rightarrow> layout"
  bl_u32 :: "string \<Rightarrow> layout"
  bl_u32be :: "string \<Rightarrow> layout"
  bl_struct :: "layout list \<Rightarrow> string \<Rightarrow> layout"
  bl_seq :: "layout \<Rightarrow> nat \<Rightarrow> string \<Rightarrow> layout"
  bl_blob :: "nat \<Rightarrow> string \<Rightarrow> layout"
  bl_blob_greedy :: "string \<Rightarrow> layout"

text \<open>\<^verbatim>\<open>b.set(src, off)\<close> on a \<^verbatim>\<open>Uint8Array\<close> throws when the source does not fit.\<close>

definition buf_set :: "bytes \<Rightarrow> nat \<Rightarrow> bytes \<Rightarrow> bytes" where
  "buf_set b off src = take off b @ src @ drop (off + length src) b"

definition buf_set_res :: "bytes \<Rightarrow> nat \<Rightarrow> bytes \<Rightarrow> bytes res" where
  "buf_set_res b off src =
     (if off + length src \<le> length b then Inr (buf_set b off src) else Inl RangeError)"

lemma length_buf_set [simp]: "off + length src \<le> length b \<Longrightarrow> length (buf_set b off src) = length b"
  by (simp add: buf_set_def)

lemma buf_set_append:
  assumes "off + length xs + length ys \<le> length b"
  shows "buf_set (buf_set b off xs) (off + length xs) ys = buf_set b off (xs @ ys)"
proof -
  have "min (length b) off = off" using assms by simp
  then show ?thesis by (simp add: buf_set_def ac_simps)
qed

lemma buf_subarray_buf_set [simp]:
  "off + length src \<le> length b \<Longrightarrow> buf_subarray (buf_set b off src) off (off + length src) = src"
  by (simp add: buf_set_def buf_subarray_def min_def)

section \<open>The documented behaviour of the package\<close>

fun struct_decode :: "layout list \<Rightarrow> bytes \<Rightarrow> nat \<Rightarrow> (string \<times> jsval) list res" where
  "struct_decode [] b off = Inr []"
| "struct_decode (f # fs) b off =
     res_bind (lay_decode f b off) (\<lambda>v.
     res_bind (lay_getSpan f b off) (\<lambda>sp.
     res_bind (struct_decode fs b (nat (int off + sp))) (\<lambda>r. Inr ((lay_property f, v) # r))))"

text \<open>The last argument is where the last field ended; fields that are undefined are skipped.\<close>

fun struct_encode :: "layout list \<Rightarrow> (string \<times> jsval) list \<Rightarrow> bytes \<Rightarrow> nat \<Rightarrow> nat \<Rightarrow> (nat \<times> bytes) res"
where
  "struct_encode [] obj b off lst = Inr (lst, b)"
| "struct_encode (f # fs) obj b off lst =
     (case map_of obj (lay_property f) of
        None \<Rightarrow> struct_encode fs obj b (nat (int off + lay_span f)) (nat (int off + lay_span f))
      | Some v \<Rightarrow>
          res_bind (lay_encode f v b off) (\<lambda>(n, b').
          res_bind (if lay_span f < 0 then lay_getSpan f b' off else Inr (lay_span f)) (\<lambda>sp.
          struct_encode fs obj b' (nat (int off + sp)) (off + n))))"

definition struct_span :: "layout list \<Rightarrow> int" where
  "struct_span fs = (if list_all (\<lambda>f. 0 \<le> lay_span f) fs then sum_list (map lay_span fs) else -1)"

fun fields_getSpan :: "layout list \<Rightarrow> bytes \<Rightarrow> nat \<Rightarrow> int res" where
  "fields_getSpan [] b off = Inr 0"
| "fields_getSpan (f # fs) b off =
     res_bind (lay_getSpan f b off) (\<lambda>sp.
     res_bind (fields_getSpan fs b (nat (int off + sp))) (\<lambda>r. Inr (sp + r)))"

fun seq_decode :: "layout \<Rightarrow> nat \<Rightarrow> bytes \<Rightarrow> nat \<Rightarrow> jsval list res" where
  "seq_decode l 0 b off = Inr []"
| "seq_decode l (Suc n) b off =
     res_bind (lay_decode l b off) (\<lambda>v.
     res_bind (lay_getSpan l b off) (\<lambda>sp.
     res_bind (seq_decode l n b (nat (int off + sp))) (\<lambda>r. Inr (v # r))))"

fun seq_encode :: "layout \<Rightarrow> jsval list \<Rightarrow> bytes \<Rightarrow> nat \<Rightarrow> (nat \<times> bytes) res" where
  "seq_encode l [] b off = Inr (0, b)"
| "seq_encode l (v # vs) b off =
     res_bind (lay_encode l v b off) (\<lambda>(n, b').
     res_bind (seq_encode l vs b' (off + n)) (\<lambda>(m, b''). Inr (n + m, b'')))"

definition uint_spec :: "layout \<Rightarrow> string \<Rightarrow> nat \<Rightarrow> (bytes \<Rightarrow> nat) \<Rightarrow> (nat \<Rightarrow> bytes) \<Rightarrow> bool" where
  "uint_spec l p k rd wr \<longleftrightarrow>
     lay_span l = int k \<and> lay_property l = p \<and>
     (\<forall>b off. lay_getSpan l b off = Inr (int k)) \<and>
     (\<forall>b off. off + k \<le> length b \<longrightarrow>
        lay_decode l b off = Inr (JNum (int (rd (buf_subarray b off (off + k)))))) \<and>
     (\<forall>b off. length b < off + k \<longrightarrow> (\<exists>e. lay_decode l b off = Inl e)) \<and>
     (\<forall>n b off. n < 256 ^ k \<longrightarrow> off + k \<le> length b \<longrightarrow>
        lay_encode l (JNum (int n)) b off = Inr (k, buf_set b off (wr n)))"

definition buffer_layout_spec :: "buffer_layout \<Rightarrow> bool" where
  "buffer_layout_spec BL \<longleftrightarrow>
     (\<forall>p. uint_spec (bl_u8 BL p) p 1 be_nat (be_bytes 1)) \<and>
     (\<forall>p. uint_spec (bl_u16be BL p) p 2 be_nat (be_bytes 2)) \<and>
     (\<forall>p. uint_spec (bl_u32 BL p) p 4 le_nat (le_bytes 4)) \<and>
     (\<forall>p. uint_spec (bl_u32be BL p) p 4 be_nat (be_bytes 4)) \<and>
     (\<forall>fs p. lay_property (bl_struct BL fs p) = p \<and> lay_span (bl_struct BL fs p) = struct_span fs \<and>
        (\<forall>b off. lay_decode (bl_struct BL fs p) b off = map_sum id JObj (struct_decode fs b off)) \<and>
        (\<forall>obj b off. lay_encode (bl_struct BL fs p) (JObj obj) b off =
           map_sum id (apfst (\<lambda>l. l - off)) (struct_encode fs obj b off off)) \<and>
        (\<forall>b off. lay_getSpan (bl_struct BL fs p) b off =
           (if 0 \<le> struct_span fs then Inr (struct_span fs) else fields_getSpan fs b off))) \<and>
     (\<forall>l n p. lay_property (bl_seq BL l n p) = p \<and>
        lay_span (bl_seq BL l n p) = (if 0 < lay_span l then int n * lay_span l else -1) \<and>
        (\<forall>b off. lay_decode (bl_seq BL l n p) b off = map_sum id JArr (seq_decode l n b off)) \<and>
        (\<forall>vs b off. lay_encode (bl_seq BL l n p) (JArr vs) b off = seq_encode l vs b off) \<and>
        (\<forall>b off. lay_getSpan (bl_seq BL l n p) b off =
           (if 0 < lay_span l then Inr (int n * lay_span l) else fields_getSpan (replicate n l) b off))) \<and>
     (\<forall>n p. lay_property (bl_blob BL n p) = p \<and> lay_span (bl_blob BL n p) = int n \<and>
        (\<forall>b off. lay_getSpan (bl_blob BL n p) b off = Inr (int n)) \<and>
        (\<forall>b off. off + n \<le> length b \<longrightarrow>
           lay_decode (bl_blob BL n p) b off = Inr (JBuf (buf_subarray b off (off + n)))) \<and>
        (\<forall>s b off. length s = n \<longrightarrow> off + n \<le> length b \<longrightarrow>
           lay_encode (bl_blob BL n p) (JBuf s) b off = Inr (n, buf_set b off s))) \<and>
     (\<forall>p. lay_property (bl_blob_greedy BL p) = p \<and>
        (\<forall>b off. off \<le> length b \<longrightarrow>
           lay_decode (bl_blob_greedy BL p) b off = Inr (JBuf (drop off b)) \<and>
           lay_getSpan (bl_blob_greedy BL p) b off = Inr (int (length b - off))))"

section \<open>The contract of a layout\<close>

text \<open>
  \<open>codes l v v' bs\<close>: wherever there is room, \<open>l\<close> encodes \<open>v\<close> as exactly \<open>bs\<close> and reports their
  number; wherever \<open>bs\<close> are found, it decodes them to \<open>v'\<close> and reports that it spans them.  (\<open>v\<close> and
  \<open>v'\<close> differ only in the order of object properties.)
\<close>

definition codes :: "layout \<Rightarrow> jsval \<Rightarrow> jsval \<Rightarrow> bytes \<Rightarrow> bool" where
  "codes l v v' bs \<longleftrightarrow>
     (lay_span l = int (length bs) \<or> lay_span l < 0) \<and>
     (\<forall>b off. off + length bs \<le> length b \<longrightarrow>
        lay_encode l v b off = Inr (length bs, buf_set b off bs)) \<and>
     (\<forall>b off. off + length bs \<le> length b \<longrightarrow> buf_subarray b off (off + length bs) = bs \<longrightarrow>
        lay_decode l b off = Inr v' \<and> lay_getSpan l b off = Inr (int (length bs)))"

lemma codes_encode:
  "codes l v v' bs \<Longrightarrow> off + length bs \<le> length b \<Longrightarrow>
   lay_encode l v b off = Inr (length bs, buf_set b off bs)"
  by (simp add: codes_def)

lemma codes_decode:
  "codes l v v' bs \<Longrightarrow> off + length bs \<le> length b \<Longrightarrow> buf_subarray b off (off + length bs) = bs \<Longrightarrow>
   lay_decode l b off = Inr v' \<and> lay_getSpan l b off = Inr (int (length bs))"
  by (simp add: codes_def)

lemma codes_decode_append:
  "codes l v v' bs \<Longrightarrow> length pre = off \<Longrightarrow> lay_decode l (pre @ bs @ post) off = Inr v'"
  using codes_decode [of l v v' bs off "pre @ bs @ post"] by (simp add: buf_subarray_def)

lemma uint_decode:
  "uint_spec l p k rd wr \<Longrightarrow> off + k \<le> length b \<Longrightarrow>
   lay_decode l b off = Inr (JNum (int (rd (buf_subarray b off (off + k)))))"
  by (simp add: uint_spec_def)

lemma uint_getSpan: "uint_spec l p k rd wr \<Longrightarrow> lay_getSpan l b off = Inr (int k)"
  by (simp add: uint_spec_def)

lemma uint_decode_short:
  "uint_spec l p k rd wr \<Longrightarrow> length b < off + k \<Longrightarrow> \<exists>e. lay_decode l b off = Inl e"
  by (simp add: uint_spec_def)

lemma codes_uint:
  assumes "uint_spec l p k rd wr" and "n < 256 ^ k" and "rd (wr n) = n" and "length (wr n) = k"
  shows "codes l (JNum (int n)) (JNum (int n)) (wr n)"
  using assms by (auto simp: codes_def uint_spec_def)

lemma buf_subarray_append_halves:
  assumes "off + length (xs @ ys) \<le> length b"
    and "buf_subarray b off (off + length (xs @ ys)) = xs @ ys"
  shows "buf_subarray b off (off + length xs) = xs"
    and "buf_subarray b (off + length xs) (off + length xs + length ys) = ys"
proof -
  have "buf_subarray b off (off + length xs) @
      buf_subarray b (off + length xs) (off + length xs + length ys) = xs @ ys"
    using assms(2) by (simp add: buf_subarray_split add.assoc)
  moreover have "length (buf_subarray b off (off + length xs)) = length xs"
    using assms(1) by (simp add: length_buf_subarray)
  ultimately show "buf_subarray b off (off + length xs) = xs"
    and "buf_subarray b (off + length xs) (off + length xs + length ys) = ys"
    by simp_all
qed

abbreviation field_codes :: "layout \<Rightarrow> jsval \<times> jsval \<times> bytes \<Rightarrow> bool" where
  "field_codes l x \<equiv> codes l (fst x) (fst (snd x)) (snd (snd x))"

abbreviation codes_bytes :: "(jsval \<times> jsval \<times> bytes) list \<Rightarrow> bytes" where
  "codes_bytes xs \<equiv> concat (map (\<lambda>x. snd (snd x)) xs)"

lemma struct_decode_codes:
  "list_all2 field_codes fs xs \<Longrightarrow> off + length (codes_bytes xs) \<le> length b \<Longrightarrow>
   buf_subarray b off (off + length (codes_bytes xs)) = codes_bytes xs \<Longrightarrow>
   struct_decode fs b off = Inr (zip (map lay_property fs) (map (\<lambda>x. fst (snd x)) xs)) \<and>
   fields_getSpan fs b off = Inr (int (length (codes_bytes xs)))"
proof (induction fs xs arbitrary: off rule: list_all2_induct)
  case (Cons f fs x xs)
  let ?x = "snd (snd x)"
  have half: "buf_subarray b off (off + length ?x) = ?x"
      "buf_subarray b (off + length ?x) (off + length ?x + length (codes_bytes xs)) = codes_bytes xs"
    using buf_subarray_append_halves [of off ?x "codes_bytes xs" b] Cons.prems by simp_all
  have "lay_decode f b off = Inr (fst (snd x)) \<and> lay_getSpan f b off = Inr (int (length ?x))"
    using Cons.hyps(1) half(1) Cons.prems(1) by (intro codes_decode) auto
  moreover have "nat (int off + int (length ?x)) = off + length ?x" by simp
  ultimately show ?case
    using Cons.IH [of "off + length ?x"] half(2) Cons.prems(1) by simp
qed simp

lemma struct_encode_codes:
  "list_all2 field_codes fs xs \<Longrightarrow> off + length (codes_bytes xs) \<le> length b \<Longrightarrow>
   list_all2 (\<lambda>f x. map_of obj (lay_property f) = Some (fst x)) fs xs \<Longrightarrow>
   struct_encode fs obj b off off = Inr (off + length (codes_bytes xs), buf_set b off (codes_bytes xs))"
proof (induction fs xs arbitrary: off b rule: list_all2_induct)
  case Nil
  then show ?case by (simp add: buf_set_def)
next
  case (Cons f fs x xs)
  let ?x = "snd (snd x)"
  let ?b = "buf_set b off ?x"
  have room: "off + length ?x \<le> length b" using Cons.prems(1) by simp
  have enc: "lay_encode f (fst x) b off = Inr (length ?x, ?b)"
    using Cons.hyps(1) room by (rule codes_encode)
  have span: "(if lay_span f < 0 then lay_getSpan f ?b off else Inr (lay_span f)) = Inr (int (length ?x))"
    using codes_decode [OF Cons.hyps(1), of off ?b] Cons.hyps(1) room by (auto simp: codes_def)
  have "struct_encode fs obj ?b (off + length ?x) (off + length ?x) =
      Inr (off + length ?x + length (codes_bytes xs),
           buf_set ?b (off + length ?x) (codes_bytes xs))"
    using Cons.prems room by (intro Cons.IH) auto
  moreover have "buf_set ?b (off + length ?x) (codes_bytes xs) = buf_set b off (?x @ codes_bytes xs)"
    using Cons.prems(1) by (intro buf_set_append) simp
  moreover have "nat (int off + int (length ?x)) = off + length ?x" by simp
  ultimately show ?case
    using enc span Cons.prems(2) by simp
qed

lemma codes_struct_span:
  "list_all2 field_codes fs xs \<Longrightarrow>
   struct_span fs = int (length (codes_bytes xs)) \<or> struct_span fs < 0"
proof (cases "list_all (\<lambda>f. 0 \<le> lay_span f) fs")
  case True
  assume "list_all2 field_codes fs xs"
  then have "sum_list (map lay_span fs) = int (length (codes_bytes xs))"
    using True by (induction rule: list_all2_induct) (auto simp: codes_def)
  then show ?thesis using True by (simp add: struct_span_def)
qed (simp add: struct_span_def)

lemma codes_struct:
  assumes BL: "buffer_layout_spec BL" and fs: "list_all2 field_codes fs xs"
    and obj: "list_all2 (\<lambda>f x. map_of obj (lay_property f) = Some (fst x)) fs xs"
  shows "codes (bl_struct BL fs p) (JObj obj)
           (JObj (zip (map lay_property fs) (map (\<lambda>x. fst (snd x)) xs))) (codes_bytes xs)"
  unfolding codes_def
proof (intro conjI allI impI)
  show "lay_span (bl_struct BL fs p) = int (length (codes_bytes xs)) \<or> lay_span (bl_struct BL fs p) < 0"
    using BL codes_struct_span [OF fs] by (simp add: buffer_layout_spec_def)
next
  fix b :: bytes and off
  assume "off + length (codes_bytes xs) \<le> length b"
  then show "lay_encode (bl_struct BL fs p) (JObj obj) b off =
      Inr (length (codes_bytes xs), buf_set b off (codes_bytes xs))"
    using BL struct_encode_codes [OF fs _ obj] by (simp add: buffer_layout_spec_def)
next
  fix b :: bytes and off
  assume "off + length (codes_bytes xs) \<le> length b"
    and "buf_subarray b off (off + length (codes_bytes xs)) = codes_bytes xs"
  note dec = struct_decode_codes [OF fs this]
  then show "lay_decode (bl_struct BL fs p) b off =
      Inr (JObj (zip (map lay_property fs) (map (\<lambda>x. fst (snd x)) xs)))"
    using BL by (simp add: buffer_layout_spec_def)
  show "lay_getSpan (bl_struct BL fs p) b off = Inr (int (length (codes_bytes xs)))"
    using BL dec codes_struct_span [OF fs] by (auto simp: buffer_layout_spec_def)
qed

lemma codes_structI:
  assumes "buffer_layout_spec BL" and "list_all2 field_codes fs xs"
    and "list_all2 (\<lambda>f x. map_of obj (lay_property f) = Some (fst x)) fs xs"
    and "v = JObj (zip (map lay_property fs) (map (\<lambda>x. fst (snd x)) xs))" and "bs = codes_bytes xs"
  shows "codes (bl_struct BL fs p) (JObj obj) v bs"
  using codes_struct [OF assms(1-3)] assms(4,5) by simp

lemma seq_decode_codes:
  "list_all (field_codes l) xs \<Longrightarrow> off + length (codes_bytes xs) \<le> length b \<Longrightarrow>
   buf_subarray b off (off + length (codes_bytes xs)) = codes_bytes xs \<Longrightarrow>
   seq_decode l (length xs) b off = Inr (map (\<lambda>x. fst (snd x)) xs)"
proof (induction xs arbitrary: off)
  case (Cons x xs)
  let ?x = "snd (snd x)"
  have half: "buf_subarray b off (off + length ?x) = ?x"
      "buf_subarray b (off + length ?x) (off + length ?x + length (codes_bytes xs)) = codes_bytes xs"
    using buf_subarray_append_halves [of off ?x "codes_bytes xs" b] Cons.prems by simp_all
  have "lay_decode l b off = Inr (fst (snd x)) \<and> lay_getSpan l b off = Inr (int (length ?x))"
    using Cons.prems(1,2) half(1) by (intro codes_decode) auto
  moreover have "nat (int off + int (length ?x)) = off + length ?x" by simp
  ultimately show ?case
    using Cons.IH [of "off + length ?x"] half(2) Cons.prems(1,2) by simp
qed simp

lemma seq_encode_codes:
  "list_all (field_codes l) xs \<Longrightarrow> off + length (codes_bytes xs) \<le> length b \<Longrightarrow>
   seq_encode l (map fst xs) b off = Inr (length (codes_bytes xs), buf_set b off (codes_bytes xs))"
proof (induction xs arbitrary: off b)
  case Nil
  then show ?case by (simp add: buf_set_def)
next
  case (Cons x xs)
  let ?x = "snd (snd x)"
  let ?b = "buf_set b off ?x"
  have room: "off + length ?x \<le> length b" using Cons.prems(2) by simp
  have enc: "lay_encode l (fst x) b off = Inr (length ?x, ?b)"
    using Cons.prems(1) room by (intro codes_encode) auto
  have "seq_encode l (map fst xs) ?b (off + length ?x) =
      Inr (length (codes_bytes xs), buf_set ?b (off + length ?x) (codes_bytes xs))"
    using Cons.prems room by (intro Cons.IH) auto
  moreover have "buf_set ?b (off + length ?x) (codes_bytes xs) = buf_set b off (?x @ codes_bytes xs)"
    using Cons.prems(2) by (intro buf_set_append) simp
  ultimately show ?case using enc by simp
qed

lemma codes_seq:
  assumes BL: "buffer_layout_spec BL" and xs: "list_all (field_codes l) xs"
  shows "codes (bl_seq BL l (length xs) p) (JArr (map fst xs)) (JArr (map (\<lambda>x. fst (snd x)) xs))
    (codes_bytes xs)"
proof -
  have total: "int (length xs) * lay_span l = int (length (codes_bytes xs))" if "0 < lay_span l"
    using xs that by (induction xs) (auto simp: codes_def algebra_simps)
  have "list_all2 field_codes (replicate (length xs) l) xs"
    using xs by (induction xs) auto
  note span = struct_decode_codes [OF this, THEN conjunct2]
  show ?thesis
    unfolding codes_def
    using BL total span seq_encode_codes [OF xs] seq_decode_codes [OF xs]
    by (auto simp: buffer_layout_spec_def)
qed

lemma codes_blob:
  assumes "buffer_layout_spec BL" and "length s = n"
  shows "codes (bl_blob BL n p) (JBuf s) (JBuf s) s"
  using assms by (auto simp: codes_def buffer_layout_spec_def)

lemma codes_u8:
  assumes "buffer_layout_spec BL" and "n < 256"
  shows "codes (bl_u8 BL p) (JNum (int n)) (JNum (int n)) [byte_of_nat n]"
proof -
  have "codes (bl_u8 BL p) (JNum (int n)) (JNum (int n)) (be_bytes 1 n)"
    using assms
    by (intro codes_uint [of _ p 1 be_nat]) (auto simp: buffer_layout_spec_def simp del: be_bytes.simps)
  then show ?thesis by simp
qed

lemma codes_u16be: "buffer_layout_spec BL \<Longrightarrow> n < 65536 \<Longrightarrow> codes (bl_u16be BL p) (JNum (int n)) (JNum (int n)) (be_bytes 2 n)"
  by (rule codes_uint [of _ p 2 be_nat]) (auto simp: buffer_layout_spec_def)

lemma codes_u32: "buffer_layout_spec BL \<Longrightarrow> n < 256 ^ 4 \<Longrightarrow> codes (bl_u32 BL p) (JNum (int n)) (JNum (int n)) (le_bytes 4 n)"
  by (rule codes_uint [of _ p 4 le_nat]) (auto simp: buffer_layout_spec_def)

lemma codes_u32be: "buffer_layout_spec BL \<Longrightarrow> n < 256 ^ 4 \<Longrightarrow> codes (bl_u32be BL p) (JNum (int n)) (JNum (int n)) (be_bytes 4 n)"
  by (rule codes_uint [of _ p 4 be_nat]) (auto simp: buffer_layout_spec_def)

lemmas codes_prims = codes_u8 codes_u16be codes_u32 codes_u32be codes_blob

lemma buffer_layout_properties:
  assumes "buffer_layout_spec BL"
  shows "lay_property (bl_u8 BL p) = p" "lay_property (bl_u16be BL p) = p"
    "lay_property (bl_u32 BL p) = p" "lay_property (bl_u32be BL p) = p"
    "lay_property (bl_struct BL fs p) = p" "lay_property (bl_seq BL l n p) = p"
    "lay_property (bl_blob BL n p) = p" "lay_property (bl_blob_greedy BL p) = p"
    "lay_span (bl_u8 BL p) = 1" "lay_span (bl_u16be BL p) = 2" "lay_span (bl_u32 BL p) = 4"
    "lay_span (bl_u32be BL p) = 4" "lay_span (bl_blob BL n p) = int n"
    "lay_span (bl_struct BL fs p) = struct_span fs"
  using assms by (auto simp: buffer_layout_spec_def uint_spec_def)

section \<open>A package that behaves as documented\<close>

definition ref_uint :: "nat \<Rightarrow> (bytes \<Rightarrow> nat) \<Rightarrow> (nat \<Rightarrow> bytes) \<Rightarrow> string \<Rightarrow> layout" where
  "ref_uint k rd wr p =
     \<lparr>lay_span = int k, lay_property = p,
      lay_decode = (\<lambda>b off. if off + k \<le> length b
        then Inr (JNum (int (rd (buf_subarray b off (off + k))))) else Inl RangeError),
      lay_encode = (\<lambda>v b off. case v of
        JNum n \<Rightarrow> if 0 \<le> n \<and> n < 256 ^ k \<and> off + k \<le> length b
          then Inr (k, buf_set b off (wr (nat n))) else Inl RangeError
        | _ \<Rightarrow> Inl TypeError),
      lay_getSpan = (\<lambda>_ _. Inr (int k))\<rparr>"

definition ref_buffer_layout :: buffer_layout where
  "ref_buffer_layout =
     \<lparr>bl_u8 = ref_uint 1 be_nat (be_bytes 1),
      bl_u16be = ref_uint 2 be_nat (be_bytes 2),
      bl_u32 = ref_uint 4 le_nat (le_bytes 4),
      bl_u32be = ref_uint 4 be_nat (be_bytes 4),
      bl_struct = (\<lambda>fs p. \<lparr>lay_span = struct_span fs, lay_property = p,
        lay_decode = (\<lambda>b off. map_sum id JObj (struct_decode fs b off)),
        lay_encode = (\<lambda>v b off. case v of
          JObj obj \<Rightarrow> map_sum id (apfst (\<lambda>l. l - off)) (struct_encode fs obj b off off)
          | _ \<Rightarrow> Inl TypeError),
        lay_getSpan = (\<lambda>b off. if 0 \<le> struct_span fs then Inr (struct_span fs)
          else fields_getSpan fs b off)\<rparr>),
      bl_seq = (\<lambda>l n p. \<lparr>lay_span = (if 0 < lay_span l then int n * lay_span l else -1),
        lay_property = p,
        lay_decode = (\<lambda>b off. map_sum id JArr (seq_decode l n b off)),
        lay_encode = (\<lambda>v b off. case v of JArr vs \<Rightarrow> seq_encode l vs b off | _ \<Rightarrow> Inl TypeError),
        lay_getSpan = (\<lambda>b off. if 0 < lay_span l then Inr (int n * lay_span l)
          else fields_getSpan (replicate n l) b off)\<rparr>),
      bl_blob = (\<lambda>n p. \<lparr>lay_span = int n, lay_property = p,
        lay_decode = (\<lambda>b off. Inr (JBuf (buf_subarray b off (off + n)))),
        lay_encode = (\<lambda>v b off. case v of
          JBuf s \<Rightarrow> if length s \<noteq> n then Inl TypeError
            else if length b < off + n then Inl RangeError else Inr (n, buf_set b off s)
          | _ \<Rightarrow> Inl TypeError),
        lay_getSpan = (\<lambda>_ _. Inr (int n))\<rparr>),
      bl_blob_greedy = (\<lambda>p. \<lparr>lay_span = -1, lay_property = p,
        lay_decode = (\<lambda>b off. Inr (JBuf (drop off b))),
        lay_encode = (\<lambda>v b off. case v of
          JBuf s \<Rightarrow> if length b < off + length s then Inl RangeError
            else Inr (length s, buf_set b off s)
          | _ \<Rightarrow> Inl TypeError),
        lay_getSpan = (\<lambda>b off. Inr (int (length b - off)))\<rparr>)\<rparr>"

lemma uint_spec_ref_uint: "uint_spec (ref_uint k rd wr p) p k rd wr"
proof -
  have "int n < 256 ^ k" if "n < 256 ^ k" for n
    using that by (metis of_nat_less_iff of_nat_numeral of_nat_power)
  then show ?thesis by (simp add: uint_spec_def ref_uint_def)
qed

lemma ref_buffer_layout_spec: "buffer_layout_spec ref_buffer_layout"
  unfolding buffer_layout_spec_def ref_buffer_layout_def
  by (simp add: uint_spec_ref_uint del: be_bytes.simps)

end
