(* ===== verification/Governance_Header.thy ===== *)
theory Governance_Header
  imports Chains Buffer_Layout
begin

text \<open>
  The header of every governance message and the base class of the actions
  (\<^verbatim>\<open>governance_payload/PythGovernanceAction.ts\<close>), with the layouts the repository adds to
  \<^verbatim>\<open>@solana/buffer-layout\<close> (\<^verbatim>\<open>BufferLayoutExt.ts\<close>).  What the code takes from other packages is the
  record \<open>gov_env\<close>: the layouts, Wormhole's chain table, the conversions of \<^verbatim>\<open>bigint-buffer\<close>, the
  \<^verbatim>\<open>PublicKey\<close> class and \<^verbatim>\<open>PACKET_DATA_SIZE\<close> of \<^verbatim>\<open>@solana/web3.js\<close>; \<open>gov_env_ok\<close> is what they
  document.  A decoder that returns \<^verbatim>\<open>undefined\<close> returns \<open>None\<close>.
\<close>

record 'pk gov_env =
  env_bl :: buffer_layout
  env_wormhole :: chain_table
  env_toBigIntBE :: "bytes \<Rightarrow> int"
  env_toBufferBE :: "int \<Rightarrow> nat \<Rightarrow> bytes"
  env_newPublicKey :: "bytes \<Rightarrow> 'pk"
  env_publicKeyBytes :: "'pk \<Rightarrow> bytes"
  env_PACKET_DATA_SIZE :: nat

definition gov_env_ok :: "'pk gov_env \<Rightarrow> bool" where
  "gov_env_ok env \<longleftrightarrow>
     buffer_layout_spec (env_bl env) \<and>
     distinct (map fst (env_wormhole env)) \<and>
     (\<forall>bs. env_toBigIntBE env bs = int (be_nat bs)) \<and>
     (\<forall>n k. n < 256 ^ k \<longrightarrow> env_toBufferBE env (int n) k = be_bytes k n) \<and>
     (\<forall>pk. length (env_publicKeyBytes env pk) = 32) \<and>
     (\<forall>pk. env_newPublicKey env (env_publicKeyBytes env pk) = pk) \<and>
     env_PACKET_DATA_SIZE env = 1232"

section \<open>Layouts of the repository\<close>

definition UIntBE :: "'pk gov_env \<Rightarrow> nat \<Rightarrow> string \<Rightarrow> layout" where
  "UIntBE env span p =
     \<lparr>lay_span = int span, lay_property = p,
      lay_decode = (\<lambda>b off. Inr (JBig (env_toBigIntBE env (buf_subarray b off (off + span))))),
      lay_encode = (\<lambda>src b off. case src of
        JBig n \<Rightarrow> res_bind (buf_set_res b off (env_toBufferBE env n span)) (\<lambda>b'. Inr (span, b'))
        | _ \<Rightarrow> Inl TypeError),
      lay_getSpan = (\<lambda>_ _. Inr (int span))\<rparr>"

text \<open>\<^verbatim>\<open>Buffer.alloc(span)\<close> then \<^verbatim>\<open>buffer.write(src, "hex")\<close>: at most \<open>span\<close> bytes, the rest stay zero.\<close>

definition alloc_write_hex :: "nat \<Rightarrow> string \<Rightarrow> bytes" where
  "alloc_write_hex span src =
     (let w = take span (hex_to_bytes src) in w @ replicate (span - length w) 0)"

definition HexBytes :: "nat \<Rightarrow> string \<Rightarrow> layout" where
  "HexBytes span p =
     \<lparr>lay_span = int span, lay_property = p,
      lay_decode = (\<lambda>b off. Inr (JStr (bytes_to_hex (buf_subarray b off (off + span))))),
      lay_encode = (\<lambda>src b off. case src of
        JStr s \<Rightarrow> res_bind (buf_set_res b off (alloc_write_hex span s)) (\<lambda>b'. Inr (span, b'))
        | _ \<Rightarrow> Inl TypeError),
      lay_getSpan = (\<lambda>_ _. Inr (int span))\<rparr>"

definition u64be :: "'pk gov_env \<Rightarrow> string \<Rightarrow> layout" where
  "u64be env p = UIntBE env 8 p"

definition u256be :: "'pk gov_env \<Rightarrow> string \<Rightarrow> layout" where
  "u256be env p = UIntBE env 32 p"

definition hexBytes :: "nat \<Rightarrow> string \<Rightarrow> layout" where
  "hexBytes numBytes p = HexBytes numBytes p"

section \<open>Actions and the header\<close>

definition ExecutorAction :: "(string \<times> nat) list" where
  "ExecutorAction = [(''ExecutePostedVaa'', 0)]"

definition TargetAction :: "(string \<times> nat) list" where
  "TargetAction =
     [(''AuthorizeGovernanceDataSourceTransfer'', 1), (''RequestGovernanceDataSourceTransfer'', 5),
      (''SetDataSources'', 2), (''SetFee'', 3), (''SetFeeInToken'', 7), (''SetTransactionFee'', 8),
      (''SetValidPeriod'', 4), (''SetWormholeAddress'', 6), (''UpgradeContract'', 0),
      (''WithdrawFee'', 9)]"

definition EvmExecutorAction :: "(string \<times> nat) list" where
  "EvmExecutorAction = [(''Execute'', 0)]"

definition LazerAction :: "(string \<times> nat) list" where
  "LazerAction = [(''UpdateTrustedSigner'', 1), (''UpgradeSuiLazerContract'', 0)]"

definition MAGIC_NUMBER :: nat where "MAGIC_NUMBER = 0x4d475450"
definition MODULE_EXECUTOR :: nat where "MODULE_EXECUTOR = 0"
definition MODULE_TARGET :: nat where "MODULE_TARGET = 1"
definition MODULE_EVM_EXECUTOR :: nat where "MODULE_EVM_EXECUTOR = 2"
definition MODULE_LAZER :: nat where "MODULE_LAZER = 3"

definition toActionName :: "nat \<Rightarrow> nat \<Rightarrow> string option" where
  "toActionName moduleId actionId =
     (if moduleId = MODULE_EXECUTOR \<and> actionId = 0 then Some ''ExecutePostedVaa''
      else if moduleId = MODULE_TARGET then
        (if actionId = 0 then Some ''UpgradeContract''
         else if actionId = 1 then Some ''AuthorizeGovernanceDataSourceTransfer''
         else if actionId = 2 then Some ''SetDataSources''
         else if actionId = 3 then Some ''SetFee''
         else if actionId = 4 then Some ''SetValidPeriod''
         else if actionId = 5 then Some ''RequestGovernanceDataSourceTransfer''
         else if actionId = 6 then Some ''SetWormholeAddress''
         else if actionId = 7 then Some ''SetFeeInToken''
         else if actionId = 8 then Some ''SetTransactionFee''
         else if actionId = 9 then Some ''WithdrawFee''
         else None)
      else if moduleId = MODULE_EVM_EXECUTOR \<and> actionId = 0 then Some ''Execute''
      else if moduleId = MODULE_LAZER then
        (if actionId = 0 then Some ''UpgradeSuiLazerContract''
         else if actionId = 1 then Some ''UpdateTrustedSigner''
         else None)
      else None)"

record governance_header =
  hdr_targetChainId :: string
  hdr_action :: string

definition header_layout :: "'pk gov_env \<Rightarrow> layout" where
  "header_layout env =
     bl_struct (env_bl env)
       [bl_u32 (env_bl env) ''magicNumber'', bl_u8 (env_bl env) ''module'',
        bl_u8 (env_bl env) ''action'', bl_u16be (env_bl env) ''chain''] ''header''"

definition header_span :: nat where "header_span = 8"

definition safeLayoutDecode :: "layout \<Rightarrow> bytes \<Rightarrow> jsval option" where
  "safeLayoutDecode l d = (case lay_decode l d 0 of Inr v \<Rightarrow> Some v | Inl _ \<Rightarrow> None)"

text \<open>Property access on a decoded object; a property that is missing is \<^verbatim>\<open>undefined\<close>.\<close>

definition js_get :: "jsval \<Rightarrow> string \<Rightarrow> jsval option" where
  "js_get v p = (case v of JObj obj \<Rightarrow> map_of obj p | _ \<Rightarrow> None)"

definition js_nat :: "jsval option \<Rightarrow> nat" where
  "js_nat v = (case v of Some (JNum n) \<Rightarrow> nat n | _ \<Rightarrow> 0)"

definition js_int :: "jsval option \<Rightarrow> int" where
  "js_int v = (case v of Some (JBig n) \<Rightarrow> n | Some (JNum n) \<Rightarrow> n | _ \<Rightarrow> 0)"

definition js_str :: "jsval option \<Rightarrow> string" where
  "js_str v = (case v of Some (JStr s) \<Rightarrow> s | _ \<Rightarrow> '''')"

definition js_buf :: "jsval option \<Rightarrow> bytes" where
  "js_buf v = (case v of Some (JBuf b) \<Rightarrow> b | _ \<Rightarrow> [])"

lemmas js_access = js_get_def js_nat_def js_int_def js_str_def js_buf_def

definition PythGovernanceHeader_decode :: "'pk gov_env \<Rightarrow> bytes \<Rightarrow> governance_header option" where
  "PythGovernanceHeader_decode env d =
     (case safeLayoutDecode (header_layout env) d of
        None \<Rightarrow> None
      | Some v \<Rightarrow>
          if js_nat (js_get v ''magicNumber'') \<noteq> MAGIC_NUMBER then None
          else case toChainName (env_wormhole env) (js_nat (js_get v ''chain'')) of
            None \<Rightarrow> None
          | Some chain \<Rightarrow>
              if chain = '''' then None
              else case toActionName (js_nat (js_get v ''module'')) (js_nat (js_get v ''action'')) of
                None \<Rightarrow> None
              | Some a \<Rightarrow> Some \<lparr>hdr_targetChainId = chain, hdr_action = a\<rparr>)"

definition action_ids :: "string \<Rightarrow> nat \<times> nat option" where
  "action_ids a =
     (if map_of ExecutorAction a \<noteq> None then (MODULE_EXECUTOR, map_of ExecutorAction a)
      else if map_of TargetAction a \<noteq> None then (MODULE_TARGET, map_of TargetAction a)
      else if map_of EvmExecutorAction a \<noteq> None then (MODULE_EVM_EXECUTOR, map_of EvmExecutorAction a)
      else (MODULE_LAZER, map_of LazerAction a))"

definition PythGovernanceHeader_encode :: "'pk gov_env \<Rightarrow> governance_header \<Rightarrow> bytes res" where
  "PythGovernanceHeader_encode env h =
     (let buffer = replicate (env_PACKET_DATA_SIZE env) 0;
          (module, action) = action_ids (hdr_action h) in
      case toChainId (env_wormhole env) (hdr_targetChainId h) of
        None \<Rightarrow> Inl (Error (''Invalid chain id '' @ hdr_targetChainId h))
      | Some chain \<Rightarrow>
          res_bind (lay_encode (header_layout env)
            (JObj ((case action of None \<Rightarrow> [] | Some i \<Rightarrow> [(''action'', JNum (int i))]) @
               [(''chain'', JNum (int chain)), (''magicNumber'', JNum (int MAGIC_NUMBER)),
                (''module'', JNum (int module))])) buffer 0) (\<lambda>(span, b).
          Inr (buf_subarray b 0 span)))"

text \<open>\<^verbatim>\<open>Buffer.alloc(n)\<close> throws on a negative size.\<close>

definition buffer_alloc :: "int \<Rightarrow> bytes res" where
  "buffer_alloc n = (if n < 0 then Inl RangeError else Inr (replicate (nat n) 0))"

definition encodeWithPayload ::
  "'pk gov_env \<Rightarrow> string \<Rightarrow> string \<Rightarrow> layout \<Rightarrow> jsval \<Rightarrow> bytes res" where
  "encodeWithPayload env chain action payloadLayout payload =
     res_bind (PythGovernanceHeader_encode env \<lparr>hdr_targetChainId = chain, hdr_action = action\<rparr>)
       (\<lambda>headerBuffer.
     res_bind (buffer_alloc (lay_span payloadLayout)) (\<lambda>payloadBuffer.
     res_bind (lay_encode payloadLayout payload payloadBuffer 0) (\<lambda>(_, payloadBuffer).
     Inr (headerBuffer @ payloadBuffer))))"

definition decodeWithPayload ::
  "'pk gov_env \<Rightarrow> bytes \<Rightarrow> string \<Rightarrow> layout \<Rightarrow> (governance_header \<times> jsval) option" where
  "decodeWithPayload env buffer requiredAction payloadLayout =
     (case PythGovernanceHeader_decode env buffer of
        None \<Rightarrow> None
      | Some header \<Rightarrow>
          if hdr_action header \<noteq> requiredAction then None
          else case safeLayoutDecode payloadLayout (drop header_span buffer) of
            None \<Rightarrow> None
          | Some payload \<Rightarrow> Some (header, payload))"

section \<open>The codecs\<close>

lemma codes_UIntBE:
  assumes "gov_env_ok env" and "n < 256 ^ k"
  shows "codes (UIntBE env k p) (JBig (int n)) (JBig (int n)) (be_bytes k n)"
  using assms by (auto simp: codes_def UIntBE_def gov_env_ok_def buf_set_res_def)

lemma codes_u64be:
  "gov_env_ok env \<Longrightarrow> n < 2 ^ 64 \<Longrightarrow> codes (u64be env p) (JBig (int n)) (JBig (int n)) (be_bytes 8 n)"
  unfolding u64be_def by (rule codes_UIntBE) simp_all

lemma codes_u256be:
  "gov_env_ok env \<Longrightarrow> n < 2 ^ 256 \<Longrightarrow>
   codes (u256be env p) (JBig (int n)) (JBig (int n)) (be_bytes 32 n)"
  unfolding u256be_def by (rule codes_UIntBE) simp_all

text \<open>A hexadecimal string is canonical when it prints \<open>k\<close> bytes: \<open>2 k\<close> lower-case digits.\<close>

definition is_hex :: "nat \<Rightarrow> string \<Rightarrow> bool" where
  "is_hex k s \<longleftrightarrow> length s = 2 * k \<and> bytes_to_hex (hex_to_bytes s) = s"

lemma is_hex_bytes: "is_hex k s \<Longrightarrow> length (hex_to_bytes s) = k"
  by (metis is_hex_def length_bytes_to_hex nat_mult_eq_cancel1 zero_less_numeral)

lemma is_hex_bytes_to_hex [simp]: "is_hex k (bytes_to_hex bs) \<longleftrightarrow> length bs = k"
  by (simp add: is_hex_def)

lemma codes_hexBytes:
  assumes "is_hex k s"
  shows "codes (hexBytes k p) (JStr s) (JStr s) (hex_to_bytes s)"
  using assms is_hex_bytes [OF assms]
  by (auto simp: codes_def hexBytes_def HexBytes_def alloc_write_hex_def buf_set_res_def is_hex_def)

lemma gov_layout_properties [simp]:
  "lay_property (u64be env p) = p" "lay_span (u64be env p) = 8"
  "lay_property (u256be env p) = p" "lay_span (u256be env p) = 32"
  "lay_property (hexBytes k p) = p" "lay_span (hexBytes k p) = int k"
  by (simp_all add: u64be_def u256be_def UIntBE_def hexBytes_def HexBytes_def)

lemmas codes_fields = codes_prims codes_u64be codes_u256be codes_hexBytes

section \<open>The header\<close>

lemma gov_env_bl [simp]: "gov_env_ok env \<Longrightarrow> buffer_layout_spec (env_bl env)"
  by (simp add: gov_env_ok_def)

definition header_bytes :: "nat \<Rightarrow> nat \<Rightarrow> nat \<Rightarrow> bytes" where
  "header_bytes m a c = le_bytes 4 MAGIC_NUMBER @ [byte_of_nat m, byte_of_nat a] @ be_bytes 2 c"

lemma length_header_bytes [simp]: "length (header_bytes m a c) = 8"
  by (simp add: header_bytes_def)

lemma MAGIC_NUMBER_less: "MAGIC_NUMBER < 256 ^ 4"
  by (simp add: MAGIC_NUMBER_def)

lemma header_codes:
  assumes env: "gov_env_ok env" and "m < 256" and "a < 256" and "c < 65536"
  shows "codes (header_layout env)
    (JObj [(''action'', JNum (int a)), (''chain'', JNum (int c)),
       (''magicNumber'', JNum (int MAGIC_NUMBER)), (''module'', JNum (int m))])
    (JObj [(''magicNumber'', JNum (int MAGIC_NUMBER)), (''module'', JNum (int m)),
       (''action'', JNum (int a)), (''chain'', JNum (int c))])
    (header_bytes m a c)"
proof -
  note bl = gov_env_bl [OF env]
  let ?xs = "[(JNum (int MAGIC_NUMBER), JNum (int MAGIC_NUMBER), le_bytes 4 MAGIC_NUMBER),
      (JNum (int m), JNum (int m), [byte_of_nat m]), (JNum (int a), JNum (int a), [byte_of_nat a]),
      (JNum (int c), JNum (int c), be_bytes 2 c)]"
  show ?thesis
    unfolding header_layout_def
    using assms MAGIC_NUMBER_less
    by (intro codes_structI [OF bl, of _ ?xs])
      (simp_all add: codes_prims [OF bl] buffer_layout_properties [OF bl] header_bytes_def)
qed

subsection \<open>Action names and ids\<close>

definition ACTIONS :: "string list" where
  "ACTIONS = map fst (ExecutorAction @ TargetAction @ EvmExecutorAction @ LazerAction)"

lemmas action_tables = ExecutorAction_def TargetAction_def EvmExecutorAction_def LazerAction_def
  MODULE_EXECUTOR_def MODULE_TARGET_def MODULE_EVM_EXECUTOR_def MODULE_LAZER_def

lemma action_ids_known:
  assumes "a \<in> set ACTIONS"
  shows "\<exists>m i. action_ids a = (m, Some i) \<and> m < 256 \<and> i < 256 \<and> toActionName m i = Some a"
proof -
  have "list_all (\<lambda>a. case action_ids a of (m, None) \<Rightarrow> False
      | (m, Some i) \<Rightarrow> m < 256 \<and> i < 256 \<and> toActionName m i = Some a) ACTIONS"
    by code_simp
  with assms have "case action_ids a of (m, None) \<Rightarrow> False
      | (m, Some i) \<Rightarrow> m < 256 \<and> i < 256 \<and> toActionName m i = Some a"
    by (simp only: list_all_iff)
  then show ?thesis by (simp split: prod.splits option.splits)
qed

lemma action_ids_toActionName:
  assumes "toActionName m i = Some a"
  shows "action_ids a = (m, Some i) \<and> a \<in> set ACTIONS"
proof -
  have "list_all (\<lambda>(m, i). case toActionName m i of None \<Rightarrow> True
      | Some a \<Rightarrow> action_ids a = (m, Some i) \<and> List.member ACTIONS a) (List.product [0..<4] [0..<10])"
    by code_simp
  moreover have "m < 4" and "i < 10"
    using assms by (auto simp: toActionName_def action_tables split: if_split_asm)
  ultimately have "case toActionName m i of None \<Rightarrow> True
      | Some a \<Rightarrow> action_ids a = (m, Some i) \<and> List.member ACTIONS a"
    by (auto simp: list_all_iff)
  then show ?thesis using assms by simp
qed

subsection \<open>Encoding and decoding headers\<close>

lemma header_encode:
  assumes env: "gov_env_ok env" and chain: "toChainId (env_wormhole env) n = Some c" "c < 65536"
    and act: "action_ids a = (m, Some i)" "m < 256" "i < 256"
  shows "PythGovernanceHeader_encode env \<lparr>hdr_targetChainId = n, hdr_action = a\<rparr> =
    Inr (header_bytes m i c)"
proof -
  have size: "env_PACKET_DATA_SIZE env = 1232" using env by (simp add: gov_env_ok_def)
  note enc = codes_encode [OF header_codes [OF env act(2,3) chain(2)], of 0 "replicate 1232 0"]
  have "buf_subarray (buf_set (replicate 1232 0) 0 (header_bytes m i c)) 0 8 = header_bytes m i c"
    using buf_subarray_buf_set [of 0 "header_bytes m i c" "replicate 1232 0"] by simp
  then show ?thesis
    using enc by (simp add: PythGovernanceHeader_encode_def chain act size)
qed

text \<open>What the decoder does with arbitrary bytes: the header is the first eight of them.\<close>

lemma header_decode_cases:
  assumes env: "gov_env_ok env"
  shows "PythGovernanceHeader_decode env d =
    (if length d < 8 \<or> take 4 d \<noteq> le_bytes 4 MAGIC_NUMBER then None
     else case toChainName (env_wormhole env) (be_nat (take 2 (drop 6 d))) of
       None \<Rightarrow> None
     | Some n \<Rightarrow> if n = '''' then None
         else map_option (\<lambda>a. \<lparr>hdr_targetChainId = n, hdr_action = a\<rparr>)
           (toActionName (unat (d ! 4)) (unat (d ! 5))))"
proof -
  note bl = gov_env_bl [OF env]
  let ?fs = "[bl_u32 (env_bl env) ''magicNumber'', bl_u8 (env_bl env) ''module'',
    bl_u8 (env_bl env) ''action'', bl_u16be (env_bl env) ''chain'']"
  have spec: "uint_spec (bl_u8 (env_bl env) p) p 1 be_nat (be_bytes 1)"
      "uint_spec (bl_u16be (env_bl env) p) p 2 be_nat (be_bytes 2)"
      "uint_spec (bl_u32 (env_bl env) p) p 4 le_nat (le_bytes 4)" for p
    using bl by (simp_all add: buffer_layout_spec_def)
  show ?thesis
  proof (cases "length d < 8")
    case True
    have "\<exists>e. struct_decode ?fs d 0 = Inl e"
    proof (cases "length d < 4")
      case short: True
      then show ?thesis using uint_decode_short [OF spec(3), of d 0 "''magicNumber''"] by auto
    next
      case False
      show ?thesis
      proof (cases "length d < 6")
        case True
        then have "length d = 4 \<or> length d = 5" using False by linarith
        then show ?thesis
          using False uint_decode_short [OF spec(1), of d 4 "''module''"]
            uint_decode_short [OF spec(1), of d 5 "''action''"]
          by (auto simp: uint_decode [OF spec(3)] uint_decode [OF spec(1)] uint_getSpan [OF spec(3)]
              uint_getSpan [OF spec(1)])
      next
        case False
        with True show ?thesis
          using uint_decode_short [OF spec(2), of d 6 "''chain''"]
          by (auto simp: uint_decode [OF spec(3)] uint_decode [OF spec(1)] uint_getSpan [OF spec(3)]
              uint_getSpan [OF spec(1)])
      qed
    qed
    then obtain e where "struct_decode ?fs d 0 = Inl e" by blast
    then show ?thesis
      using bl True
      by (simp add: PythGovernanceHeader_decode_def safeLayoutDecode_def header_layout_def
          buffer_layout_spec_def)
  next
    case False
    have "be_nat (rev (take 4 d)) = be_nat (be_bytes 4 MAGIC_NUMBER) \<longleftrightarrow>
        rev (take 4 d) = be_bytes 4 MAGIC_NUMBER"
      using False by (intro be_nat_inject) simp
    then have magic: "le_nat (take 4 d) = MAGIC_NUMBER \<longleftrightarrow> take 4 d = le_bytes 4 MAGIC_NUMBER"
      using MAGIC_NUMBER_less by (auto simp: le_nat_def le_bytes_def rev_swap)
    have ids: "take (Suc 0) (drop 4 d) = [d ! 4]" "take (Suc 0) (drop 5 d) = [d ! 5]"
      using False by (simp_all add: take_Suc hd_drop_conv_nth)
    have "struct_decode ?fs d 0 =
        Inr [(''magicNumber'', JNum (int (le_nat (take 4 d)))), (''module'', JNum (int (unat (d ! 4)))),
           (''action'', JNum (int (unat (d ! 5)))), (''chain'', JNum (int (be_nat (take 2 (drop 6 d)))))]"
      using spec False ids by (simp add: uint_spec_def buf_subarray_def)
    then show ?thesis
      using bl magic False
      by (simp add: PythGovernanceHeader_decode_def safeLayoutDecode_def header_layout_def
        buffer_layout_spec_def js_access map_option_case split: option.split)
  qed
qed

text \<open>
  A header is valid when its chain name has a 16-bit id that resolves back to the same name and
  its action is one of the known ones.
\<close>

definition valid_header :: "'pk gov_env \<Rightarrow> governance_header \<Rightarrow> bool" where
  "valid_header env h \<longleftrightarrow>
     (case toChainId (env_wormhole env) (hdr_targetChainId h) of
        None \<Rightarrow> False
      | Some c \<Rightarrow> c < 65536 \<and> toChainName (env_wormhole env) c = Some (hdr_targetChainId h)) \<and>
     hdr_targetChainId h \<noteq> '''' \<and> hdr_action h \<in> set ACTIONS"

lemma be_bytes_2_nth:
  "d = header_bytes m i c @ r \<Longrightarrow> m < 256 \<Longrightarrow> i < 256 \<Longrightarrow> c < 65536 \<Longrightarrow>
   take 4 d = le_bytes 4 MAGIC_NUMBER \<and> unat (d ! 4) = m \<and> unat (d ! 5) = i \<and>
   be_nat (take 2 (drop 6 d)) = c"
  by (simp add: header_bytes_def nth_append)

lemma header_roundtrip_aux:
  assumes env: "gov_env_ok env" and valid: "valid_header env h"
  obtains bs where "PythGovernanceHeader_encode env h = Inr bs" and "length bs = 8"
    and "\<And>r. PythGovernanceHeader_decode env (bs @ r) = Some h"
proof -
  obtain n a where h: "h = \<lparr>hdr_targetChainId = n, hdr_action = a\<rparr>"
    by (metis governance_header.cases)
  from valid h obtain c where c: "toChainId (env_wormhole env) n = Some c" "c < 65536"
      "toChainName (env_wormhole env) c = Some n" "n \<noteq> ''''" and "a \<in> set ACTIONS"
    by (auto simp: valid_header_def split: option.splits)
  then obtain m i where act: "action_ids a = (m, Some i)" "m < 256" "i < 256" "toActionName m i = Some a"
    using action_ids_known by metis
  have "PythGovernanceHeader_decode env (header_bytes m i c @ r) = Some h" for r
    using be_bytes_2_nth [OF refl act(2,3) c(2), of r] act c h
    by (simp add: header_decode_cases [OF env])
  then show thesis
    using that [of "header_bytes m i c"] header_encode [OF env c(1,2) act(1-3)] h by simp
qed

text \<open>
  A valid governance header encodes to eight bytes from which it is decoded again, whatever
  payload follows.
\<close>

theorem PythGovernanceHeader_roundtrip:
  assumes "gov_env_ok env" and "valid_header env h"
  shows "\<exists>bs. PythGovernanceHeader_encode env h = Inr bs \<and> length bs = header_span \<and>
    (\<forall>r. PythGovernanceHeader_decode env (bs @ r) = Some h)"
  using header_roundtrip_aux [OF assms] by (metis header_span_def)

lemma header_decode_sound_aux:
  assumes env: "gov_env_ok env" and dec: "PythGovernanceHeader_decode env d = Some h"
  shows "PythGovernanceHeader_encode env h = Inr (take 8 d) \<and> 8 \<le> length d \<and>
    hdr_action h \<in> set ACTIONS"
proof -
  from dec obtain n a where len: "8 \<le> length d" and magic: "take 4 d = le_bytes 4 MAGIC_NUMBER" and
      n: "toChainName (env_wormhole env) (be_nat (take 2 (drop 6 d))) = Some n" and
      a: "toActionName (unat (d ! 4)) (unat (d ! 5)) = Some a" and
      h: "h = \<lparr>hdr_targetChainId = n, hdr_action = a\<rparr>"
    by (auto simp: header_decode_cases [OF env] not_less split: if_splits option.splits)
  have len2: "length (take 2 (drop 6 d)) = 2" using len by simp
  have c: "be_nat (take 2 (drop 6 d)) < 65536"
    using be_nat_less [of "take 2 (drop 6 d)"] len2 by simp
  have "toChainId (env_wormhole env) n = Some (be_nat (take 2 (drop 6 d)))"
    using env n by (intro toChainId_toChainName_aux) (simp_all add: gov_env_ok_def)
  then have "PythGovernanceHeader_encode env h =
      Inr (header_bytes (unat (d ! 4)) (unat (d ! 5)) (be_nat (take 2 (drop 6 d))))"
    using header_encode [OF env _ c] action_ids_toActionName [OF a] h by simp
  moreover have "be_bytes 2 (be_nat (take 2 (drop 6 d))) = take 2 (drop 6 d)"
    using be_bytes_be_nat [of "take 2 (drop 6 d)"] len2 by simp
  moreover have "take 8 d = take 4 d @ [d ! 4, d ! 5] @ take 2 (drop 6 d)"
  proof -
    have "take (4 + 1 + 1 + 2) d =
        take 4 d @ take 1 (drop 4 d) @ take 1 (drop 5 d) @ take 2 (drop 6 d)"
      by (simp only: take_add drop_drop append_assoc) simp
    then show ?thesis using len by (simp add: take_Suc hd_drop_conv_nth)
  qed
  ultimately show ?thesis
    using magic len h action_ids_toActionName [OF a] by (simp add: header_bytes_def)
qed

text \<open>
  The header has no second encoding: whenever the decoder accepts a message, encoding the
  header it returned gives the first eight bytes of the message.
\<close>

theorem PythGovernanceHeader_decode_sound:
  assumes "gov_env_ok env" and "PythGovernanceHeader_decode env d = Some h"
  shows "PythGovernanceHeader_encode env h = Inr (take header_span d)"
  using header_decode_sound_aux [OF assms] by (simp add: header_span_def)

section \<open>The base class of the actions\<close>

text \<open>
  The contract of a class that extends \<^verbatim>\<open>PythGovernanceActionImpl\<close>: its action name, the layout its
  \<^verbatim>\<open>encode\<close> passes to \<^verbatim>\<open>encodeWithPayload\<close> and the one its \<^verbatim>\<open>decode\<close> passes to \<^verbatim>\<open>decodeWithPayload\<close>, the
  object it encodes and the bytes of the payload.  The classes interpret it.
\<close>

locale governance_action_impl =
  fixes action :: string
    and enc_layout :: "'pk gov_env \<Rightarrow> 'a \<Rightarrow> layout"
    and dec_layout :: "'pk gov_env \<Rightarrow> layout"
    and payload :: "'a \<Rightarrow> jsval"
    and decoded :: "'a \<Rightarrow> jsval"
    and payload_bytes :: "'a \<Rightarrow> bytes"
    and valid :: "'a \<Rightarrow> bool"
  assumes action_known: "action \<in> set ACTIONS"
    and encodes: "gov_env_ok env \<Longrightarrow> valid a \<Longrightarrow>
      lay_span (enc_layout env a) = int (length (payload_bytes a)) \<and>
      (\<forall>b. length b = length (payload_bytes a) \<longrightarrow>
        lay_encode (enc_layout env a) (payload a) b 0 =
          Inr (length (payload_bytes a), payload_bytes a))"
    and decodes: "gov_env_ok env \<Longrightarrow> valid a \<Longrightarrow>
      lay_decode (dec_layout env) (payload_bytes a) 0 = Inr (decoded a)"
begin

text \<open>The message is the header followed by the payload, and decodes to both.\<close>

lemma encode_decode:
  assumes env: "gov_env_ok env" and a: "valid a"
    and hdr: "valid_header env \<lparr>hdr_targetChainId = chain, hdr_action = action\<rparr>"
  obtains bs where "encodeWithPayload env chain action (enc_layout env a) (payload a) = Inr bs"
    and "length bs = header_span + length (payload_bytes a)"
    and "PythGovernanceHeader_decode env bs = Some \<lparr>hdr_targetChainId = chain, hdr_action = action\<rparr>"
    and "decodeWithPayload env bs action (dec_layout env) =
           Some (\<lparr>hdr_targetChainId = chain, hdr_action = action\<rparr>, decoded a)"
proof -
  obtain h where h: "PythGovernanceHeader_encode env \<lparr>hdr_targetChainId = chain, hdr_action = action\<rparr> = Inr h"
      "length h = 8" "\<And>r. PythGovernanceHeader_decode env (h @ r) =
        Some \<lparr>hdr_targetChainId = chain, hdr_action = action\<rparr>"
    using header_roundtrip_aux [OF env hdr] by metis
  have "encodeWithPayload env chain action (enc_layout env a) (payload a) = Inr (h @ payload_bytes a)"
    using encodes [OF env a] h(1) by (simp add: encodeWithPayload_def buffer_alloc_def)
  moreover have "decodeWithPayload env (h @ payload_bytes a) action (dec_layout env) =
      Some (\<lparr>hdr_targetChainId = chain, hdr_action = action\<rparr>, decoded a)"
    using h(2,3) decodes [OF env a]
    by (simp add: decodeWithPayload_def safeLayoutDecode_def header_span_def)
  ultimately show thesis
    using that [of "h @ payload_bytes a"] h(2,3) by (simp add: header_span_def)
qed

end

text \<open>A layout that codes the payload, used for both directions, meets the contract.\<close>

lemma codes_encodes:
  assumes "codes l v v' bs" and "0 \<le> lay_span l"
  shows "lay_span l = int (length bs) \<and>
    (\<forall>b. length b = length bs \<longrightarrow> lay_encode l v b 0 = Inr (length bs, bs)) \<and>
    lay_decode l bs 0 = Inr v'"
proof -
  have "buf_set b 0 bs = bs" if "length b = length bs" for b
    using that by (simp add: buf_set_def)
  then show ?thesis
    using assms codes_encode [OF assms(1), of 0] codes_decode_append [OF assms(1), of "[]" 0 "[]"]
    by (auto simp: codes_def)
qed

section \<open>An environment that behaves as documented\<close>

definition ref_gov_env :: "256 word gov_env" where
  "ref_gov_env =
     \<lparr>env_bl = ref_buffer_layout, env_wormhole = [(''solana'', 1), (''near'', 15)],
      env_toBigIntBE = (\<lambda>bs. int (be_nat bs)),
      env_toBufferBE = (\<lambda>n k. be_bytes k (nat n)),
      env_newPublicKey = (\<lambda>bs. word_of_nat (be_nat bs)),
      env_publicKeyBytes = (\<lambda>pk. be_bytes 32 (unat pk)),
      env_PACKET_DATA_SIZE = 1232\<rparr>"

lemma ref_gov_env_ok [simp]: "gov_env_ok ref_gov_env"
proof -
  have "be_nat (be_bytes 32 (unat w)) = unat w" for w :: "256 word"
    using unsigned_less [of w] by (intro be_nat_be_bytes_id) simp
  then show ?thesis
    by (simp add: gov_env_ok_def ref_gov_env_def ref_buffer_layout_spec)
qed

lemma ref_gov_env_chain:
  "toChainId (env_wormhole ref_gov_env) ''fluent_testnet'' = Some 50130"
  "toChainName (env_wormhole ref_gov_env) 50130 = Some ''fluent_testnet''"
proof -
  have "(''fluent_testnet'', 50130) \<in> set RECEIVER_CHAINS"
    by (simp add: RECEIVER_CHAINS_def)
  then show "toChainId (env_wormhole ref_gov_env) ''fluent_testnet'' = Some 50130"
    "toChainName (env_wormhole ref_gov_env) 50130 = Some ''fluent_testnet''"
    by (rule toChainId_receiver_aux, rule toChainName_receiver_aux) (simp add: ref_gov_env_def)
qed

lemma ref_valid_header:
  "a \<in> set ACTIONS \<Longrightarrow>
   valid_header ref_gov_env \<lparr>hdr_targetChainId = ''fluent_testnet'', hdr_action = a\<rparr>"
  by (simp add: valid_header_def ref_gov_env_chain)

lemma ACTIONS_eq: "ACTIONS = [''ExecutePostedVaa'', ''AuthorizeGovernanceDataSourceTransfer'',
    ''RequestGovernanceDataSourceTransfer'', ''SetDataSources'', ''SetFee'', ''SetFeeInToken'',
    ''SetTransactionFee'', ''SetValidPeriod'', ''SetWormholeAddress'', ''UpgradeContract'',
    ''WithdrawFee'', ''Execute'', ''UpdateTrustedSigner'', ''UpgradeSuiLazerContract'']"
  by (simp add: ACTIONS_def action_tables)

theorem PythGovernanceHeader_roundtrip_witness:
  "\<exists>bs. PythGovernanceHeader_encode ref_gov_env
       \<lparr>hdr_targetChainId = ''fluent_testnet'', hdr_action = ''SetFee''\<rparr> = Inr bs \<and>
     length bs = header_span \<and>
     (\<forall>r. PythGovernanceHeader_decode ref_gov_env (bs @ r) =
       Some \<lparr>hdr_targetChainId = ''fluent_testnet'', hdr_action = ''SetFee''\<rparr>)"
  by (rule PythGovernanceHeader_roundtrip) (simp_all add: ref_valid_header ACTIONS_eq)

theorem PythGovernanceHeader_decode_sound_witness:
  "PythGovernanceHeader_encode ref_gov_env
     \<lparr>hdr_targetChainId = ''fluent_testnet'', hdr_action = ''SetFee''\<rparr> =
   Inr (take header_span (header_bytes 1 3 50130 @ [1, 2, 3]))"
proof (rule PythGovernanceHeader_decode_sound)
  have "toActionName 1 3 = Some ''SetFee''"
    by (simp add: toActionName_def action_tables)
  then show "PythGovernanceHeader_decode ref_gov_env (header_bytes 1 3 50130 @ [1, 2, 3]) =
      Some \<lparr>hdr_targetChainId = ''fluent_testnet'', hdr_action = ''SetFee''\<rparr>"
    using be_bytes_2_nth [of "header_bytes 1 3 50130 @ [1, 2, 3]" 1 3 50130 "[1, 2, 3]"]
    by (simp add: header_decode_cases ref_gov_env_chain)
qed simp

end
