(* ===== verification/Governance_Payload.thy ===== *)
theory Governance_Payload
  imports Governance_Header
begin

text \<open>
  The governance actions (\<^verbatim>\<open>governance/xc_admin/packages/xc_admin_common/src/governance_payload\<close>): one
  constructor per class, with the target chain first, a layout, a decoder and an encoder per class,
  and the dispatcher \<^verbatim>\<open>decodeGovernancePayload\<close>.  Big integers are \<open>int\<close>; hexadecimal strings are
  strings; a decoder that can throw returns a sum.
\<close>

record 'pk account_meta =
  am_isSigner :: bool
  am_isWritable :: bool
  am_pubkey :: 'pk

record 'pk transaction_instruction =
  ix_data :: bytes
  ix_keys :: "'pk account_meta list"
  ix_programId :: 'pk

record data_source =
  ds_emitterChain :: nat
  ds_emitterAddress :: string

datatype 'pk governance_action =
    ExecutePostedVaa string "'pk transaction_instruction list"
  | CosmosUpgradeContract string int
  | UpgradeContract256Bit string string
  | EvmUpgradeContract string string
  | AuthorizeGovernanceDataSourceTransfer string bytes
  | RequestGovernanceDataSourceTransfer string int
  | SetDataSources string "data_source list"
  | SetFee string int int
  | SetFeeInToken string int int bytes
  | SetValidPeriod string int
  | EvmSetWormholeAddress string string
  | StarknetSetWormholeAddress string string
  | EvmExecute string string string int bytes
  | SetTransactionFee string int int
  | WithdrawFee string bytes int int
  | UpgradeSuiLazerContract string int string
  | UpdateTrustedSigner264Bit string string int

section \<open>Upgrades\<close>

definition CosmosUpgradeContract_layout :: "'pk gov_env \<Rightarrow> layout" where
  "CosmosUpgradeContract_layout env = bl_struct (env_bl env) [u64be env ''codeId''] ''''"

definition CosmosUpgradeContract_decode :: "'pk gov_env \<Rightarrow> bytes \<Rightarrow> 'pk governance_action option" where
  "CosmosUpgradeContract_decode env d =
     map_option (\<lambda>(h, v). CosmosUpgradeContract (hdr_targetChainId h) (js_int (js_get v ''codeId'')))
       (decodeWithPayload env d ''UpgradeContract'' (CosmosUpgradeContract_layout env))"

definition CosmosUpgradeContract_encode :: "'pk gov_env \<Rightarrow> string \<Rightarrow> int \<Rightarrow> bytes res" where
  "CosmosUpgradeContract_encode env chain codeId =
     encodeWithPayload env chain ''UpgradeContract'' (CosmosUpgradeContract_layout env)
       (JObj [(''codeId'', JBig codeId)])"

definition UpgradeContract256Bit_layout :: "'pk gov_env \<Rightarrow> layout" where
  "UpgradeContract256Bit_layout env = bl_struct (env_bl env) [hexBytes 32 ''hash''] ''''"

definition UpgradeContract256Bit_decode :: "'pk gov_env \<Rightarrow> bytes \<Rightarrow> 'pk governance_action option" where
  "UpgradeContract256Bit_decode env d =
     map_option (\<lambda>(h, v). UpgradeContract256Bit (hdr_targetChainId h) (js_str (js_get v ''hash'')))
       (decodeWithPayload env d ''UpgradeContract'' (UpgradeContract256Bit_layout env))"

definition UpgradeContract256Bit_encode :: "'pk gov_env \<Rightarrow> string \<Rightarrow> string \<Rightarrow> bytes res" where
  "UpgradeContract256Bit_encode env chain hash =
     encodeWithPayload env chain ''UpgradeContract'' (UpgradeContract256Bit_layout env)
       (JObj [(''hash'', JStr hash)])"

definition EvmUpgradeContract_layout :: "'pk gov_env \<Rightarrow> layout" where
  "EvmUpgradeContract_layout env = bl_struct (env_bl env) [hexBytes 20 ''address''] ''''"

definition EvmUpgradeContract_decode :: "'pk gov_env \<Rightarrow> bytes \<Rightarrow> 'pk governance_action option" where
  "EvmUpgradeContract_decode env d =
     map_option (\<lambda>(h, v). EvmUpgradeContract (hdr_targetChainId h) (js_str (js_get v ''address'')))
       (decodeWithPayload env d ''UpgradeContract'' (EvmUpgradeContract_layout env))"

definition EvmUpgradeContract_encode :: "'pk gov_env \<Rightarrow> string \<Rightarrow> string \<Rightarrow> bytes res" where
  "EvmUpgradeContract_encode env chain address =
     encodeWithPayload env chain ''UpgradeContract'' (EvmUpgradeContract_layout env)
       (JObj [(''address'', JStr address)])"

definition UpgradeSuiLazerContract_layout :: "'pk gov_env \<Rightarrow> layout" where
  "UpgradeSuiLazerContract_layout env =
     bl_struct (env_bl env) [u64be env ''version'', hexBytes 32 ''hash''] ''''"

definition UpgradeSuiLazerContract_decode :: "'pk gov_env \<Rightarrow> bytes \<Rightarrow> 'pk governance_action option" where
  "UpgradeSuiLazerContract_decode env d =
     map_option (\<lambda>(h, v). UpgradeSuiLazerContract (hdr_targetChainId h)
         (js_int (js_get v ''version'')) (js_str (js_get v ''hash'')))
       (decodeWithPayload env d ''UpgradeSuiLazerContract'' (UpgradeSuiLazerContract_layout env))"

definition UpgradeSuiLazerContract_encode :: "'pk gov_env \<Rightarrow> string \<Rightarrow> int \<Rightarrow> string \<Rightarrow> bytes res" where
  "UpgradeSuiLazerContract_encode env chain version hash =
     encodeWithPayload env chain ''UpgradeSuiLazerContract'' (UpgradeSuiLazerContract_layout env)
       (JObj [(''version'', JBig version), (''hash'', JStr hash)])"

definition UpdateTrustedSigner264Bit_layout :: "'pk gov_env \<Rightarrow> layout" where
  "UpdateTrustedSigner264Bit_layout env =
     bl_struct (env_bl env) [hexBytes 33 ''publicKey'', u64be env ''expiresAt''] ''''"

definition UpdateTrustedSigner264Bit_decode :: "'pk gov_env \<Rightarrow> bytes \<Rightarrow> 'pk governance_action option" where
  "UpdateTrustedSigner264Bit_decode env d =
     map_option (\<lambda>(h, v). UpdateTrustedSigner264Bit (hdr_targetChainId h)
         (js_str (js_get v ''publicKey'')) (js_int (js_get v ''expiresAt'')))
       (decodeWithPayload env d ''UpdateTrustedSigner'' (UpdateTrustedSigner264Bit_layout env))"

definition UpdateTrustedSigner264Bit_encode :: "'pk gov_env \<Rightarrow> string \<Rightarrow> string \<Rightarrow> int \<Rightarrow> bytes res" where
  "UpdateTrustedSigner264Bit_encode env chain publicKey expiresAt =
     encodeWithPayload env chain ''UpdateTrustedSigner'' (UpdateTrustedSigner264Bit_layout env)
       (JObj [(''publicKey'', JStr publicKey), (''expiresAt'', JBig expiresAt)])"

section \<open>Governance data source transfers\<close>

definition AuthorizeGovernanceDataSourceTransfer_decode ::
  "'pk gov_env \<Rightarrow> bytes \<Rightarrow> 'pk governance_action option" where
  "AuthorizeGovernanceDataSourceTransfer_decode env d =
     (case PythGovernanceHeader_decode env d of
        None \<Rightarrow> None
      | Some h \<Rightarrow>
          if hdr_action h \<noteq> ''AuthorizeGovernanceDataSourceTransfer'' then None
          else Some (AuthorizeGovernanceDataSourceTransfer (hdr_targetChainId h) (drop header_span d)))"

definition AuthorizeGovernanceDataSourceTransfer_encode ::
  "'pk gov_env \<Rightarrow> string \<Rightarrow> bytes \<Rightarrow> bytes res" where
  "AuthorizeGovernanceDataSourceTransfer_encode env chain claimVaa =
     res_bind (PythGovernanceHeader_encode env
         \<lparr>hdr_targetChainId = chain, hdr_action = ''AuthorizeGovernanceDataSourceTransfer''\<rparr>)
       (\<lambda>headerBuffer. Inr (headerBuffer @ claimVaa))"

definition RequestGovernanceDataSourceTransfer_layout :: "'pk gov_env \<Rightarrow> layout" where
  "RequestGovernanceDataSourceTransfer_layout env =
     bl_struct (env_bl env) [bl_u32be (env_bl env) ''governanceDataSourceIndex''] ''''"

definition RequestGovernanceDataSourceTransfer_decode ::
  "'pk gov_env \<Rightarrow> bytes \<Rightarrow> 'pk governance_action option" where
  "RequestGovernanceDataSourceTransfer_decode env d =
     map_option (\<lambda>(h, v). RequestGovernanceDataSourceTransfer (hdr_targetChainId h)
         (js_int (js_get v ''governanceDataSourceIndex'')))
       (decodeWithPayload env d ''RequestGovernanceDataSourceTransfer''
         (RequestGovernanceDataSourceTransfer_layout env))"

definition RequestGovernanceDataSourceTransfer_encode :: "'pk gov_env \<Rightarrow> string \<Rightarrow> int \<Rightarrow> bytes res" where
  "RequestGovernanceDataSourceTransfer_encode env chain index =
     encodeWithPayload env chain ''RequestGovernanceDataSourceTransfer''
       (RequestGovernanceDataSourceTransfer_layout env)
       (JObj [(''governanceDataSourceIndex'', JNum index)])"

section \<open>Data sources, fees, valid period, Wormhole addresses\<close>

definition DataSourceLayout :: "'pk gov_env \<Rightarrow> layout" where
  "DataSourceLayout env =
     bl_struct (env_bl env) [bl_u16be (env_bl env) ''emitterChain'', hexBytes 32 ''emitterAddress''] ''''"

definition data_source_to_js :: "data_source \<Rightarrow> jsval" where
  "data_source_to_js s =
     JObj [(''emitterChain'', JNum (int (ds_emitterChain s))),
           (''emitterAddress'', JStr (ds_emitterAddress s))]"

definition js_to_data_source :: "jsval \<Rightarrow> data_source" where
  "js_to_data_source v =
     \<lparr>ds_emitterChain = js_nat (js_get v ''emitterChain''),
      ds_emitterAddress = js_str (js_get v ''emitterAddress'')\<rparr>"

fun decode_data_sources :: "'pk gov_env \<Rightarrow> bytes \<Rightarrow> nat \<Rightarrow> nat \<Rightarrow> data_source list res" where
  "decode_data_sources env d index 0 = Inr []"
| "decode_data_sources env d index (Suc n) =
     res_bind (lay_decode (DataSourceLayout env) d index) (\<lambda>v.
     res_bind (decode_data_sources env d (nat (int index + lay_span (DataSourceLayout env))) n) (\<lambda>r.
     Inr (js_to_data_source v # r)))"

definition SetDataSources_decode :: "'pk gov_env \<Rightarrow> bytes \<Rightarrow> 'pk governance_action option res" where
  "SetDataSources_decode env d =
     (case PythGovernanceHeader_decode env d of
        None \<Rightarrow> Inr None
      | Some h \<Rightarrow>
          if hdr_action h \<noteq> ''SetDataSources'' then Inr None
          else
            res_bind (lay_decode (bl_u8 (env_bl env) '''') d header_span) (\<lambda>numSources.
            res_bind (decode_data_sources env d (header_span + 1) (js_nat (Some numSources))) (\<lambda>ds.
            Inr (Some (SetDataSources (hdr_targetChainId h) ds)))))"

definition encode_data_source :: "'pk gov_env \<Rightarrow> data_source \<Rightarrow> bytes res" where
  "encode_data_source env s =
     res_bind (buffer_alloc (lay_span (DataSourceLayout env))) (\<lambda>buf.
     res_bind (lay_encode (DataSourceLayout env) (data_source_to_js s) buf 0) (\<lambda>(_, buf). Inr buf))"

definition SetDataSources_encode :: "'pk gov_env \<Rightarrow> string \<Rightarrow> data_source list \<Rightarrow> bytes res" where
  "SetDataSources_encode env chain sources =
     res_bind (PythGovernanceHeader_encode env
         \<lparr>hdr_targetChainId = chain, hdr_action = ''SetDataSources''\<rparr>) (\<lambda>headerBuffer.
     res_bind (lay_encode (bl_u8 (env_bl env) '''') (JNum (int (length sources))) [0] 0)
       (\<lambda>(_, numSourcesBuf).
     res_bind (map_res (encode_data_source env) sources) (\<lambda>dataSourceBufs.
     Inr (headerBuffer @ numSourcesBuf @ concat dataSourceBufs))))"

definition SetFee_layout :: "'pk gov_env \<Rightarrow> layout" where
  "SetFee_layout env = bl_struct (env_bl env) [u64be env ''newFeeValue'', u64be env ''newFeeExpo''] ''''"

definition SetFee_decode :: "'pk gov_env \<Rightarrow> bytes \<Rightarrow> 'pk governance_action option" where
  "SetFee_decode env d =
     map_option (\<lambda>(h, v). SetFee (hdr_targetChainId h)
         (js_int (js_get v ''newFeeValue'')) (js_int (js_get v ''newFeeExpo'')))
       (decodeWithPayload env d ''SetFee'' (SetFee_layout env))"

definition SetFee_encode :: "'pk gov_env \<Rightarrow> string \<Rightarrow> int \<Rightarrow> int \<Rightarrow> bytes res" where
  "SetFee_encode env chain newFeeValue newFeeExpo =
     encodeWithPayload env chain ''SetFee'' (SetFee_layout env)
       (JObj [(''newFeeExpo'', JBig newFeeExpo), (''newFeeValue'', JBig newFeeValue)])"

definition SetFeeInToken_layout :: "'pk gov_env \<Rightarrow> layout" where
  "SetFeeInToken_layout env =
     bl_struct (env_bl env) [u64be env ''newFeeValue'', u64be env ''newFeeExpo'',
       bl_u8 (env_bl env) ''tokenLen''] ''''"

definition SetFeeInToken_decode :: "'pk gov_env \<Rightarrow> bytes \<Rightarrow> 'pk governance_action option res" where
  "SetFeeInToken_decode env d =
     (case PythGovernanceHeader_decode env d of
        None \<Rightarrow> Inr None
      | Some h \<Rightarrow>
          if hdr_action h \<noteq> ''SetFeeInToken'' then Inr None
          else
            res_bind (lay_decode (SetFeeInToken_layout env) d header_span) (\<lambda>fields.
            Inr (Some (SetFeeInToken (hdr_targetChainId h) (js_int (js_get fields ''newFeeValue''))
              (js_int (js_get fields ''newFeeExpo''))
              (drop (nat (int header_span + lay_span (SetFeeInToken_layout env))) d)))))"

definition SetFeeInToken_encode :: "'pk gov_env \<Rightarrow> string \<Rightarrow> int \<Rightarrow> int \<Rightarrow> bytes \<Rightarrow> bytes res" where
  "SetFeeInToken_encode env chain newFeeValue newFeeExpo token =
     res_bind (PythGovernanceHeader_encode env
         \<lparr>hdr_targetChainId = chain, hdr_action = ''SetFeeInToken''\<rparr>) (\<lambda>headerBuffer.
     res_bind (buffer_alloc (lay_span (SetFeeInToken_layout env))) (\<lambda>fieldsBuf.
     res_bind (lay_encode (SetFeeInToken_layout env)
         (JObj [(''newFeeExpo'', JBig newFeeExpo), (''newFeeValue'', JBig newFeeValue),
                (''tokenLen'', JNum (int (length token)))]) fieldsBuf 0) (\<lambda>(_, fieldsBuf).
     Inr (headerBuffer @ fieldsBuf @ token))))"

definition SetValidPeriod_layout :: "'pk gov_env \<Rightarrow> layout" where
  "SetValidPeriod_layout env = bl_struct (env_bl env) [u64be env ''newValidPeriod''] ''''"

definition SetValidPeriod_decode :: "'pk gov_env \<Rightarrow> bytes \<Rightarrow> 'pk governance_action option" where
  "SetValidPeriod_decode env d =
     map_option (\<lambda>(h, v). SetValidPeriod (hdr_targetChainId h) (js_int (js_get v ''newValidPeriod'')))
       (decodeWithPayload env d ''SetValidPeriod'' (SetValidPeriod_layout env))"

definition SetValidPeriod_encode :: "'pk gov_env \<Rightarrow> string \<Rightarrow> int \<Rightarrow> bytes res" where
  "SetValidPeriod_encode env chain newValidPeriod =
     encodeWithPayload env chain ''SetValidPeriod'' (SetValidPeriod_layout env)
       (JObj [(''newValidPeriod'', JBig newValidPeriod)])"

definition EvmSetWormholeAddress_layout :: "'pk gov_env \<Rightarrow> layout" where
  "EvmSetWormholeAddress_layout env = bl_struct (env_bl env) [hexBytes 20 ''address''] ''''"

definition EvmSetWormholeAddress_decode :: "'pk gov_env \<Rightarrow> bytes \<Rightarrow> 'pk governance_action option" where
  "EvmSetWormholeAddress_decode env d =
     map_option (\<lambda>(h, v). EvmSetWormholeAddress (hdr_targetChainId h) (js_str (js_get v ''address'')))
       (decodeWithPayload env d ''SetWormholeAddress'' (EvmSetWormholeAddress_layout env))"

definition EvmSetWormholeAddress_encode :: "'pk gov_env \<Rightarrow> string \<Rightarrow> string \<Rightarrow> bytes res" where
  "EvmSetWormholeAddress_encode env chain address =
     encodeWithPayload env chain ''SetWormholeAddress'' (EvmSetWormholeAddress_layout env)
       (JObj [(''address'', JStr address)])"

definition StarknetSetWormholeAddress_layout :: "'pk gov_env \<Rightarrow> layout" where
  "StarknetSetWormholeAddress_layout env = bl_struct (env_bl env) [hexBytes 32 ''address''] ''''"

definition StarknetSetWormholeAddress_decode :: "'pk gov_env \<Rightarrow> bytes \<Rightarrow> 'pk governance_action option"
where
  "StarknetSetWormholeAddress_decode env d =
     map_option (\<lambda>(h, v). StarknetSetWormholeAddress (hdr_targetChainId h) (js_str (js_get v ''address'')))
       (decodeWithPayload env d ''SetWormholeAddress'' (StarknetSetWormholeAddress_layout env))"

definition StarknetSetWormholeAddress_encode :: "'pk gov_env \<Rightarrow> string \<Rightarrow> string \<Rightarrow> bytes res" where
  "StarknetSetWormholeAddress_encode env chain address =
     encodeWithPayload env chain ''SetWormholeAddress'' (StarknetSetWormholeAddress_layout env)
       (JObj [(''address'', JStr address)])"

definition SetTransactionFee_layout :: "'pk gov_env \<Rightarrow> layout" where
  "SetTransactionFee_layout env =
     bl_struct (env_bl env) [u64be env ''newFeeValue'', u64be env ''newFeeExpo''] ''''"

definition SetTransactionFee_decode :: "'pk gov_env \<Rightarrow> bytes \<Rightarrow> 'pk governance_action option" where
  "SetTransactionFee_decode env d =
     map_option (\<lambda>(h, v). SetTransactionFee (hdr_targetChainId h)
         (js_int (js_get v ''newFeeValue'')) (js_int (js_get v ''newFeeExpo'')))
       (decodeWithPayload env d ''SetTransactionFee'' (SetTransactionFee_layout env))"

definition SetTransactionFee_encode :: "'pk gov_env \<Rightarrow> string \<Rightarrow> int \<Rightarrow> int \<Rightarrow> bytes res" where
  "SetTransactionFee_encode env chain newFeeValue newFeeExpo =
     encodeWithPayload env chain ''SetTransactionFee'' (SetTransactionFee_layout env)
       (JObj [(''newFeeValue'', JBig newFeeValue), (''newFeeExpo'', JBig newFeeExpo)])"

definition WithdrawFee_layout :: "'pk gov_env \<Rightarrow> layout" where
  "WithdrawFee_layout env =
     bl_struct (env_bl env) [hexBytes 20 ''targetAddress'', u64be env ''value'', u64be env ''expo''] ''''"

definition WithdrawFee_decode :: "'pk gov_env \<Rightarrow> bytes \<Rightarrow> 'pk governance_action option" where
  "WithdrawFee_decode env d =
     map_option (\<lambda>(h, v). WithdrawFee (hdr_targetChainId h)
         (hex_to_bytes (js_str (js_get v ''targetAddress'')))
         (js_int (js_get v ''value'')) (js_int (js_get v ''expo'')))
       (decodeWithPayload env d ''WithdrawFee'' (WithdrawFee_layout env))"

definition WithdrawFee_encode :: "'pk gov_env \<Rightarrow> string \<Rightarrow> bytes \<Rightarrow> int \<Rightarrow> int \<Rightarrow> bytes res" where
  "WithdrawFee_encode env chain targetAddress value expo =
     encodeWithPayload env chain ''WithdrawFee'' (WithdrawFee_layout env)
       (JObj [(''targetAddress'', JStr (bytes_to_hex targetAddress)), (''value'', JBig value),
              (''expo'', JBig expo)])"


section \<open>Executing calls and Solana instructions\<close>

definition EvmExecute_layout :: "'pk gov_env \<Rightarrow> layout" where
  "EvmExecute_layout env =
     bl_struct (env_bl env) [hexBytes 20 ''executorAddress'', hexBytes 20 ''callAddress'',
       u256be env ''value'', bl_blob_greedy (env_bl env) ''calldata''] ''''"

definition EvmExecute_layout_with_known_span :: "'pk gov_env \<Rightarrow> nat \<Rightarrow> layout" where
  "EvmExecute_layout_with_known_span env len =
     bl_struct (env_bl env) [hexBytes 20 ''executorAddress'', hexBytes 20 ''callAddress'',
       u256be env ''value'', bl_blob (env_bl env) len ''calldata''] ''''"

definition EvmExecute_decode :: "'pk gov_env \<Rightarrow> bytes \<Rightarrow> 'pk governance_action option" where
  "EvmExecute_decode env d =
     map_option (\<lambda>(h, v). EvmExecute (hdr_targetChainId h) (js_str (js_get v ''executorAddress''))
         (js_str (js_get v ''callAddress'')) (js_int (js_get v ''value''))
         (js_buf (js_get v ''calldata'')))
       (decodeWithPayload env d ''Execute'' (EvmExecute_layout env))"

definition EvmExecute_encode ::
  "'pk gov_env \<Rightarrow> string \<Rightarrow> string \<Rightarrow> string \<Rightarrow> int \<Rightarrow> bytes \<Rightarrow> bytes res" where
  "EvmExecute_encode env chain executorAddress callAddress value calldata =
     encodeWithPayload env chain ''Execute'' (EvmExecute_layout_with_known_span env (length calldata))
       (JObj [(''callAddress'', JStr callAddress), (''calldata'', JBuf calldata),
              (''executorAddress'', JStr executorAddress), (''value'', JBig value)])"

text \<open>The class \<^verbatim>\<open>Vector\<close>: a 32-bit little-endian count followed by the elements.\<close>

definition Vector_layout :: "buffer_layout \<Rightarrow> layout \<Rightarrow> string \<Rightarrow> layout" where
  "Vector_layout BL element p =
     \<lparr>lay_span = -1, lay_property = p,
      lay_decode = (\<lambda>b off.
        res_bind (lay_decode (bl_u32 BL '''') b off) (\<lambda>len.
        lay_decode (bl_seq BL element (js_nat (Some len)) '''') b (off + 4))),
      lay_encode = (\<lambda>src b off. case src of
        JArr vs \<Rightarrow> lay_encode (bl_struct BL [bl_u32 BL ''length'',
            bl_seq BL element (length vs) ''elements''] '''')
          (JObj [(''elements'', JArr vs), (''length'', JNum (int (length vs)))]) b off
        | _ \<Rightarrow> Inl TypeError),
      lay_getSpan = (\<lambda>b off.
        res_bind (lay_decode (bl_u32 BL '''') b off) (\<lambda>len.
        Inr (4 + lay_span element * js_int (Some len))))\<rparr>"

definition accountMetaLayout :: "buffer_layout \<Rightarrow> layout" where
  "accountMetaLayout BL =
     bl_struct BL [bl_blob BL 32 ''pubkey'', bl_u8 BL ''isSigner'', bl_u8 BL ''isWritable''] ''''"

definition instructionDataLayout :: "buffer_layout \<Rightarrow> layout" where
  "instructionDataLayout BL =
     bl_struct BL [bl_blob BL 32 ''programId'', Vector_layout BL (accountMetaLayout BL) ''accounts'',
       Vector_layout BL (bl_u8 BL '''') ''data''] ''''"

definition ExecutePostedVaa_layout :: "'pk gov_env \<Rightarrow> layout" where
  "ExecutePostedVaa_layout env =
     Vector_layout (env_bl env) (instructionDataLayout (env_bl env)) ''instructions''"

definition js_arr :: "jsval option \<Rightarrow> jsval list" where
  "js_arr v = (case v of Some (JArr vs) \<Rightarrow> vs | _ \<Rightarrow> [])"

definition js_to_account :: "'pk gov_env \<Rightarrow> jsval \<Rightarrow> 'pk account_meta" where
  "js_to_account env v =
     \<lparr>am_isSigner = (js_nat (js_get v ''isSigner'') \<noteq> 0),
      am_isWritable = (js_nat (js_get v ''isWritable'') \<noteq> 0),
      am_pubkey = env_newPublicKey env (js_buf (js_get v ''pubkey''))\<rparr>"

definition js_to_instruction :: "'pk gov_env \<Rightarrow> jsval \<Rightarrow> 'pk transaction_instruction" where
  "js_to_instruction env v =
     \<lparr>ix_data = map (\<lambda>n. byte_of_nat (js_nat (Some n))) (js_arr (js_get v ''data'')),
      ix_keys = map (js_to_account env) (js_arr (js_get v ''accounts'')),
      ix_programId = env_newPublicKey env (js_buf (js_get v ''programId''))\<rparr>"

definition ExecutePostedVaa_decode :: "'pk gov_env \<Rightarrow> bytes \<Rightarrow> 'pk governance_action option" where
  "ExecutePostedVaa_decode env d =
     (case PythGovernanceHeader_decode env d of
        None \<Rightarrow> None
      | Some h \<Rightarrow>
          (case safeLayoutDecode (ExecutePostedVaa_layout env) (drop header_span d) of
             None \<Rightarrow> None
           | Some v \<Rightarrow> Some (ExecutePostedVaa (hdr_targetChainId h)
               (map (js_to_instruction env) (js_arr (Some v))))))"

definition account_to_js :: "'pk gov_env \<Rightarrow> 'pk account_meta \<Rightarrow> jsval" where
  "account_to_js env a =
     JObj [(''isSigner'', JNum (if am_isSigner a then 1 else 0)),
           (''isWritable'', JNum (if am_isWritable a then 1 else 0)),
           (''pubkey'', JBuf (env_publicKeyBytes env (am_pubkey a)))]"

definition instruction_to_js :: "'pk gov_env \<Rightarrow> 'pk transaction_instruction \<Rightarrow> jsval" where
  "instruction_to_js env ix =
     JObj [(''accounts'', JArr (map (account_to_js env) (ix_keys ix))),
           (''data'', JArr (map (\<lambda>b. JNum (int (unat b))) (ix_data ix))),
           (''programId'', JBuf (env_publicKeyBytes env (ix_programId ix)))]"

definition ExecutePostedVaa_encode ::
  "'pk gov_env \<Rightarrow> string \<Rightarrow> 'pk transaction_instruction list \<Rightarrow> bytes res" where
  "ExecutePostedVaa_encode env chain ixs =
     res_bind (PythGovernanceHeader_encode env
         \<lparr>hdr_targetChainId = chain, hdr_action = ''ExecutePostedVaa''\<rparr>) (\<lambda>headerBuffer.
     res_bind (lay_encode (ExecutePostedVaa_layout env) (JArr (map (instruction_to_js env) ixs))
         (replicate (env_PACKET_DATA_SIZE env) 0) 0) (\<lambda>(span, buffer).
     Inr (headerBuffer @ buf_subarray buffer 0 span)))"

section \<open>The dispatcher\<close>

definition decodeGovernancePayload :: "'pk gov_env \<Rightarrow> bytes \<Rightarrow> 'pk governance_action option res" where
  "decodeGovernancePayload env d =
     (case PythGovernanceHeader_decode env d of
        None \<Rightarrow> Inr None
      | Some header \<Rightarrow>
          let a = hdr_action header; payloadLength = int (length d) - int header_span in
          if a = ''ExecutePostedVaa'' then Inr (ExecutePostedVaa_decode env d)
          else if a = ''UpgradeContract'' then
            (if payloadLength = lay_span (CosmosUpgradeContract_layout env)
               then Inr (CosmosUpgradeContract_decode env d)
             else if payloadLength = lay_span (UpgradeContract256Bit_layout env)
               then Inr (UpgradeContract256Bit_decode env d)
             else if payloadLength = lay_span (EvmUpgradeContract_layout env)
               then Inr (EvmUpgradeContract_decode env d)
             else Inr None)
          else if a = ''AuthorizeGovernanceDataSourceTransfer''
            then Inr (AuthorizeGovernanceDataSourceTransfer_decode env d)
          else if a = ''SetDataSources'' then SetDataSources_decode env d
          else if a = ''SetFee'' then Inr (SetFee_decode env d)
          else if a = ''SetFeeInToken'' then SetFeeInToken_decode env d
          else if a = ''SetValidPeriod'' then Inr (SetValidPeriod_decode env d)
          else if a = ''RequestGovernanceDataSourceTransfer''
            then Inr (RequestGovernanceDataSourceTransfer_decode env d)
          else if a = ''SetWormholeAddress'' then
            (if payloadLength = lay_span (EvmSetWormholeAddress_layout env)
               then Inr (EvmSetWormholeAddress_decode env d)
             else if payloadLength = lay_span (StarknetSetWormholeAddress_layout env)
               then Inr (StarknetSetWormholeAddress_decode env d)
             else Inr None)
          else if a = ''Execute'' then Inr (EvmExecute_decode env d)
          else if a = ''SetTransactionFee'' then Inr (SetTransactionFee_decode env d)
          else if a = ''WithdrawFee'' then Inr (WithdrawFee_decode env d)
          else if a = ''UpgradeSuiLazerContract'' then Inr (UpgradeSuiLazerContract_decode env d)
          else if a = ''UpdateTrustedSigner'' then Inr (UpdateTrustedSigner264Bit_decode env d)
          else Inr None)"

text \<open>The method \<^verbatim>\<open>encode\<close> of \<^verbatim>\<open>PythGovernanceAction\<close>, dispatched on the class.\<close>

fun governance_encode :: "'pk gov_env \<Rightarrow> 'pk governance_action \<Rightarrow> bytes res" where
  "governance_encode env (ExecutePostedVaa c ixs) = ExecutePostedVaa_encode env c ixs"
| "governance_encode env (CosmosUpgradeContract c i) = CosmosUpgradeContract_encode env c i"
| "governance_encode env (UpgradeContract256Bit c h) = UpgradeContract256Bit_encode env c h"
| "governance_encode env (EvmUpgradeContract c a) = EvmUpgradeContract_encode env c a"
| "governance_encode env (AuthorizeGovernanceDataSourceTransfer c v) =
     AuthorizeGovernanceDataSourceTransfer_encode env c v"
| "governance_encode env (RequestGovernanceDataSourceTransfer c i) =
     RequestGovernanceDataSourceTransfer_encode env c i"
| "governance_encode env (SetDataSources c ds) = SetDataSources_encode env c ds"
| "governance_encode env (SetFee c v e) = SetFee_encode env c v e"
| "governance_encode env (SetFeeInToken c v e t) = SetFeeInToken_encode env c v e t"
| "governance_encode env (SetValidPeriod c p) = SetValidPeriod_encode env c p"
| "governance_encode env (EvmSetWormholeAddress c a) = EvmSetWormholeAddress_encode env c a"
| "governance_encode env (StarknetSetWormholeAddress c a) = StarknetSetWormholeAddress_encode env c a"
| "governance_encode env (EvmExecute c e a v d) = EvmExecute_encode env c e a v d"
| "governance_encode env (SetTransactionFee c v e) = SetTransactionFee_encode env c v e"
| "governance_encode env (WithdrawFee c t v e) = WithdrawFee_encode env c t v e"
| "governance_encode env (UpgradeSuiLazerContract c v h) = UpgradeSuiLazerContract_encode env c v h"
| "governance_encode env (UpdateTrustedSigner264Bit c k e) = UpdateTrustedSigner264Bit_encode env c k e"

end
