(* ===== verification/Governance_Codec.thy ===== *)
theory Governance_Codec
  imports Governance_Payload
begin

text \<open>
  Correctness of the governance payloads.  Every class that extends \<^verbatim>\<open>PythGovernanceActionImpl\<close>
  interprets the contract \<open>governance_action_impl\<close>; the four classes with an encoder of their own
  are handled one by one; \<open>valid_action\<close> collects what each needs, and the dispatcher then decodes
  every encoded action.
\<close>

section \<open>Contracts from codecs\<close>

lemma impl_from_codes:
  assumes "action \<in> set ACTIONS"
    and "\<And>env a. gov_env_ok env \<Longrightarrow> valid a \<Longrightarrow> codes (l env) (payload a) (decoded a) (bs a)"
    and "\<And>env. gov_env_ok env \<Longrightarrow> 0 \<le> lay_span (l env)"
  shows "governance_action_impl action (\<lambda>env _. l env) l payload decoded bs valid"
  using assms codes_encodes by unfold_locales blast+

definition u64 :: "int \<Rightarrow> bool" where
  "u64 n \<longleftrightarrow> 0 \<le> n \<and> n < 2 ^ 64"

definition u256 :: "int \<Rightarrow> bool" where
  "u256 n \<longleftrightarrow> 0 \<le> n \<and> n < 2 ^ 256"

lemma codes_u64: "gov_env_ok env \<Longrightarrow> u64 n \<Longrightarrow> codes (u64be env p) (JBig n) (JBig n) (be_bytes 8 (nat n))"
  using codes_u64be [of env "nat n" p] by (simp add: u64_def nat_less_iff)

lemma codes_u256: "gov_env_ok env \<Longrightarrow> u256 n \<Longrightarrow> codes (u256be env p) (JBig n) (JBig n) (be_bytes 32 (nat n))"
  using codes_u256be [of env "nat n" p] by (simp add: u256_def nat_less_iff)

lemma struct_span_simps [simp]:
  "gov_env_ok env \<Longrightarrow> lay_span (bl_struct (env_bl env) fs p) = struct_span fs"
  by (simp add: buffer_layout_properties)

lemmas struct_codes_simps = codes_u64 codes_u256 codes_hexBytes codes_prims buffer_layout_properties

section \<open>The classes with a fixed layout\<close>

abbreviation codes_u64_1 :: "int \<Rightarrow> (jsval \<times> jsval \<times> bytes) list" where
  "codes_u64_1 n \<equiv> [(JBig n, JBig n, be_bytes 8 (nat n))]"

abbreviation codes_hex_1 :: "string \<Rightarrow> (jsval \<times> jsval \<times> bytes) list" where
  "codes_hex_1 s \<equiv> [(JStr s, JStr s, hex_to_bytes s)]"

interpretation cosmos_upgrade: governance_action_impl "''UpgradeContract''"
  "\<lambda>env _. CosmosUpgradeContract_layout env" CosmosUpgradeContract_layout
  "\<lambda>n. JObj [(''codeId'', JBig n)]" "\<lambda>n. JObj [(''codeId'', JBig n)]" "\<lambda>n. be_bytes 8 (nat n)" u64
  by (rule impl_from_codes)
    (auto simp: ACTIONS_eq CosmosUpgradeContract_layout_def struct_span_def struct_codes_simps
      intro!: codes_structI [of _ _ "codes_u64_1 n" for n])

interpretation upgrade_256: governance_action_impl "''UpgradeContract''"
  "\<lambda>env _. UpgradeContract256Bit_layout env" UpgradeContract256Bit_layout
  "\<lambda>s. JObj [(''hash'', JStr s)]" "\<lambda>s. JObj [(''hash'', JStr s)]" hex_to_bytes "is_hex 32"
  by (rule impl_from_codes)
    (auto simp: ACTIONS_eq UpgradeContract256Bit_layout_def struct_span_def struct_codes_simps
      intro!: codes_structI [of _ _ "codes_hex_1 s" for s])

interpretation evm_upgrade: governance_action_impl "''UpgradeContract''"
  "\<lambda>env _. EvmUpgradeContract_layout env" EvmUpgradeContract_layout
  "\<lambda>s. JObj [(''address'', JStr s)]" "\<lambda>s. JObj [(''address'', JStr s)]" hex_to_bytes "is_hex 20"
  by (rule impl_from_codes)
    (auto simp: ACTIONS_eq EvmUpgradeContract_layout_def struct_span_def struct_codes_simps
      intro!: codes_structI [of _ _ "codes_hex_1 s" for s])

interpretation evm_wormhole: governance_action_impl "''SetWormholeAddress''"
  "\<lambda>env _. EvmSetWormholeAddress_layout env" EvmSetWormholeAddress_layout
  "\<lambda>s. JObj [(''address'', JStr s)]" "\<lambda>s. JObj [(''address'', JStr s)]" hex_to_bytes "is_hex 20"
  by (rule impl_from_codes)
    (auto simp: ACTIONS_eq EvmSetWormholeAddress_layout_def struct_span_def struct_codes_simps
      intro!: codes_structI [of _ _ "codes_hex_1 s" for s])

interpretation starknet_wormhole: governance_action_impl "''SetWormholeAddress''"
  "\<lambda>env _. StarknetSetWormholeAddress_layout env" StarknetSetWormholeAddress_layout
  "\<lambda>s. JObj [(''address'', JStr s)]" "\<lambda>s. JObj [(''address'', JStr s)]" hex_to_bytes "is_hex 32"
  by (rule impl_from_codes)
    (auto simp: ACTIONS_eq StarknetSetWormholeAddress_layout_def struct_span_def struct_codes_simps
      intro!: codes_structI [of _ _ "codes_hex_1 s" for s])

interpretation valid_period: governance_action_impl "''SetValidPeriod''"
  "\<lambda>env _. SetValidPeriod_layout env" SetValidPeriod_layout
  "\<lambda>n. JObj [(''newValidPeriod'', JBig n)]" "\<lambda>n. JObj [(''newValidPeriod'', JBig n)]"
  "\<lambda>n. be_bytes 8 (nat n)" u64
  by (rule impl_from_codes)
    (auto simp: ACTIONS_eq SetValidPeriod_layout_def struct_span_def struct_codes_simps
      intro!: codes_structI [of _ _ "codes_u64_1 n" for n])

interpretation request_transfer: governance_action_impl "''RequestGovernanceDataSourceTransfer''"
  "\<lambda>env _. RequestGovernanceDataSourceTransfer_layout env" RequestGovernanceDataSourceTransfer_layout
  "\<lambda>n. JObj [(''governanceDataSourceIndex'', JNum (int n))]"
  "\<lambda>n. JObj [(''governanceDataSourceIndex'', JNum (int n))]" "be_bytes 4" "\<lambda>n. n < 256 ^ 4"
  by (rule impl_from_codes)
    (auto simp: ACTIONS_eq RequestGovernanceDataSourceTransfer_layout_def struct_span_def
      struct_codes_simps
      intro!: codes_structI [of _ _ "[(JNum (int n), JNum (int n), be_bytes 4 n)]" for n])

interpretation set_fee: governance_action_impl "''SetFee''"
  "\<lambda>env _. SetFee_layout env" SetFee_layout
  "\<lambda>(v, e). JObj [(''newFeeExpo'', JBig e), (''newFeeValue'', JBig v)]"
  "\<lambda>(v, e). JObj [(''newFeeValue'', JBig v), (''newFeeExpo'', JBig e)]"
  "\<lambda>(v, e). be_bytes 8 (nat v) @ be_bytes 8 (nat e)" "\<lambda>(v, e). u64 v \<and> u64 e"
  by (rule impl_from_codes)
    (auto simp: ACTIONS_eq SetFee_layout_def struct_span_def struct_codes_simps
      intro!: codes_structI [of _ _ "codes_u64_1 v @ codes_u64_1 e" for v e])

interpretation transaction_fee: governance_action_impl "''SetTransactionFee''"
  "\<lambda>env _. SetTransactionFee_layout env" SetTransactionFee_layout
  "\<lambda>(v, e). JObj [(''newFeeValue'', JBig v), (''newFeeExpo'', JBig e)]"
  "\<lambda>(v, e). JObj [(''newFeeValue'', JBig v), (''newFeeExpo'', JBig e)]"
  "\<lambda>(v, e). be_bytes 8 (nat v) @ be_bytes 8 (nat e)" "\<lambda>(v, e). u64 v \<and> u64 e"
  by (rule impl_from_codes)
    (auto simp: ACTIONS_eq SetTransactionFee_layout_def struct_span_def struct_codes_simps
      intro!: codes_structI [of _ _ "codes_u64_1 v @ codes_u64_1 e" for v e])

interpretation withdraw_fee: governance_action_impl "''WithdrawFee''"
  "\<lambda>env _. WithdrawFee_layout env" WithdrawFee_layout
  "\<lambda>(t, v, e). JObj [(''targetAddress'', JStr (bytes_to_hex t)), (''value'', JBig v), (''expo'', JBig e)]"
  "\<lambda>(t, v, e). JObj [(''targetAddress'', JStr (bytes_to_hex t)), (''value'', JBig v), (''expo'', JBig e)]"
  "\<lambda>(t, v, e). t @ be_bytes 8 (nat v) @ be_bytes 8 (nat e)"
  "\<lambda>(t, v, e). length t = 20 \<and> u64 v \<and> u64 e"
proof (rule impl_from_codes)
  fix env :: "'pk gov_env" and a :: "bytes \<times> int \<times> int"
  assume "gov_env_ok env" and "(\<lambda>(t, v, e). length t = 20 \<and> u64 v \<and> u64 e) a"
  moreover from this(2) have "codes (hexBytes 20 p) (JStr (bytes_to_hex (fst a)))
      (JStr (bytes_to_hex (fst a))) (fst a)" for p
    using codes_hexBytes [of 20 "bytes_to_hex (fst a)" p] by auto
  ultimately show "codes (WithdrawFee_layout env)
      ((\<lambda>(t, v, e). JObj [(''targetAddress'', JStr (bytes_to_hex t)), (''value'', JBig v), (''expo'', JBig e)]) a)
      ((\<lambda>(t, v, e). JObj [(''targetAddress'', JStr (bytes_to_hex t)), (''value'', JBig v), (''expo'', JBig e)]) a)
      ((\<lambda>(t, v, e). t @ be_bytes 8 (nat v) @ be_bytes 8 (nat e)) a)"
    by (auto simp: WithdrawFee_layout_def struct_codes_simps
      intro!: codes_structI [of _ _ "(JStr (bytes_to_hex t), JStr (bytes_to_hex t), t) #
        codes_u64_1 v @ codes_u64_1 e" for t v e])
qed (auto simp: ACTIONS_eq WithdrawFee_layout_def struct_span_def)

interpretation lazer_upgrade: governance_action_impl "''UpgradeSuiLazerContract''"
  "\<lambda>env _. UpgradeSuiLazerContract_layout env" UpgradeSuiLazerContract_layout
  "\<lambda>(v, h). JObj [(''version'', JBig v), (''hash'', JStr h)]"
  "\<lambda>(v, h). JObj [(''version'', JBig v), (''hash'', JStr h)]"
  "\<lambda>(v, h). be_bytes 8 (nat v) @ hex_to_bytes h" "\<lambda>(v, h). u64 v \<and> is_hex 32 h"
  by (rule impl_from_codes)
    (auto simp: ACTIONS_eq UpgradeSuiLazerContract_layout_def struct_span_def struct_codes_simps
      intro!: codes_structI [of _ _ "codes_u64_1 v @ codes_hex_1 h" for v h])

interpretation trusted_signer: governance_action_impl "''UpdateTrustedSigner''"
  "\<lambda>env _. UpdateTrustedSigner264Bit_layout env" UpdateTrustedSigner264Bit_layout
  "\<lambda>(k, e). JObj [(''publicKey'', JStr k), (''expiresAt'', JBig e)]"
  "\<lambda>(k, e). JObj [(''publicKey'', JStr k), (''expiresAt'', JBig e)]"
  "\<lambda>(k, e). hex_to_bytes k @ be_bytes 8 (nat e)" "\<lambda>(k, e). is_hex 33 k \<and> u64 e"
  by (rule impl_from_codes)
    (auto simp: ACTIONS_eq UpdateTrustedSigner264Bit_layout_def struct_span_def struct_codes_simps
      intro!: codes_structI [of _ _ "codes_hex_1 k @ codes_u64_1 e" for k e])

section \<open>The classes with an encoder of their own\<close>

abbreviation evm_execute_bytes :: "string \<times> string \<times> int \<times> bytes \<Rightarrow> bytes" where
  "evm_execute_bytes x \<equiv> (case x of (e, c, v, d) \<Rightarrow>
     hex_to_bytes e @ hex_to_bytes c @ be_bytes 32 (nat v) @ d)"

abbreviation valid_evm_execute :: "string \<times> string \<times> int \<times> bytes \<Rightarrow> bool" where
  "valid_evm_execute x \<equiv> (case x of (e, c, v, d) \<Rightarrow> is_hex 20 e \<and> is_hex 20 c \<and> u256 v)"

text \<open>The decoder's layout ends with a greedy blob: the call data is the rest of the message.\<close>

lemma EvmExecute_layout_decodes:
  assumes env: "gov_env_ok env" and e: "is_hex 20 e" and c: "is_hex 20 c" and v: "u256 v"
  shows "lay_decode (EvmExecute_layout env) (evm_execute_bytes (e, c, v, d)) 0 =
    Inr (JObj [(''executorAddress'', JStr e), (''callAddress'', JStr c), (''value'', JBig v),
      (''calldata'', JBuf d)])"
proof -
  note bl = gov_env_bl [OF env]
  let ?b = "evm_execute_bytes (e, c, v, d)" and ?v = "be_bytes 32 (nat v)"
  have len: "length (hex_to_bytes e) = 20" "length (hex_to_bytes c) = 20"
    using e c by (simp_all add: is_hex_bytes)
  have 1: "lay_decode (hexBytes 20 ''executorAddress'') ?b 0 = Inr (JStr e) \<and>
      lay_getSpan (hexBytes 20 ''executorAddress'') ?b 0 = Inr 20"
    using codes_decode [OF codes_hexBytes [OF e], of 0 ?b] len by (simp add: buf_subarray_def)
  have 2: "lay_decode (hexBytes 20 ''callAddress'') ?b 20 = Inr (JStr c) \<and>
      lay_getSpan (hexBytes 20 ''callAddress'') ?b 20 = Inr 20"
    using codes_decode [OF codes_hexBytes [OF c], of 20 ?b] len by (simp add: buf_subarray_def)
  have 3: "lay_decode (u256be env ''value'') ?b 40 = Inr (JBig v) \<and>
      lay_getSpan (u256be env ''value'') ?b 40 = Inr 32"
    using codes_decode [OF codes_u256 [OF env v], of 40 ?b] len by (simp add: buf_subarray_def)
  have 4: "lay_decode (bl_blob_greedy (env_bl env) ''calldata'') ?b 72 = Inr (JBuf d) \<and>
      lay_getSpan (bl_blob_greedy (env_bl env) ''calldata'') ?b 72 = Inr (int (length ?b - 72))"
    using bl len by (auto simp: buffer_layout_spec_def)
  have "lay_decode (EvmExecute_layout env) ?b 0 = map_sum id JObj (struct_decode
      [hexBytes 20 ''executorAddress'', hexBytes 20 ''callAddress'', u256be env ''value'',
       bl_blob_greedy (env_bl env) ''calldata''] ?b 0)"
    using bl by (simp add: EvmExecute_layout_def buffer_layout_spec_def)
  then show ?thesis
    using 1 2 3 4 by (simp add: buffer_layout_properties [OF bl] del: prod.case)
qed

interpretation evm_execute: governance_action_impl "''Execute''"
  "\<lambda>env (e, c, v, d). EvmExecute_layout_with_known_span env (length d)" EvmExecute_layout
  "\<lambda>(e, c, v, d). JObj [(''callAddress'', JStr c), (''calldata'', JBuf d),
     (''executorAddress'', JStr e), (''value'', JBig v)]"
  "\<lambda>(e, c, v, d). JObj [(''executorAddress'', JStr e), (''callAddress'', JStr c),
     (''value'', JBig v), (''calldata'', JBuf d)]"
  evm_execute_bytes valid_evm_execute
proof (unfold_locales, goal_cases)
  case 1
  show ?case by (simp add: ACTIONS_eq)
next
  case (2 env a)
  obtain e c v d where a: "a = (e, c, v, d)" by (cases a)
  with 2 have "codes (EvmExecute_layout_with_known_span env (length d))
      (JObj [(''callAddress'', JStr c), (''calldata'', JBuf d), (''executorAddress'', JStr e), (''value'', JBig v)])
      (JObj [(''executorAddress'', JStr e), (''callAddress'', JStr c), (''value'', JBig v), (''calldata'', JBuf d)])
      (evm_execute_bytes a)"
    by (auto simp: EvmExecute_layout_with_known_span_def struct_codes_simps
        intro!: codes_structI [of _ _ "codes_hex_1 e @ codes_hex_1 c @
          [(JBig v, JBig v, be_bytes 32 (nat v)), (JBuf d, JBuf d, d)]"])
  moreover have "0 \<le> lay_span (EvmExecute_layout_with_known_span env (length d))"
    using 2 by (simp add: EvmExecute_layout_with_known_span_def struct_span_def buffer_layout_properties)
  ultimately show ?case using a by (auto dest!: codes_encodes)
next
  case (3 env a)
  then show ?case using EvmExecute_layout_decodes [of env] by (cases a) auto
qed

subsection \<open>Data sources\<close>

definition valid_data_source :: "data_source \<Rightarrow> bool" where
  "valid_data_source s \<longleftrightarrow> ds_emitterChain s < 65536 \<and> is_hex 32 (ds_emitterAddress s)"

definition data_source_bytes :: "data_source \<Rightarrow> bytes" where
  "data_source_bytes s = be_bytes 2 (ds_emitterChain s) @ hex_to_bytes (ds_emitterAddress s)"

lemma DataSourceLayout_span [simp]: "gov_env_ok env \<Longrightarrow> lay_span (DataSourceLayout env) = 34"
  by (simp add: DataSourceLayout_def struct_span_def buffer_layout_properties)

lemma codes_DataSource:
  assumes "gov_env_ok env" and "valid_data_source s"
  shows "codes (DataSourceLayout env) (data_source_to_js s) (data_source_to_js s) (data_source_bytes s)"
  using assms
  by (auto simp: DataSourceLayout_def data_source_to_js_def data_source_bytes_def valid_data_source_def
      struct_codes_simps
      intro!: codes_structI [of _ _ "[(JNum (int (ds_emitterChain s)), JNum (int (ds_emitterChain s)),
        be_bytes 2 (ds_emitterChain s)), (JStr (ds_emitterAddress s), JStr (ds_emitterAddress s),
        hex_to_bytes (ds_emitterAddress s))]"])

lemma length_data_source_bytes [simp]: "valid_data_source s \<Longrightarrow> length (data_source_bytes s) = 34"
  by (simp add: valid_data_source_def data_source_bytes_def is_hex_bytes)

lemma js_to_data_source_inverse [simp]: "js_to_data_source (data_source_to_js s) = s"
  by (simp add: js_to_data_source_def data_source_to_js_def js_access)

lemma decode_data_sources_bytes:
  "gov_env_ok env \<Longrightarrow> list_all valid_data_source ds \<Longrightarrow> length pre = i \<Longrightarrow>
   decode_data_sources env (pre @ concat (map data_source_bytes ds)) i (length ds) = Inr ds"
proof (induction ds arbitrary: pre i)
  case (Cons s ds)
  let ?d = "pre @ data_source_bytes s @ concat (map data_source_bytes ds)"
  have "lay_decode (DataSourceLayout env) ?d i = Inr (data_source_to_js s)"
    using Cons.prems by (intro codes_decode_append [OF codes_DataSource]) simp_all
  moreover have "decode_data_sources env ?d (i + 34) (length ds) = Inr ds"
    using Cons.prems Cons.IH [of "pre @ data_source_bytes s" "i + 34"] by simp
  moreover have "nat (int i + 34) = i + 34" by simp
  ultimately show ?case using Cons.prems(1) by simp
qed simp

lemma encode_data_source_bytes:
  assumes "gov_env_ok env" and "valid_data_source s"
  shows "encode_data_source env s = Inr (data_source_bytes s)"
  using codes_encodes [OF codes_DataSource [OF assms]] assms
  by (simp add: encode_data_source_def buffer_alloc_def)

subsection \<open>Vectors of instructions\<close>

lemma Vector_encode:
  assumes BL: "buffer_layout_spec BL" and xs: "list_all (field_codes l) xs" and len: "length xs < 256 ^ 4"
    and room: "off + 4 + length (codes_bytes xs) \<le> length b"
  shows "lay_encode (Vector_layout BL l p) (JArr (map fst xs)) b off =
    Inr (4 + length (codes_bytes xs), buf_set b off (le_bytes 4 (length xs) @ codes_bytes xs))"
proof -
  have "codes (bl_struct BL [bl_u32 BL ''length'', bl_seq BL l (length xs) ''elements''] '''')
      (JObj [(''elements'', JArr (map fst xs)), (''length'', JNum (int (length xs)))])
      (JObj [(''length'', JNum (int (length xs))), (''elements'', JArr (map (\<lambda>x. fst (snd x)) xs))])
      (le_bytes 4 (length xs) @ codes_bytes xs)"
    using BL len
    by (intro codes_structI [of _ _ "[(JNum (int (length xs)), JNum (int (length xs)), le_bytes 4 (length xs)),
        (JArr (map fst xs), JArr (map (\<lambda>x. fst (snd x)) xs), codes_bytes xs)]"])
      (simp_all add: buffer_layout_properties codes_u32 codes_seq [OF BL xs])
  from codes_encode [OF this] show ?thesis
    using room by (simp add: Vector_layout_def)
qed

lemma Vector_decode:
  assumes BL: "buffer_layout_spec BL" and xs: "list_all (field_codes l) xs" and len: "length xs < 256 ^ 4"
    and room: "off + 4 + length (codes_bytes xs) \<le> length b"
    and at: "buf_subarray b off (off + (4 + length (codes_bytes xs))) = le_bytes 4 (length xs) @ codes_bytes xs"
  shows "lay_decode (Vector_layout BL l p) b off = Inr (JArr (map (\<lambda>x. fst (snd x)) xs)) \<and>
    lay_getSpan (Vector_layout BL l p) b off = Inr (4 + lay_span l * int (length xs))"
proof -
  have half: "buf_subarray b off (off + 4) = le_bytes 4 (length xs)"
      "buf_subarray b (off + 4) (off + 4 + length (codes_bytes xs)) = codes_bytes xs"
    using buf_subarray_append_halves [of off "le_bytes 4 (length xs)" "codes_bytes xs" b] room at
    by simp_all
  have 1: "lay_decode (bl_u32 BL '''') b off = Inr (JNum (int (length xs)))"
    using codes_decode [OF codes_u32 [OF BL len]] half(1) room by simp
  have 2: "lay_decode (bl_seq BL l (length xs) '''') b (off + 4) = Inr (JArr (map (\<lambda>x. fst (snd x)) xs))"
    using codes_decode [OF codes_seq [OF BL xs]] half(2) room by simp
  show ?thesis
    using 1 2 by (simp add: Vector_layout_def js_access)
qed

text \<open>
  When the elements have a fixed span the vector meets the contract.  With elements of varying
  size only \<open>Vector_encode\<close> and \<open>Vector_decode\<close> hold: \<^verbatim>\<open>getSpan\<close> multiplies by the span \<open>-1\<close>.
\<close>

lemma codes_Vector:
  assumes BL: "buffer_layout_spec BL" and xs: "list_all (field_codes l) xs" and len: "length xs < 256 ^ 4"
    and span: "0 \<le> lay_span l"
  shows "codes (Vector_layout BL l p) (JArr (map fst xs)) (JArr (map (\<lambda>x. fst (snd x)) xs))
    (le_bytes 4 (length xs) @ codes_bytes xs)"
proof -
  have total: "int (length xs) * lay_span l = int (length (codes_bytes xs))"
    using xs span by (induction xs) (auto simp: codes_def algebra_simps)
  show ?thesis
    unfolding codes_def
    using Vector_encode [OF BL xs len] Vector_decode [OF BL xs len] total
    by (auto simp: Vector_layout_def algebra_simps)
qed

subsection \<open>Solana instructions\<close>

abbreviation flag :: "bool \<Rightarrow> nat" where
  "flag x \<equiv> (if x then 1 else 0)"

definition account_decoded :: "'pk gov_env \<Rightarrow> 'pk account_meta \<Rightarrow> jsval" where
  "account_decoded env a =
     JObj [(''pubkey'', JBuf (env_publicKeyBytes env (am_pubkey a))),
           (''isSigner'', JNum (int (flag (am_isSigner a)))),
           (''isWritable'', JNum (int (flag (am_isWritable a))))]"

definition account_bytes :: "'pk gov_env \<Rightarrow> 'pk account_meta \<Rightarrow> bytes" where
  "account_bytes env a = env_publicKeyBytes env (am_pubkey a) @
     [byte_of_nat (flag (am_isSigner a)), byte_of_nat (flag (am_isWritable a))]"

definition instruction_decoded :: "'pk gov_env \<Rightarrow> 'pk transaction_instruction \<Rightarrow> jsval" where
  "instruction_decoded env ix =
     JObj [(''programId'', JBuf (env_publicKeyBytes env (ix_programId ix))),
           (''accounts'', JArr (map (account_decoded env) (ix_keys ix))),
           (''data'', JArr (map (\<lambda>b. JNum (int (unat b))) (ix_data ix)))]"

definition instruction_bytes :: "'pk gov_env \<Rightarrow> 'pk transaction_instruction \<Rightarrow> bytes" where
  "instruction_bytes env ix = env_publicKeyBytes env (ix_programId ix) @
     (le_bytes 4 (length (ix_keys ix)) @ concat (map (account_bytes env) (ix_keys ix))) @
     (le_bytes 4 (length (ix_data ix)) @ ix_data ix)"

definition instructions_bytes :: "'pk gov_env \<Rightarrow> 'pk transaction_instruction list \<Rightarrow> bytes" where
  "instructions_bytes env ixs = le_bytes 4 (length ixs) @ concat (map (instruction_bytes env) ixs)"

lemma length_publicKeyBytes [simp]: "gov_env_ok env \<Longrightarrow> length (env_publicKeyBytes env pk) = 32"
  unfolding gov_env_ok_def by blast

lemma newPublicKey_bytes [simp]: "gov_env_ok env \<Longrightarrow> env_newPublicKey env (env_publicKeyBytes env pk) = pk"
  unfolding gov_env_ok_def by blast

lemma PACKET_DATA_SIZE [simp]: "gov_env_ok env \<Longrightarrow> env_PACKET_DATA_SIZE env = 1232"
  unfolding gov_env_ok_def by blast

lemma codes_account:
  assumes env: "gov_env_ok env"
  shows "codes (accountMetaLayout (env_bl env)) (account_to_js env a) (account_decoded env a)
    (account_bytes env a)"
proof -
  note bl = gov_env_bl [OF env]
  define k s w where "k = env_publicKeyBytes env (am_pubkey a)"
    and "s = flag (am_isSigner a)" and "w = flag (am_isWritable a)"
  then have len: "length k = 32" "s < 256" "w < 256" using env by simp_all
  have "account_to_js env a =
      JObj [(''isSigner'', JNum (int s)), (''isWritable'', JNum (int w)), (''pubkey'', JBuf k)]"
    by (simp add: account_to_js_def k_def s_def w_def)
  moreover have "account_decoded env a =
      JObj [(''pubkey'', JBuf k), (''isSigner'', JNum (int s)), (''isWritable'', JNum (int w))]"
    by (simp only: account_decoded_def k_def s_def w_def)
  moreover have "account_bytes env a = k @ [byte_of_nat s, byte_of_nat w]"
    by (simp only: account_bytes_def k_def s_def w_def)
  ultimately show ?thesis
    unfolding accountMetaLayout_def
    by (auto simp: len codes_prims [OF bl] buffer_layout_properties [OF bl] bl
        intro!: codes_structI [of _ _ "[(JBuf k, JBuf k, k), (JNum (int s), JNum (int s), [byte_of_nat s]),
          (JNum (int w), JNum (int w), [byte_of_nat w])]"])
qed

lemma accountMetaLayout_span: "gov_env_ok env \<Longrightarrow> lay_span (accountMetaLayout (env_bl env)) = 34"
  by (simp add: accountMetaLayout_def struct_span_def buffer_layout_properties)

lemma codes_instruction:
  assumes env: "gov_env_ok env" and "length (ix_keys ix) < 256 ^ 4" and "length (ix_data ix) < 256 ^ 4"
  shows "codes (instructionDataLayout (env_bl env)) (instruction_to_js env ix) (instruction_decoded env ix)
    (instruction_bytes env ix)"
proof -
  note bl = gov_env_bl [OF env]
  let ?k = "env_publicKeyBytes env (ix_programId ix)"
  let ?as = "map (\<lambda>a. (account_to_js env a, account_decoded env a, account_bytes env a)) (ix_keys ix)"
  let ?ds = "map (\<lambda>b. (JNum (int (unat b)), JNum (int (unat b)), [b])) (ix_data ix)"
  let ?ab = "le_bytes 4 (length (ix_keys ix)) @ concat (map (account_bytes env) (ix_keys ix))"
  let ?db = "le_bytes 4 (length (ix_data ix)) @ ix_data ix"
  have "list_all (field_codes (accountMetaLayout (env_bl env))) ?as"
    by (simp add: list_all_iff codes_account [OF env])
  from codes_Vector [OF bl this, of "''accounts''"] have 1:
    "codes (Vector_layout (env_bl env) (accountMetaLayout (env_bl env)) ''accounts'')
      (JArr (map (account_to_js env) (ix_keys ix))) (JArr (map (account_decoded env) (ix_keys ix))) ?ab"
    using assms accountMetaLayout_span [OF env] by (simp add: comp_def)
  have "codes (bl_u8 (env_bl env) '''') (JNum (int (unat b))) (JNum (int (unat b))) [b]" for b :: byte
    using codes_u8 [OF bl, of "unat b" "''''"] by simp
  then have "list_all (field_codes (bl_u8 (env_bl env) '''')) ?ds"
    by (simp add: list_all_iff)
  from codes_Vector [OF bl this, of "''data''"] have 2:
    "codes (Vector_layout (env_bl env) (bl_u8 (env_bl env) '''') ''data'')
      (JArr (map (\<lambda>b. JNum (int (unat b))) (ix_data ix)))
      (JArr (map (\<lambda>b. JNum (int (unat b))) (ix_data ix))) ?db"
    using assms bl by (simp add: comp_def buffer_layout_properties)
  show ?thesis
    unfolding instructionDataLayout_def instruction_to_js_def
    using env 1 2
    by (intro codes_structI [OF bl, of _ "[(JBuf ?k, JBuf ?k, ?k),
        (JArr (map (account_to_js env) (ix_keys ix)), JArr (map (account_decoded env) (ix_keys ix)), ?ab),
        (JArr (map (\<lambda>b. JNum (int (unat b))) (ix_data ix)), JArr (map (\<lambda>b. JNum (int (unat b))) (ix_data ix)), ?db)]"])
      (simp_all add: instruction_decoded_def instruction_bytes_def Vector_layout_def
        buffer_layout_properties [OF bl] codes_blob [OF bl])
qed

lemma js_to_instruction_decoded:
  assumes "gov_env_ok env"
  shows "js_to_instruction env (instruction_decoded env ix) = ix"
proof -
  have "js_to_account env (account_decoded env a) = a" for a
    using assms by (cases a) (simp add: js_to_account_def account_decoded_def js_access)
  then show ?thesis
    using assms
    by (cases ix) (simp add: js_to_instruction_def instruction_decoded_def js_access js_arr_def
        comp_def byte_of_nat_def)
qed

lemma instructions_bytes_bounds:
  assumes env: "gov_env_ok env" and "length (instructions_bytes env ixs) \<le> 1232"
  shows "length ixs < 256 ^ 4"
    and "ix \<in> set ixs \<Longrightarrow> length (ix_keys ix) < 256 ^ 4 \<and> length (ix_data ix) < 256 ^ 4"
proof -
  have acc: "length (concat (map (account_bytes env) ks)) = 34 * length ks" for ks
    using env by (induction ks) (simp_all add: account_bytes_def)
  have len: "length (instruction_bytes env ix) = 40 + 34 * length (ix_keys ix) + length (ix_data ix)" for ix
    using env by (simp add: instruction_bytes_def acc)
  have sub: "length (instruction_bytes env ix) \<le> length (concat (map (instruction_bytes env) ixs))"
    if "ix \<in> set ixs" for ix
    using that by (induction ixs) auto
  have "length ixs \<le> length (concat (map (instruction_bytes env) ixs))"
    by (induction ixs) (auto simp: len)
  with assms show "length ixs < 256 ^ 4" by (simp add: instructions_bytes_def)
  show "length (ix_keys ix) < 256 ^ 4 \<and> length (ix_data ix) < 256 ^ 4" if "ix \<in> set ixs"
    using sub [OF that] assms(2) len [of ix] by (simp add: instructions_bytes_def)
qed

lemma ExecutePostedVaa_layout_codes:
  assumes env: "gov_env_ok env" and fits: "length (instructions_bytes env ixs) \<le> 1232"
  shows "lay_encode (ExecutePostedVaa_layout env) (JArr (map (instruction_to_js env) ixs)) (replicate 1232 0) 0
      = Inr (length (instructions_bytes env ixs),
          buf_set (replicate 1232 0) 0 (instructions_bytes env ixs))" (is ?enc)
    and "lay_decode (ExecutePostedVaa_layout env) (instructions_bytes env ixs) 0 =
      Inr (JArr (map (instruction_decoded env) ixs))" (is ?dec)
proof -
  note bl = gov_env_bl [OF env]
  let ?xs = "map (\<lambda>ix. (instruction_to_js env ix, instruction_decoded env ix, instruction_bytes env ix)) ixs"
  note bnd = instructions_bytes_bounds [OF env fits]
  have xs: "list_all (field_codes (instructionDataLayout (env_bl env))) ?xs"
    using bnd(2) by (simp add: list_all_iff codes_instruction [OF env])
  have len: "length ?xs < 256 ^ 4" using bnd(1) by simp
  show ?enc
    using Vector_encode [OF bl xs len, of 0 "replicate 1232 0" "''instructions''"] fits
    by (simp add: ExecutePostedVaa_layout_def instructions_bytes_def comp_def)
  show ?dec
    using Vector_decode [OF bl xs len, of 0 "instructions_bytes env ixs" "''instructions''"]
    by (simp add: ExecutePostedVaa_layout_def instructions_bytes_def comp_def)
qed

section \<open>Every valid action is decoded again\<close>

fun action_header :: "'pk governance_action \<Rightarrow> governance_header" where
  "action_header (ExecutePostedVaa c _) = \<lparr>hdr_targetChainId = c, hdr_action = ''ExecutePostedVaa''\<rparr>"
| "action_header (CosmosUpgradeContract c _) = \<lparr>hdr_targetChainId = c, hdr_action = ''UpgradeContract''\<rparr>"
| "action_header (UpgradeContract256Bit c _) = \<lparr>hdr_targetChainId = c, hdr_action = ''UpgradeContract''\<rparr>"
| "action_header (EvmUpgradeContract c _) = \<lparr>hdr_targetChainId = c, hdr_action = ''UpgradeContract''\<rparr>"
| "action_header (AuthorizeGovernanceDataSourceTransfer c _) =
     \<lparr>hdr_targetChainId = c, hdr_action = ''AuthorizeGovernanceDataSourceTransfer''\<rparr>"
| "action_header (RequestGovernanceDataSourceTransfer c _) =
     \<lparr>hdr_targetChainId = c, hdr_action = ''RequestGovernanceDataSourceTransfer''\<rparr>"
| "action_header (SetDataSources c _) = \<lparr>hdr_targetChainId = c, hdr_action = ''SetDataSources''\<rparr>"
| "action_header (SetFee c _ _) = \<lparr>hdr_targetChainId = c, hdr_action = ''SetFee''\<rparr>"
| "action_header (SetFeeInToken c _ _ _) = \<lparr>hdr_targetChainId = c, hdr_action = ''SetFeeInToken''\<rparr>"
| "action_header (SetValidPeriod c _) = \<lparr>hdr_targetChainId = c, hdr_action = ''SetValidPeriod''\<rparr>"
| "action_header (EvmSetWormholeAddress c _) = \<lparr>hdr_targetChainId = c, hdr_action = ''SetWormholeAddress''\<rparr>"
| "action_header (StarknetSetWormholeAddress c _) =
     \<lparr>hdr_targetChainId = c, hdr_action = ''SetWormholeAddress''\<rparr>"
| "action_header (EvmExecute c _ _ _ _) = \<lparr>hdr_targetChainId = c, hdr_action = ''Execute''\<rparr>"
| "action_header (SetTransactionFee c _ _) = \<lparr>hdr_targetChainId = c, hdr_action = ''SetTransactionFee''\<rparr>"
| "action_header (WithdrawFee c _ _ _) = \<lparr>hdr_targetChainId = c, hdr_action = ''WithdrawFee''\<rparr>"
| "action_header (UpgradeSuiLazerContract c _ _) =
     \<lparr>hdr_targetChainId = c, hdr_action = ''UpgradeSuiLazerContract''\<rparr>"
| "action_header (UpdateTrustedSigner264Bit c _ _) =
     \<lparr>hdr_targetChainId = c, hdr_action = ''UpdateTrustedSigner''\<rparr>"

text \<open>The ranges of the fields: what the wire format can carry.\<close>

fun valid_payload :: "'pk gov_env \<Rightarrow> 'pk governance_action \<Rightarrow> bool" where
  "valid_payload env (ExecutePostedVaa _ ixs) \<longleftrightarrow> length (instructions_bytes env ixs) \<le> 1232"
| "valid_payload env (CosmosUpgradeContract _ i) \<longleftrightarrow> u64 i"
| "valid_payload env (UpgradeContract256Bit _ h) \<longleftrightarrow> is_hex 32 h"
| "valid_payload env (EvmUpgradeContract _ a) \<longleftrightarrow> is_hex 20 a"
| "valid_payload env (AuthorizeGovernanceDataSourceTransfer _ v) \<longleftrightarrow> True"
| "valid_payload env (RequestGovernanceDataSourceTransfer _ i) \<longleftrightarrow> 0 \<le> i \<and> i < 2 ^ 32"
| "valid_payload env (SetDataSources _ ds) \<longleftrightarrow> length ds < 256 \<and> list_all valid_data_source ds"
| "valid_payload env (SetFee _ v e) \<longleftrightarrow> u64 v \<and> u64 e"
| "valid_payload env (SetFeeInToken _ v e t) \<longleftrightarrow> u64 v \<and> u64 e \<and> length t < 256"
| "valid_payload env (SetValidPeriod _ p) \<longleftrightarrow> u64 p"
| "valid_payload env (EvmSetWormholeAddress _ a) \<longleftrightarrow> is_hex 20 a"
| "valid_payload env (StarknetSetWormholeAddress _ a) \<longleftrightarrow> is_hex 32 a"
| "valid_payload env (EvmExecute _ e a v d) \<longleftrightarrow> is_hex 20 e \<and> is_hex 20 a \<and> u256 v"
| "valid_payload env (SetTransactionFee _ v e) \<longleftrightarrow> u64 v \<and> u64 e"
| "valid_payload env (WithdrawFee _ t v e) \<longleftrightarrow> length t = 20 \<and> u64 v \<and> u64 e"
| "valid_payload env (UpgradeSuiLazerContract _ v h) \<longleftrightarrow> u64 v \<and> is_hex 32 h"
| "valid_payload env (UpdateTrustedSigner264Bit _ k e) \<longleftrightarrow> is_hex 33 k \<and> u64 e"

definition valid_action :: "'pk gov_env \<Rightarrow> 'pk governance_action \<Rightarrow> bool" where
  "valid_action env a \<longleftrightarrow> valid_header env (action_header a) \<and> valid_payload env a"

definition roundtrips :: "'pk gov_env \<Rightarrow> 'pk governance_action \<Rightarrow> bool" where
  "roundtrips env a \<longleftrightarrow>
     (\<exists>bs. governance_encode env a = Inr bs \<and> decodeGovernancePayload env bs = Inr (Some a))"

lemma payload_spans [simp]:
  assumes "gov_env_ok env"
  shows "lay_span (CosmosUpgradeContract_layout env) = 8" "lay_span (UpgradeContract256Bit_layout env) = 32"
    "lay_span (EvmUpgradeContract_layout env) = 20" "lay_span (EvmSetWormholeAddress_layout env) = 20"
    "lay_span (StarknetSetWormholeAddress_layout env) = 32" "lay_span (SetFeeInToken_layout env) = 17"
  using assms
  by (simp_all add: CosmosUpgradeContract_layout_def UpgradeContract256Bit_layout_def
      EvmUpgradeContract_layout_def EvmSetWormholeAddress_layout_def StarknetSetWormholeAddress_layout_def
      SetFeeInToken_layout_def struct_span_def buffer_layout_properties)

lemmas roundtrip_defs = roundtrips_def decodeGovernancePayload_def js_access is_hex_bytes

lemma roundtrip_cosmos:
  "gov_env_ok env \<Longrightarrow> valid_action env (CosmosUpgradeContract c i) \<Longrightarrow> roundtrips env (CosmosUpgradeContract c i)"
  by (rule cosmos_upgrade.encode_decode [of env i c])
    (auto simp: valid_action_def roundtrip_defs CosmosUpgradeContract_encode_def CosmosUpgradeContract_decode_def)

lemma roundtrip_upgrade_256:
  "gov_env_ok env \<Longrightarrow> valid_action env (UpgradeContract256Bit c h) \<Longrightarrow> roundtrips env (UpgradeContract256Bit c h)"
  by (rule upgrade_256.encode_decode [of env h c])
    (auto simp: valid_action_def roundtrip_defs UpgradeContract256Bit_encode_def UpgradeContract256Bit_decode_def)

lemma roundtrip_evm_upgrade:
  "gov_env_ok env \<Longrightarrow> valid_action env (EvmUpgradeContract c s) \<Longrightarrow> roundtrips env (EvmUpgradeContract c s)"
  by (rule evm_upgrade.encode_decode [of env s c])
    (auto simp: valid_action_def roundtrip_defs EvmUpgradeContract_encode_def EvmUpgradeContract_decode_def)

lemma roundtrip_lazer_upgrade:
  "gov_env_ok env \<Longrightarrow> valid_action env (UpgradeSuiLazerContract c v h) \<Longrightarrow> roundtrips env (UpgradeSuiLazerContract c v h)"
  by (rule lazer_upgrade.encode_decode [of env "(v, h)" c])
    (auto simp: valid_action_def roundtrip_defs UpgradeSuiLazerContract_encode_def UpgradeSuiLazerContract_decode_def)

lemma roundtrip_trusted_signer:
  "gov_env_ok env \<Longrightarrow> valid_action env (UpdateTrustedSigner264Bit c k e) \<Longrightarrow> roundtrips env (UpdateTrustedSigner264Bit c k e)"
  by (rule trusted_signer.encode_decode [of env "(k, e)" c])
    (auto simp: valid_action_def roundtrip_defs UpdateTrustedSigner264Bit_encode_def UpdateTrustedSigner264Bit_decode_def)

lemma roundtrip_request_transfer:
  "gov_env_ok env \<Longrightarrow> valid_action env (RequestGovernanceDataSourceTransfer c i) \<Longrightarrow> roundtrips env (RequestGovernanceDataSourceTransfer c i)"
  by (rule request_transfer.encode_decode [of env "nat i" c])
    (auto simp: valid_action_def roundtrip_defs RequestGovernanceDataSourceTransfer_encode_def RequestGovernanceDataSourceTransfer_decode_def)

lemma roundtrip_set_fee:
  "gov_env_ok env \<Longrightarrow> valid_action env (SetFee c v e) \<Longrightarrow> roundtrips env (SetFee c v e)"
  by (rule set_fee.encode_decode [of env "(v, e)" c])
    (auto simp: valid_action_def roundtrip_defs SetFee_encode_def SetFee_decode_def)

lemma roundtrip_valid_period:
  "gov_env_ok env \<Longrightarrow> valid_action env (SetValidPeriod c p) \<Longrightarrow> roundtrips env (SetValidPeriod c p)"
  by (rule valid_period.encode_decode [of env p c])
    (auto simp: valid_action_def roundtrip_defs SetValidPeriod_encode_def SetValidPeriod_decode_def)

lemma roundtrip_evm_wormhole:
  "gov_env_ok env \<Longrightarrow> valid_action env (EvmSetWormholeAddress c s) \<Longrightarrow> roundtrips env (EvmSetWormholeAddress c s)"
  by (rule evm_wormhole.encode_decode [of env s c])
    (auto simp: valid_action_def roundtrip_defs EvmSetWormholeAddress_encode_def EvmSetWormholeAddress_decode_def)

lemma roundtrip_starknet_wormhole:
  "gov_env_ok env \<Longrightarrow> valid_action env (StarknetSetWormholeAddress c s) \<Longrightarrow> roundtrips env (StarknetSetWormholeAddress c s)"
  by (rule starknet_wormhole.encode_decode [of env s c])
    (auto simp: valid_action_def roundtrip_defs StarknetSetWormholeAddress_encode_def StarknetSetWormholeAddress_decode_def)

lemma roundtrip_evm_execute:
  "gov_env_ok env \<Longrightarrow> valid_action env (EvmExecute c e a v d) \<Longrightarrow> roundtrips env (EvmExecute c e a v d)"
  by (rule evm_execute.encode_decode [of env "(e, a, v, d)" c])
    (auto simp: valid_action_def roundtrip_defs EvmExecute_encode_def EvmExecute_decode_def)

lemma roundtrip_transaction_fee:
  "gov_env_ok env \<Longrightarrow> valid_action env (SetTransactionFee c v e) \<Longrightarrow> roundtrips env (SetTransactionFee c v e)"
  by (rule transaction_fee.encode_decode [of env "(v, e)" c])
    (auto simp: valid_action_def roundtrip_defs SetTransactionFee_encode_def SetTransactionFee_decode_def)

lemma roundtrip_withdraw_fee:
  "gov_env_ok env \<Longrightarrow> valid_action env (WithdrawFee c t v e) \<Longrightarrow> roundtrips env (WithdrawFee c t v e)"
  by (rule withdraw_fee.encode_decode [of env "(t, v, e)" c])
    (auto simp: valid_action_def roundtrip_defs WithdrawFee_encode_def WithdrawFee_decode_def)

text \<open>The four classes that build their message by hand: the header, then bytes of their own.\<close>

lemma valid_action_header:
  assumes "gov_env_ok env" and "valid_action env a"
  shows "\<exists>h. PythGovernanceHeader_encode env (action_header a) = Inr h \<and> length h = header_span \<and>
    (\<forall>r. PythGovernanceHeader_decode env (h @ r) = Some (action_header a))"
  using header_roundtrip_aux [OF assms(1), of "action_header a"] assms(2)
  by (metis valid_action_def header_span_def)

lemma roundtrip_execute_posted:
  assumes env: "gov_env_ok env" and v: "valid_action env (ExecutePostedVaa c ixs)"
  shows "roundtrips env (ExecutePostedVaa c ixs)"
proof -
  obtain h where h: "PythGovernanceHeader_encode env (action_header (ExecutePostedVaa c ixs)) = Inr h"
      "length h = header_span"
      "\<forall>r. PythGovernanceHeader_decode env (h @ r) = Some (action_header (ExecutePostedVaa c ixs))"
    using valid_action_header [OF env v] by blast
  have fits: "length (instructions_bytes env ixs) \<le> 1232" using v by (simp add: valid_action_def)
  note code = ExecutePostedVaa_layout_codes [OF env fits]
  have "buf_subarray (buf_set (replicate 1232 0) 0 (instructions_bytes env ixs)) 0
      (length (instructions_bytes env ixs)) = instructions_bytes env ixs"
    using buf_subarray_buf_set [of 0 "instructions_bytes env ixs" "replicate 1232 0"] fits by simp
  then have "governance_encode env (ExecutePostedVaa c ixs) = Inr (h @ instructions_bytes env ixs)"
    using h(1) code(1) env by (simp add: ExecutePostedVaa_encode_def)
  moreover have "ExecutePostedVaa_decode env (h @ instructions_bytes env ixs) = Some (ExecutePostedVaa c ixs)"
    using h(2,3) code(2)
    by (simp add: ExecutePostedVaa_decode_def safeLayoutDecode_def js_arr_def comp_def
        js_to_instruction_decoded [OF env])
  ultimately show ?thesis using h(3) by (simp add: roundtrip_defs)
qed

lemma roundtrip_authorize:
  assumes env: "gov_env_ok env" and v: "valid_action env (AuthorizeGovernanceDataSourceTransfer c vaa)"
  shows "roundtrips env (AuthorizeGovernanceDataSourceTransfer c vaa)"
  using valid_action_header [OF env v]
  by (auto simp: roundtrip_defs AuthorizeGovernanceDataSourceTransfer_encode_def
      AuthorizeGovernanceDataSourceTransfer_decode_def)

lemma roundtrip_data_sources:
  assumes env: "gov_env_ok env" and v: "valid_action env (SetDataSources c ds)"
  shows "roundtrips env (SetDataSources c ds)"
proof -
  obtain h where h: "PythGovernanceHeader_encode env \<lparr>hdr_targetChainId = c, hdr_action = ''SetDataSources''\<rparr> = Inr h"
      "length h = header_span"
      "\<forall>r. PythGovernanceHeader_decode env (h @ r) = Some \<lparr>hdr_targetChainId = c, hdr_action = ''SetDataSources''\<rparr>"
    using valid_action_header [OF env v] by auto
  have n: "length ds < 256" and ds: "list_all valid_data_source ds" using v by (simp_all add: valid_action_def)
  note u8 = codes_u8 [OF gov_env_bl [OF env] n, of "''''"]
  let ?n = "[byte_of_nat (length ds)]" and ?r = "concat (map data_source_bytes ds)"
  have "map_res (encode_data_source env) ds = Inr (map data_source_bytes ds)"
    using ds encode_data_source_bytes [OF env] by (intro map_res_Inr_map) (auto simp: list_all_iff)
  moreover have "lay_encode (bl_u8 (env_bl env) '''') (JNum (int (length ds))) [0] 0 = Inr (1, ?n)"
    using codes_encode [OF u8, of 0 "[0]"] by (simp add: buf_set_def)
  ultimately have "governance_encode env (SetDataSources c ds) = Inr (h @ ?n @ ?r)"
    using h(1) by (simp add: SetDataSources_encode_def)
  moreover have "lay_decode (bl_u8 (env_bl env) '''') (h @ ?n @ ?r) header_span = Inr (JNum (int (length ds)))"
    using codes_decode_append [OF u8] h(2) by blast
  moreover have "decode_data_sources env ((h @ ?n) @ ?r) (header_span + 1) (length ds) = Inr ds"
    using h(2) by (intro decode_data_sources_bytes [OF env ds]) simp
  ultimately show ?thesis
    using h(3) by (simp add: roundtrip_defs SetDataSources_decode_def)
qed

lemma codes_SetFeeInToken:
  assumes "gov_env_ok env" and "u64 v" and "u64 e" and "n < 256"
  shows "codes (SetFeeInToken_layout env)
    (JObj [(''newFeeExpo'', JBig e), (''newFeeValue'', JBig v), (''tokenLen'', JNum (int n))])
    (JObj [(''newFeeValue'', JBig v), (''newFeeExpo'', JBig e), (''tokenLen'', JNum (int n))])
    (be_bytes 8 (nat v) @ be_bytes 8 (nat e) @ [byte_of_nat n])"
  using assms
  by (auto simp: SetFeeInToken_layout_def struct_codes_simps
      intro!: codes_structI [of _ _ "codes_u64_1 v @ codes_u64_1 e @
        [(JNum (int n), JNum (int n), [byte_of_nat n])]"])

lemma roundtrip_fee_in_token:
  assumes env: "gov_env_ok env" and v: "valid_action env (SetFeeInToken c f e t)"
  shows "roundtrips env (SetFeeInToken c f e t)"
proof -
  obtain h where h: "PythGovernanceHeader_encode env \<lparr>hdr_targetChainId = c, hdr_action = ''SetFeeInToken''\<rparr> = Inr h"
      "length h = header_span"
      "\<forall>r. PythGovernanceHeader_decode env (h @ r) = Some \<lparr>hdr_targetChainId = c, hdr_action = ''SetFeeInToken''\<rparr>"
    using valid_action_header [OF env v] by auto
  have "codes (SetFeeInToken_layout env)
      (JObj [(''newFeeExpo'', JBig e), (''newFeeValue'', JBig f), (''tokenLen'', JNum (int (length t)))])
      (JObj [(''newFeeValue'', JBig f), (''newFeeExpo'', JBig e), (''tokenLen'', JNum (int (length t)))])
      (be_bytes 8 (nat f) @ be_bytes 8 (nat e) @ [byte_of_nat (length t)])" (is "codes _ ?v ?w ?b")
    using v env by (intro codes_SetFeeInToken) (auto simp: valid_action_def)
  note code = this
  have len: "length ?b = 17" by simp
  have "governance_encode env (SetFeeInToken c f e t) = Inr (h @ ?b @ t)"
    using h(1) codes_encodes [OF code] env len
    by (simp add: SetFeeInToken_encode_def buffer_alloc_def del: length_append)
  moreover have "lay_decode (SetFeeInToken_layout env) (h @ ?b @ t) header_span = Inr ?w"
    using codes_decode_append [OF code] h(2) by blast
  moreover have "nat (int header_span + 17) = header_span + 17" by simp
  ultimately show ?thesis
    using h(2,3) env by (simp add: roundtrip_defs SetFeeInToken_decode_def)
qed

lemmas action_roundtrips = roundtrip_execute_posted roundtrip_authorize roundtrip_data_sources
  roundtrip_fee_in_token roundtrip_cosmos roundtrip_upgrade_256 roundtrip_evm_upgrade
  roundtrip_lazer_upgrade roundtrip_trusted_signer roundtrip_request_transfer roundtrip_set_fee
  roundtrip_valid_period roundtrip_evm_wormhole roundtrip_starknet_wormhole roundtrip_evm_execute
  roundtrip_transaction_fee roundtrip_withdraw_fee

lemma governance_roundtrips: "gov_env_ok env \<Longrightarrow> valid_action env a \<Longrightarrow> roundtrips env a"
  by (cases a) (simp_all add: action_roundtrips)

text \<open>
  C3. The dispatcher decodes what the classes encode: every action whose fields are in range, of
  any of the seventeen classes, encodes without an exception to a message that
  \<^verbatim>\<open>decodeGovernancePayload\<close> decodes to the same action, of the same class.
\<close>

theorem governance_encode_decode:
  assumes "gov_env_ok env" and "valid_action env a"
  shows "\<exists>bs. governance_encode env a = Inr bs \<and> decodeGovernancePayload env bs = Inr (Some a)"
  using governance_roundtrips [OF assms] by (simp add: roundtrips_def)

text \<open>Two different valid actions never share an encoding.\<close>

theorem governance_encode_inject:
  assumes "gov_env_ok env" and "valid_action env a" and "valid_action env b"
  shows "governance_encode env a = governance_encode env b \<longleftrightarrow> a = b"
  using governance_roundtrips [OF assms(1,2)] governance_roundtrips [OF assms(1,3)]
  by (auto simp: roundtrips_def)

section \<open>What the dispatcher accepts\<close>

lemmas decoder_defs = CosmosUpgradeContract_decode_def UpgradeContract256Bit_decode_def
  EvmUpgradeContract_decode_def AuthorizeGovernanceDataSourceTransfer_decode_def
  RequestGovernanceDataSourceTransfer_decode_def SetFee_decode_def SetValidPeriod_decode_def
  EvmSetWormholeAddress_decode_def StarknetSetWormholeAddress_decode_def EvmExecute_decode_def
  SetTransactionFee_decode_def WithdrawFee_decode_def UpgradeSuiLazerContract_decode_def
  UpdateTrustedSigner264Bit_decode_def ExecutePostedVaa_decode_def

text \<open>
  C4. The action the dispatcher returns is the one the header of the message names, for the chain
  the header names: whatever the payload holds, a message is never shown as an action on another
  chain or of another kind.
\<close>

theorem decodeGovernancePayload_header:
  assumes "decodeGovernancePayload env d = Inr (Some a)"
  shows "PythGovernanceHeader_decode env d = Some (action_header a)"
proof -
  obtain h where h: "PythGovernanceHeader_decode env d = Some h"
    using assms by (auto simp: decodeGovernancePayload_def split: option.splits)
  have "h = action_header a"
    using assms h
    by (cases h) (auto simp: decodeGovernancePayload_def Let_def decoder_defs SetDataSources_decode_def
        SetFeeInToken_decode_def res_simps decodeWithPayload_def split: if_splits option.splits)
  with h show ?thesis by simp
qed

text \<open>
  The decoder can only throw on a \<^verbatim>\<open>SetDataSources\<close> or a \<^verbatim>\<open>SetFeeInToken\<close> message; every other
  message gives an action or \<^verbatim>\<open>undefined\<close>.
\<close>

theorem decodeGovernancePayload_throws:
  assumes "decodeGovernancePayload env d = Inl e"
  shows "\<exists>h. PythGovernanceHeader_decode env d = Some h \<and>
    (hdr_action h = ''SetDataSources'' \<or> hdr_action h = ''SetFeeInToken'')"
  using assms
  by (auto simp: decodeGovernancePayload_def Let_def split: if_splits option.splits)

lemma SetFee_layout_decode_any:
  assumes env: "gov_env_ok env"
  shows "lay_decode (SetFee_layout env) p 0 = Inr (JObj [(''newFeeValue'', JBig (int (be_nat (take 8 p)))),
    (''newFeeExpo'', JBig (int (be_nat (take 8 (drop 8 p)))))])"
proof -
  have big: "env_toBigIntBE env bs = int (be_nat bs)" for bs
    using env unfolding gov_env_ok_def by blast
  have "lay_decode (SetFee_layout env) p 0 =
      map_sum id JObj (struct_decode [u64be env ''newFeeValue'', u64be env ''newFeeExpo''] p 0)"
    using gov_env_bl [OF env] by (simp add: SetFee_layout_def buffer_layout_spec_def)
  then show ?thesis
    by (simp add: u64be_def UIntBE_def big buf_subarray_def)
qed

text \<open>
  The fee of a \<^verbatim>\<open>SetFee\<close> message is read from whatever bytes follow the header: the decoder
  has no length check.  Trailing bytes are ignored, and a payload that is cut short is read as if
  the missing bytes did not exist, so a message that ends after its header is shown as a fee of 0.
\<close>

theorem SetFee_decode_any_payload:
  assumes "gov_env_ok env" and "valid_header env \<lparr>hdr_targetChainId = c, hdr_action = ''SetFee''\<rparr>"
  shows "\<exists>h. PythGovernanceHeader_encode env \<lparr>hdr_targetChainId = c, hdr_action = ''SetFee''\<rparr> = Inr h \<and>
    (\<forall>p. decodeGovernancePayload env (h @ p) =
       Inr (Some (SetFee c (int (be_nat (take 8 p))) (int (be_nat (take 8 (drop 8 p))))))) \<and>
    decodeGovernancePayload env h = Inr (Some (SetFee c 0 0))"
proof -
  obtain h where h: "PythGovernanceHeader_encode env \<lparr>hdr_targetChainId = c, hdr_action = ''SetFee''\<rparr> = Inr h"
      "length h = 8" "\<forall>r. PythGovernanceHeader_decode env (h @ r) =
        Some \<lparr>hdr_targetChainId = c, hdr_action = ''SetFee''\<rparr>"
    using header_roundtrip_aux [OF assms] by metis
  have any: "decodeGovernancePayload env (h @ p) =
      Inr (Some (SetFee c (int (be_nat (take 8 p))) (int (be_nat (take 8 (drop 8 p))))))" for p
    using h(2,3) SetFee_layout_decode_any [OF assms(1), of p]
    by (simp add: decodeGovernancePayload_def SetFee_decode_def decodeWithPayload_def safeLayoutDecode_def
        header_span_def js_access)
  then show ?thesis using h(1) any [of "[]"] by auto
qed

section \<open>Witnesses\<close>

definition sample_action :: "256 word governance_action" where
  "sample_action = SetDataSources ''fluent_testnet''
     [\<lparr>ds_emitterChain = 1, ds_emitterAddress = bytes_to_hex (replicate 32 7)\<rparr>]"

definition sample_execute :: "256 word governance_action" where
  "sample_execute = ExecutePostedVaa ''fluent_testnet''
     [\<lparr>ix_data = [1, 2], ix_keys = [\<lparr>am_isSigner = True, am_isWritable = False, am_pubkey = 5\<rparr>],
       ix_programId = 9\<rparr>]"

lemma sample_action_valid: "valid_action ref_gov_env sample_action"
  by (simp add: valid_action_def sample_action_def ref_valid_header ACTIONS_eq valid_data_source_def)

lemma sample_execute_valid: "valid_action ref_gov_env sample_execute"
  by (simp add: valid_action_def sample_execute_def ref_valid_header ACTIONS_eq instructions_bytes_def
      instruction_bytes_def account_bytes_def)

theorem governance_encode_decode_witness:
  "\<exists>bs. governance_encode ref_gov_env sample_action = Inr bs \<and>
     decodeGovernancePayload ref_gov_env bs = Inr (Some sample_action)"
  by (rule governance_encode_decode [OF ref_gov_env_ok sample_action_valid])

theorem governance_encode_inject_witness:
  "governance_encode ref_gov_env sample_action \<noteq> governance_encode ref_gov_env sample_execute"
  using governance_encode_inject [OF ref_gov_env_ok sample_action_valid sample_execute_valid]
  by (simp add: sample_action_def sample_execute_def)

theorem SetFee_decode_any_payload_witness:
  "\<exists>h. PythGovernanceHeader_encode ref_gov_env
      \<lparr>hdr_targetChainId = ''fluent_testnet'', hdr_action = ''SetFee''\<rparr> = Inr h \<and>
    decodeGovernancePayload ref_gov_env h = Inr (Some (SetFee ''fluent_testnet'' 0 0))"
  using SetFee_decode_any_payload [OF ref_gov_env_ok ref_valid_header [of "''SetFee''"]]
  by (auto simp: ACTIONS_eq)

lemma ref_decode_header:
  assumes "toActionName m i = Some a" and "m < 256" and "i < 256"
  shows "PythGovernanceHeader_decode ref_gov_env (header_bytes m i 50130 @ r) =
    Some \<lparr>hdr_targetChainId = ''fluent_testnet'', hdr_action = a\<rparr>"
  using be_bytes_2_nth [OF refl assms(2,3), of 50130 r] assms(1)
  by (simp add: header_decode_cases ref_gov_env_chain)

theorem decodeGovernancePayload_header_witness:
  "PythGovernanceHeader_decode ref_gov_env (header_bytes 1 3 50130) =
     Some (action_header (SetFee ''fluent_testnet'' 0 0 :: 256 word governance_action))"
proof (rule decodeGovernancePayload_header)
  show "decodeGovernancePayload ref_gov_env (header_bytes 1 3 50130) = Inr (Some (SetFee ''fluent_testnet'' 0 0))"
    using ref_decode_header [of 1 3 "''SetFee''" "[]"] SetFee_layout_decode_any [OF ref_gov_env_ok, of "[]"]
    by (simp add: decodeGovernancePayload_def SetFee_decode_def decodeWithPayload_def safeLayoutDecode_def
        header_span_def js_access toActionName_def action_tables)
qed

theorem decodeGovernancePayload_throws_witness:
  "decodeGovernancePayload ref_gov_env (header_bytes 1 2 50130) = Inl RangeError \<and>
   (\<exists>h. PythGovernanceHeader_decode ref_gov_env (header_bytes 1 2 50130) = Some h \<and>
      (hdr_action h = ''SetDataSources'' \<or> hdr_action h = ''SetFeeInToken''))"
proof -
  have "lay_decode (bl_u8 (env_bl ref_gov_env) '''') (header_bytes 1 2 50130) 8 = Inl RangeError"
    by (simp add: ref_gov_env_def ref_buffer_layout_def ref_uint_def)
  then have "decodeGovernancePayload ref_gov_env (header_bytes 1 2 50130) = Inl RangeError"
    using ref_decode_header [of 1 2 "''SetDataSources''" "[]"]
    by (simp add: decodeGovernancePayload_def SetDataSources_decode_def header_span_def toActionName_def
        action_tables)
  with decodeGovernancePayload_throws [OF this] show ?thesis by simp
qed

end
