(* ===== verification/Price_Store.thy ===== *)
theory Price_Store
  imports Governance_Payload
begin

text \<open>
  The instructions of the price store program
  (\<^verbatim>\<open>governance/xc_admin/packages/xc_admin_common/src/price_store.ts\<close>): building them, parsing a
  proposed instruction back, and the deterministic buffer account of a publisher.  The key
  operations of \<^verbatim>\<open>@solana/web3.js\<close> are the record \<open>price_store_env\<close>; \<open>price_store_env_ok\<close> says that a
  key is its 32 bytes and a bump is a byte.
\<close>

record 'pk price_store_env =
  pse_PublicKey :: "string \<Rightarrow> 'pk"
  pse_newPublicKey :: "bytes \<Rightarrow> 'pk"
  pse_toBuffer :: "'pk \<Rightarrow> bytes"
  pse_toBase58 :: "'pk \<Rightarrow> string"
  pse_findProgramAddressSync :: "bytes list \<Rightarrow> 'pk \<Rightarrow> 'pk \<times> nat"
  pse_createWithSeed :: "'pk \<Rightarrow> string \<Rightarrow> 'pk \<Rightarrow> 'pk"
  pse_SystemProgram_programId :: 'pk
  pse_MAX_SEED_LENGTH :: nat

definition price_store_env_ok :: "'pk price_store_env \<Rightarrow> bool" where
  "price_store_env_ok env \<longleftrightarrow>
     (\<forall>pk. length (pse_toBuffer env pk) = 32) \<and>
     (\<forall>pk. pse_newPublicKey env (pse_toBuffer env pk) = pk) \<and>
     (\<forall>seeds pk. snd (pse_findProgramAddressSync env seeds pk) < 256) \<and>
     pse_MAX_SEED_LENGTH env = 32"

text \<open>\<^verbatim>\<open>JSON.stringify\<close> of a buffer and of accounts.\<close>

fun join_comma :: "string list \<Rightarrow> string" where
  "join_comma [] = ''''"
| "join_comma [s] = s"
| "join_comma (s # ss) = s @ '','' @ join_comma ss"

definition json_buffer :: "bytes \<Rightarrow> string" where
  "json_buffer b =
     ''{\"type\":\"Buffer\",\"data\":['' @ join_comma (map (\<lambda>x. show_nat (unat x)) b) @ '']}''"

definition json_bool :: "bool \<Rightarrow> string" where
  "json_bool b = (if b then ''true'' else ''false'')"

definition json_account :: "'pk price_store_env \<Rightarrow> 'pk account_meta \<Rightarrow> string" where
  "json_account env a =
     ''{\"isSigner\":'' @ json_bool (am_isSigner a) @ '',\"isWritable\":'' @ json_bool (am_isWritable a) @
     '',\"pubkey\":\"'' @ pse_toBase58 env (am_pubkey a) @ ''\"}''"

definition json_accounts :: "'pk price_store_env \<Rightarrow> 'pk account_meta list \<Rightarrow> string" where
  "json_accounts env as = ''['' @ join_comma (map (json_account env) as) @ '']''"

section \<open>Instructions\<close>

definition PRICE_STORE_PROGRAM_ID :: "'pk price_store_env \<Rightarrow> 'pk" where
  "PRICE_STORE_PROGRAM_ID env = pse_PublicKey env ''3m6sv6HGqEbuyLV84mD7rJn4MAC9LhUa1y1AUNVqcPfr''"

text \<open>\<^verbatim>\<open>Initialize payerKey authorityKey\<close> and \<^verbatim>\<open>InitializePublisher authorityKey publisherKey bufferKey\<close>.\<close>

datatype 'pk price_store_instruction =
    Initialize 'pk 'pk
  | InitializePublisher 'pk 'pk 'pk

definition InstructionId_Initialize :: nat where "InstructionId_Initialize = 0"
definition InstructionId_SubmitPrices :: nat where "InstructionId_SubmitPrices = 1"
definition InstructionId_InitializePublisher :: nat where "InstructionId_InitializePublisher = 2"

lemmas instruction_ids =
  InstructionId_Initialize_def InstructionId_SubmitPrices_def InstructionId_InitializePublisher_def

definition PRICE_STORE_BUFFER_SPACE :: nat where "PRICE_STORE_BUFFER_SPACE = 100048"

definition findPriceStoreConfigAddress :: "'pk price_store_env \<Rightarrow> 'pk \<times> nat" where
  "findPriceStoreConfigAddress env =
     pse_findProgramAddressSync env [ascii_bytes ''CONFIG''] (PRICE_STORE_PROGRAM_ID env)"

definition findPriceStorePublisherConfigAddress :: "'pk price_store_env \<Rightarrow> 'pk \<Rightarrow> 'pk \<times> nat" where
  "findPriceStorePublisherConfigAddress env publisherKey =
     pse_findProgramAddressSync env [ascii_bytes ''PUBLISHER_CONFIG'', pse_toBuffer env publisherKey]
       (PRICE_STORE_PROGRAM_ID env)"

abbreviation meta :: "bool \<Rightarrow> bool \<Rightarrow> 'pk \<Rightarrow> 'pk account_meta" where
  "meta s w k \<equiv> \<lparr>am_isSigner = s, am_isWritable = w, am_pubkey = k\<rparr>"

definition createPriceStoreInstruction ::
  "'pk price_store_env \<Rightarrow> 'pk price_store_instruction \<Rightarrow> 'pk transaction_instruction" where
  "createPriceStoreInstruction env data =
     (case data of
        Initialize payerKey authorityKey \<Rightarrow>
          (let (configKey, configBump) = findPriceStoreConfigAddress env in
           \<lparr>ix_data = [byte_of_nat InstructionId_Initialize, byte_of_nat configBump] @
              pse_toBuffer env authorityKey,
            ix_keys = [meta True True payerKey, meta False True configKey,
              meta False False (pse_SystemProgram_programId env)],
            ix_programId = PRICE_STORE_PROGRAM_ID env\<rparr>)
      | InitializePublisher authorityKey publisherKey bufferKey \<Rightarrow>
          (let (configKey, configBump) = findPriceStoreConfigAddress env;
               (publisherConfigKey, publisherConfigBump) =
                 findPriceStorePublisherConfigAddress env publisherKey in
           \<lparr>ix_data = [byte_of_nat InstructionId_InitializePublisher, byte_of_nat configBump,
                byte_of_nat publisherConfigBump] @ pse_toBuffer env publisherKey,
            ix_keys = [meta True True authorityKey, meta False False configKey,
              meta False True publisherConfigKey, meta False True bufferKey,
              meta False False (pse_SystemProgram_programId env)],
            ix_programId = PRICE_STORE_PROGRAM_ID env\<rparr>))"

text \<open>The checks after the switch: the instruction is compared with the one built from the parsed data.\<close>

definition accountEquals :: "'pk account_meta \<Rightarrow> 'pk account_meta \<Rightarrow> bool" where
  "accountEquals a b \<longleftrightarrow> am_isSigner a = am_isSigner b \<and> am_isWritable a = am_isWritable b \<and>
     am_pubkey a = am_pubkey b"

definition accountMismatch :: "'pk account_meta list \<Rightarrow> 'pk account_meta list \<Rightarrow> bool" where
  "accountMismatch expected actual \<longleftrightarrow> list_ex (\<lambda>(ex, a). \<not> accountEquals ex a) (zip expected actual)"

definition check_expected ::
  "'pk price_store_env \<Rightarrow> 'pk transaction_instruction \<Rightarrow> 'pk price_store_instruction \<Rightarrow>
   'pk price_store_instruction res" where
  "check_expected env instruction data =
     (let expected = createPriceStoreInstruction env data in
      if ix_data expected \<noteq> ix_data instruction
        then Inl (Error (''invalid instruction data: expected '' @ json_buffer (ix_data expected) @
          '', got '' @ json_buffer (ix_data instruction)))
      else if accountMismatch (ix_keys expected) (ix_keys instruction)
        then Inl (Error (''invalid accounts: expected '' @ json_accounts env (ix_keys expected) @
          '', got '' @ json_accounts env (ix_keys instruction)))
      else Inr data)"

definition parsePriceStoreInstruction ::
  "'pk price_store_env \<Rightarrow> 'pk transaction_instruction \<Rightarrow> 'pk price_store_instruction res" where
  "parsePriceStoreInstruction env instruction =
     (if ix_programId instruction \<noteq> PRICE_STORE_PROGRAM_ID env then Inl (Error ''program ID mismatch'')
      else if length (ix_data instruction) = 0 then Inl (Error ''instruction data is too short'')
      else res_bind (readInt8 (ix_data instruction) 0) (\<lambda>instructionId.
        if instructionId = int InstructionId_Initialize then
          (if length (ix_data instruction) < 34 then Inl (Error ''instruction data is too short'')
           else if length (ix_keys instruction) \<noteq> 3 then Inl (Error ''invalid number of accounts'')
           else check_expected env instruction
             (Initialize (am_pubkey (ix_keys instruction ! 0))
               (pse_newPublicKey env (buf_subarray (ix_data instruction) 2 34))))
        else if instructionId = int InstructionId_InitializePublisher then
          (if length (ix_data instruction) < 35 then Inl (Error ''instruction data is too short'')
           else if length (ix_keys instruction) \<noteq> 5 then Inl (Error ''invalid number of accounts'')
           else check_expected env instruction
             (InitializePublisher (am_pubkey (ix_keys instruction ! 0))
               (pse_newPublicKey env (buf_subarray (ix_data instruction) 3 35))
               (am_pubkey (ix_keys instruction ! 3))))
        else if instructionId = int InstructionId_SubmitPrices
          then Inl (Error ''SubmitPrices instruction is not supported'')
        else Inl (Error ''unrecognized instruction id'')))"

section \<open>The multisig view and the deterministic buffer\<close>

definition UNRECOGNIZED_INSTRUCTION :: string where
  "UNRECOGNIZED_INSTRUCTION = ''unrecognizedInstruction''"

text \<open>The arguments shown: the parsed data, or the raw data and the text of the exception.\<close>

datatype 'pk multisig_args =
    ParsedArgs "'pk price_store_instruction"
  | UnrecognizedArgs bytes string

record 'pk price_store_multisig_instruction =
  pmi_name :: string
  pmi_args :: "'pk multisig_args"
  pmi_remaining :: "'pk account_meta list"

fun error_toString :: "js_error \<Rightarrow> string" where
  "error_toString (Error m) = ''Error: '' @ m"
| "error_toString RangeError = ''RangeError''"
| "error_toString TypeError = ''TypeError''"

fun instruction_type :: "'pk price_store_instruction \<Rightarrow> string" where
  "instruction_type (Initialize _ _) = ''Initialize''"
| "instruction_type (InitializePublisher _ _ _) = ''InitializePublisher''"

definition fromTransactionInstruction ::
  "'pk price_store_env \<Rightarrow> 'pk transaction_instruction \<Rightarrow> 'pk price_store_multisig_instruction" where
  "fromTransactionInstruction env instruction =
     (case parsePriceStoreInstruction env instruction of
        Inl e \<Rightarrow> \<lparr>pmi_name = UNRECOGNIZED_INSTRUCTION,
          pmi_args = UnrecognizedArgs (ix_data instruction) (error_toString e),
          pmi_remaining = ix_keys instruction\<rparr>
      | Inr result \<Rightarrow> \<lparr>pmi_name = instruction_type result, pmi_args = ParsedArgs result,
          pmi_remaining = ix_keys instruction\<rparr>)"

definition PRICE_FEED_OPS_KEY :: "'pk price_store_env \<Rightarrow> 'pk" where
  "PRICE_FEED_OPS_KEY env = pse_PublicKey env ''ACzP6RC98vcBk9oTeAwcH1o5HJvtBzU59b5nqdwc7Cxy''"

definition findDetermisticPublisherBufferAddress :: "'pk price_store_env \<Rightarrow> 'pk \<Rightarrow> 'pk \<times> string" where
  "findDetermisticPublisherBufferAddress env publisher =
     (let seedPrefix = ''Buffer'';
          seed = seedPrefix @ take (pse_MAX_SEED_LENGTH env - length seedPrefix) (pse_toBase58 env publisher) in
      (pse_createWithSeed env (PRICE_FEED_OPS_KEY env) seed (PRICE_STORE_PROGRAM_ID env), seed))"

text \<open>The parameters of \<^verbatim>\<open>SystemProgram.createAccountWithSeed\<close>, which builds the instruction.\<close>

record 'pk create_with_seed_params =
  cws_basePubkey :: 'pk
  cws_fromPubkey :: 'pk
  cws_lamports :: nat
  cws_newAccountPubkey :: 'pk
  cws_programId :: 'pk
  cws_seed :: string
  cws_space :: nat

definition createDeterministicPublisherBufferAccountInstruction ::
  "'pk price_store_env \<Rightarrow> ('pk create_with_seed_params \<Rightarrow> 'ix) \<Rightarrow> (nat \<Rightarrow> nat) \<Rightarrow> 'pk \<Rightarrow> 'pk \<Rightarrow> 'ix" where
  "createDeterministicPublisherBufferAccountInstruction env createAccountWithSeed
       getMinimumBalanceForRentExemption base publisher =
     (let (bufferKey, seed) = findDetermisticPublisherBufferAddress env publisher in
      createAccountWithSeed
        \<lparr>cws_basePubkey = base, cws_fromPubkey = base,
         cws_lamports = getMinimumBalanceForRentExemption PRICE_STORE_BUFFER_SPACE,
         cws_newAccountPubkey = bufferKey, cws_programId = PRICE_STORE_PROGRAM_ID env,
         cws_seed = seed, cws_space = PRICE_STORE_BUFFER_SPACE\<rparr>)"

definition createDetermisticPriceStoreInitializePublisherInstruction ::
  "'pk price_store_env \<Rightarrow> 'pk \<Rightarrow> 'pk \<Rightarrow> 'pk transaction_instruction" where
  "createDetermisticPriceStoreInitializePublisherInstruction env authorityKey publisherKey =
     (let bufferKey = fst (findDetermisticPublisherBufferAddress env publisherKey) in
      createPriceStoreInstruction env (InitializePublisher authorityKey publisherKey bufferKey))"

definition isPriceStorePublisherInitialized ::
  "'pk price_store_env \<Rightarrow> ('pk \<Rightarrow> 'info option) \<Rightarrow> 'pk \<Rightarrow> bool" where
  "isPriceStorePublisherInitialized env getAccountInfo publisherKey \<longleftrightarrow>
     getAccountInfo (fst (findPriceStorePublisherConfigAddress env publisherKey)) \<noteq> None"

definition isPriceStoreInitialized :: "'pk price_store_env \<Rightarrow> ('pk \<Rightarrow> 'info option) \<Rightarrow> bool" where
  "isPriceStoreInitialized env getAccountInfo \<longleftrightarrow>
     getAccountInfo (fst (findPriceStoreConfigAddress env)) \<noteq> None"

section \<open>Parsing is exactly the inverse of building\<close>

lemma price_store_key [simp]:
  assumes "price_store_env_ok env"
  shows "length (pse_toBuffer env pk) = 32" and "pse_newPublicKey env (pse_toBuffer env pk) = pk"
    and "pse_MAX_SEED_LENGTH env = 32"
  using assms unfolding price_store_env_ok_def by blast+

lemma readInt8_first:
  "n < 128 \<Longrightarrow> readInt8 (byte_of_nat n # r) 0 = Inr (int n)"
  by (simp add: readInt8_def read_be_def buf_subarray_def to_signed_def)

lemma accountMismatch_self [simp]: "\<not> accountMismatch ks ks"
  by (auto simp: accountMismatch_def accountEquals_def list_ex_iff set_zip)

lemma accountMismatch_iff: "length ks = length ks' \<Longrightarrow> accountMismatch ks ks' \<longleftrightarrow> ks \<noteq> ks'"
proof (induction ks ks' rule: list_induct2)
  case (Cons k ks k' ks')
  then show ?case
    by (cases k; cases k') (auto simp: accountMismatch_def accountEquals_def)
qed simp

lemma parse_create:
  assumes "price_store_env_ok env"
  shows "parsePriceStoreInstruction env (createPriceStoreInstruction env data) = Inr data"
  using assms
  by (cases data)
    (simp_all add: parsePriceStoreInstruction_def createPriceStoreInstruction_def check_expected_def
      instruction_ids readInt8_first buf_subarray_def split: prod.splits)

lemma ix_programId_create [simp]:
  "ix_programId (createPriceStoreInstruction env data) = PRICE_STORE_PROGRAM_ID env"
  by (cases data) (simp_all add: createPriceStoreInstruction_def split: prod.splits)

lemma length_keys_create:
  "length (ix_keys (createPriceStoreInstruction env data)) =
     (case data of Initialize _ _ \<Rightarrow> 3 | InitializePublisher _ _ _ \<Rightarrow> 5)"
  by (cases data) (simp_all add: createPriceStoreInstruction_def split: prod.splits)

lemma parse_sound:
  assumes "parsePriceStoreInstruction env ix = Inr data"
  shows "ix = createPriceStoreInstruction env data"
proof -
  let ?ex = "createPriceStoreInstruction env data"
  from assms have p: "ix_programId ix = PRICE_STORE_PROGRAM_ID env" and "check_expected env ix data = Inr data"
      and len: "length (ix_keys ix) = length (ix_keys ?ex)"
    by (auto simp: parsePriceStoreInstruction_def check_expected_def Let_def res_simps length_keys_create
        split: if_splits)
  then have "ix_data ix = ix_data ?ex" and "\<not> accountMismatch (ix_keys ?ex) (ix_keys ix)"
    by (auto simp: check_expected_def Let_def split: if_splits)
  then show ?thesis
    using p len accountMismatch_iff [of "ix_keys ?ex" "ix_keys ix"]
    by (intro transaction_instruction.equality) simp_all
qed

text \<open>
  C5. The parser accepts exactly the instructions the builder makes, and returns the data they were
  made from: an instruction with any other byte, account, flag or program id is rejected.
\<close>

theorem parsePriceStoreInstruction_iff:
  assumes "price_store_env_ok env"
  shows "parsePriceStoreInstruction env ix = Inr data \<longleftrightarrow> ix = createPriceStoreInstruction env data"
  using parse_create [OF assms] parse_sound by metis

text \<open>
  The view the multisig UI shows is a parsed instruction only when that instruction is the one
  the builder makes from the shown data; everything else is shown as unrecognised with its raw data.
\<close>

theorem fromTransactionInstruction_faithful:
  assumes "price_store_env_ok env"
  shows "pmi_remaining (fromTransactionInstruction env ix) = ix_keys ix \<and>
    (case pmi_args (fromTransactionInstruction env ix) of
       ParsedArgs data \<Rightarrow> ix = createPriceStoreInstruction env data \<and>
         pmi_name (fromTransactionInstruction env ix) = instruction_type data
     | UnrecognizedArgs raw _ \<Rightarrow> raw = ix_data ix \<and>
         pmi_name (fromTransactionInstruction env ix) = UNRECOGNIZED_INSTRUCTION \<and>
         (\<forall>data. ix \<noteq> createPriceStoreInstruction env data))"
  using parse_create [OF assms] parse_sound
  by (auto simp: fromTransactionInstruction_def split: sum.split)

text \<open>
  The deterministic instruction for a publisher parses back to the publisher's deterministic
  buffer, whose seed is within the 32 characters that \<^verbatim>\<open>createWithSeed\<close> allows.
\<close>

theorem deterministic_publisher_instruction:
  assumes "price_store_env_ok env"
  shows "parsePriceStoreInstruction env
      (createDetermisticPriceStoreInitializePublisherInstruction env authority publisher) =
    Inr (InitializePublisher authority publisher (fst (findDetermisticPublisherBufferAddress env publisher))) \<and>
    length (snd (findDetermisticPublisherBufferAddress env publisher)) \<le> pse_MAX_SEED_LENGTH env"
  using assms parse_create [OF assms]
  by (simp add: createDetermisticPriceStoreInitializePublisherInstruction_def
      findDetermisticPublisherBufferAddress_def Let_def)

section \<open>Witnesses\<close>

definition ref_price_store_env :: "256 word price_store_env" where
  "ref_price_store_env =
     \<lparr>pse_PublicKey = (\<lambda>s. word_of_nat (length s)), pse_newPublicKey = (\<lambda>bs. word_of_nat (be_nat bs)),
      pse_toBuffer = (\<lambda>pk. be_bytes 32 (unat pk)), pse_toBase58 = (\<lambda>pk. bytes_to_hex (be_bytes 32 (unat pk))),
      pse_findProgramAddressSync = (\<lambda>seeds pk. (pk + word_of_nat (length seeds), 255)),
      pse_createWithSeed = (\<lambda>b s p. b + p), pse_SystemProgram_programId = 0, pse_MAX_SEED_LENGTH = 32\<rparr>"

lemma ref_price_store_env_ok: "price_store_env_ok ref_price_store_env"
proof -
  have "be_nat (be_bytes 32 (unat w)) = unat w" for w :: "256 word"
    using unsigned_less [of w] by (intro be_nat_be_bytes_id) simp
  then show ?thesis by (simp add: price_store_env_ok_def ref_price_store_env_def)
qed

theorem parsePriceStoreInstruction_iff_witness:
  "parsePriceStoreInstruction ref_price_store_env
     (createPriceStoreInstruction ref_price_store_env (Initialize 3 7)) = Inr (Initialize 3 7)"
  using parsePriceStoreInstruction_iff [OF ref_price_store_env_ok] by blast

theorem fromTransactionInstruction_faithful_witness:
  "pmi_remaining (fromTransactionInstruction ref_price_store_env \<lparr>ix_data = [], ix_keys = [], ix_programId = 3\<rparr>) = []"
  using fromTransactionInstruction_faithful
    [OF ref_price_store_env_ok, of "\<lparr>ix_data = [], ix_keys = [], ix_programId = 3\<rparr>"] by simp

theorem deterministic_publisher_instruction_witness:
  "length (snd (findDetermisticPublisherBufferAddress ref_price_store_env 5)) \<le> 32"
  using deterministic_publisher_instruction [OF ref_price_store_env_ok, of 1 5]
  by (simp add: ref_price_store_env_def)

end
