(* ===== verification/Js_Number.thy ===== *)
theory Js_Number
  imports Hex Complex_Main
begin

text \<open>
  JavaScript numbers: IEEE 754 doubles as \<open>NaN\<close>, the two infinities, the negative zero and the
  other finite values as rationals (\<open>Fin 0\<close> is the positive zero).  \<open>round_double\<close> rounds a rational
  to the nearest double, ties to even; the arithmetic of the sources is the exact operation followed
  by it.  \<open>js_Number\<close> is the conversion \<^verbatim>\<open>Number(s)\<close> of a string.
\<close>

datatype jsnum = NaN | PosInf | NegInf | NegZero | Fin rat

section \<open>Rounding\<close>

text \<open>\<open>pow2 e\<close> is \<open>2\<^sup>e\<close>; \<open>binexp q\<close> is the binary exponent of a positive rational.\<close>

definition pow2 :: "int \<Rightarrow> rat" where
  "pow2 e = (if 0 \<le> e then 2 ^ nat e else 1 / 2 ^ nat (- e))"

function bit_count :: "int \<Rightarrow> int" where
  "bit_count n = (if n \<le> 0 then 0 else 1 + bit_count (n div 2))"
  by pat_completeness auto
termination
  by (relation "measure nat") auto

declare bit_count.simps [simp del]

definition binexp :: "rat \<Rightarrow> int" where
  "binexp q = (case quotient_of q of (n, d) \<Rightarrow>
     let e = bit_count n - bit_count d in
     if pow2 e \<le> q then e else e - 1)"

text \<open>Round half to even.\<close>

definition round_even :: "rat \<Rightarrow> int" where
  "round_even q = (let f = \<lfloor>q\<rfloor>; r = q - of_int f in
     if r < 1 / 2 then f else if 1 / 2 < r then f + 1 else if even f then f else f + 1)"

definition ulp_exp :: "rat \<Rightarrow> int" where
  "ulp_exp q = max (binexp q - 52) (- 1074)"

definition round_pos :: "rat \<Rightarrow> rat" where
  "round_pos q = of_int (round_even (q / pow2 (ulp_exp q))) * pow2 (ulp_exp q)"

definition round_double :: "rat \<Rightarrow> jsnum" where
  "round_double q =
     (if q = 0 then Fin 0
      else let r = round_pos \<bar>q\<bar> in
        if 2 ^ 1024 \<le> r then (if q < 0 then NegInf else PosInf)
        else if r = 0 then (if q < 0 then NegZero else Fin 0)
        else Fin (if q < 0 then - r else r))"

section \<open>Arithmetic and comparison\<close>

fun js_neg :: "jsnum \<Rightarrow> jsnum" where
  "js_neg NaN = NaN"
| "js_neg PosInf = NegInf"
| "js_neg NegInf = PosInf"
| "js_neg NegZero = Fin 0"
| "js_neg (Fin q) = (if q = 0 then NegZero else Fin (- q))"

fun js_add :: "jsnum \<Rightarrow> jsnum \<Rightarrow> jsnum" where
  "js_add NaN _ = NaN"
| "js_add _ NaN = NaN"
| "js_add PosInf NegInf = NaN"
| "js_add NegInf PosInf = NaN"
| "js_add PosInf _ = PosInf"
| "js_add _ PosInf = PosInf"
| "js_add NegInf _ = NegInf"
| "js_add _ NegInf = NegInf"
| "js_add NegZero y = y"
| "js_add x NegZero = x"
| "js_add (Fin p) (Fin q) = round_double (p + q)"

definition js_sub :: "jsnum \<Rightarrow> jsnum \<Rightarrow> jsnum" where
  "js_sub x y = js_add x (js_neg y)"

text \<open>The sign (\<open>True\<close> for negative) and the magnitude, \<open>None\<close> for infinity.\<close>

fun js_sign :: "jsnum \<Rightarrow> bool" where
  "js_sign NegInf = True"
| "js_sign NegZero = True"
| "js_sign (Fin q) = (q < 0)"
| "js_sign _ = False"

definition signed :: "bool \<Rightarrow> jsnum \<Rightarrow> jsnum" where
  "signed s x = (if s then js_neg x else x)"

fun js_abs :: "jsnum \<Rightarrow> jsnum" where
  "js_abs NegInf = PosInf"
| "js_abs NegZero = Fin 0"
| "js_abs (Fin q) = Fin \<bar>q\<bar>"
| "js_abs x = x"

text \<open>Multiplication and division of two magnitudes (non-negative numbers).\<close>

fun mag_mul :: "jsnum \<Rightarrow> jsnum \<Rightarrow> jsnum" where
  "mag_mul PosInf (Fin q) = (if q = 0 then NaN else PosInf)"
| "mag_mul (Fin p) PosInf = (if p = 0 then NaN else PosInf)"
| "mag_mul PosInf PosInf = PosInf"
| "mag_mul (Fin p) (Fin q) = round_double (p * q)"
| "mag_mul _ _ = NaN"

fun mag_div :: "jsnum \<Rightarrow> jsnum \<Rightarrow> jsnum" where
  "mag_div PosInf (Fin q) = PosInf"
| "mag_div (Fin p) PosInf = Fin 0"
| "mag_div (Fin p) (Fin q) = (if q = 0 then (if p = 0 then NaN else PosInf) else round_double (p / q))"
| "mag_div _ _ = NaN"

definition js_mul :: "jsnum \<Rightarrow> jsnum \<Rightarrow> jsnum" where
  "js_mul x y = signed (js_sign x \<noteq> js_sign y) (mag_mul (js_abs x) (js_abs y))"

definition js_div :: "jsnum \<Rightarrow> jsnum \<Rightarrow> jsnum" where
  "js_div x y = signed (js_sign x \<noteq> js_sign y) (mag_div (js_abs x) (js_abs y))"

text \<open>\<^verbatim>\<open>x < y\<close>; every comparison with \<open>NaN\<close> is false, and the zeros are equal.\<close>

fun js_lt :: "jsnum \<Rightarrow> jsnum \<Rightarrow> bool" where
  "js_lt NaN _ = False"
| "js_lt _ NaN = False"
| "js_lt PosInf _ = False"
| "js_lt _ NegInf = False"
| "js_lt NegInf _ = True"
| "js_lt _ PosInf = True"
| "js_lt NegZero NegZero = False"
| "js_lt NegZero (Fin q) = (0 < q)"
| "js_lt (Fin p) NegZero = (p < 0)"
| "js_lt (Fin p) (Fin q) = (p < q)"

definition js_ge :: "jsnum \<Rightarrow> jsnum \<Rightarrow> bool" where
  "js_ge x y \<longleftrightarrow> x \<noteq> NaN \<and> y \<noteq> NaN \<and> \<not> js_lt x y"

abbreviation js_gt :: "jsnum \<Rightarrow> jsnum \<Rightarrow> bool" where
  "js_gt x y \<equiv> js_lt y x"

definition of_integer :: "int \<Rightarrow> jsnum" where
  "of_integer n = round_double (of_int n)"

section \<open>Facts about rounding\<close>

lemma pow2_powi: "pow2 e = 2 powi e"
  by (simp add: pow2_def power_int_def field_simps power_one_over)

lemma pow2_pos [simp]: "0 < pow2 e"
  by (simp add: pow2_def)

lemma pow2_nonzero [simp]: "pow2 e \<noteq> 0"
  by (simp add: pow2_def)

lemma pow2_add: "pow2 (a + b) = pow2 a * pow2 b"
  by (simp add: pow2_powi power_int_add)

lemma pow2_diff: "pow2 (a - b) = pow2 a / pow2 b"
  by (simp add: pow2_powi power_int_diff)

lemma pow2_mono: "a \<le> b \<Longrightarrow> pow2 a \<le> pow2 b"
  unfolding pow2_powi by (rule power_int_increasing) simp_all

lemma bit_count_bounds: "0 < n \<Longrightarrow> pow2 (bit_count n - 1) \<le> of_int n \<and> of_int n < pow2 (bit_count n)"
proof (induction n rule: bit_count.induct)
  case (1 n)
  show ?case
  proof (cases "n = 1")
    case True
    then show ?thesis by (simp add: bit_count.simps [of 1] bit_count.simps [of 0] pow2_def)
  next
    case False
    with 1(2) have pos: "0 < n div 2" and n0: "\<not> n \<le> 0" by linarith+
    note IH = 1(1) [OF n0 pos]
    have bc: "bit_count n = 1 + bit_count (n div 2)" using n0 by (subst bit_count.simps) simp
    have "2 * (n div 2) \<le> n" by linarith
    then have "2 * of_int (n div 2) \<le> (of_int n :: rat)" by (metis of_int_le_iff of_int_mult of_int_numeral)
    moreover have "(of_int n :: rat) < 2 * pow2 (bit_count (n div 2))"
    proof -
      have nn: "0 \<le> bit_count m" for m by (induction m rule: bit_count.induct) (subst bit_count.simps, simp)
      then have "pow2 (bit_count (n div 2)) = of_int (2 ^ nat (bit_count (n div 2)))" by (simp add: pow2_def)
      with IH have "n div 2 + 1 \<le> 2 ^ nat (bit_count (n div 2))" by (metis of_int_less_iff zless_imp_add1_zle)
      then have "n < 2 * 2 ^ nat (bit_count (n div 2))" by linarith
      then have "(of_int n :: rat) < of_int (2 * 2 ^ nat (bit_count (n div 2)))" by (simp only: of_int_less_iff)
      then show ?thesis using nn by (simp add: pow2_def)
    qed
    moreover have "pow2 1 = 2" by (simp add: pow2_def)
    ultimately show ?thesis
      using IH bc pow2_add [of 1 "bit_count (n div 2)"] pow2_add [of 1 "bit_count (n div 2) - 1"]
      by (simp add: algebra_simps)
  qed
qed

lemma binexp_bounds:
  assumes "0 < q"
  shows "pow2 (binexp q) \<le> q" and "q < pow2 (binexp q + 1)"
proof -
  obtain n d where nd: "quotient_of q = (n, d)" by (cases "quotient_of q")
  then have d: "0 < d" and q: "q = of_int n / of_int d"
    by (simp_all add: quotient_of_denom_pos quotient_of_div)
  with assms have n: "0 < n" by (simp add: zero_less_divide_iff)
  let ?e = "bit_count n - bit_count d"
  note bn = bit_count_bounds [OF n] and bd = bit_count_bounds [OF d]
  have dd: "0 < (of_int d :: rat)" using d by simp
  have "q < pow2 (bit_count n) / pow2 (bit_count d - 1)"
    unfolding q using bn bd by (intro frac_less) (use n in auto)
  then have up: "q < pow2 (?e + 1)" by (simp add: pow2_diff pow2_add field_simps pow2_def [of 1])
  have "pow2 (bit_count n - 1) / pow2 (bit_count d) \<le> q"
    unfolding q using bn bd dd n by (intro frac_le) auto
  then have lo: "pow2 (?e - 1) \<le> q" by (simp add: pow2_diff pow2_add field_simps pow2_def [of 1])
  show "pow2 (binexp q) \<le> q" and "q < pow2 (binexp q + 1)"
    using up lo nd by (auto simp: binexp_def Let_def)
qed

lemma round_even_error: "\<bar>of_int (round_even q) - q\<bar> \<le> 1 / 2"
proof -
  define f where "f = \<lfloor>q\<rfloor>"
  have "of_int f \<le> q" "q < of_int f + 1" unfolding f_def by linarith+
  then show ?thesis unfolding round_even_def Let_def f_def [symmetric] by (auto simp: abs_if)
qed

lemma round_even_of_int [simp]: "round_even (of_int n) = n"
  by (simp add: round_even_def)

lemma round_even_mono_int: "of_int n \<le> q \<Longrightarrow> n \<le> round_even q" "q \<le> of_int n \<Longrightarrow> round_even q \<le> n"
proof -
  show "n \<le> round_even q" if "of_int n \<le> q"
    using that by (simp add: round_even_def Let_def le_floor_iff) (meson le_floor_iff order.trans le_add_same_cancel1 zero_le_one)
  show "round_even q \<le> n" if "q \<le> of_int n"
  proof (cases "q = of_int n")
    case False
    with that have "q < of_int n" by simp
    then have "\<lfloor>q\<rfloor> + 1 \<le> n" by (metis floor_less_iff zless_imp_add1_zle)
    then show ?thesis by (simp add: round_even_def Let_def)
  qed simp
qed

lemma round_even_nonneg: "0 \<le> q \<Longrightarrow> 0 \<le> round_even q"
  using round_even_mono_int(1) [of 0 q] by simp

lemma round_pos_nonneg: "0 \<le> q \<Longrightarrow> 0 \<le> round_pos q"
  by (simp add: round_pos_def round_even_nonneg order_less_imp_le)

text \<open>Half a unit in the last place, hence a relative error of \<open>2\<^sup>-\<^sup>5\<^sup>3\<close> in the normal range.\<close>

lemma round_pos_ulp: "\<bar>round_pos q - q\<bar> \<le> pow2 (ulp_exp q) / 2"
proof -
  let ?u = "pow2 (ulp_exp q)"
  have "\<bar>of_int (round_even (q / ?u)) - q / ?u\<bar> * ?u \<le> 1 / 2 * ?u"
    by (intro mult_right_mono round_even_error) (simp add: order_less_imp_le)
  moreover have "round_pos q - q = (of_int (round_even (q / ?u)) - q / ?u) * ?u"
    by (simp add: round_pos_def left_diff_distrib)
  moreover have "\<bar>?u\<bar> = ?u" by (simp add: order_less_imp_le)
  ultimately show ?thesis by (metis abs_mult mult.commute mult_cancel_left1 times_divide_eq_right)
qed

lemma round_pos_relative:
  assumes "pow2 (- 1022) \<le> q"
  shows "\<bar>round_pos q - q\<bar> \<le> q * pow2 (- 53)"
proof -
  have q: "0 < q" using assms pow2_pos by (rule less_le_trans [rotated])
  have "- 1022 \<le> binexp q"
  proof (rule ccontr)
    assume "\<not> - 1022 \<le> binexp q"
    then have "pow2 (binexp q + 1) \<le> pow2 (- 1022)" by (intro pow2_mono) simp
    with binexp_bounds(2) [OF q] assms show False by simp
  qed
  then have "ulp_exp q = binexp q - 52" by (simp add: ulp_exp_def)
  then have "pow2 (ulp_exp q) / 2 = pow2 (binexp q) * pow2 (- 53)"
    using pow2_add [of "binexp q" "- 53"] pow2_add [of "binexp q - 53" 1] by (simp add: pow2_def [of 1])
  also have "\<dots> \<le> q * pow2 (- 53)"
    using binexp_bounds(1) [OF q] by (intro mult_right_mono) (simp_all add: order_less_imp_le)
  finally show ?thesis using round_pos_ulp [of q] by simp
qed

text \<open>Integers up to \<open>2\<^sup>5\<^sup>3\<close> are exact.\<close>

lemma round_pos_int:
  assumes "0 < n" and "n \<le> 2 ^ 53"
  shows "round_pos (of_int n) = of_int n"
proof -
  let ?q = "of_int n :: rat" let ?u = "pow2 (ulp_exp ?q)"
  have q: "0 < ?q" using assms(1) by simp
  show ?thesis
  proof (cases "n = 2 ^ 53")
    case False
    with assms have "?q < of_int (2 ^ 53)" by (metis of_int_less_iff order_le_neq_trans)
    then have "pow2 (binexp ?q) < pow2 53"
      using binexp_bounds(1) [OF q] by (simp add: pow2_def [of 53])
    then have "binexp ?q < 53" using pow2_mono [of 53 "binexp ?q"] by linarith
    then have "ulp_exp ?q \<le> 0" by (simp add: ulp_exp_def)
    then have "?q / ?u = of_int (n * 2 ^ nat (- ulp_exp ?q))"
      by (auto simp: pow2_def)
    then have "round_even (?q / ?u) = n * 2 ^ nat (- ulp_exp ?q)" by (simp only: round_even_of_int)
    then have "round_pos ?q = ?q / ?u * ?u"
      unfolding round_pos_def using \<open>?q / ?u = _\<close> by (simp only:)
    then show ?thesis by simp
  next
    case True
    have "binexp ?q = 53"
    proof -
      have "pow2 53 = ?q" using True by (simp add: pow2_def)
      then have "pow2 53 < pow2 (binexp ?q + 1)" "pow2 (binexp ?q) \<le> pow2 53"
        using binexp_bounds [OF q] by simp_all
      moreover have "pow2 53 < pow2 54" by (simp add: pow2_def)
      ultimately show ?thesis
        using pow2_mono [of "binexp ?q + 1" 53] pow2_mono [of 54 "binexp ?q"] by linarith
    qed
    then have "?u = 2" by (simp add: ulp_exp_def pow2_def)
    moreover have "?q / 2 = of_int (2 ^ 52)" using True by simp
    ultimately have "round_even (?q / ?u) = 2 ^ 52" by (simp only: round_even_of_int)
    with \<open>?u = 2\<close> True show ?thesis by (simp add: round_pos_def)
  qed
qed

lemma of_integer_exact: "\<bar>n\<bar> \<le> 2 ^ 53 \<Longrightarrow> of_integer n = Fin (of_int n)"
proof (cases "n = 0")
  case False
  assume n: "\<bar>n\<bar> \<le> 2 ^ 53"
  then have "(of_int \<bar>n\<bar> :: rat) \<le> of_int (2 ^ 53)" by (simp only: of_int_le_iff)
  also have "\<dots> < 2 ^ 1024" by simp
  finally have "\<not> 2 ^ 1024 \<le> (of_int \<bar>n\<bar> :: rat)" by (simp only: not_le)
  moreover have "round_pos \<bar>of_int n\<bar> = of_int \<bar>n\<bar>"
    using False n round_pos_int [of "\<bar>n\<bar>"] by simp
  ultimately have "round_double (of_int n) =
      (if of_int \<bar>n\<bar> = (0 :: rat) then (if (of_int n :: rat) < 0 then NegZero else Fin 0)
       else Fin (if (of_int n :: rat) < 0 then - of_int \<bar>n\<bar> else of_int \<bar>n\<bar>))"
    using False unfolding round_double_def Let_def by (simp only: if_False of_int_eq_0_iff)
  then show ?thesis using False by (simp add: of_integer_def abs_if)
qed (simp add: of_integer_def round_double_def)

text \<open>In the normal range a result is the exact one up to a relative error of \<open>2\<^sup>-\<^sup>5\<^sup>3\<close>.\<close>

lemma round_double_normal:
  assumes "pow2 (- 1022) \<le> q" and "q \<le> 2 ^ 1000"
  obtains r where "round_double q = Fin r" and "\<bar>r - q\<bar> \<le> q * pow2 (- 53)"
proof -
  have q: "0 < q" using assms(1) pow2_pos by (rule less_le_trans [rotated])
  note rel = round_pos_relative [OF assms(1)]
  have half: "q * pow2 (- 53) \<le> q / 2" using q by (simp add: pow2_def field_simps)
  have "round_pos q \<le> 3 / 2 * q" and pos: "0 < round_pos q" using rel half q by linarith+
  then have "round_pos q \<le> 3 / 2 * 2 ^ 1000" using assms(2) by linarith
  also have "\<dots> < 2 ^ 1024" by simp
  finally have "round_double q = Fin (round_pos q)"
    unfolding round_double_def Let_def using q pos by (simp only: if_False abs_of_pos not_le not_less_iff_gr_or_eq) simp
  with rel show thesis by (intro that) simp_all
qed

lemma round_double_sign:
  "0 \<le> q \<Longrightarrow> round_double q = PosInf \<or> (\<exists>r\<ge>0. round_double q = Fin r)"
  "q < 0 \<Longrightarrow> round_double q = NegInf \<or> round_double q = NegZero \<or> (\<exists>r<0. round_double q = Fin r)"
  using round_pos_nonneg [of "\<bar>q\<bar>"] by (auto simp: round_double_def Let_def)

text \<open>Rounding a number from above does not pass a double.\<close>

lemma round_pos_above:
  assumes v: "0 < v" "round_pos v = v" and "v \<le> q"
  shows "v \<le> round_pos q"
proof -
  let ?u = "pow2 (ulp_exp q)"
  have q: "0 < q" using assms by simp
  have above: "x \<le> round_pos q" if "x \<le> q" "x = of_int n * ?u" for x n
  proof -
    have "of_int n \<le> q / ?u" using that by (simp add: pos_le_divide_eq)
    then have "of_int n \<le> (of_int (round_even (q / ?u)) :: rat)" using round_even_mono_int(1) by simp
    then show ?thesis unfolding round_pos_def that(2) by (intro mult_right_mono) (simp_all add: order_less_imp_le)
  qed
  have "pow2 (binexp v) < pow2 (binexp q + 1)"
    using binexp_bounds(1) [OF v(1)] binexp_bounds(2) [OF q] assms(3) by linarith
  then have e: "binexp v \<le> binexp q" using pow2_mono [of "binexp q + 1" "binexp v"] by linarith
  show ?thesis
  proof (cases "ulp_exp v = ulp_exp q")
    case True
    then show ?thesis using above [OF assms(3), of "round_even (v / ?u)"] v(2) unfolding round_pos_def by simp
  next
    case False
    then have u: "ulp_exp q = binexp q - 52" and "binexp v < binexp q" using e by (auto simp: ulp_exp_def)
    then have "v < pow2 (binexp q)"
      using binexp_bounds(2) [OF v(1)] pow2_mono [of "binexp v + 1" "binexp q"] by linarith
    moreover have "pow2 (binexp q) = of_int (2 ^ 52) * ?u"
      using pow2_add [of 52 "binexp q - 52"] by (simp add: u pow2_def [of 52])
    then have "pow2 (binexp q) \<le> round_pos q" using above [OF binexp_bounds(1) [OF q]] by blast
    ultimately show ?thesis by simp
  qed
qed

lemma round_double_above:
  assumes "0 < n" and "n \<le> 2 ^ 53" and "of_int n \<le> q" and "q \<le> 2 ^ 1000"
  obtains r where "round_double q = Fin r" and "of_int n \<le> r" and "r \<le> q * (1 + pow2 (- 53))"
proof -
  have "pow2 (- 1022) \<le> pow2 0" by (rule pow2_mono) simp
  also have "pow2 0 \<le> of_int n" using assms(1) by (simp add: pow2_def)
  finally have q: "pow2 (- 1022) \<le> q" using assms(3) by (rule order_trans)
  then obtain r where r: "round_double q = Fin r" "\<bar>r - q\<bar> \<le> q * pow2 (- 53)"
    using round_double_normal assms(4) by blast
  have pos: "0 < q" using q pow2_pos by (rule less_le_trans [rotated])
  have "round_pos (of_int n) = of_int n" using round_pos_int assms(1,2) by simp
  from round_pos_above [OF _ this assms(3)] have n: "of_int n \<le> round_pos q" using assms(1) by simp
  have "r = round_pos q" using r(1) pos n by (auto simp: round_double_def Let_def split: if_splits)
  moreover have "r \<le> q * (1 + pow2 (- 53))" using r(2) by (simp add: algebra_simps abs_le_iff)
  ultimately show thesis using that r(1) n by blast
qed

section \<open>The conversion of a string\<close>

definition js_whitespace :: "char \<Rightarrow> bool" where
  "js_whitespace c \<longleftrightarrow> (of_char c :: nat) \<in> {9, 10, 11, 12, 13, 32, 160}"

definition js_trim :: "string \<Rightarrow> string" where
  "js_trim s = rev (dropWhile js_whitespace (rev (dropWhile js_whitespace s)))"

text \<open>Digits in base 2, 8 or 16 after \<^verbatim>\<open>0b\<close>, \<^verbatim>\<open>0o\<close> or \<^verbatim>\<open>0x\<close>.\<close>

definition radix_digit :: "char \<Rightarrow> nat option" where
  "radix_digit c = (let n = of_char c in
     if 48 \<le> n \<and> n \<le> 57 then Some (n - 48)
     else if 97 \<le> n \<and> n \<le> 102 then Some (n - 87)
     else if 65 \<le> n \<and> n \<le> 70 then Some (n - 55) else None)"

fun radix_value :: "nat \<Rightarrow> nat \<Rightarrow> string \<Rightarrow> nat option" where
  "radix_value b acc [] = Some acc"
| "radix_value b acc (c # s) = (case radix_digit c of
     None \<Rightarrow> None
   | Some d \<Rightarrow> if d < b then radix_value b (acc * b + d) s else None)"

definition js_radix :: "nat \<Rightarrow> string \<Rightarrow> jsnum" where
  "js_radix b s = (if s = [] then NaN
     else case radix_value b 0 s of None \<Rightarrow> NaN | Some n \<Rightarrow> round_double (of_nat n))"

text \<open>The exponent part: a sign and at least one digit, or nothing at all.\<close>

definition js_exponent :: "string \<Rightarrow> int option" where
  "js_exponent s = (case s of
     [] \<Rightarrow> Some 0
   | c # r \<Rightarrow>
       if c \<noteq> CHR ''e'' \<and> c \<noteq> CHR ''E'' then None
       else let (neg, ds) = (case r of
               d # r' \<Rightarrow> if d = CHR ''-'' then (True, r') else if d = CHR ''+'' then (False, r') else (False, r)
             | [] \<Rightarrow> (False, [])) in
         if ds = [] \<or> \<not> list_all is_decimal ds then None
         else Some (if neg then - int (decimal_value ds) else int (decimal_value ds)))"

definition js_unsigned_decimal :: "string \<Rightarrow> rat option" where
  "js_unsigned_decimal s =
     (let ip = takeWhile is_decimal s; r = dropWhile is_decimal s;
          (fp, r) = (case r of
             c # r' \<Rightarrow> if c = CHR ''.'' then (takeWhile is_decimal r', dropWhile is_decimal r') else ([], r)
           | [] \<Rightarrow> ([], [])) in
      if ip = [] \<and> fp = [] then None
      else case js_exponent r of
        None \<Rightarrow> None
      | Some e \<Rightarrow> Some (of_nat (decimal_value (ip @ fp)) *
          (let k = e - int (length fp) in if 0 \<le> k then 10 ^ nat k else 1 / 10 ^ nat (- k))))"

definition js_unsigned :: "string \<Rightarrow> jsnum" where
  "js_unsigned s = (if s = ''Infinity'' then PosInf
     else case js_unsigned_decimal s of None \<Rightarrow> NaN | Some q \<Rightarrow> round_double q)"

definition js_Number :: "string \<Rightarrow> jsnum" where
  "js_Number str = (let s = js_trim str in
     if s = [] then Fin 0
     else if take 2 s = ''0x'' \<or> take 2 s = ''0X'' then js_radix 16 (drop 2 s)
     else if take 2 s = ''0o'' \<or> take 2 s = ''0O'' then js_radix 8 (drop 2 s)
     else if take 2 s = ''0b'' \<or> take 2 s = ''0B'' then js_radix 2 (drop 2 s)
     else if hd s = CHR ''-'' then js_neg (js_unsigned (tl s))
     else if hd s = CHR ''+'' then js_unsigned (tl s)
     else js_unsigned s)"

lemma is_decimal_code: "is_decimal c \<Longrightarrow> 48 \<le> (of_char c :: nat) \<and> (of_char c :: nat) \<le> 57"
  by (auto simp: is_decimal_def digit_value_def Let_def split: if_splits)

lemma decimal_not_special:
  assumes "is_decimal c"
  shows "\<not> js_whitespace c" "c \<noteq> CHR ''x''" "c \<noteq> CHR ''X''" "c \<noteq> CHR ''o''" "c \<noteq> CHR ''O''"
    "c \<noteq> CHR ''b''" "c \<noteq> CHR ''B''" "c \<noteq> CHR ''-''" "c \<noteq> CHR ''+''" "c \<noteq> CHR ''I''"
  using is_decimal_code [OF assms] by (auto simp: js_whitespace_def)

lemma js_trim_id: "s \<noteq> [] \<Longrightarrow> \<not> js_whitespace (hd s) \<Longrightarrow> \<not> js_whitespace (last s) \<Longrightarrow> js_trim s = s"
  by (simp add: js_trim_def dropWhile_eq_self_iff [THEN iffD2] hd_rev)

lemma js_unsigned_show_nat: "js_unsigned (show_nat n) = round_double (of_nat n)"
proof -
  have dec: "\<forall>c \<in> set (show_nat n). is_decimal c" by (rule show_nat_decimal)
  then have "show_nat n \<noteq> ''Infinity''"
    by (metis decimal_not_special(10) list.set_intros(1))
  moreover have tw: "takeWhile is_decimal (show_nat n) = show_nat n" "dropWhile is_decimal (show_nat n) = []"
    using dec by (simp_all add: takeWhile_eq_all_conv dropWhile_eq_Nil_conv)
  ultimately show ?thesis
    by (simp add: js_unsigned_def js_unsigned_decimal_def js_exponent_def Let_def tw)
qed

text \<open>The decimal print of an integer converts to the double nearest to it.\<close>

lemma js_Number_show_int: "js_Number (show_int n) = of_integer n"
proof -
  let ?d = "show_nat (nat \<bar>n\<bar>)"
  have dec: "\<And>c. c \<in> set ?d \<Longrightarrow> is_decimal c" using show_nat_decimal by blast
  obtain c r where d: "?d = c # r" using show_nat_not_Nil by (cases ?d) auto
  have c: "is_decimal c" using dec d by simp
  have last: "\<not> js_whitespace (last ?d)" using dec decimal_not_special(1) last_in_set show_nat_not_Nil by metis
  have neg: "round_double (- q) = js_neg (round_double q)" if "0 < q" for q
    using that by (simp add: round_double_def Let_def)
  show ?thesis
  proof (cases "n < 0")
    case True
    then have s: "show_int n = CHR ''-'' # ?d" by (simp add: show_int_def)
    moreover have "js_trim (show_int n) = show_int n"
      using last by (intro js_trim_id) (simp_all add: s js_whitespace_def)
    moreover have "of_int n = - (of_nat (nat \<bar>n\<bar>) :: rat)" using True by simp
    ultimately show ?thesis
      using True neg [of "of_nat (nat \<bar>n\<bar>)"] by (simp add: js_Number_def js_unsigned_show_nat of_integer_def)
  next
    case False
    have nox: "take 2 ?d \<noteq> [CHR ''0'', x]" if "\<not> is_decimal x" for x
      using dec d that by (cases r) auto
    from False have s: "show_int n = ?d" by (simp add: show_int_def)
    moreover have "js_trim (show_int n) = show_int n"
      using last decimal_not_special(1) [OF c] d by (intro js_trim_id) (simp_all add: s)
    moreover have "take 2 ?d \<noteq> ''0x'' \<and> take 2 ?d \<noteq> ''0X'' \<and> take 2 ?d \<noteq> ''0o'' \<and> take 2 ?d \<noteq> ''0O'' \<and>
        take 2 ?d \<noteq> ''0b'' \<and> take 2 ?d \<noteq> ''0B''"
      using decimal_not_special by (intro conjI nox) blast+
    moreover have "hd ?d \<noteq> CHR ''-'' \<and> hd ?d \<noteq> CHR ''+''" using decimal_not_special [OF c] d by simp
    ultimately have "js_Number (show_int n) = js_unsigned ?d"
      unfolding js_Number_def Let_def by (simp only: show_nat_not_Nil if_False simp_thms)
    then show ?thesis using False js_unsigned_show_nat [of "nat \<bar>n\<bar>"] by (simp add: of_integer_def)
  qed
qed

end
