(* ===== verification/Price_Config.thy ===== *)
theory Price_Config
  imports Js_Number
begin

text \<open>
  The decision rule of the price pusher (\<^verbatim>\<open>apps/price_pusher/src/price-config.ts\<close>): the configuration
  file and \<^verbatim>\<open>shouldUpdate\<close>, which compares the latest source price with the price on
  the target chain.  Prices and confidences are the strings of the price service; times, thresholds
  and ratios are JavaScript numbers.
\<close>

record price_info =
  pi_price :: string
  pi_conf :: string
  pi_publishTime :: jsnum

record price_config =
  pc_alias :: string
  pc_id :: string
  pc_timeDifference :: jsnum
  pc_priceDeviation :: jsnum
  pc_confidenceRatio :: jsnum
  pc_customEarlyUpdate :: "bool option"
  pc_earlyUpdateTimeDifference :: "jsnum option"
  pc_earlyUpdatePriceDeviation :: "jsnum option"
  pc_earlyUpdateConfidenceRatio :: "jsnum option"

section \<open>The configuration file\<close>

record raw_early_update =
  re_time_difference :: "jsnum option"
  re_price_deviation :: "jsnum option"
  re_confidence_ratio :: "jsnum option"

record raw_price_config =
  rp_alias :: string
  rp_id :: string
  rp_time_difference :: jsnum
  rp_price_deviation :: jsnum
  rp_confidence_ratio :: jsnum
  rp_early_update :: "raw_early_update option"

definition price_config_of_raw :: "raw_price_config \<Rightarrow> price_config" where
  "price_config_of_raw r =
     \<lparr>pc_alias = rp_alias r, pc_id = removeLeading0x (rp_id r),
      pc_timeDifference = rp_time_difference r, pc_priceDeviation = rp_price_deviation r,
      pc_confidenceRatio = rp_confidence_ratio r,
      pc_customEarlyUpdate = Some (rp_early_update r \<noteq> None),
      pc_earlyUpdateTimeDifference = Option.bind (rp_early_update r) re_time_difference,
      pc_earlyUpdatePriceDeviation = Option.bind (rp_early_update r) re_price_deviation,
      pc_earlyUpdateConfidenceRatio = Option.bind (rp_early_update r) re_confidence_ratio\<rparr>"

text \<open>
  \<^verbatim>\<open>YAML.parse(fs.readFileSync(path))\<close> is the argument \<open>parsed\<close>; the \<^verbatim>\<open>validate\<close> method of the schema, which
  is code of the \<^verbatim>\<open>joi\<close> package, is the argument \<open>validate\<close>, which returns the error, if any.  The model
  is of files in which the numbers are written as numbers: the schema also lets numeric texts pass, and the code
  goes on with the texts.
\<close>

definition readPriceConfigFile ::
  "(raw_price_config list \<Rightarrow> js_error option) \<Rightarrow> raw_price_config list res \<Rightarrow> price_config list res" where
  "readPriceConfigFile validate parsed =
     res_bind parsed (\<lambda>priceConfigs.
       case validate priceConfigs of
         Some e \<Rightarrow> Inl e
       | None \<Rightarrow> Inr (map price_config_of_raw priceConfigs))"

section \<open>The update condition\<close>

datatype update_condition = YES | EARLY | NO

definition price_deviation_pct :: "price_info \<Rightarrow> price_info \<Rightarrow> jsnum" where
  "price_deviation_pct source target =
     js_mul (js_div (js_abs (js_sub (js_Number (pi_price source)) (js_Number (pi_price target))))
       (js_Number (pi_price target))) (Fin 100)"

definition confidence_ratio_pct :: "price_info \<Rightarrow> jsnum" where
  "confidence_ratio_pct source =
     js_abs (js_mul (js_div (js_Number (pi_conf source)) (js_Number (pi_price source))) (Fin 100))"

definition above :: "jsnum \<Rightarrow> jsnum option \<Rightarrow> bool" where
  "above x limit \<longleftrightarrow> (case limit of None \<Rightarrow> False | Some l \<Rightarrow> js_ge x l)"

definition shouldUpdate ::
  "price_config \<Rightarrow> price_info option \<Rightarrow> price_info option \<Rightarrow> update_condition" where
  "shouldUpdate cfg sourceLatestPrice targetLatestPrice =
     (case sourceLatestPrice of
        None \<Rightarrow> NO
      | Some source \<Rightarrow>
          (case targetLatestPrice of
             None \<Rightarrow> YES
           | Some target \<Rightarrow>
               if js_lt (pi_publishTime source) (pi_publishTime target) then NO
               else
                 let timeDifference = js_sub (pi_publishTime source) (pi_publishTime target);
                     priceDeviationPct = price_deviation_pct source target;
                     confidenceRatioPct = confidence_ratio_pct source in
                 if js_ge timeDifference (pc_timeDifference cfg) \<or>
                    js_ge priceDeviationPct (pc_priceDeviation cfg) \<or>
                    js_ge confidenceRatioPct (pc_confidenceRatio cfg) then YES
                 else if pc_customEarlyUpdate cfg = None \<or> pc_customEarlyUpdate cfg = Some False \<or>
                    above timeDifference (pc_earlyUpdateTimeDifference cfg) \<or>
                    above priceDeviationPct (pc_earlyUpdatePriceDeviation cfg) \<or>
                    above confidenceRatioPct (pc_earlyUpdateConfidenceRatio cfg) then EARLY
                 else NO))"

section \<open>Reading the configuration\<close>

text \<open>
  The prefix is removed after the validation, which compares the ids as they are written: when it
  accepts a file that lists a feed once with and once without \<^verbatim>\<open>0x\<close>, the two entries have the same id.
\<close>

lemma readPriceConfigFile_duplicate:
  assumes "validate [r\<lparr>rp_id := h\<rparr>, r'\<lparr>rp_id := ''0x'' @ h\<rparr>] = None" and "\<not> startsWith h ''0x''"
  shows "\<exists>c c'. readPriceConfigFile validate (Inr [r\<lparr>rp_id := h\<rparr>, r'\<lparr>rp_id := ''0x'' @ h\<rparr>]) = Inr [c, c'] \<and>
    pc_id c = h \<and> pc_id c' = h"
  using assms by (simp add: readPriceConfigFile_def price_config_of_raw_def removeLeading0x_def startsWith_iff)

section \<open>The update condition\<close>

text \<open>
  The deviation of two integer prices: zero when they agree, and otherwise within a relative error
  of \<open>2\<^sup>-\<^sup>5\<^sup>1\<close> of the exact percentage.
\<close>

lemma price_deviation_accurate:
  assumes "js_Number (pi_price source) = Fin (of_int s)" and "js_Number (pi_price target) = Fin (of_int t)"
    and "\<bar>s\<bar> \<le> 2 ^ 52" and "0 < t" and "t \<le> 2 ^ 52"
  obtains d where "price_deviation_pct source target = Fin d"
    and "\<bar>d - of_int (100 * \<bar>s - t\<bar>) / of_int t\<bar> \<le> of_int (100 * \<bar>s - t\<bar>) / of_int t * pow2 (- 51)"
proof (cases "s = t")
  case True
  then have "price_deviation_pct source target = Fin 0"
    using assms by (simp add: price_deviation_pct_def js_sub_def js_div_def js_mul_def signed_def round_double_def)
  with True show thesis by (intro that) simp_all
next
  case False
  define a where "a = \<bar>s - t\<bar>"
  have a: "0 < a" "a \<le> 2 ^ 53" using False assms(3-5) by (auto simp: a_def)
  have "js_sub (Fin (of_int s)) (Fin (of_int t)) = of_integer (s - t)"
    using assms(4) by (simp add: js_sub_def of_integer_def)
  also have "\<dots> = Fin (of_int (s - t))" using a by (intro of_integer_exact) (simp add: a_def)
  finally have sub: "js_abs (js_sub (Fin (of_int s)) (Fin (of_int t))) = Fin (of_int a)"
    by (simp add: a_def)
  define q where "q = (of_int a / of_int t :: rat)"
  have "(1 :: rat) \<le> of_int a" "(of_int a :: rat) \<le> of_int (2 ^ 53)" "0 < (of_int t :: rat)"
      "(of_int t :: rat) \<le> of_int (2 ^ 52)" "(1 :: rat) \<le> of_int t"
    using a assms(4,5) by (simp_all only: of_int_le_iff of_int_0_less_iff of_int_1_le_iff)
  then have lo: "1 / 2 ^ 52 \<le> q" and hi: "q \<le> 2 ^ 53"
    by (simp_all add: q_def field_simps)
  have q: "0 < q" using lo by (rule less_le_trans [rotated]) simp
  have tiny: "pow2 (- 1022) \<le> 1 / 2 ^ 54" by (simp add: pow2_def)
  obtain r where r: "round_double q = Fin r" "\<bar>r - q\<bar> \<le> q * pow2 (- 53)"
    using round_double_normal [of q] lo hi tiny by (auto simp: field_simps)
  have half: "q * pow2 (- 53) \<le> q / 2" using q by (simp add: pow2_def field_simps)
  have rb: "q / 2 \<le> r" "r \<le> 2 * q" "0 < r" using r(2) half q by linarith+
  obtain d where d: "round_double (r * 100) = Fin d" "\<bar>d - r * 100\<bar> \<le> r * 100 * pow2 (- 53)"
    using round_double_normal [of "r * 100"] rb lo hi tiny by (auto simp: field_simps)
  have "price_deviation_pct source target = Fin d"
    using assms(1,2,4) sub r(1) d(1) rb(3) a q
    by (simp add: price_deviation_pct_def js_div_def js_mul_def signed_def q_def)
  moreover have "\<bar>d - 100 * q\<bar> \<le> 100 * q * pow2 (- 51)"
  proof -
    have u: "pow2 (- 51) = 1 / 2251799813685248" "pow2 (- 53) = 1 / 9007199254740992"
      by (simp_all add: pow2_def)
    note D = d(2) [unfolded u abs_le_iff] and R = r(2) [unfolded u abs_le_iff]
    show ?thesis
      unfolding u abs_le_iff using D [THEN conjunct1] D [THEN conjunct2] R [THEN conjunct1] R [THEN conjunct2] rb q
      by (intro conjI) linarith+
  qed
  ultimately show thesis by (intro that) (simp_all add: q_def a_def)
qed

lemma js_Number_exact: "\<bar>n\<bar> \<le> 2 ^ 53 \<Longrightarrow> js_Number (show_int n) = Fin (of_int n)"
  by (simp only: js_Number_show_int of_integer_exact)

abbreviation due_time :: "price_config \<Rightarrow> price_info \<Rightarrow> price_info \<Rightarrow> bool" where
  "due_time cfg source target \<equiv>
     js_ge (js_sub (pi_publishTime source) (pi_publishTime target)) (pc_timeDifference cfg)"

abbreviation due_confidence :: "price_config \<Rightarrow> price_info \<Rightarrow> bool" where
  "due_confidence cfg source \<equiv> js_ge (confidence_ratio_pct source) (pc_confidenceRatio cfg)"

lemma shouldUpdate_YES_iff:
  "shouldUpdate cfg (Some source) (Some target) = YES \<longleftrightarrow>
     \<not> js_lt (pi_publishTime source) (pi_publishTime target) \<and>
     (due_time cfg source target \<or> js_ge (price_deviation_pct source target) (pc_priceDeviation cfg) \<or>
      due_confidence cfg source)"
  by (simp add: shouldUpdate_def Let_def)

text \<open>
  C13. The deviation test is right despite floating point: for integer prices up to \<open>2\<^sup>5\<^sup>2\<close> with a
  positive target price, a price that moved by the configured percentage (by a margin of \<open>2\<^sup>-\<^sup>5\<^sup>0\<close>)
  is pushed, and one that moved by less (by that margin) is pushed only for its age or confidence.
\<close>

theorem shouldUpdate_deviation:
  assumes s: "pi_price source = show_int s" "\<bar>s\<bar> \<le> 2 ^ 52"
    and t: "pi_price target = show_int t" "0 < t" "t \<le> 2 ^ 52"
    and p: "pc_priceDeviation cfg = Fin p" "0 \<le> p"
    and fresh: "\<not> js_lt (pi_publishTime source) (pi_publishTime target)"
  shows "(p * of_int t * (1 + pow2 (- 50)) \<le> of_int (100 * \<bar>s - t\<bar>) \<longrightarrow>
      shouldUpdate cfg (Some source) (Some target) = YES) \<and>
    (of_int (100 * \<bar>s - t\<bar>) < p * of_int t * (1 - pow2 (- 50)) \<longrightarrow>
      (shouldUpdate cfg (Some source) (Some target) = YES \<longleftrightarrow>
        due_time cfg source target \<or> due_confidence cfg source))"
proof -
  define D where "D = (of_int (100 * \<bar>s - t\<bar>) / of_int t :: rat)"
  obtain d where d: "price_deviation_pct source target = Fin d" "\<bar>d - D\<bar> \<le> D * pow2 (- 51)"
    using price_deviation_accurate [of source s target t] s t js_Number_exact [of s] js_Number_exact [of t]
    by (auto simp: D_def)
  have t0: "0 < (of_int t :: rat)" using t(2) by simp
  have u: "pow2 (- 51) = 1 / 2251799813685248" "pow2 (- 50) = 1 / 1125899906842624"
    by (simp_all add: pow2_def)
  note dD = d(2) [unfolded u abs_le_iff, THEN conjunct1] d(2) [unfolded u abs_le_iff, THEN conjunct2]
  have "p \<le> d" if "p * of_int t * (1 + pow2 (- 50)) \<le> of_int (100 * \<bar>s - t\<bar>)"
  proof -
    have "p * (1 + 1 / 1125899906842624) \<le> D" using that t0 unfolding u D_def by (simp add: le_divide_eq ac_simps)
    then show ?thesis using dD p(2) by (simp add: field_simps)
  qed
  then have up: "p * of_int t * (1 + pow2 (- 50)) \<le> of_int (100 * \<bar>s - t\<bar>) \<longrightarrow>
      shouldUpdate cfg (Some source) (Some target) = YES"
    using fresh d(1) p(1) by (auto simp: shouldUpdate_YES_iff js_ge_def)
  have "d < p" if "of_int (100 * \<bar>s - t\<bar>) < p * of_int t * (1 - pow2 (- 50))"
  proof -
    have "D < p * (1 - 1 / 1125899906842624)" using that t0 unfolding u D_def by (simp add: divide_less_eq ac_simps)
    then show ?thesis using dD p(2) by (simp add: field_simps)
  qed
  then have "of_int (100 * \<bar>s - t\<bar>) < p * of_int t * (1 - pow2 (- 50)) \<longrightarrow>
      (shouldUpdate cfg (Some source) (Some target) = YES \<longleftrightarrow>
        due_time cfg source target \<or> due_confidence cfg source)"
    using fresh d(1) p(1) by (auto simp: shouldUpdate_YES_iff js_ge_def)
  with up show ?thesis by blast
qed

text \<open>The sign rules: a magnitude is \<open>NaN\<close>, the infinity or a non-negative number.\<close>

definition is_magnitude :: "jsnum \<Rightarrow> bool" where
  "is_magnitude x \<longleftrightarrow> x = NaN \<or> x = PosInf \<or> (\<exists>r\<ge>0. x = Fin r)"

lemma is_magnitude_simps [simp]:
  "is_magnitude NaN" "is_magnitude PosInf" "is_magnitude (Fin r) \<longleftrightarrow> 0 \<le> r"
  by (auto simp: is_magnitude_def)

lemma is_magnitude_round [simp]: "0 \<le> q \<Longrightarrow> is_magnitude (round_double q)"
  using round_double_sign(1) [of q] by (auto simp: is_magnitude_def)

lemma is_magnitude_abs [simp]: "is_magnitude (js_abs x)"
  by (cases x) auto

lemma is_magnitude_mul: "is_magnitude x \<Longrightarrow> is_magnitude y \<Longrightarrow> is_magnitude (mag_mul x y)"
  by (cases "(x, y)" rule: mag_mul.cases) auto

lemma is_magnitude_div: "is_magnitude x \<Longrightarrow> is_magnitude y \<Longrightarrow> is_magnitude (mag_div x y)"
  by (cases "(x, y)" rule: mag_div.cases) auto

lemma js_neg_magnitude_not_ge: "is_magnitude x \<Longrightarrow> 0 < p \<Longrightarrow> \<not> js_ge (js_neg x) (Fin p)"
  by (auto simp: is_magnitude_def js_ge_def split: if_splits)

lemma js_sign_neg_magnitude: "is_magnitude x \<Longrightarrow> x \<noteq> NaN \<Longrightarrow> js_sign (js_neg x)"
  by (auto simp: is_magnitude_def)

lemma price_deviation_negative_target:
  assumes "js_Number (pi_price target) = Fin t" and "t < 0" and "0 < p"
  shows "\<not> js_ge (price_deviation_pct source target) (Fin p)"
proof -
  define x where "x = js_abs (js_sub (js_Number (pi_price source)) (Fin t))"
  have x: "js_sign x = False" unfolding x_def by (cases "js_sub (js_Number (pi_price source)) (Fin t)") auto
  have abs: "js_abs x = x" unfolding x_def by (cases "js_sub (js_Number (pi_price source)) (Fin t)") auto
  define y where "y = mag_div (js_abs x) (js_abs (Fin t))"
  have y: "is_magnitude y" unfolding y_def by (intro is_magnitude_div is_magnitude_abs)
  have dev: "price_deviation_pct source target = js_mul (js_neg y) (Fin 100)"
    using assms(1,2) x by (simp add: price_deviation_pct_def x_def [symmetric] js_div_def signed_def y_def)
  show ?thesis
  proof (cases "y = NaN")
    case True
    then show ?thesis by (simp add: dev js_mul_def signed_def js_ge_def)
  next
    case False
    then have "js_mul (js_neg y) (Fin 100) = js_neg (mag_mul (js_abs (js_neg y)) (Fin 100))"
      using js_sign_neg_magnitude [OF y] by (simp add: js_mul_def signed_def)
    moreover have "is_magnitude (mag_mul (js_abs (js_neg y)) (Fin 100))" by (intro is_magnitude_mul) simp_all
    ultimately show ?thesis using js_neg_magnitude_not_ge [OF _ assms(3)] dev by simp
  qed
qed

text \<open>
  The deviation is divided by the signed target price, so it is never positive when the price
  on the target chain is negative: such a feed is pushed only for its age or its confidence,
  however far its price moves.
\<close>

theorem shouldUpdate_negative_target:
  assumes "js_Number (pi_price target) = Fin t" and "t < 0"
    and "pc_priceDeviation cfg = Fin p" and "0 < p"
  shows "shouldUpdate cfg (Some source) (Some target) = YES \<longleftrightarrow>
    \<not> js_lt (pi_publishTime source) (pi_publishTime target) \<and>
    (due_time cfg source target \<or> due_confidence cfg source)"
  using price_deviation_negative_target [OF assms(1,2,4), of source] assms(3)
  by (simp add: shouldUpdate_YES_iff)

text \<open>
  The heartbeat: with integer times, a source price older than the target is never pushed, and
  one at least \<^verbatim>\<open>timeDifference\<close> newer always is, whatever the prices are.
\<close>

theorem shouldUpdate_heartbeat:
  assumes "pi_publishTime source = Fin (of_int a)" and "pi_publishTime target = Fin (of_int b)"
    and "0 \<le> a" and "a \<le> 2 ^ 53" and "0 \<le> b" and "b \<le> 2 ^ 53" and "pc_timeDifference cfg = Fin h"
  shows "(a < b \<longrightarrow> shouldUpdate cfg (Some source) (Some target) = NO) \<and>
    (b \<le> a \<and> h \<le> of_int (a - b) \<longrightarrow> shouldUpdate cfg (Some source) (Some target) = YES)"
proof -
  have "js_sub (Fin (of_int a)) (Fin (of_int b)) = of_integer (a - b)"
    using of_integer_exact [of a] assms(3,4)
    by (cases "b = 0") (simp_all add: js_sub_def of_integer_def)
  also have "\<dots> = Fin (of_int (a - b))" using assms(3-6) by (intro of_integer_exact) simp
  finally have sub: "js_sub (Fin (of_int a)) (Fin (of_int b)) = Fin (of_int (a - b))" .
  have "a < b \<longrightarrow> shouldUpdate cfg (Some source) (Some target) = NO"
    using assms(1,2) by (simp add: shouldUpdate_def)
  moreover have "b \<le> a \<and> h \<le> of_int (a - b) \<longrightarrow> shouldUpdate cfg (Some source) (Some target) = YES"
    using assms(1,2,7) sub by (auto simp: shouldUpdate_YES_iff js_ge_def)
  ultimately show ?thesis by simp
qed

section \<open>Witnesses\<close>

definition sample_raw :: raw_price_config where
  "sample_raw = \<lparr>rp_alias = ''BTC/USD'', rp_id = replicate 64 CHR ''a'', rp_time_difference = Fin 60,
     rp_price_deviation = Fin 1, rp_confidence_ratio = Fin 2, rp_early_update = None\<rparr>"

definition sample_config :: price_config where
  "sample_config = price_config_of_raw sample_raw"

definition sample_price :: "int \<Rightarrow> int \<Rightarrow> price_info" where
  "sample_price n t = \<lparr>pi_price = show_int n, pi_conf = show_int 0, pi_publishTime = Fin (of_int t)\<rparr>"

lemma sample_config_simps:
  "pc_priceDeviation sample_config = Fin 1" "pc_timeDifference sample_config = Fin 60"
  by (simp_all add: sample_config_def price_config_of_raw_def sample_raw_def)

theorem shouldUpdate_deviation_witness:
  "shouldUpdate sample_config (Some (sample_price 103 5)) (Some (sample_price 100 4)) = YES"
  using shouldUpdate_deviation [of "sample_price 103 5" 103 "sample_price 100 4" 100 sample_config 1]
  by (simp add: sample_price_def sample_config_simps pow2_def)

theorem shouldUpdate_negative_target_witness:
  "shouldUpdate sample_config (Some (sample_price (- 900) 5)) (Some (sample_price (- 100) 4)) = YES \<longleftrightarrow>
    due_time sample_config (sample_price (- 900) 5) (sample_price (- 100) 4) \<or>
    due_confidence sample_config (sample_price (- 900) 5)"
  using shouldUpdate_negative_target [of "sample_price (- 100) 4" "- 100" sample_config 1 "sample_price (- 900) 5"]
    js_Number_exact [of "- 100"]
  by (simp add: sample_price_def sample_config_simps)

theorem shouldUpdate_heartbeat_witness:
  "shouldUpdate sample_config (Some (sample_price 7 500)) (Some (sample_price 7 100)) = YES"
  using shouldUpdate_heartbeat [of "sample_price 7 500" 500 "sample_price 7 100" 100 sample_config 60]
  by (simp add: sample_price_def sample_config_simps)

end
