(* ===== verification/Step_System.thy ===== *)
theory Step_System
  imports Prelude
begin

text \<open>
  Step relations: what happens to a component of the program between two of its \<^verbatim>\<open>await\<close>s is an event,
  and its behaviour a relation of a state, an event and the next state.  A run is a sequence of events; the
  locale holds what its clients need of an invariant.
\<close>

inductive step_run :: "('s \<Rightarrow> 'e \<Rightarrow> 's \<Rightarrow> bool) \<Rightarrow> 's \<Rightarrow> 'e list \<Rightarrow> 's \<Rightarrow> bool" for step where
  run_Nil: "step_run step s [] s"
| run_Cons: "step s e s' \<Longrightarrow> step_run step s' es s'' \<Longrightarrow> step_run step s (e # es) s''"

inductive_simps step_run_Nil [simp]: "step_run step s [] s'"
inductive_simps step_run_Cons [simp]: "step_run step s (e # es) s'"

lemma step_run_append:
  "step_run step s (es @ fs) s' \<longleftrightarrow> (\<exists>m. step_run step s es m \<and> step_run step m fs s')"
  by (induction es arbitrary: s) auto

text \<open>An invariant that the steps of some events keep is kept by every run of those events.\<close>

locale step_invariant =
  fixes step :: "'s \<Rightarrow> 'e \<Rightarrow> 's \<Rightarrow> bool"
    and allowed :: "'e \<Rightarrow> bool"
    and inv :: "'s \<Rightarrow> bool"
  assumes step_keeps: "step s e s' \<Longrightarrow> allowed e \<Longrightarrow> inv s \<Longrightarrow> inv s'"
begin

lemma run_keeps:
  assumes "step_run step s es s'" and "\<forall>e \<in> set es. allowed e" and "inv s"
  shows "inv s'"
  using assms by (induction rule: step_run.induct) (auto intro: step_keeps)

end

end
