(* ===== verification/Price_Pusher.thy ===== *)
theory Price_Pusher
  imports Price_Config Step_System
begin

text \<open>
  The price pusher around the decision rule (\<^verbatim>\<open>apps/price_pusher/src\<close>): the loop of
  \<^verbatim>\<open>controller.ts\<close>, the price caches of \<^verbatim>\<open>interface.ts\<close> and \<^verbatim>\<open>pyth-price-listener.ts\<close>, the balance
  tracker of \<^verbatim>\<open>interface.ts\<close> and the helpers of \<^verbatim>\<open>utils.ts\<close>.  A cache is a map from price ids; what
  other processes do between two statements (a listener that learns a price during an \<^verbatim>\<open>await\<close>, a
  \<^verbatim>\<open>stop\<close> during a \<^verbatim>\<open>sleep\<close>) is an explicit argument or an event of a step relation.
\<close>

type_synonym price_cache = "string \<rightharpoonup> price_info"

section \<open>The controller\<close>

datatype metric_event =
    UpdateTimestamps string string jsnum jsnum jsnum
  | UpdatePriceValues string string string string
  | RecordUpdateCondition string string update_condition
  | RecordPriceUpdate string string string
  | RecordPriceUpdateError string string string

record scan_state =
  sc_pushThresholdMet :: bool
  sc_pricesToPush :: "price_config list"
  sc_pubTimesToPush :: "jsnum list"
  sc_events :: "metric_event list"

definition pub_time_to_push :: "price_info option \<Rightarrow> jsnum" where
  "pub_time_to_push targetLatestPrice =
     js_add (case targetLatestPrice of None \<Rightarrow> Fin 0 | Some p \<Rightarrow> pi_publishTime p) (Fin 1)"

definition timestamp_events :: "price_config \<Rightarrow> price_info option \<Rightarrow> price_info option \<Rightarrow> metric_event list"
where
  "timestamp_events cfg sourceLatestPrice targetLatestPrice =
     (case (targetLatestPrice, sourceLatestPrice) of
        (Some t, Some s) \<Rightarrow>
          [UpdateTimestamps (pc_id cfg) (pc_alias cfg) (pi_publishTime t) (pi_publishTime s)
             (pc_timeDifference cfg),
           UpdatePriceValues (pc_id cfg) (pc_alias cfg) (pi_price s) (pi_price t)]
      | _ \<Rightarrow> [])"

text \<open>The body of the \<^verbatim>\<open>for\<close> loop over the configurations.\<close>

definition scan_price :: "bool \<Rightarrow> price_cache \<Rightarrow> price_cache \<Rightarrow> price_config \<Rightarrow> scan_state \<Rightarrow> scan_state" where
  "scan_price metrics source target cfg st =
     (let targetLatestPrice = target (pc_id cfg);
          sourceLatestPrice = source (pc_id cfg);
          st = (if metrics
            then st\<lparr>sc_events := sc_events st @ timestamp_events cfg sourceLatestPrice targetLatestPrice\<rparr>
            else st);
          priceShouldUpdate = shouldUpdate cfg sourceLatestPrice targetLatestPrice;
          st = (if metrics
            then st\<lparr>sc_events := sc_events st @ [RecordUpdateCondition (pc_id cfg) (pc_alias cfg) priceShouldUpdate]\<rparr>
            else st);
          st = (if priceShouldUpdate = YES then st\<lparr>sc_pushThresholdMet := True\<rparr> else st) in
      if priceShouldUpdate = YES \<or> priceShouldUpdate = EARLY
        then st\<lparr>sc_pricesToPush := sc_pricesToPush st @ [cfg],
                sc_pubTimesToPush := sc_pubTimesToPush st @ [pub_time_to_push targetLatestPrice]\<rparr>
        else st)"

definition scan_prices :: "bool \<Rightarrow> price_cache \<Rightarrow> price_cache \<Rightarrow> price_config list \<Rightarrow> scan_state" where
  "scan_prices metrics source target cfgs =
     fold (scan_price metrics source target) cfgs
       \<lparr>sc_pushThresholdMet = False, sc_pricesToPush = [], sc_pubTimesToPush = [], sc_events = []\<rparr>"

text \<open>
  What an iteration meets: the caches when it scans them, how \<^verbatim>\<open>updatePriceFeed\<close> ends, and the caches
  when it has ended.
\<close>

record round =
  rd_source :: price_cache
  rd_target :: price_cache
  rd_outcome :: "unit res"
  rd_source_after :: price_cache
  rd_target_after :: price_cache

definition trigger_value :: "price_cache \<Rightarrow> price_cache \<Rightarrow> price_config \<Rightarrow> string" where
  "trigger_value source target cfg =
     (if shouldUpdate cfg (source (pc_id cfg)) (target (pc_id cfg)) = YES then ''yes'' else ''early'')"

definition push_events :: "bool \<Rightarrow> round \<Rightarrow> price_config list \<Rightarrow> metric_event list" where
  "push_events metrics rd pricesToPush =
     (if \<not> metrics then []
      else map (\<lambda>cfg.
        let trigger = trigger_value (rd_source_after rd) (rd_target_after rd) cfg in
        case rd_outcome rd of
          Inr _ \<Rightarrow> RecordPriceUpdate (pc_id cfg) (pc_alias cfg) trigger
        | Inl _ \<Rightarrow> RecordPriceUpdateError (pc_id cfg) (pc_alias cfg) trigger) pricesToPush)"

text \<open>One iteration of \<^verbatim>\<open>for (;;)\<close>: the arguments of \<^verbatim>\<open>updatePriceFeed\<close> if it is called, and the metrics.\<close>

definition controller_iteration ::
  "bool \<Rightarrow> price_config list \<Rightarrow> round \<Rightarrow> (string list \<times> jsnum list) option \<times> metric_event list" where
  "controller_iteration metrics cfgs rd =
     (let st = scan_prices metrics (rd_source rd) (rd_target rd) cfgs in
      if sc_pushThresholdMet st
        then (Some (map pc_id (sc_pricesToPush st), sc_pubTimesToPush st),
              sc_events st @ push_events metrics rd (sc_pricesToPush st))
        else (None, sc_events st))"

definition controller_run ::
  "bool \<Rightarrow> price_config list \<Rightarrow> round list \<Rightarrow> ((string list \<times> jsnum list) option \<times> metric_event list) list"
where
  "controller_run metrics cfgs rounds = map (controller_iteration metrics cfgs) rounds"

section \<open>What an iteration pushes\<close>

abbreviation condition_of :: "price_cache \<Rightarrow> price_cache \<Rightarrow> price_config \<Rightarrow> update_condition" where
  "condition_of source target cfg \<equiv> shouldUpdate cfg (source (pc_id cfg)) (target (pc_id cfg))"

definition due :: "price_cache \<Rightarrow> price_cache \<Rightarrow> price_config list \<Rightarrow> price_config list" where
  "due source target cfgs = filter (\<lambda>cfg. condition_of source target cfg \<noteq> NO) cfgs"

lemma scan_prices_fold:
  "fold (scan_price metrics source target) cfgs st =
     \<lparr>sc_pushThresholdMet = (sc_pushThresholdMet st \<or> list_ex (\<lambda>cfg. condition_of source target cfg = YES) cfgs),
      sc_pricesToPush = sc_pricesToPush st @ due source target cfgs,
      sc_pubTimesToPush = sc_pubTimesToPush st @ map (\<lambda>cfg. pub_time_to_push (target (pc_id cfg))) (due source target cfgs),
      sc_events = sc_events st @ (if metrics then concat (map (\<lambda>cfg.
         timestamp_events cfg (source (pc_id cfg)) (target (pc_id cfg)) @
         [RecordUpdateCondition (pc_id cfg) (pc_alias cfg) (condition_of source target cfg)]) cfgs) else [])\<rparr>"
proof (induction cfgs arbitrary: st)
  case (Cons cfg cfgs)
  then show ?case
    by (cases "condition_of source target cfg") (auto simp: scan_price_def Let_def due_def)
qed (simp add: due_def)

lemma controller_iteration_fst:
  "fst (controller_iteration metrics cfgs rd) =
     (let source = rd_source rd; target = rd_target rd in
      if \<exists>cfg \<in> set cfgs. condition_of source target cfg = YES
        then Some (map pc_id (due source target cfgs),
                   map (\<lambda>cfg. pub_time_to_push (target (pc_id cfg))) (due source target cfgs))
        else None)"
  by (simp add: controller_iteration_def scan_prices_def scan_prices_fold list_ex_iff Let_def)

text \<open>The time one after an integer publish time.\<close>

lemma pub_time_exact:
  assumes "map_option pi_publishTime latest = map_option (\<lambda>t. Fin (of_int t)) time" and "\<forall>t. time = Some t \<longrightarrow> \<bar>t\<bar> < 2 ^ 53"
  shows "pub_time_to_push latest = Fin (of_int (case time of None \<Rightarrow> 1 | Some t \<Rightarrow> t + 1))"
proof (cases time)
  case None
  then have "latest = None" using assms(1) by simp
  then show ?thesis using None of_integer_exact [of 1] by (simp add: pub_time_to_push_def of_integer_def)
next
  case (Some t)
  then obtain p where p: "latest = Some p" "pi_publishTime p = Fin (of_int t)" using assms(1) by (cases latest) simp_all
  have "\<bar>t\<bar> < 2 ^ 53" using assms(2) Some by blast
  then have "\<bar>t + 1\<bar> \<le> 2 ^ 53" by linarith
  from of_integer_exact [OF this] show ?thesis using Some p by (simp add: pub_time_to_push_def of_integer_def)
qed

definition condition_event :: "metric_event \<Rightarrow> bool" where
  "condition_event e = (case e of RecordUpdateCondition _ _ _ \<Rightarrow> True | _ \<Rightarrow> False)"

definition push_event :: "metric_event \<Rightarrow> (bool \<times> string) option" where
  "push_event e = (case e of RecordPriceUpdate i _ _ \<Rightarrow> Some (True, i)
     | RecordPriceUpdateError i _ _ \<Rightarrow> Some (False, i) | _ \<Rightarrow> None)"

lemma timestamp_events_filter [simp]:
  "filter condition_event (timestamp_events cfg s t) = []"
  "List.map_filter push_event (timestamp_events cfg s t) = []"
  by (auto simp: timestamp_events_def condition_event_def push_event_def List.map_filter_def split: option.split)

lemma map_filter_append [simp]:
  "List.map_filter f (xs @ ys) = List.map_filter f xs @ List.map_filter f ys"
  by (simp add: List.map_filter_def)

lemma scan_events_filter:
  "filter condition_event (concat (map (\<lambda>cfg. timestamp_events cfg (f cfg) (g cfg) @
     [RecordUpdateCondition (pc_id cfg) (pc_alias cfg) (h cfg)]) cfgs)) =
   map (\<lambda>cfg. RecordUpdateCondition (pc_id cfg) (pc_alias cfg) (h cfg)) cfgs"
  "List.map_filter push_event (concat (map (\<lambda>cfg. timestamp_events cfg (f cfg) (g cfg) @
     [RecordUpdateCondition (pc_id cfg) (pc_alias cfg) (h cfg)]) cfgs)) = []"
  by (induction cfgs) (simp_all add: condition_event_def push_event_def List.map_filter_simps)

lemma push_events_filter:
  "filter condition_event (push_events m rd cfgs) = []"
  "List.map_filter push_event (push_events True rd cfgs) =
     map (\<lambda>cfg. (\<not> isl (rd_outcome rd), pc_id cfg)) cfgs"
  by (induction cfgs)
    (auto simp: push_events_def condition_event_def push_event_def List.map_filter_simps Let_def split: sum.split)

text \<open>
  Metrics: every iteration records the condition of every feed exactly once, in order, and a
  push is recorded once per pushed feed, as an update or as an error according to how it ended.
\<close>

lemma controller_iteration_metrics:
  "filter condition_event (snd (controller_iteration True cfgs rd)) =
     map (\<lambda>cfg. RecordUpdateCondition (pc_id cfg) (pc_alias cfg)
       (condition_of (rd_source rd) (rd_target rd) cfg)) cfgs \<and>
   List.map_filter push_event (snd (controller_iteration True cfgs rd)) =
     (case fst (controller_iteration True cfgs rd) of
        None \<Rightarrow> [] | Some (ids, _) \<Rightarrow> map (\<lambda>i. (\<not> isl (rd_outcome rd), i)) ids)"
  using scan_events_filter push_events_filter
  by (simp add: controller_iteration_def scan_prices_def scan_prices_fold Let_def comp_def)

text \<open>
  C14. What an iteration does.  Let the publish times of the prices on the target chain be integers below \<open>2 ^ 53\<close>.  The iteration pushes exactly when some
  feed must be updated, and then in one call all feeds whose condition is \<^verbatim>\<open>YES\<close> or \<^verbatim>\<open>EARLY\<close>, in configuration order, each with the
  time one second after its price on the target chain, or 1 if it has none there.  With metrics, it records the condition of every feed once and in order, and a
  push once per pushed feed, as an update or as an error according to how it ended.
\<close>

theorem controller_iteration_pushes:
  assumes "\<forall>i. map_option pi_publishTime (rd_target rd i) = map_option (\<lambda>t. Fin (of_int t)) (time i)"
    and "\<forall>i t. time i = Some t \<longrightarrow> \<bar>t\<bar> < 2 ^ 53"
  shows "let condition = (\<lambda>cfg. shouldUpdate cfg (rd_source rd (pc_id cfg)) (rd_target rd (pc_id cfg)));
      due = filter (\<lambda>cfg. condition cfg = YES \<or> condition cfg = EARLY) cfgs;
      push = YES \<in> condition ` set cfgs in
    fst (controller_iteration metrics cfgs rd) =
      (if push then Some (map pc_id due, map (\<lambda>cfg. Fin (of_int (case time (pc_id cfg) of None \<Rightarrow> 1 | Some t \<Rightarrow> t + 1))) due) else None) \<and>
    (metrics \<longrightarrow>
      filter condition_event (snd (controller_iteration metrics cfgs rd)) =
        map (\<lambda>cfg. RecordUpdateCondition (pc_id cfg) (pc_alias cfg) (condition cfg)) cfgs \<and>
      List.map_filter push_event (snd (controller_iteration metrics cfgs rd)) =
        (if push then map (\<lambda>cfg. (\<not> isl (rd_outcome rd), pc_id cfg)) due else []))"
proof -
  have due: "filter (\<lambda>cfg. shouldUpdate cfg (rd_source rd (pc_id cfg)) (rd_target rd (pc_id cfg)) = YES \<or>
      shouldUpdate cfg (rd_source rd (pc_id cfg)) (rd_target rd (pc_id cfg)) = EARLY) cfgs = due (rd_source rd) (rd_target rd) cfgs"
    unfolding due_def by (rule filter_cong) (auto intro: update_condition.exhaust)
  have time: "pub_time_to_push (rd_target rd i) = Fin (of_int (case time i of None \<Rightarrow> 1 | Some t \<Rightarrow> t + 1))" for i
    using pub_time_exact assms by blast
  have "fst (controller_iteration metrics cfgs rd) =
      (if YES \<in> (\<lambda>cfg. condition_of (rd_source rd) (rd_target rd) cfg) ` set cfgs
       then Some (map pc_id (due (rd_source rd) (rd_target rd) cfgs),
         map (\<lambda>cfg. Fin (of_int (case time (pc_id cfg) of None \<Rightarrow> 1 | Some t \<Rightarrow> t + 1))) (due (rd_source rd) (rd_target rd) cfgs)) else None)"
    by (simp add: controller_iteration_fst time image_iff eq_commute [of YES] Let_def)
  then show ?thesis using controller_iteration_metrics [of cfgs rd] unfolding Let_def due by (auto simp: comp_def)
qed

section \<open>The cache of a chain listener\<close>

definition updateLatestPriceInfo :: "string \<Rightarrow> price_info \<Rightarrow> price_cache \<Rightarrow> price_cache" where
  "updateLatestPriceInfo priceId observedPrice cache =
     (case cache priceId of
        Some cached \<Rightarrow>
          if js_gt (pi_publishTime cached) (pi_publishTime observedPrice) then cache
          else cache(priceId \<mapsto> observedPrice)
      | None \<Rightarrow> cache(priceId \<mapsto> observedPrice))"

text \<open>
  \<^verbatim>\<open>pollPrices\<close>: the items in order; an exception of \<^verbatim>\<open>getOnChainPriceInfo\<close> ends the poll and keeps
  what it has cached.  \<open>between\<close> are the observations of a subscription that arrive while the poll
  awaits that item.
\<close>

fun pollPrices ::
  "(string \<Rightarrow> price_info option res) \<Rightarrow> (string \<Rightarrow> (string \<times> price_info) list) \<Rightarrow> string list \<Rightarrow>
   price_cache \<Rightarrow> price_cache \<times> js_error option" where
  "pollPrices getOnChainPriceInfo between [] cache = (cache, None)"
| "pollPrices getOnChainPriceInfo between (priceId # ids) cache =
     (let cache = fold (\<lambda>(i, p). updateLatestPriceInfo i p) (between priceId) cache in
      case getOnChainPriceInfo priceId of
        Inl e \<Rightarrow> (cache, Some e)
      | Inr None \<Rightarrow> pollPrices getOnChainPriceInfo between ids cache
      | Inr (Some currentPriceInfo) \<Rightarrow>
          pollPrices getOnChainPriceInfo between ids (updateLatestPriceInfo priceId currentPriceInfo cache))"

text \<open>The observations a poll makes, in the order in which they reach the cache.\<close>

fun poll_observations ::
  "(string \<Rightarrow> price_info option res) \<Rightarrow> (string \<Rightarrow> (string \<times> price_info) list) \<Rightarrow> string list \<Rightarrow>
   (string \<times> price_info) list" where
  "poll_observations get between [] = []"
| "poll_observations get between (i # ids) = between i @
     (case get i of Inl e \<Rightarrow> [] | Inr None \<Rightarrow> poll_observations get between ids
      | Inr (Some p) \<Rightarrow> (i, p) # poll_observations get between ids)"

definition observe :: "(string \<times> price_info) list \<Rightarrow> price_cache \<Rightarrow> price_cache" where
  "observe obs = fold (\<lambda>(i, p). updateLatestPriceInfo i p) obs"

lemma observe_simps [simp]:
  "observe [] c = c" "observe ((i, p) # obs) c = observe obs (updateLatestPriceInfo i p c)"
  "observe (xs @ ys) c = observe ys (observe xs c)"
  by (simp_all add: observe_def)

lemma pollPrices_observe: "fst (pollPrices get between ids c) = observe (poll_observations get between ids) c"
  by (induction ids arbitrary: c)
    (auto simp: Let_def observe_def [symmetric] split: sum.split option.split)

text \<open>The best observation of an id: the last of those with the greatest publish time.\<close>

definition best :: "price_info option \<Rightarrow> price_info \<Rightarrow> price_info option" where
  "best c p = (case c of None \<Rightarrow> Some p
     | Some q \<Rightarrow> if js_gt (pi_publishTime q) (pi_publishTime p) then Some q else Some p)"

lemma updateLatestPriceInfo_apply:
  "updateLatestPriceInfo i p c = c(i := best (c i) p)"
  by (auto simp: updateLatestPriceInfo_def best_def fun_eq_iff split: option.split)

lemma observe_apply: "observe obs c i = foldl best (c i) (map snd (filter (\<lambda>x. fst x = i) obs))"
  by (induction obs arbitrary: c) (auto simp: updateLatestPriceInfo_apply)

definition finite_time :: "price_info \<Rightarrow> bool" where
  "finite_time p \<longleftrightarrow> (\<exists>q. pi_publishTime p = Fin q)"

lemma foldl_best:
  assumes "\<forall>p \<in> set ps. finite_time p" and "\<forall>p. c = Some p \<longrightarrow> finite_time p" and "c \<noteq> None \<or> ps \<noteq> []"
  shows "\<exists>p. foldl best c ps = Some p \<and> (c = Some p \<or> p \<in> set ps) \<and> finite_time p \<and>
    (\<forall>q. c = Some q \<or> q \<in> set ps \<longrightarrow> \<not> js_gt (pi_publishTime q) (pi_publishTime p))"
  using assms
proof (induction ps arbitrary: c)
  case (Cons p ps)
  have fin: "\<forall>q. best c p = Some q \<longrightarrow> finite_time q"
    using Cons.prems by (auto simp: best_def split: option.splits if_splits)
  have "best c p \<noteq> None" by (auto simp: best_def split: option.split)
  with Cons.IH [of "best c p"] fin Cons.prems(1) obtain r where
    r: "foldl best (best c p) ps = Some r" "best c p = Some r \<or> r \<in> set ps" "finite_time r"
       "\<forall>q. best c p = Some q \<or> q \<in> set ps \<longrightarrow> \<not> js_gt (pi_publishTime q) (pi_publishTime r)"
    by auto
  obtain b where b: "best c p = Some b" "finite_time b" "b = p \<or> c = Some b"
    "\<forall>q. c = Some q \<or> q = p \<longrightarrow> \<not> js_gt (pi_publishTime q) (pi_publishTime b)"
  proof (cases c)
    case None
    then show thesis using Cons.prems(1) by (intro that [of p]) (auto simp: best_def finite_time_def)
  next
    case (Some q)
    then show thesis
      using Cons.prems(1,2)
      by (cases "js_gt (pi_publishTime q) (pi_publishTime p)")
        (auto simp: best_def finite_time_def intro: that [of q] that [of p])
  qed
  have "\<not> js_gt (pi_publishTime q) (pi_publishTime r)" if "c = Some q \<or> q = p" for q
  proof -
    have "finite_time q" using that Cons.prems(1,2) by auto
    then show ?thesis using b r(3,4) that by (auto simp: finite_time_def)
  qed
  then show ?case using r b by auto
qed (auto simp: finite_time_def)

text \<open>
  C15. Whatever the poll and the subscription observe, and in whatever order, the cache of a chain
  listener holds for every price id one of its observations, and none of them is newer: a late
  observation of an old price never replaces a newer one.
\<close>

theorem chain_listener_latest:
  assumes "\<forall>(i, p) \<in> set (poll_observations get between ids). finite_time p"
    and "i \<in> fst ` set (poll_observations get between ids)"
  shows "\<exists>p. fst (pollPrices get between ids Map.empty) i = Some p \<and>
    (i, p) \<in> set (poll_observations get between ids) \<and>
    (\<forall>q. (i, q) \<in> set (poll_observations get between ids) \<longrightarrow>
      \<not> js_gt (pi_publishTime q) (pi_publishTime p))"
proof -
  let ?obs = "poll_observations get between ids"
  let ?ps = "map snd (filter (\<lambda>x. fst x = i) ?obs)"
  have set: "set ?ps = {p. (i, p) \<in> set ?obs}" by force
  moreover have "?ps \<noteq> []" using assms(2) by (force simp: filter_empty_conv)
  moreover have "\<forall>p \<in> set ?ps. finite_time p" using assms(1) set by blast
  ultimately show ?thesis
    using foldl_best [of ?ps None] by (auto simp: pollPrices_observe observe_apply)
qed

section \<open>The Hermes listener\<close>

record pyth_listener =
  pl_latestPriceInfo :: price_cache
  pl_lastUpdated :: "jsnum option"

record price_update =
  pu_id :: string
  pu_price :: string
  pu_conf :: string
  pu_publish_time :: jsnum

text \<open>An update with the two readings of \<^verbatim>\<open>Date.now()\<close> made while it is handled.\<close>

type_synonym timed_update = "price_update \<times> jsnum \<times> jsnum"

definition too_old :: "timed_update \<Rightarrow> bool" where
  "too_old u = (case u of (priceUpdate, now, _) \<Rightarrow>
     js_gt (js_sub (js_div now (Fin 1000)) (pu_publish_time priceUpdate)) (Fin 60))"

definition price_info_of :: "price_update \<Rightarrow> price_info" where
  "price_info_of u = \<lparr>pi_price = pu_price u, pi_conf = pu_conf u, pi_publishTime = pu_publish_time u\<rparr>"

definition handle_update :: "timed_update \<Rightarrow> pyth_listener \<Rightarrow> pyth_listener" where
  "handle_update u st = (case u of (priceUpdate, now, now') \<Rightarrow>
     if too_old u then st
     else st\<lparr>pl_latestPriceInfo := (pl_latestPriceInfo st)(pu_id priceUpdate \<mapsto> price_info_of priceUpdate),
             pl_lastUpdated := Some now'\<rparr>)"

text \<open>\<^verbatim>\<open>eventSource.onmessage\<close>; \<^verbatim>\<open>parsed\<close> may be missing.\<close>

definition onmessage :: "timed_update list option \<Rightarrow> pyth_listener \<Rightarrow> pyth_listener" where
  "onmessage parsed st = (case parsed of None \<Rightarrow> st | Some us \<Rightarrow> fold handle_update us st)"

definition new_pyth_listener :: pyth_listener where
  "new_pyth_listener = \<lparr>pl_latestPriceInfo = Map.empty, pl_lastUpdated = None\<rparr>"

text \<open>The health check: the timer callback throws when this is an error.\<close>

definition health_check :: "jsnum \<Rightarrow> pyth_listener \<Rightarrow> unit res" where
  "health_check now st =
     (case pl_lastUpdated st of
        None \<Rightarrow> Inl (Error ''Hermes Price feeds are not updating.'')
      | Some l \<Rightarrow> if js_lt l (js_sub now (Fin 30000))
          then Inl (Error ''Hermes Price feeds are not updating.'') else Inr ())"

definition fresh_updates :: "timed_update list option list \<Rightarrow> timed_update list" where
  "fresh_updates msgs = filter (\<lambda>u. \<not> too_old u) (concat (map (\<lambda>m. case m of None \<Rightarrow> [] | Some us \<Rightarrow> us) msgs))"

lemma handle_updates:
  "pl_latestPriceInfo (fold handle_update us st) i =
     (let vs = filter (\<lambda>u. \<not> too_old u \<and> pu_id (fst u) = i) us in
      if vs = [] then pl_latestPriceInfo st i else Some (price_info_of (fst (last vs))))"
  "pl_lastUpdated (fold handle_update us st) =
     (let vs = filter (\<lambda>u. \<not> too_old u) us in
      if vs = [] then pl_lastUpdated st else Some (snd (snd (last vs))))"
  by (induction us arbitrary: st rule: rev_induct) (auto simp: handle_update_def Let_def)

lemma fold_onmessage:
  "fold onmessage msgs st = fold handle_update (concat (map (\<lambda>m. case m of None \<Rightarrow> [] | Some us \<Rightarrow> us) msgs)) st"
  by (induction msgs arbitrary: st) (simp_all add: onmessage_def split: option.split)

text \<open>
  After any messages, the source price of a feed is that of the last update for it that was at
  most 60 seconds old on arrival, and the health check fails exactly when no such update of any feed
  was received in the last 30 seconds (or ever).
\<close>

theorem pyth_listener_state:
  "pl_latestPriceInfo (fold onmessage msgs new_pyth_listener) i =
     (let us = filter (\<lambda>u. pu_id (fst u) = i) (fresh_updates msgs) in
      if us = [] then None else Some (price_info_of (fst (last us)))) \<and>
   (health_check now (fold onmessage msgs new_pyth_listener) = Inr () \<longleftrightarrow>
     fresh_updates msgs \<noteq> [] \<and>
     \<not> js_lt (snd (snd (last (fresh_updates msgs)))) (js_sub now (Fin 30000)))"
proof -
  have "filter (\<lambda>u. pu_id (fst u) = i) (fresh_updates msgs) =
      filter (\<lambda>u. \<not> too_old u \<and> pu_id (fst u) = i) (concat (map (\<lambda>m. case m of None \<Rightarrow> [] | Some us \<Rightarrow> us) msgs))"
    by (simp add: fresh_updates_def filter_filter conj_commute)
  then show ?thesis
    unfolding fold_onmessage health_check_def handle_updates fresh_updates_def [symmetric]
    by (simp add: new_pyth_listener_def Let_def)
qed

section \<open>The interface of the listeners\<close>

text \<open>
  \<^verbatim>\<open>IPriceListener\<close>, as the controller uses it: a listener that starts without prices, learns from
  events, and reports for an id what \<^verbatim>\<open>getLatestPriceInfo\<close> returns.  It may drop what an event offers and
  may keep what it had, but reports nothing else.
\<close>

locale price_listener =
  fixes getLatestPriceInfo :: "'s \<Rightarrow> string \<Rightarrow> price_info option"
    and learn :: "'e \<Rightarrow> 's \<Rightarrow> 's"
    and offered :: "'e \<Rightarrow> (string \<times> price_info) list"
    and empty_listener :: 's
  assumes starts_empty: "getLatestPriceInfo empty_listener i = None"
    and learns_offered: "getLatestPriceInfo (learn e s) i = Some p \<Longrightarrow>
      getLatestPriceInfo s i = Some p \<or> (i, p) \<in> set (offered e)"
    and keeps_some: "getLatestPriceInfo s i = Some p \<Longrightarrow> getLatestPriceInfo (learn e s) i \<noteq> None"
begin

lemma reported_was_offered:
  assumes "getLatestPriceInfo (fold learn es empty_listener) i = Some p"
  obtains e where "e \<in> set es" and "(i, p) \<in> set (offered e)"
proof -
  have "getLatestPriceInfo (fold learn es s) i = Some p \<Longrightarrow>
      getLatestPriceInfo s i = Some p \<or> (\<exists>e \<in> set es. (i, p) \<in> set (offered e))" for s
    by (induction es arbitrary: s) (auto dest: learns_offered)
  from this [OF assms] show thesis using starts_empty that by auto
qed

lemma never_forgets:
  "getLatestPriceInfo s i \<noteq> None \<Longrightarrow> getLatestPriceInfo (fold learn es s) i \<noteq> None"
proof (induction es arbitrary: s)
  case (Cons e es)
  then obtain p where "getLatestPriceInfo s i = Some p" by blast
  from Cons.IH [OF keeps_some [OF this]] show ?case by simp
qed simp

end

interpretation chain_listener: price_listener "\<lambda>c. c" "\<lambda>(i, p). updateLatestPriceInfo i p" "\<lambda>e. [e]" Map.empty
  by unfold_locales (auto simp: updateLatestPriceInfo_def split: option.splits if_splits)

text \<open>What a message offers: its updates that are not too old.\<close>

definition fresh_prices :: "timed_update list option \<Rightarrow> (string \<times> price_info) list" where
  "fresh_prices m = map (\<lambda>u. (pu_id (fst u), price_info_of (fst u))) (fresh_updates [m])"

interpretation hermes_listener: price_listener pl_latestPriceInfo onmessage fresh_prices new_pyth_listener
proof
  show "pl_latestPriceInfo new_pyth_listener i = None" for i
    by (simp add: new_pyth_listener_def)
  fix m s i p
  show "pl_latestPriceInfo (onmessage m s) i \<noteq> None" if "pl_latestPriceInfo s i = Some p"
    using that by (auto simp: onmessage_def handle_updates Let_def split: option.split)
  assume p: "pl_latestPriceInfo (onmessage m s) i = Some p"
  show "pl_latestPriceInfo s i = Some p \<or> (i, p) \<in> set (fresh_prices m)"
  proof (cases m)
    case None
    then show ?thesis using p by (simp add: onmessage_def)
  next
    case (Some us)
    let ?vs = "filter (\<lambda>u. \<not> too_old u \<and> pu_id (fst u) = i) us"
    show ?thesis
    proof (cases "?vs = []")
      case True
      then show ?thesis using p Some by (simp add: onmessage_def handle_updates)
    next
      case False
      then have "last ?vs \<in> set ?vs" by (rule last_in_set)
      moreover have "p = price_info_of (fst (last ?vs))"
        using p Some False by (simp add: onmessage_def handle_updates)
      ultimately have "(i, p) = (\<lambda>u. (pu_id (fst u), price_info_of (fst u))) (last ?vs)"
          and "last ?vs \<in> set (fresh_updates [m])"
        by (simp_all add: Some fresh_updates_def)
      then show ?thesis unfolding fresh_prices_def set_map by blast
    qed
  qed
qed

lemma pub_time_None: "pub_time_to_push None = Fin 1"
  using of_integer_exact [of 1] by (simp add: pub_time_to_push_def of_integer_def)

text \<open>
  C16. What is pushed was received: every feed an iteration pushes had an update from Hermes that was not
  too old when it arrived, and the time it is pushed with is one after the publish time of a price
  observed on the target chain, or 1 when none of that feed ever was.
\<close>

theorem controller_pushes_received:
  assumes "rd_source rd = pl_latestPriceInfo (fold onmessage msgs new_pyth_listener)"
    and "rd_target rd = observe obs Map.empty"
    and "fst (controller_iteration metrics cfgs rd) = Some (ids, pubTimes)"
  shows "length pubTimes = length ids \<and>
    (\<forall>k < length ids.
      (\<exists>u \<in> set (fresh_updates msgs). pu_id (fst u) = ids ! k) \<and>
      ((\<exists>p. (ids ! k, p) \<in> set obs \<and> pubTimes ! k = js_add (pi_publishTime p) (Fin 1)) \<or>
       (\<nexists>p. (ids ! k, p) \<in> set obs) \<and> pubTimes ! k = Fin 1))"
proof -
  let ?due = "due (rd_source rd) (rd_target rd) cfgs"
  have ids: "ids = map pc_id ?due" and pubTimes: "pubTimes = map (\<lambda>cfg. pub_time_to_push (rd_target rd (pc_id cfg))) ?due"
    using assms(3) by (auto simp: controller_iteration_def scan_prices_def scan_prices_fold Let_def split: if_splits)
  have src: "\<exists>u \<in> set (fresh_updates msgs). pu_id (fst u) = pc_id cfg" if "cfg \<in> set ?due" for cfg
  proof -
    from that obtain p where "pl_latestPriceInfo (fold onmessage msgs new_pyth_listener) (pc_id cfg) = Some p"
      by (cases "rd_source rd (pc_id cfg)") (auto simp: due_def shouldUpdate_def assms(1))
    then obtain m where "m \<in> set msgs" and "(pc_id cfg, p) \<in> set (fresh_prices m)"
      by (rule hermes_listener.reported_was_offered)
    then show ?thesis by (force simp: fresh_prices_def fresh_updates_def)
  qed
  have tgt: "(\<exists>p. (i, p) \<in> set obs \<and> pub_time_to_push (rd_target rd i) = js_add (pi_publishTime p) (Fin 1)) \<or>
      (\<nexists>p. (i, p) \<in> set obs) \<and> pub_time_to_push (rd_target rd i) = Fin 1" for i
  proof (cases "rd_target rd i")
    case (Some p)
    then obtain e where "e \<in> set obs" and "(i, p) \<in> set [e]"
      unfolding assms(2) observe_def by (rule chain_listener.reported_was_offered)
    then show ?thesis using Some by (auto simp: pub_time_to_push_def)
  next
    case None
    have "observe obs Map.empty i \<noteq> None" if mem: "(i, p) \<in> set obs" for p
    proof -
      obtain xs ys where obs: "obs = xs @ (i, p) # ys" using split_list [OF mem] by blast
      have "updateLatestPriceInfo i p (observe xs Map.empty) i \<noteq> None"
        by (simp add: updateLatestPriceInfo_apply best_def split: option.split)
      then show ?thesis
        using chain_listener.never_forgets [of "updateLatestPriceInfo i p (observe xs Map.empty)" i ys]
        by (simp add: obs observe_def)
    qed
    then show ?thesis using None by (auto simp: assms(2) pub_time_None)
  qed
  show ?thesis using src tgt by (auto simp: ids pubTimes)
qed

section \<open>The balance tracker\<close>

text \<open>
  \<^verbatim>\<open>isRunning\<close>, the calls of \<^verbatim>\<open>start\<close> that still await their first \<^verbatim>\<open>updateBalance\<close>, the update loops
  that are alive (each asleep between two events), and the number of balance updates made.
\<close>

record balance_tracker =
  bt_isRunning :: bool
  bt_starting :: nat
  bt_loops :: nat
  bt_updates :: nat

datatype tracker_event = StartCalled | FirstUpdateDone | FirstUpdateFailed | StopCalled | Woken | WokenFailed

inductive tracker_step :: "balance_tracker \<Rightarrow> tracker_event \<Rightarrow> balance_tracker \<Rightarrow> bool" where
  start_ignored: "bt_isRunning t \<Longrightarrow> tracker_step t StartCalled t"
| start: "\<not> bt_isRunning t \<Longrightarrow>
    tracker_step t StartCalled (t\<lparr>bt_isRunning := True, bt_starting := Suc (bt_starting t), bt_updates := Suc (bt_updates t)\<rparr>)"
| started: "bt_starting t = Suc n \<Longrightarrow>
    tracker_step t FirstUpdateDone (t\<lparr>bt_starting := n, bt_loops := Suc (bt_loops t)\<rparr>)"
| start_failed: "bt_starting t = Suc n \<Longrightarrow> tracker_step t FirstUpdateFailed (t\<lparr>bt_starting := n\<rparr>)"
| stop: "tracker_step t StopCalled (t\<lparr>bt_isRunning := False\<rparr>)"
| wake_break: "bt_loops t = Suc n \<Longrightarrow> \<not> bt_isRunning t \<Longrightarrow> tracker_step t Woken (t\<lparr>bt_loops := n\<rparr>)"
| wake_update: "bt_loops t = Suc n \<Longrightarrow> bt_isRunning t \<Longrightarrow>
    tracker_step t Woken (t\<lparr>bt_updates := Suc (bt_updates t)\<rparr>)"
| wake_failed: "bt_loops t = Suc n \<Longrightarrow> bt_isRunning t \<Longrightarrow>
    tracker_step t WokenFailed (t\<lparr>bt_loops := n, bt_updates := Suc (bt_updates t)\<rparr>)"

inductive_cases tracker_stepE: "tracker_step t e t'"

abbreviation tracker_run :: "balance_tracker \<Rightarrow> tracker_event list \<Rightarrow> balance_tracker \<Rightarrow> bool" where
  "tracker_run \<equiv> step_run tracker_step"

definition new_tracker :: balance_tracker where
  "new_tracker = \<lparr>bt_isRunning = False, bt_starting = 0, bt_loops = 0, bt_updates = 0\<rparr>"

definition single_loop :: "balance_tracker \<Rightarrow> bool" where
  "single_loop t \<longleftrightarrow> bt_starting t + bt_loops t \<le> (if bt_isRunning t then 1 else 0)"

interpretation tracker: step_invariant tracker_step "\<lambda>e. e \<noteq> StopCalled" single_loop
  by unfold_locales (erule tracker_stepE; simp add: single_loop_def split: if_splits)

text \<open>
  As long as \<^verbatim>\<open>stop\<close> is not called, a tracker has at most one update loop, however often and
  whenever \<^verbatim>\<open>start\<close> is called and whichever balance updates fail.
\<close>

theorem balance_tracker_single_loop:
  assumes "tracker_run new_tracker es t" and "StopCalled \<notin> set es"
  shows "bt_starting t + bt_loops t \<le> 1"
  using tracker.run_keeps [OF assms(1)] assms(2) by (fastforce simp add: single_loop_def new_tracker_def split: if_splits)

text \<open>
  A tracker that is stopped and started again while its loop sleeps has two update loops: the
  old loop finds \<^verbatim>\<open>isRunning\<close> true when it wakes and goes on.
\<close>

theorem balance_tracker_two_loops:
  "\<exists>t. tracker_run new_tracker [StartCalled, FirstUpdateDone, StopCalled, StartCalled, FirstUpdateDone, Woken, Woken] t \<and>
     bt_loops t = 2 \<and> bt_updates t = 4"
proof -
  let ?t = "\<lambda>r s l u. \<lparr>bt_isRunning = r, bt_starting = s, bt_loops = l, bt_updates = u\<rparr>"
  have "tracker_step (?t False 0 0 0) StartCalled (?t True 1 0 1)"
    using tracker_step.start [of "?t False 0 0 0"] by (simp add: eval_nat_numeral)
  moreover have "tracker_step (?t True 1 0 1) FirstUpdateDone (?t True 0 1 1)"
    using tracker_step.started [of "?t True 1 0 1" 0] by (simp add: eval_nat_numeral)
  moreover have "tracker_step (?t True 0 1 1) StopCalled (?t False 0 1 1)"
    using tracker_step.stop [of "?t True 0 1 1"] by (simp add: eval_nat_numeral)
  moreover have "tracker_step (?t False 0 1 1) StartCalled (?t True 1 1 2)"
    using tracker_step.start [of "?t False 0 1 1"] by (simp add: eval_nat_numeral)
  moreover have "tracker_step (?t True 1 1 2) FirstUpdateDone (?t True 0 2 2)"
    using tracker_step.started [of "?t True 1 1 2" 0] by (simp add: eval_nat_numeral)
  moreover have wake: "tracker_step (?t True 0 2 n) Woken (?t True 0 2 (Suc n))" for n
    using tracker_step.wake_update [of "?t True 0 2 n" 1] by (simp add: eval_nat_numeral)
  ultimately have "tracker_run new_tracker
      [StartCalled, FirstUpdateDone, StopCalled, StartCalled, FirstUpdateDone, Woken, Woken] (?t True 0 2 4)"
    using wake [of 2] wake [of 3] unfolding new_tracker_def
    by (simp add: eval_nat_numeral) blast
  then show ?thesis by force
qed

section \<open>Helpers\<close>

record price_item =
  it_id :: string
  it_alias :: string

text \<open>\<^verbatim>\<open>new URL(endpoint).protocol\<close> is the argument \<open>protocol\<close>; it throws on an invalid URL.\<close>

definition isWsEndpoint :: "(string \<Rightarrow> string res) \<Rightarrow> string \<Rightarrow> bool res" where
  "isWsEndpoint protocol endpoint =
     res_bind (protocol endpoint) (\<lambda>p. Inr (p = ''ws:'' \<or> p = ''wss:''))"

definition verifyValidOption :: "('a \<Rightarrow> string) \<Rightarrow> ('a list \<Rightarrow> string) \<Rightarrow> 'a \<Rightarrow> 'a list \<Rightarrow> 'a res" where
  "verifyValidOption show_option show_options option validOptions =
     (if option \<in> set validOptions then Inr option
      else Inl (Error (show_option option @ '' is not a valid option. Please choose betweeen '' @
        show_options validOptions)))"

definition assertDefined :: "'a option \<Rightarrow> 'a res" where
  "assertDefined value = (case value of
     None \<Rightarrow> Inl (Error ''Assertion failed: value was undefined'') | Some v \<Rightarrow> Inr v)"

text \<open>\<^verbatim>\<open>filterInvalidPriceItems\<close>: the \<^verbatim>\<open>reduce\<close> over the items, given the ids Hermes knows.\<close>

definition filterInvalidPriceItems ::
  "string list \<Rightarrow> price_item list \<Rightarrow> price_item list \<times> price_item list" where
  "filterInvalidPriceItems allPriceIds priceItems =
     foldl (\<lambda>(existing, invalid) item.
       if it_id item \<in> set allPriceIds then (existing @ [item], invalid) else (existing, invalid @ [item]))
       ([], []) priceItems"

lemma filterInvalidPriceItems_partition:
  "filterInvalidPriceItems allPriceIds priceItems =
     partition (\<lambda>item. it_id item \<in> set allPriceIds) priceItems"
  by (induction priceItems rule: rev_induct) (auto simp: filterInvalidPriceItems_def split: prod.splits)

section \<open>Witnesses\<close>

theorem chain_listener_latest_witness:
  "\<exists>p. fst (pollPrices (\<lambda>_. Inr (Some (sample_price 7 5))) (\<lambda>_. [(''a'', sample_price 8 6)]) [''a''] Map.empty) ''a'' = Some p \<and>
    \<not> js_gt (Fin 6) (pi_publishTime p)"
  using chain_listener_latest [of "\<lambda>_. Inr (Some (sample_price 7 5))" "\<lambda>_. [(''a'', sample_price 8 6)]" "[''a'']" "''a''"]
  by (force simp: sample_price_def finite_time_def)

definition sample_update :: timed_update where
  "sample_update = (\<lparr>pu_id = pc_id sample_config, pu_price = ''7'', pu_conf = ''0'', pu_publish_time = Fin 0\<rparr>, Fin 0, Fin 0)"

definition sample_round :: round where
  "sample_round = \<lparr>rd_source = pl_latestPriceInfo (fold onmessage [Some [sample_update]] new_pyth_listener),
     rd_target = observe [] Map.empty, rd_outcome = Inr (), rd_source_after = Map.empty, rd_target_after = Map.empty\<rparr>"

lemma sample_update_fresh: "\<not> too_old sample_update"
  by (simp add: too_old_def sample_update_def js_div_def js_sub_def signed_def round_double_def)

lemma sample_round_pushes:
  "fst (controller_iteration False [sample_config] sample_round) = Some ([pc_id sample_config], [Fin 1])"
proof -
  have "rd_source sample_round (pc_id sample_config) = Some (price_info_of (fst sample_update))"
    using sample_update_fresh by (simp add: sample_round_def onmessage_def handle_update_def sample_update_def)
  moreover have "rd_target sample_round = Map.empty" by (simp add: sample_round_def)
  ultimately show ?thesis
    by (simp add: controller_iteration_def scan_prices_def scan_price_def shouldUpdate_def Let_def pub_time_None)
qed

theorem controller_iteration_pushes_witness:
  "fst (controller_iteration True [sample_config] sample_round) = Some ([pc_id sample_config], [Fin 1])"
proof -
  have src: "rd_source sample_round (pc_id sample_config) = Some (price_info_of (fst sample_update))"
    using sample_update_fresh by (simp add: sample_round_def onmessage_def handle_update_def sample_update_def)
  have tgt: "rd_target sample_round = Map.empty" by (simp add: sample_round_def)
  show ?thesis
    using controller_iteration_pushes [of sample_round "\<lambda>_. None" "[sample_config]" True] src tgt
    by (simp add: shouldUpdate_def Let_def)
qed

theorem controller_pushes_received_witness:
  "\<exists>u \<in> set (fresh_updates [Some [sample_update]]). pu_id (fst u) = pc_id sample_config"
  using controller_pushes_received [of sample_round "[Some [sample_update]]" "[]" False "[sample_config]",
      OF _ _ sample_round_pushes]
  by (simp add: sample_round_def)

theorem balance_tracker_single_loop_witness:
  "bt_starting (new_tracker\<lparr>bt_isRunning := True, bt_starting := Suc 0, bt_updates := Suc 0\<rparr>) +
   bt_loops (new_tracker\<lparr>bt_isRunning := True, bt_starting := Suc 0, bt_updates := Suc 0\<rparr>) \<le> 1"
proof (rule balance_tracker_single_loop)
  show "tracker_run new_tracker [StartCalled]
      (new_tracker\<lparr>bt_isRunning := True, bt_starting := Suc 0, bt_updates := Suc 0\<rparr>)"
    using tracker_step.start [of new_tracker] by (auto simp: new_tracker_def intro: step_run.intros)
qed simp

end
