(* ===== verification/Evm_Pusher.thy ===== *)
theory Evm_Pusher
  imports Price_Pusher
begin

text \<open>
  The EVM back end of the price pusher (\<^verbatim>\<open>apps/price_pusher/src/evm/evm.ts\<close>, with the gas station of
  \<^verbatim>\<open>custom-gas-station.ts\<close>): the listener for price events and the pusher with its choice of nonce and gas
  price and its treatment of errors.  The answers of Hermes, of the RPC node and of the gas station are
  arguments.  An error of viem is what the code looks at: whether it is a \<^verbatim>\<open>BaseError\<close>, the chain of its
  causes that \<^verbatim>\<open>walk\<close> visits, and its message.
\<close>

section \<open>Numbers\<close>

definition js_min :: "jsnum \<Rightarrow> jsnum \<Rightarrow> jsnum" where
  "js_min x y = (if x = NaN \<or> y = NaN then NaN else if js_lt y x then y else x)"

fun js_ceil :: "jsnum \<Rightarrow> jsnum" where
  "js_ceil (Fin q) = Fin (of_int \<lceil>q\<rceil>)"
| "js_ceil x = x"

text \<open>\<^verbatim>\<open>Math.round\<close>: to the nearest integer, halves upwards.\<close>

fun js_round :: "jsnum \<Rightarrow> jsnum" where
  "js_round (Fin q) = Fin (of_int \<lfloor>q + 1 / 2\<rfloor>)"
| "js_round x = x"

text \<open>\<^verbatim>\<open>BigInt(x)\<close> of a number that is not an integer throws.\<close>

fun BigInt :: "jsnum \<Rightarrow> int res" where
  "BigInt (Fin q) = (if q = of_int \<lfloor>q\<rfloor> then Inr \<lfloor>q\<rfloor> else Inl RangeError)"
| "BigInt NegZero = Inr 0"
| "BigInt _ = Inl RangeError"

text \<open>\<^verbatim>\<open>Number(x)\<close> of a bigint or of \<^verbatim>\<open>undefined\<close>.\<close>

definition Number_bigint :: "int option \<Rightarrow> jsnum" where
  "Number_bigint x = (case x of None \<Rightarrow> NaN | Some n \<Rightarrow> of_integer n)"

definition js_includes :: "string \<Rightarrow> string \<Rightarrow> bool" where
  "js_includes s sub = list_ex (\<lambda>k. take (length sub) (drop k s) = sub) [0..<Suc (length s)]"

section \<open>The listener\<close>

record evm_log =
  lg_id :: "string option"
  lg_conf :: "int option"
  lg_price :: "int option"
  lg_publishTime :: "int option"

definition price_info_of_log :: "evm_log \<Rightarrow> (string \<times> price_info) res" where
  "price_info_of_log lg =
     res_bind (assertDefined (lg_id lg)) (\<lambda>i.
     res_bind (assertDefined (lg_conf lg)) (\<lambda>conf.
     res_bind (assertDefined (lg_price lg)) (\<lambda>price.
     res_bind (assertDefined (lg_publishTime lg)) (\<lambda>publishTime. Inr
       (removeLeading0x i,
        \<lparr>pi_price = show_int price, pi_conf = show_int conf, pi_publishTime = of_integer publishTime\<rparr>)))))"

text \<open>An incomplete log ends the handler; what it has learnt before stays.\<close>

fun onPriceFeedUpdate :: "evm_log list \<Rightarrow> price_cache \<Rightarrow> price_cache \<times> js_error option" where
  "onPriceFeedUpdate [] cache = (cache, None)"
| "onPriceFeedUpdate (lg # lgs) cache =
     (case price_info_of_log lg of
        Inl e \<Rightarrow> (cache, Some e)
      | Inr (priceId, priceInfo) \<Rightarrow> onPriceFeedUpdate lgs (updateLatestPriceInfo priceId priceInfo cache))"

record evm_price =
  ep_conf :: int
  ep_price :: int
  ep_publishTime :: int

text \<open>
  \<open>read\<close> is \<^verbatim>\<open>pythContract.read.getPriceUnsafe\<close>.  The code keeps the two bigints as they are; the rest of the
  pusher only ever applies \<^verbatim>\<open>Number\<close> to them, which is the same as for their decimal strings.
\<close>

definition getOnChainPriceInfo :: "(string \<Rightarrow> 'e + evm_price) \<Rightarrow> string \<Rightarrow> price_info option" where
  "getOnChainPriceInfo read priceId =
     (case read (addLeading0x priceId) of
        Inl _ \<Rightarrow> None
      | Inr p \<Rightarrow> Some \<lparr>pi_price = show_int (ep_price p), pi_conf = show_int (ep_conf p),
                      pi_publishTime = of_integer (ep_publishTime p)\<rparr>)"

section \<open>Errors of a push\<close>

datatype evm_cause =
    ContractFunctionRevertedError "string option"
  | InsufficientFundsError
  | FeeCapTooLowError
  | InternalRpcError string
  | TransactionExecutionError string string
  | ContractFunctionExecutionError
  | OtherCause

record evm_error =
  ee_isBaseError :: bool
  ee_causes :: "evm_cause list"
  ee_message :: string

definition walk :: "evm_error \<Rightarrow> (evm_cause \<Rightarrow> bool) \<Rightarrow> bool" where
  "walk e P = list_ex P (ee_causes e)"

datatype verdict = SkipPush | Rethrow | TopUp

definition is_nonce_error :: "evm_cause \<Rightarrow> bool" where
  "is_nonce_error c = (case c of
     TransactionExecutionError details message \<Rightarrow>
       js_includes details ''nonce too low'' \<or> js_includes message ''Nonce provided for the transaction''
   | _ \<Rightarrow> False)"

definition is_underpriced :: "evm_cause \<Rightarrow> bool" where
  "is_underpriced c = (case c of
     InternalRpcError details \<Rightarrow> js_includes details ''replacement transaction underpriced'' | _ \<Rightarrow> False)"

definition is_execution_error :: "evm_cause \<Rightarrow> bool" where
  "is_execution_error c = (case c of TransactionExecutionError _ _ \<Rightarrow> True | _ \<Rightarrow> False)"

definition push_error :: "evm_error \<Rightarrow> verdict" where
  "push_error e =
     (let message = ee_message e in
      if \<not> ee_isBaseError e then Rethrow
      else if walk e (\<lambda>c. c = ContractFunctionRevertedError (Some ''NoFreshUpdate'')) then SkipPush
      else if walk e (\<lambda>c. c = InsufficientFundsError) then Rethrow
      else if walk e (\<lambda>c. c = FeeCapTooLowError) \<or> walk e is_underpriced then SkipPush
      else if walk e is_nonce_error then SkipPush
      else if walk e (\<lambda>c. c = ContractFunctionExecutionError) then SkipPush
      else if walk e is_execution_error then SkipPush
      else if js_includes message (''the tx doesn'' @ [CHR 0x27] @ ''t have the correct nonce.'') \<or>
              js_includes message ''nonce too low'' \<or> js_includes message ''invalid nonce'' then SkipPush
      else if js_includes message ''max fee per gas less than block base fee'' then SkipPush
      else if js_includes message (''sender doesn'' @ [CHR 0x27] @ ''t have enough funds to send tx.'') then TopUp
      else if js_includes message ''could not replace existing tx'' then SkipPush
      else Rethrow)"

section \<open>The pusher\<close>

record push_attempt =
  at_nonce :: int
  at_gasPrice :: jsnum

record evm_pusher =
  ev_lastPushAttempt :: "push_attempt option"
  ev_overrideGasPriceMultiplier :: jsnum
  ev_overrideGasPriceMultiplierCap :: jsnum
  ev_updateFeeMultiplier :: jsnum
  ev_gasLimit :: "jsnum option"
  ev_gasPrice :: "jsnum option"

record evm_transaction =
  tx_updateData :: "string list"
  tx_priceIds :: "string list"
  tx_pubTimes :: "int list"
  tx_value :: int
  tx_gasPrice :: int
  tx_nonce :: int
  tx_gas :: "int option"

text \<open>
  What the services answer during one push; \<open>pe_customGas\<close> is the result of the gas station where one is
  configured, \<^verbatim>\<open>undefined\<close> (\<open>Some None\<close>) when fetching it failed.
\<close>

record push_env =
  pe_updateData :: "string list \<Rightarrow> string list res"
  pe_updateFee :: "string list \<Rightarrow> int res"
  pe_customGas :: "int option option"
  pe_getGasPrice :: "int res"
  pe_transactionCount :: "int res"
  pe_simulate :: "evm_transaction \<Rightarrow> evm_error option"
  pe_writeContract :: "evm_transaction \<Rightarrow> evm_error option"

datatype push_outcome =
    NothingToPush
  | PushSent evm_transaction
  | PushSkipped evm_transaction
  | PushFailed js_error
  | PushRejected evm_error

text \<open>\<^verbatim>\<open>updateFeeMultiplier || 1\<close>.\<close>

definition or_one :: "jsnum \<Rightarrow> jsnum" where
  "or_one x = (if x = NaN \<or> x = Fin 0 \<or> x = NegZero then Fin 1 else x)"

definition update_fee :: "evm_pusher \<Rightarrow> int \<Rightarrow> int res" where
  "update_fee p fee = BigInt (js_round (js_mul (of_integer fee) (or_one (ev_updateFeeMultiplier p))))"

definition base_gas_price :: "evm_pusher \<Rightarrow> push_env \<Rightarrow> jsnum res" where
  "base_gas_price p env =
     (case ev_gasPrice p of
        Some g \<Rightarrow> Inr g
      | None \<Rightarrow>
          (case pe_customGas env of
             Some custom \<Rightarrow> Inr (Number_bigint custom)
           | None \<Rightarrow> res_bind (pe_getGasPrice env) (\<lambda>g. Inr (Number_bigint (Some g)))))"

text \<open>The attempt that has not landed yet.\<close>

definition open_attempt :: "evm_pusher \<Rightarrow> int \<Rightarrow> push_attempt option" where
  "open_attempt p lastExecutedNonce =
     (case ev_lastPushAttempt p of
        None \<Rightarrow> None
      | Some a \<Rightarrow> if at_nonce a \<le> lastExecutedNonce then None else Some a)"

definition gas_price_to_use :: "evm_pusher \<Rightarrow> push_attempt option \<Rightarrow> jsnum \<Rightarrow> jsnum" where
  "gas_price_to_use p attempt gasPrice =
     (case attempt of
        None \<Rightarrow> gasPrice
      | Some a \<Rightarrow>
          let gasPriceToOverride = js_mul (at_gasPrice a) (ev_overrideGasPriceMultiplier p) in
          if js_gt gasPriceToOverride gasPrice
            then js_min gasPriceToOverride (js_mul gasPrice (ev_overrideGasPriceMultiplierCap p))
            else gasPrice)"

text \<open>From the arguments of the transaction, inside the \<^verbatim>\<open>try\<close> block, to the outcome.\<close>

definition submit :: "push_env \<Rightarrow> evm_transaction \<Rightarrow> push_outcome" where
  "submit env tx =
     (let result = (case pe_simulate env tx of None \<Rightarrow> pe_writeContract env tx | Some e \<Rightarrow> Some e) in
      case result of
        None \<Rightarrow> PushSent tx
      | Some e \<Rightarrow>
          (case push_error e of
             SkipPush \<Rightarrow> PushSkipped tx
           | Rethrow \<Rightarrow> PushRejected e
           | TopUp \<Rightarrow> PushFailed (Error ''Please top up the wallet'')))"

definition build_transaction ::
  "evm_pusher \<Rightarrow> string list \<Rightarrow> string list \<Rightarrow> int list \<Rightarrow> int \<Rightarrow> jsnum \<Rightarrow> int \<Rightarrow> evm_transaction res" where
  "build_transaction p updateData priceIds pubTimes fee gasPrice nonce =
     res_bind (BigInt (js_ceil gasPrice)) (\<lambda>gas.
     res_bind (case ev_gasLimit p of None \<Rightarrow> Inr None | Some l \<Rightarrow> res_bind (BigInt (js_ceil l)) (\<lambda>n. Inr (Some n))) (\<lambda>limit. Inr
       \<lparr>tx_updateData = updateData, tx_priceIds = map addLeading0x priceIds, tx_pubTimes = pubTimes,
        tx_value = fee, tx_gasPrice = gas, tx_nonce = nonce, tx_gas = limit\<rparr>))"

text \<open>Update data with prefix, fee, current gas price and number of executed transactions.\<close>

definition push_inputs :: "push_env \<Rightarrow> string list \<Rightarrow> evm_pusher \<Rightarrow> (string list \<times> int \<times> jsnum \<times> int) res" where
  "push_inputs env priceIds p =
     res_bind (pe_updateData env priceIds) (\<lambda>raw.
     let updateData = map addLeading0x raw in
     res_bind (pe_updateFee env updateData) (\<lambda>fee.
     res_bind (update_fee p fee) (\<lambda>fee.
     res_bind (base_gas_price p env) (\<lambda>gasPrice.
     res_bind (pe_transactionCount env) (\<lambda>count. Inr (updateData, fee, gasPrice, count))))))"

definition updatePriceFeed ::
  "push_env \<Rightarrow> string list \<Rightarrow> jsnum list \<Rightarrow> evm_pusher \<Rightarrow> push_outcome \<times> evm_pusher" where
  "updatePriceFeed env priceIds pubTimesToPush p =
     (if priceIds = [] then (NothingToPush, p)
      else if length priceIds \<noteq> length pubTimesToPush then (PushFailed (Error ''Invalid arguments''), p)
      else
        (case push_inputs env priceIds p of
           Inl e \<Rightarrow> (PushFailed e, p)
         | Inr (updateData, fee, gasPrice, count) \<Rightarrow>
             let lastExecutedNonce = count - 1;
                 attempt = open_attempt p lastExecutedNonce;
                 gasPrice = gas_price_to_use p attempt gasPrice;
                 txNonce = lastExecutedNonce + 1 in
             (case map_res BigInt pubTimesToPush of
                Inl e \<Rightarrow> (PushFailed e, p\<lparr>ev_lastPushAttempt := attempt\<rparr>)
              | Inr pubTimes \<Rightarrow>
                  let p' = p\<lparr>ev_lastPushAttempt := Some \<lparr>at_nonce = txNonce, at_gasPrice = gasPrice\<rparr>\<rparr> in
                  (case build_transaction p updateData priceIds pubTimes fee gasPrice txNonce of
                     Inl e \<Rightarrow> (PushFailed e, p')
                   | Inr tx \<Rightarrow> (submit env tx, p')))))"

section \<open>The listener meets the interface\<close>

fun complete_logs :: "evm_log list \<Rightarrow> (string \<times> price_info) list" where
  "complete_logs [] = []"
| "complete_logs (lg # lgs) = (case price_info_of_log lg of Inl _ \<Rightarrow> [] | Inr x \<Rightarrow> x # complete_logs lgs)"

lemma onPriceFeedUpdate_observe: "fst (onPriceFeedUpdate lgs cache) = observe (complete_logs lgs) cache"
  by (induction lgs arbitrary: cache) (auto split: sum.split)

lemma observe_reported: "observe obs c i = Some p \<Longrightarrow> c i = Some p \<or> (i, p) \<in> set obs"
proof (induction obs arbitrary: c)
  case (Cons x obs)
  obtain j q where x: "x = (j, q)" by (cases x)
  from Cons.IH [of "updateLatestPriceInfo j q c"] Cons.prems show ?case
    by (auto simp: x dest: chain_listener.learns_offered [of "(j, q)", simplified])
qed simp

interpretation evm_listener:
  price_listener "\<lambda>c. c" "\<lambda>lgs c. fst (onPriceFeedUpdate lgs c)" complete_logs Map.empty
proof
  fix lgs c i p
  show "fst (onPriceFeedUpdate lgs c) i = Some p \<Longrightarrow> c i = Some p \<or> (i, p) \<in> set (complete_logs lgs)"
    unfolding onPriceFeedUpdate_observe by (rule observe_reported)
  show "c i = Some p \<Longrightarrow> fst (onPriceFeedUpdate lgs c) i \<noteq> None"
    unfolding onPriceFeedUpdate_observe observe_def
    using chain_listener.never_forgets [of c i "complete_logs lgs"] by simp
qed simp

section \<open>The transaction\<close>

text \<open>What a push that got as far as a transaction has computed.\<close>

definition push_of ::
  "push_env \<Rightarrow> string list \<Rightarrow> jsnum list \<Rightarrow> evm_pusher \<Rightarrow> int \<Rightarrow> jsnum \<Rightarrow> evm_transaction \<Rightarrow> evm_pusher \<Rightarrow> bool" where
  "push_of env priceIds pubTimesToPush p count base tx p' \<longleftrightarrow>
     (let gas = gas_price_to_use p (open_attempt p (count - 1)) base in
      pe_transactionCount env = Inr count \<and> base_gas_price p env = Inr base \<and>
      tx_nonce tx = count \<and> BigInt (js_ceil gas) = Inr (tx_gasPrice tx) \<and>
      p' = p\<lparr>ev_lastPushAttempt := Some \<lparr>at_nonce = count, at_gasPrice = gas\<rparr>\<rparr> \<and>
      tx_priceIds tx = map addLeading0x priceIds \<and> map_res BigInt pubTimesToPush = Inr (tx_pubTimes tx))"

lemma updatePriceFeed_push:
  assumes push: "updatePriceFeed env priceIds pubTimesToPush p = (out, p')"
    and out: "out = PushSent tx \<or> out = PushSkipped tx"
  shows "\<exists>count base. push_of env priceIds pubTimesToPush p count base tx p'"
proof -
  have guards: "priceIds \<noteq> []" "length priceIds = length pubTimesToPush"
    using push out by (auto simp: updatePriceFeed_def split: if_splits)
  obtain u f g c where inputs: "push_inputs env priceIds p = Inr (u, f, g, c)"
    using push out guards by (cases "push_inputs env priceIds p") (auto simp: updatePriceFeed_def)
  let ?g = "gas_price_to_use p (open_attempt p (c - 1)) g"
  obtain ts where ts: "map_res BigInt pubTimesToPush = Inr ts"
    using push out guards inputs by (cases "map_res BigInt pubTimesToPush") (auto simp: updatePriceFeed_def Let_def)
  obtain tx' where tx': "build_transaction p u priceIds ts f ?g c = Inr tx'"
    using push out guards inputs ts
    by (cases "build_transaction p u priceIds ts f ?g c") (auto simp: updatePriceFeed_def Let_def)
  have "submit env tx' = out" and p': "p' = p\<lparr>ev_lastPushAttempt := Some \<lparr>at_nonce = c, at_gasPrice = ?g\<rparr>\<rparr>"
    using push guards inputs ts tx' by (simp_all add: updatePriceFeed_def Let_def)
  then have "tx' = tx"
    using out by (auto simp: submit_def Let_def split: option.splits verdict.splits)
  then have "push_of env priceIds pubTimesToPush p c g tx p'"
    using inputs ts tx' p'
    by (auto simp: push_of_def push_inputs_def build_transaction_def Let_def res_bind_eq_Inr)
  then show ?thesis by blast
qed

text \<open>
  Every transaction that a push sends or tries carries the number of executed transactions as its nonce,
  so of all pushes made before one lands at most one can land; its gas price is the chosen one rounded up,
  which is kept for the next push, and it updates the given feeds with the given times.
\<close>

theorem evm_push_transaction:
  assumes "updatePriceFeed env priceIds pubTimesToPush p = (out, p')" and "out = PushSent tx \<or> out = PushSkipped tx"
  shows "\<exists>count base gas. pe_transactionCount env = Inr count \<and> base_gas_price p env = Inr base \<and>
    gas = gas_price_to_use p (open_attempt p (count - 1)) base \<and>
    tx_nonce tx = count \<and> BigInt (js_ceil gas) = Inr (tx_gasPrice tx) \<and>
    ev_lastPushAttempt p' = Some \<lparr>at_nonce = count, at_gasPrice = gas\<rparr> \<and>
    tx_priceIds tx = map addLeading0x priceIds \<and> map_res BigInt pubTimesToPush = Inr (tx_pubTimes tx)"
  using updatePriceFeed_push [OF assms] by (auto simp: push_of_def Let_def)

lemma js_lt_irrefl [simp]: "\<not> js_lt x x"
  by (cases x) auto

text \<open>
  C21. The gas price of a transaction that is sent or tried, for a current gas price of \<open>b\<close> wei with \<open>0 < b \<le> 2 ^ 53\<close> and a cap \<open>c\<close> of at least 1 and at
  most \<open>2 ^ 900\<close>: it is \<open>b\<close> when no earlier transaction waits, and in any case at least \<open>b\<close> and at most \<open>b * c\<close>, up to the
  rounding of the product to a double and the rounding up to an integer.
\<close>

theorem evm_gas_price_bounds:
  assumes "updatePriceFeed env priceIds pubTimesToPush p = (out, p')" and "out = PushSent tx \<or> out = PushSkipped tx"
    and "base_gas_price p env = Inr (Fin (of_int b))" and "0 < b" and "b \<le> 2 ^ 53"
    and "ev_overrideGasPriceMultiplierCap p = Fin c" and "1 \<le> c" and "c \<le> 2 ^ 900"
  shows "b \<le> tx_gasPrice tx \<and> of_int (tx_gasPrice tx) < of_int b * c * (1 + pow2 (- 53)) + 1 \<and>
    (open_attempt p (tx_nonce tx - 1) = None \<longrightarrow> tx_gasPrice tx = b)"
proof -
  let ?cap = "of_int b * c :: rat"
  let ?g = "gas_price_to_use p (open_attempt p (tx_nonce tx - 1)) (Fin (of_int b))"
  obtain count base where push: "push_of env priceIds pubTimesToPush p count base tx p'"
    using updatePriceFeed_push [OF assms(1,2)] by blast
  then have gas: "BigInt (js_ceil ?g) = Inr (tx_gasPrice tx)" using assms(3) by (auto simp: push_of_def Let_def)
  have b: "0 < (of_int b :: rat)" "(of_int b :: rat) \<le> 2 ^ 53"
    using assms(4,5) of_int_le_iff [of b "2 ^ 53", where 'a = rat] by simp_all
  have cap: "of_int b \<le> ?cap" using assms(7) b(1) by simp
  have "?cap \<le> 2 ^ 53 * 2 ^ 900" using b assms(7,8) by (intro mult_mono) simp_all
  also have "\<dots> \<le> 2 ^ 1000" by simp
  finally obtain r where r: "round_double ?cap = Fin r" "of_int b \<le> r" "r \<le> ?cap * (1 + pow2 (- 53))"
    using round_double_above [OF assms(4,5) cap] by blast
  have mul: "js_mul (Fin (of_int b)) (ev_overrideGasPriceMultiplierCap p) = Fin r"
    using r(1) assms(6,7) b(1) by (simp add: js_mul_def signed_def)
  have "\<exists>x. ?g = Fin x \<and> of_int b \<le> x \<and> x \<le> r \<and> (open_attempt p (tx_nonce tx - 1) = None \<longrightarrow> x = of_int b)"
  proof (cases "open_attempt p (tx_nonce tx - 1)")
    case None
    then show ?thesis using r(2) by (simp add: gas_price_to_use_def)
  next
    case (Some a)
    then show ?thesis using r(2) assms(4)
      by (cases "js_mul (at_gasPrice a) (ev_overrideGasPriceMultiplier p)") (auto simp: gas_price_to_use_def Let_def mul js_min_def)
  qed
  then obtain x where x: "?g = Fin x" "of_int b \<le> x" "x \<le> r" "open_attempt p (tx_nonce tx - 1) = None \<longrightarrow> x = of_int b" by (elim exE conjE) (rule that)
  have t: "tx_gasPrice tx = \<lceil>x\<rceil>" using gas x(1) by simp
  have "of_int \<lceil>x\<rceil> < x + 1" by linarith
  then have "of_int \<lceil>x\<rceil> < ?cap * (1 + pow2 (- 53)) + 1" using x(3) r(3) by linarith
  moreover have "b \<le> \<lceil>x\<rceil>" using x(2) by linarith
  ultimately show ?thesis using x(4) by (simp add: t)
qed

text \<open>
  When the gas station cannot be reached, the node's own gas price is not used in its place: the
  missing price becomes \<^verbatim>\<open>NaN\<close>, and the push fails with a range error, which ends the process.
\<close>

theorem evm_gas_station_failure:
  assumes "priceIds \<noteq> []" and "length priceIds = length pubTimesToPush"
    and "pe_updateData env priceIds = Inr raw" and "pe_updateFee env (map addLeading0x raw) = Inr fee"
    and "update_fee p fee = Inr fee'" and "pe_transactionCount env = Inr count"
    and "map_res BigInt pubTimesToPush = Inr pubTimes"
    and "ev_gasPrice p = None" and "pe_customGas env = Some None"
  shows "fst (updatePriceFeed env priceIds pubTimesToPush p) = PushFailed RangeError"
proof -
  have "base_gas_price p env = Inr NaN" using assms(8,9) by (simp add: base_gas_price_def Number_bigint_def)
  moreover have "gas_price_to_use p a NaN = NaN" for a
    by (cases a) (simp_all add: gas_price_to_use_def Let_def)
  ultimately show ?thesis
    using assms(1-7) by (simp add: updatePriceFeed_def push_inputs_def build_transaction_def Let_def)
qed

text \<open>
  A push that was skipped counts as a waiting transaction although nothing was sent: the next push
  with the same nonce already pays the raised price.
\<close>

theorem evm_skipped_push_escalates:
  assumes "updatePriceFeed env priceIds pubTimesToPush p = (PushSkipped tx, p')" and "ev_lastPushAttempt p = None"
    and "base_gas_price p env = Inr base" and "js_gt (js_mul base (ev_overrideGasPriceMultiplier p)) base"
    and "updatePriceFeed env priceIds pubTimesToPush p' = (out, p'')" and "out = PushSent tx' \<or> out = PushSkipped tx'"
  shows "tx_nonce tx' = tx_nonce tx \<and>
    BigInt (js_ceil base) = Inr (tx_gasPrice tx) \<and>
    BigInt (js_ceil (js_min (js_mul base (ev_overrideGasPriceMultiplier p))
      (js_mul base (ev_overrideGasPriceMultiplierCap p)))) = Inr (tx_gasPrice tx')"
proof -
  obtain count base0 where c: "push_of env priceIds pubTimesToPush p count base0 tx p'"
    using updatePriceFeed_push [OF assms(1), of tx] by auto
  moreover from this have "base0 = base" using assms(3) by (simp add: push_of_def Let_def)
  ultimately have c: "pe_transactionCount env = Inr count" "tx_nonce tx = count"
      "BigInt (js_ceil base) = Inr (tx_gasPrice tx)"
      "p' = p\<lparr>ev_lastPushAttempt := Some \<lparr>at_nonce = count, at_gasPrice = base\<rparr>\<rparr>"
    using assms(2) by (simp_all add: push_of_def open_attempt_def gas_price_to_use_def)
  obtain count' base' where c': "push_of env priceIds pubTimesToPush p' count' base' tx' p''"
    using updatePriceFeed_push [OF assms(5,6)] by auto
  moreover from this have "base' = base" and "count' = count"
    using assms(3) c(1) by (simp_all add: push_of_def Let_def c(4) base_gas_price_def)
  ultimately show ?thesis
    using c assms(4) by (simp add: push_of_def open_attempt_def gas_price_to_use_def Let_def)
qed

section \<open>Witnesses\<close>

definition sample_pusher :: evm_pusher where
  "sample_pusher = \<lparr>ev_lastPushAttempt = None, ev_overrideGasPriceMultiplier = Fin 2,
     ev_overrideGasPriceMultiplierCap = Fin 5, ev_updateFeeMultiplier = Fin 1, ev_gasLimit = None,
     ev_gasPrice = Some (Fin 100)\<rparr>"

text \<open>A node on which every update is stale.\<close>

definition sample_env :: push_env where
  "sample_env = \<lparr>pe_updateData = (\<lambda>_. Inr [''cd'']), pe_updateFee = (\<lambda>_. Inr 0), pe_customGas = Some None,
     pe_getGasPrice = Inr 9, pe_transactionCount = Inr 3,
     pe_simulate = (\<lambda>_. Some \<lparr>ee_isBaseError = True,
       ee_causes = [ContractFunctionExecutionError, ContractFunctionRevertedError (Some ''NoFreshUpdate'')], ee_message = ''''\<rparr>),
     pe_writeContract = (\<lambda>_. None)\<rparr>"

definition sample_tx :: "int \<Rightarrow> evm_transaction" where
  "sample_tx g = \<lparr>tx_updateData = [''0xcd''], tx_priceIds = [''0xab''], tx_pubTimes = [7], tx_value = 0,
     tx_gasPrice = g, tx_nonce = 3, tx_gas = None\<rparr>"

definition sample_attempt :: "jsnum \<Rightarrow> evm_pusher" where
  "sample_attempt g = sample_pusher\<lparr>ev_lastPushAttempt := Some \<lparr>at_nonce = 3, at_gasPrice = g\<rparr>\<rparr>"

lemma sample_products:
  "js_mul (Fin 100) (Fin 2) = Fin 200" "js_mul (Fin 100) (Fin 5) = Fin 500"
  using of_integer_exact [of 200] of_integer_exact [of 500] by (simp_all add: js_mul_def signed_def of_integer_def)

lemma sample_fee: "update_fee (p\<lparr>ev_updateFeeMultiplier := Fin 1\<rparr>) 0 = Inr 0"
proof -
  have "\<lfloor>1 / 2 :: rat\<rfloor> = 0" by (simp add: floor_eq_iff)
  then show ?thesis
    by (simp add: update_fee_def of_integer_def round_double_def js_mul_def signed_def or_one_def)
qed

lemma sample_submit: "submit sample_env tx = PushSkipped tx"
  by (simp add: submit_def sample_env_def push_error_def walk_def)

lemma sample_pushes:
  "updatePriceFeed sample_env [''ab''] [Fin 7] sample_pusher = (PushSkipped (sample_tx 100), sample_attempt (Fin 100))"
  "updatePriceFeed sample_env [''ab''] [Fin 7] (sample_attempt (Fin 100)) =
     (PushSkipped (sample_tx 200), sample_attempt (Fin 200))"
proof -
  have fee: "update_fee sample_pusher 0 = Inr 0" "update_fee (sample_attempt g) 0 = Inr 0" for g
    using sample_fee [of sample_pusher] sample_fee [of "sample_attempt g"] by (simp_all add: sample_pusher_def sample_attempt_def)
  have inputs: "push_inputs sample_env [''ab''] sample_pusher = Inr ([''0xcd''], 0, Fin 100, 3)"
    "push_inputs sample_env [''ab''] (sample_attempt g) = Inr ([''0xcd''], 0, Fin 100, 3)" for g
    by (simp_all add: push_inputs_def sample_env_def fee base_gas_price_def addLeading0x_def startsWith_def Let_def)
      (simp_all add: sample_attempt_def sample_pusher_def)
  show "updatePriceFeed sample_env [''ab''] [Fin 7] sample_pusher = (PushSkipped (sample_tx 100), sample_attempt (Fin 100))"
    by (simp add: updatePriceFeed_def inputs build_transaction_def sample_submit open_attempt_def gas_price_to_use_def
        addLeading0x_def startsWith_def Let_def) (simp add: sample_attempt_def sample_pusher_def sample_tx_def sample_submit)
  show "updatePriceFeed sample_env [''ab''] [Fin 7] (sample_attempt (Fin 100)) =
     (PushSkipped (sample_tx 200), sample_attempt (Fin 200))"
    by (simp add: updatePriceFeed_def inputs [unfolded sample_attempt_def] build_transaction_def sample_attempt_def open_attempt_def
        gas_price_to_use_def addLeading0x_def startsWith_def Let_def)
      (simp add: sample_pusher_def sample_tx_def sample_products js_min_def sample_submit)
qed

theorem evm_push_transaction_witness:
  "pe_transactionCount sample_env = Inr (tx_nonce (sample_tx 100))"
  using evm_push_transaction [OF sample_pushes(1), of "sample_tx 100"] by auto

theorem evm_gas_price_bounds_witness:
  "100 \<le> tx_gasPrice (sample_tx 200) \<and> of_int (tx_gasPrice (sample_tx 200)) < 100 * 5 * (1 + pow2 (- 53)) + 1"
  using evm_gas_price_bounds [OF sample_pushes(2), of "sample_tx 200" 100 5]
  by (simp add: base_gas_price_def sample_attempt_def sample_pusher_def)

theorem evm_gas_station_failure_witness:
  "fst (updatePriceFeed sample_env [''ab''] [Fin 7] (sample_pusher\<lparr>ev_gasPrice := None\<rparr>)) = PushFailed RangeError"
  using sample_fee [of "sample_pusher\<lparr>ev_gasPrice := None\<rparr>"]
  by (intro evm_gas_station_failure [of _ _ _ "[''cd'']" 0 _ 0 3 "[7]"])
    (simp_all add: sample_env_def sample_pusher_def)

theorem evm_skipped_push_escalates_witness:
  "BigInt (js_ceil (js_min (js_mul (Fin 100) (Fin 2)) (js_mul (Fin 100) (Fin 5)))) = Inr 200"
  using evm_skipped_push_escalates [OF sample_pushes(1) _ _ _ sample_pushes(2), of "Fin 100" "sample_tx 200"]
  by (simp add: sample_pusher_def sample_tx_def base_gas_price_def sample_products)

end
