(* ===== verification/Solana_Transaction.thy ===== *)
theory Solana_Transaction
  imports Governance_Payload
begin

text \<open>
  The Solana transaction builder
  (\<^verbatim>\<open>target_chains/solana/sdk/js/solana_utils/src/transaction.ts\<close> and \<^verbatim>\<open>jito.ts\<close>): the size of a
  transaction, the batching of instructions into transactions, and the compute budget and tip
  instructions that are added.  Keys are compared by their base58 form in the source, which
  identifies them, so sets of keys are sets of keys here.  The instruction constructors of
  \<^verbatim>\<open>@solana/web3.js\<close> are the record \<open>tx_env\<close>; the tip account drawn at random is an argument.
\<close>

type_synonym 'pk ix = "'pk transaction_instruction"

record 'pk tx_env =
  te_PublicKey :: "string \<Rightarrow> 'pk"
  te_transfer :: "'pk \<Rightarrow> 'pk \<Rightarrow> nat \<Rightarrow> 'pk ix"
  te_setComputeUnitPrice :: "nat \<Rightarrow> 'pk ix"
  te_setComputeUnitLimit :: "nat \<Rightarrow> 'pk ix"

definition PACKET_DATA_SIZE :: nat where "PACKET_DATA_SIZE = 1232"
definition DEFAULT_COMPUTE_BUDGET_UNITS :: nat where "DEFAULT_COMPUTE_BUDGET_UNITS = 200000"
definition PACKET_DATA_SIZE_WITH_ROOM_FOR_COMPUTE_BUDGET :: nat where
  "PACKET_DATA_SIZE_WITH_ROOM_FOR_COMPUTE_BUDGET = PACKET_DATA_SIZE - 52"
definition JITO_BUNDLE_SIZE :: nat where "JITO_BUNDLE_SIZE = 5"

record ('pk, 'sg) ix_with_signers =
  iws_instruction :: "'pk ix"
  iws_signers :: "'sg list"
  iws_computeUnits :: "nat option"

record priority_fee_config =
  pf_computeUnitPriceMicroLamports :: "nat option"
  pf_tightComputeBudget :: "bool option"
  pf_jitoTipLamports :: "nat option"

definition DEFAULT_PRIORITY_FEE_CONFIG :: priority_fee_config where
  "DEFAULT_PRIORITY_FEE_CONFIG =
     \<lparr>pf_computeUnitPriceMicroLamports = Some 50000, pf_tightComputeBudget = None, pf_jitoTipLamports = None\<rparr>"

section \<open>The size of a transaction\<close>

definition getSizeOfCompressedU16 :: "nat \<Rightarrow> nat" where
  "getSizeOfCompressedU16 n = 1 + of_bool (128 \<le> n) + of_bool (16384 \<le> n)"

definition tx_programs :: "'pk ix list \<Rightarrow> 'pk set" where
  "tx_programs ixs = set (map ix_programId ixs)"

definition tx_signers :: "'pk ix list \<Rightarrow> 'pk set" where
  "tx_signers ixs = set (concat (map (\<lambda>ix. map am_pubkey (filter am_isSigner (ix_keys ix))) ixs))"

definition tx_accounts :: "'pk ix list \<Rightarrow> 'pk set" where
  "tx_accounts ixs = set (concat (map (\<lambda>ix. ix_programId ix # map am_pubkey (ix_keys ix)) ixs))"

definition instruction_size :: "'pk ix \<Rightarrow> nat" where
  "instruction_size ix = 1 + getSizeOfCompressedU16 (length (ix_keys ix)) + length (ix_keys ix) +
     getSizeOfCompressedU16 (length (ix_data ix)) + length (ix_data ix)"

text \<open>The accounts that are listed in full, and the number of those found in the lookup table.\<close>

definition static_accounts :: "'pk ix list \<Rightarrow> 'pk list option \<Rightarrow> 'pk set" where
  "static_accounts ixs addressLookupTable =
     (case addressLookupTable of
        None \<Rightarrow> tx_accounts ixs
      | Some addresses \<Rightarrow> (tx_accounts ixs - set addresses) \<union> tx_programs ixs \<union> tx_signers ixs)"

definition address_lookups :: "'pk ix list \<Rightarrow> 'pk list option \<Rightarrow> nat" where
  "address_lookups ixs addressLookupTable =
     (case addressLookupTable of
        None \<Rightarrow> 0
      | Some _ \<Rightarrow> card (tx_accounts ixs) - card (static_accounts ixs addressLookupTable))"

definition getSizeOfTransaction :: "'pk ix list \<Rightarrow> bool \<Rightarrow> 'pk list option \<Rightarrow> nat" where
  "getSizeOfTransaction instructions versionedTransaction addressLookupTable =
     (let signers = card (tx_signers instructions);
          accounts = card (static_accounts instructions addressLookupTable) in
      getSizeOfCompressedU16 signers + signers * 64 + 3 +
      getSizeOfCompressedU16 accounts + 32 * accounts + 32 +
      getSizeOfCompressedU16 (length instructions) + sum_list (map instruction_size instructions) +
      (if versionedTransaction then 1 + getSizeOfCompressedU16 0 else 0) +
      (if versionedTransaction \<and> addressLookupTable \<noteq> None then 32 else 0) +
      (if versionedTransaction \<and> addressLookupTable \<noteq> None then 2 else 0) +
      address_lookups instructions addressLookupTable)"

section \<open>Tips\<close>

definition TIP_ACCOUNTS :: "string list" where
  "TIP_ACCOUNTS =
     [''HFqU5x63VTqvQss8hp11i4wVV8bD44PvwucfZ2bU7gRe'', ''Cw8CFyM9FkoMi7K7Crf6HNQqf4uEMzpKw6QNghXLvLkY'',
      ''DfXygSm4jCyNCybVYYK6DwvWqjKee8pbDmJGcLWNDXjh'', ''ADaUMid9yfUytqMBgopwjb2DTLSokTSzL1zt6iGPaS49'',
      ''3AVi9Tg9Uo68tJfuvoKvqKNWKkC5wPdSSdeBnizKZ6jT'', ''DttWaMuVvTiduZRnguLF7jNxTgiMBZ1hyAumKUiL2KRL'',
      ''96gYZGLnJYVFmbjzopPSU6QiEV5fGqZNyN9nmNhvrZU5'', ''ADuUkR4vqLUMWXxW9gh6D6L8pMSawimctcNZ5pGwDcEt'']"

text \<open>\<open>random\<close> is \<^verbatim>\<open>Math.floor(Math.random() * 8)\<close>.\<close>

definition getRandomTipAccount :: "'pk tx_env \<Rightarrow> nat \<Rightarrow> 'pk" where
  "getRandomTipAccount env random =
     te_PublicKey env (if random < length TIP_ACCOUNTS then TIP_ACCOUNTS ! random else '''')"

definition buildJitoTipInstruction :: "'pk tx_env \<Rightarrow> nat \<Rightarrow> 'pk \<Rightarrow> nat \<Rightarrow> 'pk ix" where
  "buildJitoTipInstruction env random payer lamports =
     te_transfer env payer (getRandomTipAccount env random) lamports"

section \<open>The builder\<close>

record ('pk, 'sg) tx_batch =
  tb_instructions :: "'pk ix list"
  tb_signers :: "'sg list"
  tb_computeUnits :: nat

record ('pk, 'sg) transaction_builder =
  bd_transactionInstructions :: "('pk, 'sg) tx_batch list"
  bd_payer :: 'pk
  bd_addressLookupTable :: "'pk list option"

definition new_batch :: "('pk, 'sg) ix_with_signers \<Rightarrow> ('pk, 'sg) tx_batch" where
  "new_batch args = \<lparr>tb_instructions = [iws_instruction args], tb_signers = iws_signers args,
     tb_computeUnits = (case iws_computeUnits args of None \<Rightarrow> 0 | Some n \<Rightarrow> n)\<rparr>"

definition extend_batch :: "('pk, 'sg) ix_with_signers \<Rightarrow> ('pk, 'sg) tx_batch \<Rightarrow> ('pk, 'sg) tx_batch" where
  "extend_batch args b = \<lparr>tb_instructions = tb_instructions b @ [iws_instruction args],
     tb_signers = tb_signers b @ iws_signers args,
     tb_computeUnits = tb_computeUnits b + (case iws_computeUnits args of None \<Rightarrow> 0 | Some n \<Rightarrow> n)\<rparr>"

text \<open>The instructions room is left for when there are \<open>n\<close> transactions.\<close>

definition reserved :: "'pk tx_env \<Rightarrow> nat \<Rightarrow> 'pk \<Rightarrow> nat \<Rightarrow> 'pk ix list" where
  "reserved env random payer n =
     [if n mod JITO_BUNDLE_SIZE = 0 then buildJitoTipInstruction env random payer 1
      else te_setComputeUnitPrice env 1,
      te_setComputeUnitLimit env 1]"

definition addInstruction ::
  "'pk tx_env \<Rightarrow> nat \<Rightarrow> ('pk, 'sg) ix_with_signers \<Rightarrow> ('pk, 'sg) transaction_builder \<Rightarrow> ('pk, 'sg) transaction_builder"
where
  "addInstruction env random args bd =
     (let txs = bd_transactionInstructions bd in
      if txs = [] then bd\<lparr>bd_transactionInstructions := [new_batch args]\<rparr>
      else
        let sizeWithComputeUnits = getSizeOfTransaction
              (tb_instructions (last txs) @ [iws_instruction args] @
               reserved env random (bd_payer bd) (length txs)) True (bd_addressLookupTable bd) in
        if sizeWithComputeUnits \<le> PACKET_DATA_SIZE
          then bd\<lparr>bd_transactionInstructions := butlast txs @ [extend_batch args (last txs)]\<rparr>
          else bd\<lparr>bd_transactionInstructions := txs @ [new_batch args]\<rparr>)"

text \<open>Each instruction comes with the random number drawn when it is added.\<close>

definition addInstructions ::
  "'pk tx_env \<Rightarrow> (nat \<times> ('pk, 'sg) ix_with_signers) list \<Rightarrow> ('pk, 'sg) transaction_builder \<Rightarrow>
   ('pk, 'sg) transaction_builder" where
  "addInstructions env instructions bd = fold (\<lambda>(random, args). addInstruction env random args) instructions bd"

definition truthy :: "nat option \<Rightarrow> bool" where
  "truthy x \<longleftrightarrow> (case x of None \<Rightarrow> False | Some n \<Rightarrow> n \<noteq> 0)"

definition with_compute_budget ::
  "'pk tx_env \<Rightarrow> nat \<Rightarrow> 'pk \<Rightarrow> priority_fee_config \<Rightarrow> nat \<Rightarrow> ('pk, 'sg) tx_batch \<Rightarrow> 'pk ix list" where
  "with_compute_budget env random payer args index b =
     tb_instructions b @
     (if DEFAULT_COMPUTE_BUDGET_UNITS * length (tb_instructions b) < tb_computeUnits b \<or>
         pf_tightComputeBudget args = Some True
       then [te_setComputeUnitLimit env (tb_computeUnits b)] else []) @
     (if truthy (pf_computeUnitPriceMicroLamports args)
       then [te_setComputeUnitPrice env (the (pf_computeUnitPriceMicroLamports args))] else []) @
     (if truthy (pf_jitoTipLamports args) \<and> index mod JITO_BUNDLE_SIZE = 0
       then [buildJitoTipInstruction env random payer (the (pf_jitoTipLamports args))] else [])"

text \<open>The loop that drops what does not fit: \<open>sent\<close> are the instructions kept so far.\<close>

fun fit_instructions :: "('pk ix list \<Rightarrow> nat) \<Rightarrow> 'pk ix list \<Rightarrow> 'pk ix list \<Rightarrow> 'pk ix list" where
  "fit_instructions sz sent [] = sent"
| "fit_instructions sz sent (ix # ixs) =
     (if PACKET_DATA_SIZE < sz (sent @ [ix]) then sent else fit_instructions sz (sent @ [ix]) ixs)"

text \<open>The instructions and signers of each versioned transaction; \<open>random\<close> gives the draw per index.\<close>

definition buildVersionedTransactions ::
  "'pk tx_env \<Rightarrow> (nat \<Rightarrow> nat) \<Rightarrow> priority_fee_config \<Rightarrow> ('pk, 'sg) transaction_builder \<Rightarrow> ('pk ix list \<times> 'sg list) list"
where
  "buildVersionedTransactions env random args bd =
     map (\<lambda>(index, b).
       (fit_instructions (\<lambda>ixs. getSizeOfTransaction ixs True (bd_addressLookupTable bd)) []
          (with_compute_budget env (random index) (bd_payer bd) args index b), tb_signers b))
       (List.enumerate 0 (bd_transactionInstructions bd))"

text \<open>The legacy variant throws when the first instruction alone is too big.\<close>

definition fit_legacy :: "'pk ix list \<Rightarrow> 'pk ix list res" where
  "fit_legacy ixs =
     (case ixs of
        [] \<Rightarrow> Inr []
      | ix # _ \<Rightarrow>
          if PACKET_DATA_SIZE < getSizeOfTransaction [ix] False None
            then Inl (Error (''An instruction is too big to be sent in a transaction ('' @
              show_nat (getSizeOfTransaction [ix] False None) @ '' > '' @ show_nat PACKET_DATA_SIZE @ '' bytes)''))
            else Inr (fit_instructions (\<lambda>ixs. getSizeOfTransaction ixs False None) [] ixs))"

definition buildLegacyTransactions ::
  "'pk tx_env \<Rightarrow> (nat \<Rightarrow> nat) \<Rightarrow> priority_fee_config \<Rightarrow> ('pk, 'sg) transaction_builder \<Rightarrow> ('pk ix list \<times> 'sg list) list res"
where
  "buildLegacyTransactions env random args bd =
     map_res (\<lambda>(index, b).
       res_bind (fit_legacy (with_compute_budget env (random index) (bd_payer bd) args index b)) (\<lambda>ixs.
       Inr (ixs, tb_signers b)))
       (List.enumerate 0 (bd_transactionInstructions bd))"

definition new_builder :: "'pk \<Rightarrow> 'pk list option \<Rightarrow> ('pk, 'sg) transaction_builder" where
  "new_builder payer addressLookupTable =
     \<lparr>bd_transactionInstructions = [], bd_payer = payer, bd_addressLookupTable = addressLookupTable\<rparr>"

text \<open>\<^verbatim>\<open>PublicKey.unique()\<close> is the argument \<open>placeholder\<close>.\<close>

definition batchIntoLegacyTransactions ::
  "'pk tx_env \<Rightarrow> (nat \<Rightarrow> nat) \<Rightarrow> 'pk \<Rightarrow> (nat \<times> 'pk ix) list \<Rightarrow> priority_fee_config \<Rightarrow> 'pk ix list list res" where
  "batchIntoLegacyTransactions env random placeholder instructions priorityFeeConfig =
     res_bind (buildLegacyTransactions env random priorityFeeConfig
         (addInstructions env (map (\<lambda>(r, ix). (r, \<lparr>iws_instruction = ix, iws_signers = [] :: unit list,
            iws_computeUnits = None\<rparr>)) instructions) (new_builder placeholder None)))
       (\<lambda>txs. Inr (map fst txs))"

definition batchIntoVersionedTransactions ::
  "'pk tx_env \<Rightarrow> (nat \<Rightarrow> nat) \<Rightarrow> 'pk \<Rightarrow> (nat \<times> ('pk, 'sg) ix_with_signers) list \<Rightarrow> priority_fee_config \<Rightarrow>
   'pk list option \<Rightarrow> ('pk ix list \<times> 'sg list) list" where
  "batchIntoVersionedTransactions env random payer instructions priorityFeeConfig addressLookupTable =
     buildVersionedTransactions env random priorityFeeConfig
       (addInstructions env instructions (new_builder payer addressLookupTable))"

definition addPriorityFee :: "'pk tx_env \<Rightarrow> 'pk ix list \<Rightarrow> priority_fee_config \<Rightarrow> 'pk ix list" where
  "addPriorityFee env transaction priorityFeeConfig =
     (if truthy (pf_computeUnitPriceMicroLamports priorityFeeConfig)
       then transaction @ [te_setComputeUnitPrice env (the (pf_computeUnitPriceMicroLamports priorityFeeConfig))]
       else transaction)"

section \<open>The wire format\<close>

text \<open>
  The layout the comment on \<^verbatim>\<open>getSizeOfTransaction\<close> describes, written out: a compact array is a
  compact-u16 length followed by the elements.  Signatures, keys and indices are given by functions;
  the payer is the first signer of every transaction.  A lookup table none of whose addresses is used is not mentioned, as \<^verbatim>\<open>compileToV0Message\<close> has it.
\<close>

fun compact_u16 :: "nat \<Rightarrow> bytes" where
  "compact_u16 n = (if n < 128 then [byte_of_nat n] else byte_of_nat (n mod 128 + 128) # compact_u16 (n div 128))"

declare compact_u16.simps [simp del]

record 'pk wire =
  wi_signature :: "'pk \<Rightarrow> bytes"
  wi_key :: "'pk \<Rightarrow> bytes"
  wi_index :: "'pk \<Rightarrow> byte"
  wi_header :: bytes
  wi_blockhash :: bytes
  wi_tableKey :: bytes
  wi_writable :: "'pk \<Rightarrow> bool"

definition wire_ok :: "'pk wire \<Rightarrow> bool" where
  "wire_ok w \<longleftrightarrow> (\<forall>k. length (wi_signature w k) = 64) \<and> (\<forall>k. length (wi_key w k) = 32) \<and>
     length (wi_header w) = 3 \<and> length (wi_blockhash w) = 32 \<and> length (wi_tableKey w) = 32"

definition serialize_instruction :: "'pk wire \<Rightarrow> 'pk ix \<Rightarrow> bytes" where
  "serialize_instruction w ix = [wi_index w (ix_programId ix)] @
     compact_u16 (length (ix_keys ix)) @ map (\<lambda>m. wi_index w (am_pubkey m)) (ix_keys ix) @
     compact_u16 (length (ix_data ix)) @ ix_data ix"

definition signer_list :: "'pk \<Rightarrow> 'pk ix list \<Rightarrow> 'pk list" where
  "signer_list payer ixs =
     remdups (payer # concat (map (\<lambda>ix. map am_pubkey (filter am_isSigner (ix_keys ix))) ixs))"

definition account_list :: "'pk \<Rightarrow> 'pk ix list \<Rightarrow> 'pk list" where
  "account_list payer ixs = remdups (payer # concat (map (\<lambda>ix. ix_programId ix # map am_pubkey (ix_keys ix)) ixs))"

definition looked_up :: "'pk \<Rightarrow> 'pk ix list \<Rightarrow> 'pk list option \<Rightarrow> 'pk \<Rightarrow> bool" where
  "looked_up payer ixs table k \<longleftrightarrow> (case table of None \<Rightarrow> False | Some addresses \<Rightarrow>
     k \<in> set addresses \<and> k \<notin> set (signer_list payer ixs) \<and> k \<notin> tx_programs ixs)"

definition serialize_lookups :: "'pk wire \<Rightarrow> 'pk list option \<Rightarrow> 'pk list \<Rightarrow> bytes" where
  "serialize_lookups w table ks =
     (if table = None \<or> ks = [] then compact_u16 0
      else compact_u16 1 @ wi_tableKey w @
          compact_u16 (length (filter (wi_writable w) ks)) @ map (wi_index w) (filter (wi_writable w) ks) @
          compact_u16 (length (filter (\<lambda>k. \<not> wi_writable w k) ks)) @
          map (wi_index w) (filter (\<lambda>k. \<not> wi_writable w k) ks))"

definition serialize_transaction :: "'pk wire \<Rightarrow> bool \<Rightarrow> 'pk \<Rightarrow> 'pk ix list \<Rightarrow> 'pk list option \<Rightarrow> bytes" where
  "serialize_transaction w versioned payer ixs table =
     (let signers = signer_list payer ixs;
          statics = filter (\<lambda>k. \<not> looked_up payer ixs table k) (account_list payer ixs);
          lookups = filter (looked_up payer ixs table) (account_list payer ixs) in
      compact_u16 (length signers) @ concat (map (wi_signature w) signers) @
      (if versioned then [128] else []) @ wi_header w @
      compact_u16 (length statics) @ concat (map (wi_key w) statics) @ wi_blockhash w @
      compact_u16 (length ixs) @ concat (map (serialize_instruction w) ixs) @
      (if versioned then serialize_lookups w table lookups else []))"

lemma length_compact_u16: "n < 65536 \<Longrightarrow> length (compact_u16 n) = getSizeOfCompressedU16 n"
proof -
  assume n: "n < 65536"
  have 1: "length (compact_u16 m) = 1" if "m < 128" for m using that by (subst compact_u16.simps) simp
  have 2: "length (compact_u16 m) = 2" if "128 \<le> m" "m < 16384" for m
    using that 1 [of "m div 128"] by (subst compact_u16.simps) simp
  have 3: "length (compact_u16 m) = 3" if "16384 \<le> m" "m < 65536" for m
    using that 2 [of "m div 128"] by (subst compact_u16.simps) simp
  show ?thesis using n 1 [of n] 2 [of n] 3 [of n] by (auto simp: getSizeOfCompressedU16_def not_le)
qed

lemma length_concat_const: "(\<And>x. length (f x) = n) \<Longrightarrow> length (concat (map f xs)) = n * length xs"
  by (induction xs) auto

text \<open>The counts that a transaction can hold: every length fits a compact-u16, every index a byte.\<close>

definition countable_tx :: "'pk \<Rightarrow> 'pk ix list \<Rightarrow> bool" where
  "countable_tx payer ixs \<longleftrightarrow> length ixs < 65536 \<and> card (insert payer (tx_accounts ixs)) < 128 \<and>
     (\<forall>ix \<in> set ixs. length (ix_keys ix) < 65536 \<and> length (ix_data ix) < 65536)"

lemma set_account_list: "set (account_list payer ixs) = insert payer (tx_accounts ixs)"
  by (simp only: account_list_def tx_accounts_def set_remdups list.set)

lemma set_signer_list: "set (signer_list payer ixs) = insert payer (tx_signers ixs)"
  by (simp only: signer_list_def tx_signers_def set_remdups list.set)

lemma tx_sets_subset: "tx_signers ixs \<subseteq> tx_accounts ixs" "tx_programs ixs \<subseteq> tx_accounts ixs"
  by (auto simp: tx_signers_def tx_accounts_def tx_programs_def)

lemma finite_tx [simp]: "finite (tx_signers ixs)" "finite (tx_accounts ixs)" "finite (tx_programs ixs)"
  "finite (static_accounts ixs table)"
  by (simp_all add: tx_signers_def tx_accounts_def tx_programs_def static_accounts_def split: option.split)

lemma length_account_list: "length (account_list payer ixs) = card (insert payer (tx_accounts ixs))"
  by (metis account_list_def length_remdups_card_conv set_account_list set_remdups)

lemma length_signer_list: "length (signer_list payer ixs) = card (insert payer (tx_signers ixs))"
  by (metis signer_list_def length_remdups_card_conv set_signer_list set_remdups)

lemma distinct_account_list: "distinct (account_list payer ixs)"
  by (simp add: account_list_def)

lemma static_plus_lookups: "address_lookups ixs (Some as) + card (static_accounts ixs (Some as)) = card (tx_accounts ixs)"
proof -
  have "static_accounts ixs (Some as) \<subseteq> tx_accounts ixs"
    using tx_sets_subset [of ixs] by (auto simp: static_accounts_def)
  then have "card (static_accounts ixs (Some as)) \<le> card (tx_accounts ixs)" by (simp add: card_mono)
  then show ?thesis by (simp add: address_lookups_def)
qed

lemma static_list:
  assumes "payer \<in> tx_signers ixs"
  shows "length (filter (\<lambda>k. \<not> looked_up payer ixs table k) (account_list payer ixs)) =
      card (static_accounts ixs table)"
    and "length (filter (looked_up payer ixs table) (account_list payer ixs)) = address_lookups ixs table"
proof -
  have acc: "insert payer (tx_accounts ixs) = tx_accounts ixs" "insert payer (tx_signers ixs) = tx_signers ixs"
    using assms tx_sets_subset(1) [of ixs] by blast+
  have "set (filter (\<lambda>k. \<not> looked_up payer ixs table k) (account_list payer ixs)) = static_accounts ixs table"
    using tx_sets_subset [of ixs]
    by (auto simp: set_account_list acc looked_up_def static_accounts_def set_signer_list split: option.splits)
  then show st: "length (filter (\<lambda>k. \<not> looked_up payer ixs table k) (account_list payer ixs)) =
      card (static_accounts ixs table)"
    by (metis distinct_account_list distinct_card distinct_filter)
  have "length (filter (looked_up payer ixs table) (account_list payer ixs)) +
      card (static_accounts ixs table) = card (tx_accounts ixs)"
    using sum_length_filter_compl [of "looked_up payer ixs table" "account_list payer ixs"] st
    by (simp add: length_account_list acc)
  then show "length (filter (looked_up payer ixs table) (account_list payer ixs)) = address_lookups ixs table"
    using static_plus_lookups [of ixs] by (cases table) (auto simp: address_lookups_def static_accounts_def)
qed

lemma length_instructions:
  assumes "\<forall>ix \<in> set ixs. length (ix_keys ix) < 65536 \<and> length (ix_data ix) < 65536"
  shows "length (concat (map (serialize_instruction w) ixs)) = sum_list (map instruction_size ixs)"
  using assms
  by (induction ixs) (auto simp: serialize_instruction_def instruction_size_def length_compact_u16)

lemma wire_lengths:
  assumes "wire_ok w"
  shows "length (concat (map (wi_signature w) ks)) = 64 * length ks"
    and "length (concat (map (wi_key w) ks)) = 32 * length ks"
    and "length (wi_header w) = 3" and "length (wi_blockhash w) = 32" and "length (wi_tableKey w) = 32"
proof -
  from assms have "\<And>k. length (wi_signature w k) = 64" "\<And>k. length (wi_key w k) = 32"
    and rest: "length (wi_header w) = 3" "length (wi_blockhash w) = 32" "length (wi_tableKey w) = 32"
    by (auto simp: wire_ok_def)
  then show "length (concat (map (wi_signature w) ks)) = 64 * length ks"
    and "length (concat (map (wi_key w) ks)) = 32 * length ks"
    by (simp_all add: length_concat_const)
  show "length (wi_header w) = 3" and "length (wi_blockhash w) = 32" and "length (wi_tableKey w) = 32"
    by (rule rest)+
qed

lemma small_compact: "n < 128 \<Longrightarrow> length (compact_u16 n) = 1"
  by (simp add: length_compact_u16 getSizeOfCompressedU16_def)

lemma length_lookups:
  assumes "wire_ok w" and "length ks < 128"
  shows "length (serialize_lookups w table ks) = 1 + (if table = None \<or> ks = [] then 0 else 34 + length ks)"
proof -
  have "length (filter P ks) < 128" for P using assms(2) length_filter_le [of P ks] by linarith
  then show ?thesis
    using sum_length_filter_compl [of "wi_writable w" ks]
    by (auto simp: serialize_lookups_def small_compact wire_lengths(5) [OF assms(1)])
qed

text \<open>The length of a serialized transaction by its parts.\<close>

lemma length_serialize_transaction:
  assumes "wire_ok w" and "countable_tx payer ixs"
  shows "length (serialize_transaction w versioned payer ixs table) =
    1 + 64 * length (signer_list payer ixs) + 3 + 1 +
    32 * length (filter (\<lambda>k. \<not> looked_up payer ixs table k) (account_list payer ixs)) + 32 +
    getSizeOfCompressedU16 (length ixs) + sum_list (map instruction_size ixs) +
    (if versioned then 2 + (if table = None \<or> filter (looked_up payer ixs table) (account_list payer ixs) = [] then 0
       else 34 + length (filter (looked_up payer ixs table) (account_list payer ixs))) else 0)"
proof -
  have acc: "length (account_list payer ixs) < 128" using assms(2) by (simp add: countable_tx_def length_account_list)
  have less: "length (filter P (account_list payer ixs)) < 128" for P
    using acc length_filter_le [of P "account_list payer ixs"] by linarith
  have "card (insert payer (tx_signers ixs)) \<le> card (insert payer (tx_accounts ixs))"
    using tx_sets_subset(1) [of ixs] by (intro card_mono) auto
  then have sig: "length (signer_list payer ixs) < 128" using acc by (simp add: length_signer_list length_account_list)
  have "length (compact_u16 (length ixs)) = getSizeOfCompressedU16 (length ixs)"
    using assms(2) by (simp add: countable_tx_def length_compact_u16)
  moreover have "length (concat (map (serialize_instruction w) ixs)) = sum_list (map instruction_size ixs)"
    using assms(2) by (intro length_instructions) (simp add: countable_tx_def)
  ultimately show ?thesis
    using sig less wire_lengths [OF assms(1)] length_lookups [OF assms(1) less [of "looked_up payer ixs table"], of table]
    by (simp add: serialize_transaction_def Let_def small_compact)
qed

text \<open>
  C35. The size estimate: for instructions one of which the payer signs, with at most 127 different accounts and with fewer than
  65536 instructions, accounts per instruction and data bytes, \<^verbatim>\<open>getSizeOfTransaction\<close> is the length of
  the serialized transaction, legacy (without a lookup table) or versioned; with one exception: when a lookup table is given but none of its
  addresses is used, so that the transaction does not mention it, the estimate is 34 bytes too large.
\<close>

theorem getSizeOfTransaction_exact:
  assumes "wire_ok w" and "payer \<in> tx_signers ixs" and "countable_tx payer ixs"
    and "versioned \<or> table = None"
  shows "getSizeOfTransaction ixs versioned table = length (serialize_transaction w versioned payer ixs table) +
    (if table \<noteq> None \<and> (\<forall>k \<in> tx_accounts ixs. \<not> looked_up payer ixs table k) then 34 else 0)"
proof -
  note st = static_list [OF assms(2), of table]
  have ins: "insert payer (tx_signers ixs) = tx_signers ixs" "insert payer (tx_accounts ixs) = tx_accounts ixs"
    using assms(2) tx_sets_subset(1) [of ixs] by blast+
  have acc: "card (tx_accounts ixs) < 128" using assms(3) ins by (simp add: countable_tx_def)
  have sig: "card (tx_signers ixs) < 128"
    using acc card_mono [OF _ tx_sets_subset(1) [of ixs]] by simp
  have sta: "card (static_accounts ixs table) < 128"
    using st(1) length_filter_le [of "\<lambda>k. \<not> looked_up payer ixs table k" "account_list payer ixs"] acc
    by (simp add: length_account_list ins)
  have used: "filter (looked_up payer ixs table) (account_list payer ixs) = [] \<longleftrightarrow> (\<forall>k \<in> tx_accounts ixs. \<not> looked_up payer ixs table k)"
    by (simp add: filter_empty_conv set_account_list ins)
  have zero: "address_lookups ixs table = 0" if "\<forall>k \<in> tx_accounts ixs. \<not> looked_up payer ixs table k"
    using that used st(2) by simp
  have none: "address_lookups ixs None = 0" by (simp add: address_lookups_def)
  have "getSizeOfCompressedU16 n = 1" if "n < 128" for n
    using that by (simp add: getSizeOfCompressedU16_def)
  then show ?thesis
    using assms(4) sig sta st zero none
    by (auto simp: length_serialize_transaction [OF assms(1,3)] getSizeOfTransaction_def Let_def length_signer_list ins used)
qed

text \<open>
  For any payer, the serialized transaction is at most 96 bytes (a signature and a key) larger than the estimate, and no larger when
  the payer signs an instruction.
\<close>

lemma serialize_transaction_bound:
  assumes "wire_ok w" and "countable_tx payer ixs"
  shows "length (serialize_transaction w True payer ixs table) \<le>
    getSizeOfTransaction ixs True table + (if payer \<in> tx_signers ixs then 0 else 96)"
proof -
  let ?d = "if payer \<in> tx_signers ixs then 0 else 1 :: nat"
  let ?statics = "filter (\<lambda>k. \<not> looked_up payer ixs table k) (account_list payer ixs)"
  let ?lookups = "filter (looked_up payer ixs table) (account_list payer ixs)"
  have count: "length (filter P (account_list payer ixs)) = card (set (filter P (account_list payer ixs)))" for P
    by (rule distinct_card [symmetric]) (simp add: distinct_account_list)
  have sig: "length (signer_list payer ixs) = card (tx_signers ixs) + ?d"
    by (simp add: length_signer_list insert_absorb)
  have "set ?statics \<subseteq> (if payer \<in> tx_signers ixs then static_accounts ixs table else insert payer (static_accounts ixs table))"
    using tx_sets_subset [of ixs]
    by (auto simp: set_account_list looked_up_def static_accounts_def set_signer_list split: option.splits)
  then have "card (set ?statics) \<le> card (if payer \<in> tx_signers ixs then static_accounts ixs table else insert payer (static_accounts ixs table))"
    by (intro card_mono) auto
  also have "\<dots> \<le> card (static_accounts ixs table) + ?d" by (simp add: card_insert_if)
  finally have sta: "length ?statics \<le> card (static_accounts ixs table) + ?d" unfolding count .
  have look: "length ?lookups \<le> address_lookups ixs table"
  proof (cases table)
    case (Some as)
    have "set ?lookups \<subseteq> tx_accounts ixs - static_accounts ixs table"
      by (auto simp: set_account_list looked_up_def static_accounts_def set_signer_list Some)
    then have "card (set ?lookups) \<le> card (tx_accounts ixs - static_accounts ixs table)" by (intro card_mono) auto
    also have "\<dots> = card (tx_accounts ixs) - card (static_accounts ixs table)"
      using tx_sets_subset [of ixs] by (intro card_Diff_subset) (auto simp: Some static_accounts_def)
    finally show ?thesis unfolding count by (simp add: address_lookups_def Some)
  qed (simp add: looked_up_def)
  have one: "1 \<le> getSizeOfCompressedU16 n" for n by (simp add: getSizeOfCompressedU16_def)
  show ?thesis
    using sta look one [of "card (tx_signers ixs)"] one [of "card (static_accounts ixs table)"]
    unfolding length_serialize_transaction [OF assms] getSizeOfTransaction_def Let_def sig
    by (auto split: if_splits simp: getSizeOfCompressedU16_def [of 0])
qed

text \<open>A transaction whose estimate fits in a packet has no long list in it.\<close>

lemma small_transaction:
  assumes "getSizeOfTransaction ixs v table \<le> PACKET_DATA_SIZE" and "card (insert payer (tx_accounts ixs)) < 128"
  shows "countable_tx payer ixs"
proof -
  have sum: "sum_list (map instruction_size ixs) < 1232"
    using assms(1) by (simp add: getSizeOfTransaction_def Let_def PACKET_DATA_SIZE_def getSizeOfCompressedU16_def)
  have len: "length ixs \<le> sum_list (map instruction_size ixs)" by (induction ixs) (auto simp: instruction_size_def)
  have "instruction_size ix \<le> sum_list (map instruction_size ixs)" if "ix \<in> set ixs" for ix
    using that by (induction ixs) auto
  then have "length (ix_keys ix) < 65536 \<and> length (ix_data ix) < 65536" if "ix \<in> set ixs" for ix
    using that sum by (fastforce simp: instruction_size_def)
  then show ?thesis using assms(2) len sum by (auto simp: countable_tx_def)
qed

text \<open>
  The payer is left out of the estimate: when no instruction names it, the serialized
  transaction is 96 bytes (a signature and a key) larger than \<^verbatim>\<open>getSizeOfTransaction\<close> says.
\<close>

theorem getSizeOfTransaction_payer_missing:
  assumes "wire_ok w" and "payer \<notin> tx_accounts ixs" and "countable_tx payer ixs"
  shows "length (serialize_transaction w versioned payer ixs None) = getSizeOfTransaction ixs versioned None + 96"
proof -
  have sig: "payer \<notin> tx_signers ixs" using assms(2) tx_sets_subset(1) [of ixs] by blast
  have acc: "card (tx_accounts ixs) < 127" using assms(2,3) by (simp add: countable_tx_def)
  then have "card (tx_signers ixs) < 127"
    using card_mono [OF _ tx_sets_subset(1) [of ixs]] by simp
  moreover have "getSizeOfCompressedU16 n = 1" if "n < 128" for n
    using that by (simp add: getSizeOfCompressedU16_def)
  moreover have "length (compact_u16 (length ixs)) = getSizeOfCompressedU16 (length ixs)"
    using assms(3) by (simp add: countable_tx_def length_compact_u16)
  moreover have "length (concat (map (serialize_instruction w) ixs)) = sum_list (map instruction_size ixs)"
    using assms(3) by (intro length_instructions) (simp add: countable_tx_def)
  moreover have "filter (\<lambda>k. \<not> looked_up payer ixs None k) (account_list payer ixs) = account_list payer ixs"
    by (simp add: looked_up_def)
  ultimately show ?thesis
    using acc sig assms(2) wire_lengths [OF assms(1)]
    by (simp add: serialize_transaction_def getSizeOfTransaction_def Let_def length_signer_list
        length_account_list small_compact serialize_lookups_def address_lookups_def static_accounts_def)
qed

section \<open>Batching\<close>

lemma getSizeOfCompressedU16_mono: "m \<le> n \<Longrightarrow> getSizeOfCompressedU16 m \<le> getSizeOfCompressedU16 n"
  by (auto simp: getSizeOfCompressedU16_def)

lemma tx_sets_append:
  "tx_signers (xs @ ys) = tx_signers xs \<union> tx_signers ys" "tx_accounts (xs @ ys) = tx_accounts xs \<union> tx_accounts ys"
  "tx_programs (xs @ ys) = tx_programs xs \<union> tx_programs ys"
  "static_accounts (xs @ ys) t = static_accounts xs t \<union> static_accounts ys t"
  by (auto simp: tx_signers_def tx_accounts_def tx_programs_def static_accounts_def split: option.split)

lemma lookups_mono:
  "32 * card (static_accounts xs t) + address_lookups xs t \<le>
   32 * card (static_accounts (xs @ ys) t) + address_lookups (xs @ ys) t"
proof -
  have st: "card (static_accounts xs t) \<le> card (static_accounts (xs @ ys) t)"
    by (intro card_mono) (simp_all add: tx_sets_append)
  have ac: "card (tx_accounts xs) \<le> card (tx_accounts (xs @ ys))"
    by (intro card_mono) (simp_all add: tx_sets_append)
  show ?thesis
  proof (cases t)
    case None
    then show ?thesis using st by (simp add: address_lookups_def)
  next
    case (Some as)
    show ?thesis
      using st ac static_plus_lookups [of xs as] static_plus_lookups [of "xs @ ys" as] unfolding Some by linarith
  qed
qed

text \<open>Adding instructions never makes a transaction smaller.\<close>

lemma getSizeOfTransaction_mono: "getSizeOfTransaction xs v t \<le> getSizeOfTransaction (xs @ ys) v t"
proof -
  have sg: "card (tx_signers xs) \<le> card (tx_signers (xs @ ys))"
    by (intro card_mono) (simp_all add: tx_sets_append)
  have st: "card (static_accounts xs t) \<le> card (static_accounts (xs @ ys) t)"
    by (intro card_mono) (simp_all add: tx_sets_append)
  have len: "length xs \<le> length (xs @ ys)" by simp
  show ?thesis
    using sg getSizeOfCompressedU16_mono [OF sg] getSizeOfCompressedU16_mono [OF st]
      getSizeOfCompressedU16_mono [OF len] lookups_mono [of xs t ys]
    unfolding getSizeOfTransaction_def Let_def map_append sum_list_append by linarith
qed

lemma fit_instructions_size: "sz sent \<le> PACKET_DATA_SIZE \<Longrightarrow> sz (fit_instructions sz sent ixs) \<le> PACKET_DATA_SIZE"
  by (induction ixs arbitrary: sent) auto

lemma fit_instructions_keeps:
  assumes "\<And>xs ys. sz xs \<le> sz (xs @ ys)" and "sz (sent @ ys) \<le> PACKET_DATA_SIZE"
  shows "\<exists>n. fit_instructions sz sent (ys @ zs) = sent @ ys @ take n zs"
  using assms(2)
proof (induction ys arbitrary: sent)
  case Nil
  show ?case
  proof (induction zs arbitrary: sent)
    case (Cons z zs)
    obtain n where n: "fit_instructions sz (sent @ [z]) zs = (sent @ [z]) @ [] @ take n zs" using Cons.IH [of "sent @ [z]"] by auto
    show ?case using n by (cases "PACKET_DATA_SIZE < sz (sent @ [z])") (auto intro: exI [of _ 0] exI [of _ "Suc n"])
  qed simp
next
  case (Cons y ys)
  have "sz (sent @ [y]) \<le> sz (sent @ y # ys)" using assms(1) [of "sent @ [y]" ys] by simp
  with Cons.prems have "\<not> PACKET_DATA_SIZE < sz (sent @ [y])" by simp
  moreover obtain n where "fit_instructions sz (sent @ [y]) (ys @ zs) = (sent @ [y]) @ ys @ take n zs"
    using Cons.IH [of "sent @ [y]"] Cons.prems by auto
  ultimately show ?case by auto
qed

text \<open>The batches: none is empty, and one of several instructions fits with the reserved ones.\<close>

definition batch_ok :: "'pk tx_env \<Rightarrow> 'pk \<Rightarrow> 'pk list option \<Rightarrow> ('pk, 'sg) tx_batch \<Rightarrow> bool" where
  "batch_ok env payer table b \<longleftrightarrow> tb_instructions b \<noteq> [] \<and>
     (length (tb_instructions b) = 1 \<or>
      (\<exists>random n. getSizeOfTransaction (tb_instructions b @ reserved env random payer n) True table \<le> PACKET_DATA_SIZE))"

definition builder_ok :: "'pk tx_env \<Rightarrow> ('pk, 'sg) transaction_builder \<Rightarrow> bool" where
  "builder_ok env bd \<longleftrightarrow>
     list_all (batch_ok env (bd_payer bd) (bd_addressLookupTable bd)) (bd_transactionInstructions bd)"

lemma addInstruction_ok:
  assumes "builder_ok env bd"
  shows "builder_ok env (addInstruction env random args bd)"
    and "concat (map tb_instructions (bd_transactionInstructions (addInstruction env random args bd))) =
      concat (map tb_instructions (bd_transactionInstructions bd)) @ [iws_instruction args]"
    and "concat (map tb_signers (bd_transactionInstructions (addInstruction env random args bd))) =
      concat (map tb_signers (bd_transactionInstructions bd)) @ iws_signers args"
    and "bd_payer (addInstruction env random args bd) = bd_payer bd"
    and "bd_addressLookupTable (addInstruction env random args bd) = bd_addressLookupTable bd"
proof -
  have new: "batch_ok env p t (new_batch args)" for p t by (simp add: batch_ok_def new_batch_def)
  show "bd_payer (addInstruction env random args bd) = bd_payer bd"
    and "bd_addressLookupTable (addInstruction env random args bd) = bd_addressLookupTable bd"
    by (simp_all add: addInstruction_def Let_def)
  show "builder_ok env (addInstruction env random args bd)"
    and "concat (map tb_instructions (bd_transactionInstructions (addInstruction env random args bd))) =
      concat (map tb_instructions (bd_transactionInstructions bd)) @ [iws_instruction args]"
    and "concat (map tb_signers (bd_transactionInstructions (addInstruction env random args bd))) =
      concat (map tb_signers (bd_transactionInstructions bd)) @ iws_signers args"
    using assms new
    by (cases "bd_transactionInstructions bd" rule: rev_cases;
        auto simp: addInstruction_def Let_def builder_ok_def new_batch_def extend_batch_def batch_ok_def)+
qed

lemma addInstructions_ok:
  assumes "builder_ok env bd"
  shows "builder_ok env (addInstructions env xs bd) \<and>
    concat (map tb_instructions (bd_transactionInstructions (addInstructions env xs bd))) =
      concat (map tb_instructions (bd_transactionInstructions bd)) @ map (\<lambda>x. iws_instruction (snd x)) xs \<and>
    concat (map tb_signers (bd_transactionInstructions (addInstructions env xs bd))) =
      concat (map tb_signers (bd_transactionInstructions bd)) @ concat (map (\<lambda>x. iws_signers (snd x)) xs) \<and>
    bd_payer (addInstructions env xs bd) = bd_payer bd \<and>
    bd_addressLookupTable (addInstructions env xs bd) = bd_addressLookupTable bd"
  using assms
proof (induction xs arbitrary: bd)
  case (Cons x xs)
  obtain r a where x: "x = (r, a)" by (cases x)
  note step = addInstruction_ok [OF Cons.prems, of r a]
  show ?case using Cons.IH [OF step(1)] step by (simp add: addInstructions_def x)
qed (simp add: addInstructions_def)

lemma empty_fits: "getSizeOfTransaction [] True table \<le> PACKET_DATA_SIZE"
  by (simp add: getSizeOfTransaction_def getSizeOfCompressedU16_def tx_signers_def static_accounts_def tx_accounts_def
      tx_programs_def address_lookups_def PACKET_DATA_SIZE_def split: option.split)

lemma batch_kept:
  assumes ok: "batch_ok env payer table b"
    and one: "\<And>ix. ix \<in> set (tb_instructions b) \<Longrightarrow> getSizeOfTransaction [ix] True table \<le> PACKET_DATA_SIZE"
  shows "getSizeOfTransaction (tb_instructions b) True table \<le> PACKET_DATA_SIZE"
proof (cases "length (tb_instructions b) = 1")
  case True
  then obtain ix where "tb_instructions b = [ix]" by (auto simp: length_Suc_conv)
  then show ?thesis using one by simp
next
  case False
  then obtain r n where "getSizeOfTransaction (tb_instructions b @ reserved env r payer n) True table \<le> PACKET_DATA_SIZE"
    using ok by (auto simp: batch_ok_def)
  then show ?thesis using getSizeOfTransaction_mono order.trans by blast
qed

lemma batch_ok_nonempty: "batch_ok env payer table b \<Longrightarrow> tb_instructions b \<noteq> []"
  by (simp add: batch_ok_def)

text \<open>The batch of a group of instructions.\<close>

definition compute_units :: "('pk, 'sg) ix_with_signers list \<Rightarrow> nat" where
  "compute_units grp = sum_list (map (\<lambda>x. case iws_computeUnits x of None \<Rightarrow> 0 | Some n \<Rightarrow> n) grp)"

definition batch_of :: "('pk, 'sg) ix_with_signers list \<Rightarrow> ('pk, 'sg) tx_batch \<Rightarrow> bool" where
  "batch_of grp b \<longleftrightarrow> b = \<lparr>tb_instructions = map iws_instruction grp, tb_signers = concat (map iws_signers grp),
     tb_computeUnits = compute_units grp\<rparr>"

lemma addInstruction_groups:
  assumes "list_all2 batch_of groups (bd_transactionInstructions bd)"
  shows "\<exists>groups'. list_all2 batch_of groups' (bd_transactionInstructions (addInstruction env random args bd)) \<and>
    concat groups' = concat groups @ [args]"
proof -
  have new: "batch_of [args] (new_batch args)" by (simp add: batch_of_def new_batch_def compute_units_def)
  have ext: "batch_of (g @ [args]) (extend_batch args b)" if "batch_of g b" for g b
    using that by (simp add: batch_of_def extend_batch_def compute_units_def)
  show ?thesis
  proof (cases "bd_transactionInstructions bd" rule: rev_cases)
    case Nil
    then show ?thesis using assms new by (intro exI [of _ "[[args]]"]) (simp add: addInstruction_def)
  next
    case (snoc bs b)
    then obtain gs g where gs: "groups = gs @ [g]" "list_all2 batch_of gs bs" "batch_of g b"
      using assms by (auto simp: list_all2_append2 list_all2_Cons2)
    have "list_all2 batch_of (gs @ [g @ [args]]) (bs @ [extend_batch args b])" "list_all2 batch_of (groups @ [[args]]) (bs @ [b, new_batch args])"
      using gs ext new by (simp_all add: list_all2_appendI)
    then show ?thesis using gs(1) snoc
      by (cases "getSizeOfTransaction (tb_instructions b @ [iws_instruction args] @
            reserved env random (bd_payer bd) (length (bd_transactionInstructions bd))) True (bd_addressLookupTable bd) \<le> PACKET_DATA_SIZE")
        (force simp: addInstruction_def Let_def intro: exI [of _ "gs @ [g @ [args]]"] exI [of _ "groups @ [[args]]"])+
  qed
qed

lemma addInstructions_groups:
  assumes "list_all2 batch_of groups (bd_transactionInstructions bd)"
  shows "\<exists>groups'. list_all2 batch_of groups' (bd_transactionInstructions (addInstructions env xs bd)) \<and>
    concat groups' = concat groups @ map snd xs"
  using assms
proof (induction xs arbitrary: bd groups)
  case (Cons x xs)
  obtain gs where "list_all2 batch_of gs (bd_transactionInstructions (addInstruction env (fst x) (snd x) bd))" "concat gs = concat groups @ [snd x]"
    using addInstruction_groups [OF Cons.prems] by blast
  from Cons.IH [OF this(1)] this(2) show ?case by (cases x) (auto simp: addInstructions_def)
qed (auto simp: addInstructions_def)

text \<open>
  What may follow a group in transaction \<open>i\<close>: a compute unit limit when the group needs more than the default or a tight budget is asked for, a
  price when one is given, and a tip in the first transaction of each five.
\<close>

definition budget_of :: "'pk tx_env \<Rightarrow> nat \<Rightarrow> 'pk \<Rightarrow> priority_fee_config \<Rightarrow> nat \<Rightarrow> ('pk, 'sg) ix_with_signers list \<Rightarrow> 'pk ix list" where
  "budget_of env random payer cfg i grp =
     (if 200000 * length grp < compute_units grp \<or> pf_tightComputeBudget cfg = Some True
      then [te_setComputeUnitLimit env (compute_units grp)] else []) @
     (case pf_computeUnitPriceMicroLamports cfg of Some (Suc n) \<Rightarrow> [te_setComputeUnitPrice env (Suc n)] | _ \<Rightarrow> []) @
     (case pf_jitoTipLamports cfg of
        Some (Suc n) \<Rightarrow> if i mod 5 = 0 then [te_transfer env payer (getRandomTipAccount env random) (Suc n)] else []
      | _ \<Rightarrow> [])"

lemma with_compute_budget_of:
  "batch_of grp b \<Longrightarrow> with_compute_budget env random payer cfg i b = map iws_instruction grp @ budget_of env random payer cfg i grp"
  by (auto simp: with_compute_budget_def batch_of_def budget_of_def truthy_def DEFAULT_COMPUTE_BUDGET_UNITS_def JITO_BUNDLE_SIZE_def
      buildJitoTipInstruction_def split: option.splits nat.splits)

text \<open>
  C36. Batching is correct: if every instruction fits in a transaction by itself, the instructions are split, in their order, into
  consecutive non-empty groups, one per transaction.  Transaction \<open>i\<close> consists of the instructions of its group and an initial
  part of the budget and tip instructions that belong to it, it comes with exactly the signers of its group, and its estimated
  size is at most that of a packet.  If it has at most 127 accounts, its serialized size is too when the payer signs one of its
  instructions, and is at most 96 bytes more otherwise.
\<close>

theorem batchIntoVersionedTransactions_complete:
  assumes one: "\<forall>x \<in> set xs. getSizeOfTransaction [iws_instruction (snd x)] True table \<le> PACKET_DATA_SIZE"
    and "wire_ok w"
  shows "\<exists>groups. concat groups = map snd xs \<and> length groups = length (batchIntoVersionedTransactions env random payer xs cfg table) \<and>
    (\<forall>i < length groups. case batchIntoVersionedTransactions env random payer xs cfg table ! i of (ixs, signers) \<Rightarrow>
      groups ! i \<noteq> [] \<and> signers = concat (map iws_signers (groups ! i)) \<and>
      (\<exists>n. ixs = map iws_instruction (groups ! i) @ take n (budget_of env (random i) payer cfg i (groups ! i))) \<and>
      getSizeOfTransaction ixs True table \<le> PACKET_DATA_SIZE \<and>
      (card (insert payer (tx_accounts ixs)) < 128 \<longrightarrow>
        length (serialize_transaction w True payer ixs table) \<le> PACKET_DATA_SIZE + (if payer \<in> tx_signers ixs then 0 else 96)))"
proof -
  define bd where "bd = addInstructions env xs (new_builder payer table)"
  let ?bs = "bd_transactionInstructions bd" and ?sz = "\<lambda>ixs. getSizeOfTransaction ixs True table"
  have nb: "builder_ok env (new_builder payer table)" by (simp add: builder_ok_def new_builder_def)
  have ok: "builder_ok env bd" and ins: "concat (map tb_instructions ?bs) = map (\<lambda>x. iws_instruction (snd x)) xs"
      and bd: "bd_payer bd = payer" "bd_addressLookupTable bd = table"
    using addInstructions_ok [OF nb, of xs] by (simp_all add: bd_def new_builder_def)
  obtain groups where groups: "list_all2 batch_of groups ?bs" "concat groups = map snd xs"
    using addInstructions_groups [of "[]" "new_builder payer table" env xs] by (auto simp: bd_def new_builder_def)
  have len: "length groups = length ?bs" using groups(1) by (rule list_all2_lengthD)
  have tx: "batchIntoVersionedTransactions env random payer xs cfg table ! i =
      (fit_instructions ?sz [] (with_compute_budget env (random i) payer cfg i (?bs ! i)), tb_signers (?bs ! i))" if "i < length ?bs" for i
    using that by (simp add: batchIntoVersionedTransactions_def buildVersionedTransactions_def bd_def [symmetric] bd nth_enumerate_eq)
  have lentx: "length (batchIntoVersionedTransactions env random payer xs cfg table) = length ?bs"
    by (simp add: batchIntoVersionedTransactions_def buildVersionedTransactions_def bd_def [symmetric])
  have each: "case batchIntoVersionedTransactions env random payer xs cfg table ! i of (ixs, signers) \<Rightarrow>
      groups ! i \<noteq> [] \<and> signers = concat (map iws_signers (groups ! i)) \<and>
      (\<exists>n. ixs = map iws_instruction (groups ! i) @ take n (budget_of env (random i) payer cfg i (groups ! i))) \<and>
      getSizeOfTransaction ixs True table \<le> PACKET_DATA_SIZE \<and>
      (card (insert payer (tx_accounts ixs)) < 128 \<longrightarrow>
        length (serialize_transaction w True payer ixs table) \<le> PACKET_DATA_SIZE + (if payer \<in> tx_signers ixs then 0 else 96))"
    if i: "i < length groups" for i
  proof -
    let ?b = "?bs ! i"
    have b: "?b \<in> set ?bs" "batch_of (groups ! i) ?b" using i groups(1) by (auto simp: list_all2_conv_all_nth)
    have bok: "batch_ok env payer table ?b" using ok b(1) bd by (auto simp: builder_ok_def list_all_iff)
    have "set (tb_instructions ?b) \<subseteq> set (concat (map tb_instructions ?bs))" using b(1) by auto
    then have "?sz (tb_instructions ?b) \<le> PACKET_DATA_SIZE" using one ins by (intro batch_kept [OF bok]) auto
    then obtain n where n: "fit_instructions ?sz [] (with_compute_budget env (random i) payer cfg i ?b) =
        map iws_instruction (groups ! i) @ take n (budget_of env (random i) payer cfg i (groups ! i))"
      using fit_instructions_keeps [of ?sz "[]" "map iws_instruction (groups ! i)", OF getSizeOfTransaction_mono] b(2)
      unfolding with_compute_budget_of [OF b(2)] by (auto simp: batch_of_def)
    have size: "?sz (fit_instructions ?sz [] (with_compute_budget env (random i) payer cfg i ?b)) \<le> PACKET_DATA_SIZE"
      using fit_instructions_size [of ?sz "[]"] empty_fits by auto
    have "length (serialize_transaction w True payer ixs table) \<le> PACKET_DATA_SIZE + (if payer \<in> tx_signers ixs then 0 else 96)"
      if "?sz ixs \<le> PACKET_DATA_SIZE" "card (insert payer (tx_accounts ixs)) < 128" for ixs
      using serialize_transaction_bound [OF assms(2) small_transaction [OF that], of table] that(1) by simp
    then show ?thesis using n size batch_ok_nonempty [OF bok] b(2) tx [of i] i len by (auto simp: batch_of_def)
  qed
  with groups(2) len lentx show ?thesis by (intro exI [of _ groups] conjI allI impI) simp_all
qed

text \<open>
  A versioned transaction for an instruction that does not fit by itself is built without it:
  the instruction is dropped silently, where the legacy builder throws.
\<close>

theorem buildVersionedTransactions_drops_oversize:
  assumes "PACKET_DATA_SIZE < getSizeOfTransaction [iws_instruction x] True None"
    and "PACKET_DATA_SIZE < getSizeOfTransaction [iws_instruction x] False None"
  shows "batchIntoVersionedTransactions env random payer [(r, x)] cfg None = [([], iws_signers x)] \<and>
    (\<exists>e. batchIntoLegacyTransactions env random payer [(r, iws_instruction x)] cfg = Inl e)"
proof
  show "batchIntoVersionedTransactions env random payer [(r, x)] cfg None = [([], iws_signers x)]"
    using assms(1)
    by (simp add: batchIntoVersionedTransactions_def addInstructions_def addInstruction_def new_builder_def
        new_batch_def buildVersionedTransactions_def with_compute_budget_def)
  show "\<exists>e. batchIntoLegacyTransactions env random payer [(r, iws_instruction x)] cfg = Inl e"
    using assms(2)
    by (simp add: batchIntoLegacyTransactions_def addInstructions_def addInstruction_def new_builder_def
        new_batch_def buildLegacyTransactions_def with_compute_budget_def fit_legacy_def)
qed

text \<open>A legacy transaction is never larger than the version 0 transaction of the same instructions.\<close>

lemma getSizeOfTransaction_legacy: "getSizeOfTransaction ixs False None \<le> getSizeOfTransaction ixs True None"
  by (simp add: getSizeOfTransaction_def Let_def)

lemma getSizeOfTransaction_comm: "getSizeOfTransaction (xs @ ys) v None = getSizeOfTransaction (ys @ xs) v None"
  by (simp add: getSizeOfTransaction_def Let_def tx_sets_append address_lookups_def Un_commute add.commute [of "length xs"])

lemma fit_legacy_keeps:
  assumes "b \<noteq> []" and "getSizeOfTransaction b False None \<le> PACKET_DATA_SIZE"
  shows "\<exists>added. fit_legacy (b @ zs) = Inr (b @ added) \<and> getSizeOfTransaction (b @ added) False None \<le> PACKET_DATA_SIZE"
proof -
  let ?sz = "\<lambda>ixs. getSizeOfTransaction ixs False None"
  obtain ix ixs where b: "b = ix # ixs" using assms(1) by (cases b) auto
  have "?sz [ix] \<le> PACKET_DATA_SIZE"
    using assms(2) getSizeOfTransaction_mono [of "[ix]" False None ixs] b by simp
  then have "fit_legacy (b @ zs) = Inr (fit_instructions ?sz [] (b @ zs))" by (simp add: fit_legacy_def b)
  moreover obtain r where "fit_instructions ?sz [] (b @ zs) = b @ r"
    using fit_instructions_keeps [of ?sz "[]" b zs, OF getSizeOfTransaction_mono] assms(2) by auto
  moreover have "?sz [] \<le> PACKET_DATA_SIZE"
    by (rule order.trans [OF getSizeOfTransaction_legacy empty_fits])
  ultimately show ?thesis using fit_instructions_size [of ?sz "[]" "b @ zs"] by auto
qed

lemma batch_ok_legacy:
  assumes "batch_ok env payer None b"
  shows "getSizeOfTransaction (tb_instructions b) False None \<le> PACKET_DATA_SIZE \<or> (\<exists>ix. tb_instructions b = [ix])"
proof (cases "length (tb_instructions b) = 1")
  case False
  then obtain r n where "getSizeOfTransaction (tb_instructions b @ reserved env r payer n) True None \<le> PACKET_DATA_SIZE"
    using assms by (auto simp: batch_ok_def)
  from order.trans [OF getSizeOfTransaction_legacy order.trans [OF getSizeOfTransaction_mono this]]
  show ?thesis ..
qed (auto simp: length_Suc_conv)

text \<open>
  The legacy batches are built exactly when every instruction fits in a transaction by itself; the
  transactions then carry the instructions in order, split into consecutive non-empty runs, each run at
  the head of its transaction, and none is larger than a packet.
\<close>

lemma batchIntoLegacyTransactions_exact:
  "if \<forall>x \<in> set xs. getSizeOfTransaction [snd x] False None \<le> PACKET_DATA_SIZE
   then \<exists>txs runs. batchIntoLegacyTransactions env random placeholder xs cfg = Inr txs \<and>
     concat runs = map snd xs \<and>
     list_all2 (\<lambda>run tx. run \<noteq> [] \<and> (\<exists>added. tx = run @ added) \<and>
       getSizeOfTransaction tx False None \<le> PACKET_DATA_SIZE) runs txs
   else \<exists>e. batchIntoLegacyTransactions env random placeholder xs cfg = Inl e"
proof -
  define ys where "ys = map (\<lambda>(r, ix). (r, \<lparr>iws_instruction = ix, iws_signers = [] :: unit list,
    iws_computeUnits = None\<rparr>)) xs"
  define bd where "bd = addInstructions env ys (new_builder placeholder None)"
  let ?bs = "bd_transactionInstructions bd" and ?sz = "\<lambda>ixs. getSizeOfTransaction ixs False None"
  have nb: "builder_ok env (new_builder placeholder None :: ('a, unit) transaction_builder)"
    by (simp add: builder_ok_def new_builder_def)
  have ok: "builder_ok env bd" and ins: "concat (map tb_instructions ?bs) = map snd xs"
      and bd: "bd_payer bd = placeholder" "bd_addressLookupTable bd = None"
    using addInstructions_ok [OF nb, of ys] by (simp_all add: bd_def new_builder_def ys_def comp_def split_beta)
  let ?f = "\<lambda>(i, b). res_bind (fit_legacy (with_compute_budget env (random i) placeholder cfg i b)) (\<lambda>ixs. Inr (ixs, tb_signers b))"
  have txs: "batchIntoLegacyTransactions env random placeholder xs cfg =
      res_bind (map_res ?f (List.enumerate 0 ?bs)) (\<lambda>txs. Inr (map fst txs))"
    unfolding batchIntoLegacyTransactions_def buildLegacyTransactions_def bd_def ys_def [symmetric]
    using bd by (simp add: bd_def)
  have cb: "\<exists>zs. with_compute_budget env r p cfg i b = tb_instructions b @ zs" for r p i and b :: "('a, unit) tx_batch"
    by (metis with_compute_budget_def)
  have ok': "batch_ok env placeholder None b" if "b \<in> set ?bs" for b
    using ok that bd by (auto simp: builder_ok_def list_all_iff)
  note fits = batch_ok_legacy [OF ok'] and ne = batch_ok_nonempty [OF ok']
  show ?thesis
  proof (cases "\<forall>x \<in> set xs. ?sz [snd x] \<le> PACKET_DATA_SIZE")
    case True
    have "\<exists>y. ?f ib = Inr y \<and> (tb_instructions (snd ib) \<noteq> [] \<and> (\<exists>added. fst y = tb_instructions (snd ib) @ added) \<and>
        ?sz (fst y) \<le> PACKET_DATA_SIZE)" if "ib \<in> set (List.enumerate 0 ?bs)" for ib
    proof -
      have "snd ib \<in> set ?bs" by (rule enumerate_snd [OF that])
      then obtain i b where ib: "ib = (i, b)" "b \<in> set ?bs" by (cases ib) simp
      have "set (tb_instructions b) \<subseteq> set (concat (map tb_instructions ?bs))" using ib by auto
      then have sz: "?sz (tb_instructions b) \<le> PACKET_DATA_SIZE" using fits [OF ib(2)] True ins by fastforce
      obtain zs where zs: "with_compute_budget env (random i) placeholder cfg i b = tb_instructions b @ zs" using cb by blast
      show ?thesis using fit_legacy_keeps [OF ne [OF ib(2)] sz, of zs] ne [OF ib(2)] zs ib(1) by auto
    qed
    note good = this
    obtain rs where rs: "map_res ?f (List.enumerate 0 ?bs) = Inr rs"
        "list_all2 (\<lambda>ib y. tb_instructions (snd ib) \<noteq> [] \<and> (\<exists>added. fst y = tb_instructions (snd ib) @ added) \<and>
           ?sz (fst y) \<le> PACKET_DATA_SIZE) (List.enumerate 0 ?bs) rs"
      using map_res_all2 [of "List.enumerate 0 ?bs" ?f, OF good] by blast
    have "list_all2 (\<lambda>run tx. run \<noteq> [] \<and> (\<exists>added. tx = run @ added) \<and> ?sz tx \<le> PACKET_DATA_SIZE)
        (map tb_instructions (map snd (List.enumerate 0 ?bs))) (map fst rs)"
      unfolding list_all2_map1 list_all2_map2 by (rule rs(2))
    then have "list_all2 (\<lambda>run tx. run \<noteq> [] \<and> (\<exists>added. tx = run @ added) \<and> ?sz tx \<le> PACKET_DATA_SIZE)
        (map tb_instructions ?bs) (map fst rs)" unfolding map_snd_enumerate .
    moreover have "batchIntoLegacyTransactions env random placeholder xs cfg = Inr (map fst rs)" using txs rs(1) by simp
    ultimately show ?thesis unfolding if_P [OF True] using ins by blast
  next
    case False
    then obtain ix where ix: "ix \<in> set (concat (map tb_instructions ?bs))" "PACKET_DATA_SIZE < ?sz [ix]"
      unfolding ins by force
    then obtain b where b: "b \<in> set ?bs" "ix \<in> set (tb_instructions b)" by auto
    obtain us vs where uv: "tb_instructions b = us @ ix # vs" using b(2) by (meson split_list)
    have "?sz [ix] \<le> ?sz ([ix] @ vs @ us)" by (rule getSizeOfTransaction_mono)
    also have "\<dots> = ?sz (tb_instructions b)" using getSizeOfTransaction_comm [of "ix # vs" us] uv by simp
    finally have "tb_instructions b = [ix]" using fits [OF b(1)] ix(2) b(2) by fastforce
    then have big: "\<exists>e. fit_legacy (with_compute_budget env (random i) placeholder cfg i b) = Inl e" for i
      using cb [of "random i" placeholder i b] ix(2) by (auto simp: fit_legacy_def)
    have bad: "\<exists>e. ?f (i, b) = Inl e" for i using big [of i] by auto
    obtain i where "(i, b) \<in> set (List.enumerate 0 ?bs)"
      using b(1) enumerate_ex [of b ?bs 0] by blast
    then obtain e where "map_res ?f (List.enumerate 0 ?bs) = Inl e"
      using bad [of i] map_res_Inl [of "(i, b)" "List.enumerate 0 ?bs" ?f] by blast
    then show ?thesis unfolding if_not_P [OF False] using txs by simp
  qed
qed

section \<open>Shared arrays of signers\<close>

text \<open>
  \<^verbatim>\<open>addInstruction\<close> keeps the array of signers of the first instruction of a transaction and pushes those of the others
  into it.  Here the arrays are in a store and instructions and batches have references to them.
\<close>

record 'pk shared_ix =
  si_instruction :: "'pk ix"
  si_signers :: nat
  si_computeUnits :: "nat option"

record 'pk shared_batch =
  sb_instructions :: "'pk ix list"
  sb_signers :: nat
  sb_computeUnits :: nat

type_synonym ('pk, 'sg) shared_builder = "'pk shared_batch list \<times> (nat \<Rightarrow> 'sg list)"

definition addInstruction_shared ::
  "'pk tx_env \<Rightarrow> 'pk \<Rightarrow> 'pk list option \<Rightarrow> nat \<Rightarrow> 'pk shared_ix \<Rightarrow> ('pk, 'sg) shared_builder \<Rightarrow> ('pk, 'sg) shared_builder" where
  "addInstruction_shared env payer table random args st =
     (let txs = fst st; store = snd st; units = (case si_computeUnits args of None \<Rightarrow> 0 | Some n \<Rightarrow> n);
          fresh = \<lparr>sb_instructions = [si_instruction args], sb_signers = si_signers args, sb_computeUnits = units\<rparr> in
      if txs = [] then ([fresh], store)
      else if getSizeOfTransaction (sb_instructions (last txs) @ [si_instruction args] @ reserved env random payer (length txs)) True table
          \<le> PACKET_DATA_SIZE
      then (butlast txs @ [(last txs)\<lparr>sb_instructions := sb_instructions (last txs) @ [si_instruction args],
              sb_computeUnits := sb_computeUnits (last txs) + units\<rparr>],
            store(sb_signers (last txs) := store (sb_signers (last txs)) @ store (si_signers args)))
      else (txs @ [fresh], store))"

definition addInstructions_shared ::
  "'pk tx_env \<Rightarrow> 'pk \<Rightarrow> 'pk list option \<Rightarrow> (nat \<times> 'pk shared_ix) list \<Rightarrow> ('pk, 'sg) shared_builder \<Rightarrow> ('pk, 'sg) shared_builder" where
  "addInstructions_shared env payer table xs st = fold (\<lambda>(random, args). addInstruction_shared env payer table random args) xs st"

text \<open>Reading an instruction and a batch with the arrays of a store.\<close>

definition ix_in :: "(nat \<Rightarrow> 'sg list) \<Rightarrow> 'pk shared_ix \<Rightarrow> ('pk, 'sg) ix_with_signers" where
  "ix_in store x = \<lparr>iws_instruction = si_instruction x, iws_signers = store (si_signers x), iws_computeUnits = si_computeUnits x\<rparr>"

definition batch_in :: "(nat \<Rightarrow> 'sg list) \<Rightarrow> 'pk shared_batch \<Rightarrow> ('pk, 'sg) tx_batch" where
  "batch_in store b = \<lparr>tb_instructions = sb_instructions b, tb_signers = store (sb_signers b), tb_computeUnits = sb_computeUnits b\<rparr>"

definition builder_in :: "'pk \<Rightarrow> 'pk list option \<Rightarrow> ('pk, 'sg) shared_builder \<Rightarrow> ('pk, 'sg) transaction_builder" where
  "builder_in payer table st =
     \<lparr>bd_transactionInstructions = map (batch_in (snd st)) (fst st), bd_payer = payer, bd_addressLookupTable = table\<rparr>"

lemma addInstruction_shared_step:
  assumes "distinct (map sb_signers (fst st))" and "si_signers args \<notin> sb_signers ` set (fst st)"
  shows "builder_in payer table (addInstruction_shared env payer table random args st) =
      addInstruction env random (ix_in (snd st) args) (builder_in payer table st) \<and>
    distinct (map sb_signers (fst (addInstruction_shared env payer table random args st))) \<and>
    sb_signers ` set (fst (addInstruction_shared env payer table random args st)) \<subseteq> insert (si_signers args) (sb_signers ` set (fst st)) \<and>
    (\<forall>r. r \<notin> sb_signers ` set (fst st) \<longrightarrow> snd (addInstruction_shared env payer table random args st) r = snd st r)"
proof (cases "fst st" rule: rev_cases)
  case Nil
  then show ?thesis
    by (simp add: addInstruction_shared_def addInstruction_def builder_in_def batch_in_def ix_in_def new_batch_def Let_def)
next
  case (snoc bs b)
  have refs: "sb_signers b \<notin> sb_signers ` set bs" "distinct (map sb_signers bs)" "si_signers args \<notin> insert (sb_signers b) (sb_signers ` set bs)"
    using assms snoc by auto
  then have "batch_in ((snd st)(sb_signers b := v)) x = batch_in (snd st) x" if "x \<in> set bs" for v x
    using that by (auto simp: batch_in_def image_iff)
  then have "map (batch_in ((snd st)(sb_signers b := v))) bs = map (batch_in (snd st)) bs" for v by simp
  with refs show ?thesis using snoc
    by (auto simp: addInstruction_shared_def addInstruction_def builder_in_def ix_in_def new_batch_def extend_batch_def Let_def)
      (simp_all add: batch_in_def)
qed

text \<open>
  With an array of its own for every instruction the builder is the one modelled above, and the theorems on it hold; only the
  arrays the caller gave are longer afterwards.
\<close>

lemma addInstructions_shared_distinct:
  assumes "distinct (map sb_signers (fst st) @ map (\<lambda>x. si_signers (snd x)) xs)"
  shows "builder_in payer table (addInstructions_shared env payer table xs st) =
    addInstructions env (map (\<lambda>(random, args). (random, ix_in (snd st) args)) xs) (builder_in payer table st)"
  using assms
proof (induction xs arbitrary: st)
  case (Cons x xs)
  obtain random args where x: "x = (random, args)" by (cases x)
  let ?st = "addInstruction_shared env payer table random args st"
  have prem: "distinct (map sb_signers (fst st))" "si_signers args \<notin> sb_signers ` set (fst st)"
    using Cons.prems by (auto simp: x)
  have step: "builder_in payer table ?st = addInstruction env random (ix_in (snd st) args) (builder_in payer table st)"
      "distinct (map sb_signers (fst ?st))" "sb_signers ` set (fst ?st) \<subseteq> insert (si_signers args) (sb_signers ` set (fst st))"
      "\<And>r. r \<notin> sb_signers ` set (fst st) \<Longrightarrow> snd ?st r = snd st r"
    using addInstruction_shared_step [OF prem] by blast+
  have "distinct (map sb_signers (fst ?st) @ map (\<lambda>x. si_signers (snd x)) xs)"
  proof -
    have "insert (si_signers args) (sb_signers ` set (fst st)) \<inter> (\<lambda>x. si_signers (snd x)) ` set xs = {}" using Cons.prems by (simp add: x)
    then have "set (map sb_signers (fst ?st)) \<inter> set (map (\<lambda>x. si_signers (snd x)) xs) = {}"
      using step(3) unfolding set_map by (meson disjoint_iff subsetD)
    then show ?thesis using step(2) Cons.prems by (simp only: distinct_append) (simp add: x)
  qed
  note IH = Cons.IH [OF this]
  have "ix_in (snd ?st) a = ix_in (snd st) a" if "(r, a) \<in> set xs" for r a
    using step(4) [of "si_signers a"] Cons.prems that by (force simp: x ix_in_def)
  then have same: "map (\<lambda>(random, args). (random, ix_in (snd ?st) args)) xs = map (\<lambda>(random, args). (random, ix_in (snd st) args)) xs"
    by auto
  show ?case using IH unfolding same by (simp add: addInstructions_shared_def addInstructions_def x step(1))
qed (simp add: addInstructions_shared_def addInstructions_def)

text \<open>When two instructions share an array, its signers are listed twice, and the caller's array has changed.\<close>

lemma addInstructions_shared_twice:
  assumes "getSizeOfTransaction ([ix] @ [ix] @ reserved env r2 payer 1) True table \<le> PACKET_DATA_SIZE"
  shows "snd (addInstructions_shared env payer table
      [(r1, \<lparr>si_instruction = ix, si_signers = 0, si_computeUnits = None\<rparr>), (r2, \<lparr>si_instruction = ix, si_signers = 0, si_computeUnits = None\<rparr>)]
      ([], (\<lambda>_. [s]))) 0 = [s, s]"
  using assms by (simp add: addInstructions_shared_def addInstruction_shared_def Let_def)

section \<open>Sending\<close>

text \<open>
  The retry loop of \<^verbatim>\<open>sendTransactions\<close> for one transaction.  Each outcome of the race is \<open>None\<close> when
  the timer wins and the confirmation (with the error it reports, if any) otherwise; the count is the
  number of times the transaction was sent.  \<open>Waiting\<close>: no further outcome is known.
\<close>

datatype 'e send_state = Waiting | GaveUp | Confirmed "'e option"

fun send_loop :: "nat option \<Rightarrow> 'e option option list \<Rightarrow> nat \<Rightarrow> nat \<times> 'e send_state" where
  "send_loop maxRetries [] retryCount = (retryCount, Waiting)"
| "send_loop maxRetries (Some c # _) retryCount = (retryCount, Confirmed c)"
| "send_loop maxRetries (None # outcomes) retryCount =
     (if truthy maxRetries \<and> the maxRetries < retryCount then (retryCount, GaveUp)
      else send_loop maxRetries outcomes (Suc retryCount))"

text \<open>What the loop ends in: \<open>None\<close> while it waits.\<close>

definition send_result :: "('e \<Rightarrow> string) \<Rightarrow> string \<Rightarrow> 'e send_state \<Rightarrow> string res option" where
  "send_result json txSignature st =
     (case st of
        Waiting \<Rightarrow> None
      | GaveUp \<Rightarrow> Some (Inl (Error ''Failed to land the transaction''))
      | Confirmed None \<Rightarrow> Some (Inr txSignature)
      | Confirmed (Some err) \<Rightarrow>
          Some (Inl (Error (''Transaction '' @ txSignature @ '' has failed with error: '' @ json err))))"

lemma send_loop_timeouts:
  "send_loop maxRetries (replicate k None) n =
     (if truthy maxRetries \<and> the maxRetries + 2 \<le> n + k then (max n (the maxRetries + 1), GaveUp)
      else (n + k, Waiting))"
  if "\<not> (truthy maxRetries \<and> the maxRetries + 1 < n)"
  using that
proof (induction k arbitrary: n)
  case (Suc k)
  then show ?case using Suc.IH [of "Suc n"] by (auto simp: max_def)
qed auto

text \<open>
  While no confirmation arrives, a positive \<^verbatim>\<open>maxRetries\<close> lets the loop send the transaction
  \<^verbatim>\<open>maxRetries + 1\<close> times and then gives up; with \<^verbatim>\<open>maxRetries\<close> 0, as with none, it sends forever.
\<close>

theorem send_loop_retries:
  "send_loop maxRetries (replicate k None) 0 =
     (if truthy maxRetries \<and> the maxRetries + 2 \<le> k then (the maxRetries + 1, GaveUp) else (k, Waiting)) \<and>
   \<not> truthy (Some 0) \<and> \<not> truthy None"
  using send_loop_timeouts [of maxRetries 0 k] by (auto simp: truthy_def)

section \<open>Witnesses\<close>

definition demo_env :: "nat tx_env" where
  "demo_env =
     \<lparr>te_PublicKey = (\<lambda>_. 44),
      te_transfer = (\<lambda>from to n. \<lparr>ix_data = replicate 12 0,
        ix_keys = [\<lparr>am_isSigner = True, am_isWritable = True, am_pubkey = from\<rparr>,
                   \<lparr>am_isSigner = False, am_isWritable = True, am_pubkey = to\<rparr>], ix_programId = 0\<rparr>),
      te_setComputeUnitPrice = (\<lambda>n. \<lparr>ix_data = replicate 9 0, ix_keys = [], ix_programId = 1\<rparr>),
      te_setComputeUnitLimit = (\<lambda>n. \<lparr>ix_data = replicate 5 0, ix_keys = [], ix_programId = 1\<rparr>)\<rparr>"

definition demo_ix :: "nat \<Rightarrow> nat ix" where
  "demo_ix n = \<lparr>ix_data = replicate n 0,
     ix_keys = [\<lparr>am_isSigner = True, am_isWritable = True, am_pubkey = 100\<rparr>], ix_programId = 7\<rparr>"

definition demo_ix2 :: "nat ix" where
  "demo_ix2 = \<lparr>ix_data = [1],
     ix_keys = [\<lparr>am_isSigner = True, am_isWritable = True, am_pubkey = 100\<rparr>, \<lparr>am_isSigner = False, am_isWritable = True, am_pubkey = 5\<rparr>],
     ix_programId = 7\<rparr>"

definition demo_arg :: "nat \<Rightarrow> (nat, unit) ix_with_signers" where
  "demo_arg n = \<lparr>iws_instruction = demo_ix n, iws_signers = [], iws_computeUnits = None\<rparr>"

definition demo_wire :: "nat wire" where
  "demo_wire = \<lparr>wi_signature = (\<lambda>_. replicate 64 0), wi_key = (\<lambda>_. replicate 32 0), wi_index = (\<lambda>_. 0),
     wi_header = [1, 0, 0], wi_blockhash = replicate 32 0, wi_tableKey = replicate 32 0, wi_writable = (\<lambda>_. True)\<rparr>"

lemmas size_simps = getSizeOfTransaction_def getSizeOfCompressedU16_def instruction_size_def tx_signers_def
  static_accounts_def tx_accounts_def tx_programs_def address_lookups_def PACKET_DATA_SIZE_def Let_def

lemma demo_wire_ok: "wire_ok demo_wire"
  by (simp add: wire_ok_def demo_wire_def)

lemma demo_countable: "countable_tx p [demo_ix 3]"
proof -
  have "card (insert p (tx_accounts [demo_ix 3])) \<le> Suc (card (tx_accounts [demo_ix 3]))"
    by (rule card_insert_le_m1) (simp_all add: tx_accounts_def demo_ix_def)
  also have "\<dots> = 3" by (simp add: tx_accounts_def demo_ix_def)
  finally show ?thesis by (simp add: countable_tx_def demo_ix_def)
qed

lemma demo_sizes:
  "getSizeOfTransaction [demo_ix 501, demo_ix 501, te_setComputeUnitPrice demo_env (Suc 0),
      te_setComputeUnitLimit demo_env (Suc 0)]
     True None = 1232"
  "getSizeOfTransaction [demo_ix 501] True None = 674"
  "getSizeOfTransaction [demo_ix 501, demo_ix 501] True None = 1180"
  "getSizeOfTransaction [demo_ix 501, demo_ix 501, buildJitoTipInstruction demo_env r 100 n] True None = 1261"
  "getSizeOfTransaction [demo_ix 1300] True None = 1473" "getSizeOfTransaction [demo_ix 1300] False None = 1471"
  by (simp_all add: size_simps demo_ix_def demo_env_def buildJitoTipInstruction_def getRandomTipAccount_def
      card_insert_if)

text \<open>
  The room for a Jito tip is left in the wrong transaction: it is left when the number of
  transactions is a multiple of five, that is for the last of a bundle, while the tip goes into the
  first.  Two instructions that fill the first transaction then leave it without its tip.
\<close>

theorem jito_tip_dropped:
  "batchIntoVersionedTransactions demo_env random 100 [(r, demo_arg 501), (r', demo_arg 501)]
     \<lparr>pf_computeUnitPriceMicroLamports = None, pf_tightComputeBudget = None, pf_jitoTipLamports = Some 1000\<rparr> None =
   [([demo_ix 501, demo_ix 501], [])]"
  by (simp add: batchIntoVersionedTransactions_def addInstructions_def addInstruction_def new_builder_def
      new_batch_def extend_batch_def buildVersionedTransactions_def with_compute_budget_def demo_arg_def
      reserved_def JITO_BUNDLE_SIZE_def demo_sizes PACKET_DATA_SIZE_def truthy_def Let_def
      DEFAULT_COMPUTE_BUDGET_UNITS_def)

theorem getSizeOfTransaction_exact_witness:
  "getSizeOfTransaction [demo_ix 3] True (Some [5]) = length (serialize_transaction demo_wire True 100 [demo_ix 3] (Some [5])) + 34 \<and>
   getSizeOfTransaction [demo_ix2] True (Some [5]) = length (serialize_transaction demo_wire True 100 [demo_ix2] (Some [5]))"
proof
  have "\<forall>k \<in> tx_accounts [demo_ix 3]. \<not> looked_up 100 [demo_ix 3] (Some [5]) k"
    by (simp add: tx_accounts_def demo_ix_def looked_up_def)
  then show "getSizeOfTransaction [demo_ix 3] True (Some [5]) = length (serialize_transaction demo_wire True 100 [demo_ix 3] (Some [5])) + 34"
    using getSizeOfTransaction_exact [OF demo_wire_ok _ demo_countable, of 100 True "Some [5]"] by (simp add: tx_signers_def demo_ix_def)
  have "looked_up 100 [demo_ix2] (Some [5]) 5" "5 \<in> tx_accounts [demo_ix2]"
    by (simp_all add: looked_up_def signer_list_def demo_ix2_def tx_programs_def tx_accounts_def)
  moreover have "countable_tx 100 [demo_ix2]" "100 \<in> tx_signers [demo_ix2]"
    by (simp_all add: countable_tx_def demo_ix2_def tx_accounts_def tx_signers_def card_insert_if)
  ultimately show "getSizeOfTransaction [demo_ix2] True (Some [5]) = length (serialize_transaction demo_wire True 100 [demo_ix2] (Some [5]))"
    using getSizeOfTransaction_exact [OF demo_wire_ok, of 100 "[demo_ix2]" True "Some [5]"] by auto
qed

theorem getSizeOfTransaction_payer_missing_witness:
  "length (serialize_transaction demo_wire True 55 [demo_ix 3] None) = getSizeOfTransaction [demo_ix 3] True None + 96"
  by (rule getSizeOfTransaction_payer_missing [OF demo_wire_ok _ demo_countable])
    (simp add: tx_accounts_def demo_ix_def)

theorem batchIntoVersionedTransactions_complete_witness:
  "\<exists>groups. concat groups = [demo_arg 501, demo_arg 501] \<and>
    (\<forall>i < length groups. groups ! i \<noteq> [] \<and>
      (\<exists>n. fst (batchIntoVersionedTransactions demo_env (\<lambda>_. 0) 100 [(0, demo_arg 501), (0, demo_arg 501)]
        DEFAULT_PRIORITY_FEE_CONFIG None ! i) = map iws_instruction (groups ! i) @
          take n (budget_of demo_env 0 100 DEFAULT_PRIORITY_FEE_CONFIG i (groups ! i))))"
proof -
  have "\<forall>x \<in> set [(0, demo_arg 501), (0, demo_arg 501)]. getSizeOfTransaction [iws_instruction (snd x)] True None \<le> PACKET_DATA_SIZE"
    by (simp add: demo_arg_def demo_sizes PACKET_DATA_SIZE_def)
  from batchIntoVersionedTransactions_complete [OF this demo_wire_ok, of demo_env "\<lambda>_. 0" 100 DEFAULT_PRIORITY_FEE_CONFIG]
  obtain groups where "concat groups = [demo_arg 501, demo_arg 501]"
    "\<forall>i < length groups. case batchIntoVersionedTransactions demo_env (\<lambda>_. 0) 100 [(0, demo_arg 501), (0, demo_arg 501)]
        DEFAULT_PRIORITY_FEE_CONFIG None ! i of (ixs, signers) \<Rightarrow> groups ! i \<noteq> [] \<and>
      (\<exists>n. ixs = map iws_instruction (groups ! i) @ take n (budget_of demo_env 0 100 DEFAULT_PRIORITY_FEE_CONFIG i (groups ! i)))"
    by (auto simp: split_beta)
  then show ?thesis by (intro exI [of _ groups]) (auto simp: split_beta)
qed

theorem buildVersionedTransactions_drops_oversize_witness:
  "batchIntoVersionedTransactions demo_env (\<lambda>_. 0) 100 [(0, demo_arg 1300)] DEFAULT_PRIORITY_FEE_CONFIG None = [([], [])]"
  using buildVersionedTransactions_drops_oversize [of "demo_arg 1300" demo_env "\<lambda>_. 0" 100 0 DEFAULT_PRIORITY_FEE_CONFIG]
  by (simp add: demo_arg_def demo_sizes PACKET_DATA_SIZE_def)

end
