(* ===== verification/Solana_Vaa.thy ===== *)
theory Solana_Vaa
  imports Solana_Transaction
begin

text \<open>
  Posting a Wormhole VAA on Solana
  (\<^verbatim>\<open>target_chains/solana/sdk/js/pyth_solana_receiver/src/vaa.ts\<close>, \<^verbatim>\<open>address.ts\<close> and
  \<^verbatim>\<open>compute_budget.ts\<close>): trimming its signatures, and the instructions that create an account for
  it, write it in two parts, verify it and close the account.  An instruction of the Wormhole program
  is the call with its arguments; the generated client that serializes it is not modelled.
\<close>

section \<open>Constants and addresses\<close>

definition VERIFY_ENCODED_VAA_COMPUTE_BUDGET :: nat where "VERIFY_ENCODED_VAA_COMPUTE_BUDGET = 350000"
definition INIT_ENCODED_VAA_COMPUTE_BUDGET :: nat where "INIT_ENCODED_VAA_COMPUTE_BUDGET = 3000"
definition WRITE_ENCODED_VAA_COMPUTE_BUDGET :: nat where "WRITE_ENCODED_VAA_COMPUTE_BUDGET = 3000"
definition CLOSE_ENCODED_VAA_COMPUTE_BUDGET :: nat where "CLOSE_ENCODED_VAA_COMPUTE_BUDGET = 30000"
definition DEFAULT_REDUCED_GUARDIAN_SET_SIZE :: nat where "DEFAULT_REDUCED_GUARDIAN_SET_SIZE = 5"
definition VAA_SIGNATURE_SIZE :: nat where "VAA_SIGNATURE_SIZE = 66"
definition VAA_START :: nat where "VAA_START = 46"
definition VAA_SPLIT_INDEX :: nat where "VAA_SPLIT_INDEX = 721"

text \<open>\<^verbatim>\<open>PublicKey.findProgramAddressSync\<close> is the argument \<open>findAddr\<close>.\<close>

definition getGuardianSetPda :: "(bytes list \<Rightarrow> 'pk \<Rightarrow> 'pk \<times> nat) \<Rightarrow> nat \<Rightarrow> 'pk \<Rightarrow> 'pk" where
  "getGuardianSetPda findAddr guardianSetIndex wormholeProgramId =
     fst (findAddr [ascii_bytes ''GuardianSet'', be_bytes 4 guardianSetIndex] wormholeProgramId)"

definition getTreasuryPda :: "(bytes list \<Rightarrow> 'pk \<Rightarrow> 'pk \<times> nat) \<Rightarrow> nat \<Rightarrow> 'pk \<Rightarrow> 'pk" where
  "getTreasuryPda findAddr treasuryId receiverProgramId =
     fst (findAddr [ascii_bytes ''treasury'', [byte_of_nat treasuryId]] receiverProgramId)"

definition getConfigPda :: "(bytes list \<Rightarrow> 'pk \<Rightarrow> 'pk \<times> nat) \<Rightarrow> 'pk \<Rightarrow> 'pk" where
  "getConfigPda findAddr receiverProgramId = fst (findAddr [ascii_bytes ''config''] receiverProgramId)"

section \<open>The VAA\<close>

definition getGuardianSetIndex :: "bytes \<Rightarrow> nat res" where
  "getGuardianSetIndex vaa = readUInt32BE vaa 1"

definition trimSignatures :: "bytes \<Rightarrow> nat \<Rightarrow> bytes res" where
  "trimSignatures vaa n =
     (case buf_at vaa 5 of
        None \<Rightarrow> Inl (Error ''vaa[5] is undefined'')
      | Some b \<Rightarrow>
          let currentNumSignatures = unat b in
          if currentNumSignatures < n
            then Inl (Error (''Resulting VAA can'' @ [CHR 0x27] @ ''t have more signatures than the original VAA''))
            else Inr ((buf_subarray vaa 0 (6 + n * VAA_SIGNATURE_SIZE) @
                       drop (6 + currentNumSignatures * VAA_SIGNATURE_SIZE) vaa)[5 := byte_of_nat n]))"

section \<open>Instructions\<close>

datatype 'pk wormhole_call =
    CreateEncodedVaa 'pk nat
  | InitEncodedVaa 'pk
  | WriteEncodedVaa 'pk nat bytes
  | VerifyEncodedVaaV1 'pk 'pk
  | CloseEncodedVaa 'pk

record 'pk vaa_instruction =
  vi_call :: "'pk wormhole_call"
  vi_signers :: "'pk list"
  vi_computeUnits :: "nat option"

definition buildCloseEncodedVaaInstruction :: "'pk \<Rightarrow> 'pk vaa_instruction" where
  "buildCloseEncodedVaaInstruction encodedVaa =
     \<lparr>vi_call = CloseEncodedVaa encodedVaa, vi_signers = [],
      vi_computeUnits = Some CLOSE_ENCODED_VAA_COMPUTE_BUDGET\<rparr>"

definition buildEncodedVaaCreateInstruction :: "bytes \<Rightarrow> 'pk \<Rightarrow> 'pk vaa_instruction" where
  "buildEncodedVaaCreateInstruction vaa encodedVaaKeypair =
     \<lparr>vi_call = CreateEncodedVaa encodedVaaKeypair (length vaa + VAA_START),
      vi_signers = [encodedVaaKeypair], vi_computeUnits = None\<rparr>"

record 'pk vaa_instruction_groups =
  vg_initInstructions :: "'pk vaa_instruction list"
  vg_writeFirstPartInstructions :: "'pk vaa_instruction list"
  vg_writeSecondPartAndVerifyInstructions :: "'pk vaa_instruction list"
  vg_closeInstructions :: "'pk vaa_instruction list"
  vg_encodedVaaAddress :: 'pk

text \<open>\<open>keypair\<close> is the fresh key of \<^verbatim>\<open>new Keypair()\<close>.\<close>

definition generateVaaInstructionGroups ::
  "(bytes list \<Rightarrow> 'pk \<Rightarrow> 'pk \<times> nat) \<Rightarrow> 'pk \<Rightarrow> 'pk \<Rightarrow> bytes \<Rightarrow> 'pk vaa_instruction_groups res" where
  "generateVaaInstructionGroups findAddr programId keypair vaa =
     res_bind (getGuardianSetIndex vaa) (\<lambda>guardianSetIndex. Inr
       \<lparr>vg_initInstructions =
          [buildEncodedVaaCreateInstruction vaa keypair,
           \<lparr>vi_call = InitEncodedVaa keypair, vi_signers = [],
            vi_computeUnits = Some INIT_ENCODED_VAA_COMPUTE_BUDGET\<rparr>],
        vg_writeFirstPartInstructions =
          [\<lparr>vi_call = WriteEncodedVaa keypair 0 (buf_subarray vaa 0 VAA_SPLIT_INDEX), vi_signers = [],
            vi_computeUnits = Some WRITE_ENCODED_VAA_COMPUTE_BUDGET\<rparr>],
        vg_writeSecondPartAndVerifyInstructions =
          (if VAA_SPLIT_INDEX < length vaa
             then [\<lparr>vi_call = WriteEncodedVaa keypair VAA_SPLIT_INDEX (drop VAA_SPLIT_INDEX vaa), vi_signers = [],
                    vi_computeUnits = Some WRITE_ENCODED_VAA_COMPUTE_BUDGET\<rparr>]
             else []) @
          [\<lparr>vi_call = VerifyEncodedVaaV1 (getGuardianSetPda findAddr guardianSetIndex programId) keypair,
            vi_signers = [], vi_computeUnits = Some VERIFY_ENCODED_VAA_COMPUTE_BUDGET\<rparr>],
        vg_closeInstructions =
          [\<lparr>vi_call = CloseEncodedVaa keypair, vi_signers = [],
            vi_computeUnits = Some CLOSE_ENCODED_VAA_COMPUTE_BUDGET\<rparr>],
        vg_encodedVaaAddress = keypair\<rparr>)"

record 'pk post_vaa =
  pv_encodedVaaAddress :: 'pk
  pv_postInstructions :: "'pk vaa_instruction list"
  pv_closeInstructions :: "'pk vaa_instruction list"

definition buildPostEncodedVaaInstructions ::
  "(bytes list \<Rightarrow> 'pk \<Rightarrow> 'pk \<times> nat) \<Rightarrow> 'pk \<Rightarrow> 'pk \<Rightarrow> bytes \<Rightarrow> 'pk post_vaa res" where
  "buildPostEncodedVaaInstructions findAddr programId keypair vaa =
     res_bind (generateVaaInstructionGroups findAddr programId keypair vaa) (\<lambda>groups. Inr
       \<lparr>pv_encodedVaaAddress = vg_encodedVaaAddress groups,
        pv_postInstructions = vg_initInstructions groups @ vg_writeFirstPartInstructions groups @
          vg_writeSecondPartAndVerifyInstructions groups,
        pv_closeInstructions = vg_closeInstructions groups\<rparr>)"

section \<open>Trimming\<close>

text \<open>A VAA: version, guardian set, the signatures of 66 bytes each, and the body.\<close>

definition vaa_bytes :: "byte \<Rightarrow> nat \<Rightarrow> bytes list \<Rightarrow> bytes \<Rightarrow> bytes" where
  "vaa_bytes version guardianSet sigs body =
     [version] @ be_bytes 4 guardianSet @ [byte_of_nat (length sigs)] @ concat sigs @ body"

lemma length_concat_sigs: "list_all (\<lambda>s. length s = k) ss \<Longrightarrow> length (concat ss) = k * length ss"
  by (induction ss) auto

lemma take_concat_sigs:
  "list_all (\<lambda>s. length s = k) ss \<Longrightarrow> n \<le> length ss \<Longrightarrow> take (k * n) (concat ss) = concat (take n ss)"
proof (induction ss arbitrary: n)
  case (Cons s ss)
  then show ?case by (cases n) auto
qed simp

text \<open>
  C40. Trimming a VAA with fewer than 256 signatures of 66 bytes each to \<open>n\<close> of them gives the VAA with the same version,
  guardian set and body whose signatures are the first \<open>n\<close>, with their number corrected; asking for more
  signatures than it has is an error.
\<close>

theorem trimSignatures_vaa:
  assumes "list_all (\<lambda>s. length s = VAA_SIGNATURE_SIZE) sigs" and "length sigs < 256"
  shows "(n \<le> length sigs \<longrightarrow> trimSignatures (vaa_bytes v g sigs body) n = Inr (vaa_bytes v g (take n sigs) body)) \<and>
    (length sigs < n \<longrightarrow> trimSignatures (vaa_bytes v g sigs body) n =
      Inl (Error (''Resulting VAA can'' @ [CHR 0x27] @ ''t have more signatures than the original VAA'')))"
proof -
  let ?vaa = "vaa_bytes v g sigs body"
  define h where "h = v # be_bytes 4 g"
  have h: "length h = 5" and vaa: "?vaa = (h @ [byte_of_nat (length sigs)]) @ concat sigs @ body"
    by (simp_all add: h_def vaa_bytes_def)
  have at: "buf_at ?vaa 5 = Some (byte_of_nat (length sigs))"
    using h by (simp add: buf_at_def vaa nth_append)
  have num: "unat (byte_of_nat (length sigs)) = length sigs" using assms(2) by simp
  have len: "length (concat sigs) = 66 * length sigs"
    using assms(1) by (simp add: length_concat_sigs VAA_SIGNATURE_SIZE_def)
  have "trimSignatures ?vaa n = Inr (vaa_bytes v g (take n sigs) body)" if n: "n \<le> length sigs"
  proof -
    have "buf_subarray ?vaa 0 (6 + n * VAA_SIGNATURE_SIZE) = (h @ [byte_of_nat (length sigs)]) @ concat (take n sigs)"
      using h len n take_concat_sigs [OF assms(1) n]
      by (simp add: buf_subarray_def vaa VAA_SIGNATURE_SIZE_def mult.commute)
    moreover have "drop (6 + length sigs * VAA_SIGNATURE_SIZE) ?vaa = body"
      using h len by (simp add: vaa VAA_SIGNATURE_SIZE_def mult.commute)
    moreover have "((h @ [byte_of_nat (length sigs)]) @ concat (take n sigs) @ body)[5 := byte_of_nat n] =
        h @ [byte_of_nat n] @ concat (take n sigs) @ body"
      using h by (simp add: list_update_append)
    ultimately show ?thesis
      using at num n by (simp add: trimSignatures_def Let_def vaa_bytes_def h_def min_absorb2)
  qed
  moreover have "trimSignatures ?vaa n =
      Inl (Error (''Resulting VAA can'' @ [CHR 0x27] @ ''t have more signatures than the original VAA''))" if "length sigs < n"
    using at num that by (simp add: trimSignatures_def Let_def)
  ultimately show ?thesis by blast
qed

section \<open>Posting\<close>

text \<open>
  The Wormhole program is not part of the repository: it is the argument \<open>exec\<close>, one instruction on
  the accounts of the chain, with \<open>None\<close> for a rejected one.  An account of the program has the
  status of its interface description (\<^verbatim>\<open>idl/wormhole_core_bridge_solana.ts\<close>): \<open>Unset\<close> with the
  size it was created with, \<open>Writing\<close> with the VAA buffer, or \<open>Verified\<close> with the buffer and the
  guardian set it was verified against.
\<close>

datatype 'pk encoded_vaa = Unset nat | Writing bytes | Verified bytes 'pk

type_synonym 'pk vaa_accounts = "'pk \<Rightarrow> 'pk encoded_vaa option"

text \<open>
  What is relied on: a fresh account can be created; a created account can be initialised, which
  leaves a buffer of zeros behind the header; a buffer being written takes bytes inside its bounds; it
  is verified exactly when the guardian set attests its bytes (\<open>attested\<close>); an initialised account can
  be closed.  Each of these changes the named account only.  Nothing is said of any other call, so a
  missing initialisation, a write to another account or a write out of bounds has no known outcome.
\<close>

definition bridge_ok ::
  "('pk wormhole_call \<Rightarrow> 'pk vaa_accounts \<Rightarrow> 'pk vaa_accounts option) \<Rightarrow> ('pk \<Rightarrow> bytes \<Rightarrow> bool) \<Rightarrow> bool" where
  "bridge_ok exec attested \<longleftrightarrow>
     (\<forall>s k n. s k = None \<longrightarrow> exec (CreateEncodedVaa k n) s = Some (s(k \<mapsto> Unset n))) \<and>
     (\<forall>s k n. s k = Some (Unset n) \<longrightarrow> VAA_START \<le> n \<longrightarrow>
        exec (InitEncodedVaa k) s = Some (s(k \<mapsto> Writing (replicate (n - VAA_START) 0)))) \<and>
     (\<forall>s k b i d. s k = Some (Writing b) \<longrightarrow> i + length d \<le> length b \<longrightarrow>
        exec (WriteEncodedVaa k i d) s = Some (s(k \<mapsto> Writing (buf_set b i d)))) \<and>
     (\<forall>s k b g. s k = Some (Writing b) \<longrightarrow>
        exec (VerifyEncodedVaaV1 g k) s = (if attested g b then Some (s(k \<mapsto> Verified b g)) else None)) \<and>
     (\<forall>s k b g. s k = Some (Verified b g) \<longrightarrow> exec (CloseEncodedVaa k) s = Some (s(k := None)))"

fun run_calls ::
  "('pk wormhole_call \<Rightarrow> 'pk vaa_accounts \<Rightarrow> 'pk vaa_accounts option) \<Rightarrow> 'pk vaa_instruction list \<Rightarrow>
   'pk vaa_accounts \<Rightarrow> 'pk vaa_accounts option" where
  "run_calls exec [] s = Some s"
| "run_calls exec (ix # ixs) s = Option.bind (exec (vi_call ix) s) (run_calls exec ixs)"

lemma bridge_okD:
  assumes "bridge_ok exec attested"
  shows "s k = None \<Longrightarrow> exec (CreateEncodedVaa k n) s = Some (s(k \<mapsto> Unset n))"
    and "s k = Some (Unset n) \<Longrightarrow> VAA_START \<le> n \<Longrightarrow>
      exec (InitEncodedVaa k) s = Some (s(k \<mapsto> Writing (replicate (n - VAA_START) 0)))"
    and "s k = Some (Writing b) \<Longrightarrow> i + length d \<le> length b \<Longrightarrow>
      exec (WriteEncodedVaa k i d) s = Some (s(k \<mapsto> Writing (buf_set b i d)))"
    and "s k = Some (Writing b) \<Longrightarrow>
      exec (VerifyEncodedVaaV1 g k) s = (if attested g b then Some (s(k \<mapsto> Verified b g)) else None)"
    and "s k = Some (Verified b g) \<Longrightarrow> exec (CloseEncodedVaa k) s = Some (s(k := None))"
  using assms by (simp_all add: bridge_ok_def)

lemma getGuardianSetIndex_vaa:
  "5 \<le> length vaa \<Longrightarrow> getGuardianSetIndex vaa = Inr (be_nat (take 4 (drop 1 vaa)))"
  by (simp add: getGuardianSetIndex_def read_be_def buf_subarray_def)

lemma vaa_written:
  "721 < length vaa \<Longrightarrow>
     buf_set (buf_set (replicate (length vaa) 0) 0 (take 721 vaa)) 721 (drop 721 vaa) = vaa"
  "\<not> 721 < length vaa \<Longrightarrow> buf_set (replicate (length vaa) 0) 0 (take 721 vaa) = vaa"
  using buf_set_append [of 0 "take 721 vaa" "drop 721 vaa" "replicate (length vaa) 0"]
  by (simp_all add: buf_set_def min_def)

text \<open>
  C37. For a VAA of at least five bytes the instructions are built, only the creation needs the
  signature of the new account's key, and no other instruction an extra one.  Run in order against
  any program that behaves as its interface description says (\<open>bridge_ok\<close>), on a chain where the new
  account does not exist, they go through exactly when the guardian set the VAA names attests it;
  then the new account holds exactly the VAA, verified against that guardian set, and no other account
  has changed.  The closing instructions then remove that account and nothing else.
\<close>

theorem buildPostEncodedVaaInstructions_writes:
  assumes "5 \<le> length vaa" and "bridge_ok exec attested" and "chain keypair = None"
  shows "\<exists>post guardians. buildPostEncodedVaaInstructions findAddr programId keypair vaa = Inr post \<and>
    guardians = fst (findAddr [ascii_bytes ''GuardianSet'', take 4 (drop 1 vaa)] programId) \<and>
    pv_encodedVaaAddress post = keypair \<and>
    vi_signers (hd (pv_postInstructions post)) = [keypair] \<and>
    list_all (\<lambda>ix. vi_signers ix = []) (tl (pv_postInstructions post)) \<and>
    run_calls exec (pv_postInstructions post) chain =
      (if attested guardians vaa then Some (chain(keypair \<mapsto> Verified vaa guardians)) else None) \<and>
    run_calls exec (pv_closeInstructions post) (chain(keypair \<mapsto> Verified vaa guardians)) = Some chain"
proof -
  note exec = bridge_okD [OF assms(2)]
  have set: "be_bytes 4 (be_nat (take 4 (drop 1 vaa))) = take 4 (drop 1 vaa)"
    using assms(1) be_bytes_be_nat [of "take 4 (drop 1 vaa)"] by (simp add: min_absorb2)
  have gone: "chain(keypair := None) = chain" using assms(3) by (simp add: fun_upd_idem)
  show ?thesis
    using getGuardianSetIndex_vaa [OF assms(1)] vaa_written [of vaa] assms(3)
    by (simp add: buildPostEncodedVaaInstructions_def generateVaaInstructionGroups_def
        buildEncodedVaaCreateInstruction_def getGuardianSetPda_def VAA_SPLIT_INDEX_def buf_subarray_def
        exec set [simplified] gone VAA_START_def)
qed

theorem trimSignatures_vaa_witness:
  "trimSignatures (vaa_bytes 1 4 [replicate 66 7, replicate 66 8] [9]) 1 = Inr (vaa_bytes 1 4 [replicate 66 7] [9])"
  using trimSignatures_vaa [of "[replicate 66 7, replicate 66 8]" 1 1 4 "[9]"]
  by (simp add: VAA_SIGNATURE_SIZE_def)

text \<open>A program that satisfies the laws: it rejects every call they do not speak of.\<close>

fun sample_bridge :: "('pk \<Rightarrow> bytes \<Rightarrow> bool) \<Rightarrow> 'pk wormhole_call \<Rightarrow> 'pk vaa_accounts \<Rightarrow> 'pk vaa_accounts option" where
  "sample_bridge attested (CreateEncodedVaa k n) s =
     (case s k of None \<Rightarrow> Some (s(k \<mapsto> Unset n)) | Some _ \<Rightarrow> None)"
| "sample_bridge attested (InitEncodedVaa k) s =
     (case s k of
        Some (Unset n) \<Rightarrow>
          if VAA_START \<le> n then Some (s(k \<mapsto> Writing (replicate (n - VAA_START) 0))) else None
      | _ \<Rightarrow> None)"
| "sample_bridge attested (WriteEncodedVaa k i d) s =
     (case s k of
        Some (Writing b) \<Rightarrow>
          if i + length d \<le> length b then Some (s(k \<mapsto> Writing (buf_set b i d))) else None
      | _ \<Rightarrow> None)"
| "sample_bridge attested (VerifyEncodedVaaV1 g k) s =
     (case s k of
        Some (Writing b) \<Rightarrow> if attested g b then Some (s(k \<mapsto> Verified b g)) else None
      | _ \<Rightarrow> None)"
| "sample_bridge attested (CloseEncodedVaa k) s =
     (case s k of Some (Verified _ _) \<Rightarrow> Some (s(k := None)) | _ \<Rightarrow> None)"

lemma sample_bridge_ok: "bridge_ok (sample_bridge attested) attested"
  by (simp add: bridge_ok_def)

theorem buildPostEncodedVaaInstructions_writes_witness:
  "\<exists>post. buildPostEncodedVaaInstructions (\<lambda>seeds p. (p + length seeds, 255)) (3 :: nat) 8 (replicate 900 6) = Inr post \<and>
    run_calls (sample_bridge (\<lambda>g b. g = 5 \<and> 6 \<in> set b)) (pv_postInstructions post) (Map.empty(2 \<mapsto> Unset 90)) =
      Some (Map.empty(2 \<mapsto> Unset 90, 8 \<mapsto> Verified (replicate 900 6) 5))"
  using buildPostEncodedVaaInstructions_writes [of "replicate 900 6" "sample_bridge (\<lambda>g b. g = 5 \<and> 6 \<in> set b)"
      "\<lambda>g b. g = 5 \<and> 6 \<in> set b" "Map.empty(2 \<mapsto> Unset 90)" "8 :: nat" "\<lambda>seeds p. (p + length seeds, 255)" 3]
  by (auto simp: sample_bridge_ok)

end
