(* ===== verification/Staking.thy ===== *)
theory Staking
  imports Js_Number "HOL-Library.Signed_Division" "HOL-Library.Multiset"
begin

text \<open>
  The computations of the staking SDK (\<^verbatim>\<open>governance/pyth_staking_sdk/src/utils\<close>): the state of a
  position and the sums over positions (\<^verbatim>\<open>position.ts\<close>), the vesting schedule (\<^verbatim>\<open>vesting.ts\<close>), epochs
  (\<^verbatim>\<open>clock.ts\<close>), yields (\<^verbatim>\<open>apy.ts\<close>) and the publisher table (\<^verbatim>\<open>pool.ts\<close>).  A \<^verbatim>\<open>bigint\<close> is an \<open>int\<close>, its
  division truncates towards zero (\<open>sdiv\<close>); a \<^verbatim>\<open>number\<close> is a double of \<open>Js_Number\<close>.
\<close>

definition EPOCH_DURATION :: int where "EPOCH_DURATION = 7 * (24 * (60 * 60))"
definition FRACTION_PRECISION :: jsnum where "FRACTION_PRECISION = Fin 1000000"
definition FRACTION_PRECISION_N :: int where "FRACTION_PRECISION_N = 1000000"
definition POSITION_BUFFER_SIZE :: nat where "POSITION_BUFFER_SIZE = 200"

text \<open>\<^verbatim>\<open>DISCRIMINATOR_SIZE\<close> of the Anchor package is 8.\<close>

definition POSITIONS_ACCOUNT_HEADER_SIZE :: nat where "POSITIONS_ACCOUNT_HEADER_SIZE = 8 + 32"

section \<open>Optional big integers\<close>

definition bigintMax :: "int option \<Rightarrow> int option \<Rightarrow> int option" where
  "bigintMax a b = (case a of None \<Rightarrow> b | Some x \<Rightarrow> (case b of None \<Rightarrow> a | Some y \<Rightarrow> if x > y then a else b))"

definition bigintMin :: "int option \<Rightarrow> int option \<Rightarrow> int option" where
  "bigintMin a b = (case a of None \<Rightarrow> b | Some x \<Rightarrow> (case b of None \<Rightarrow> a | Some y \<Rightarrow> if x < y then a else b))"

section \<open>Positions\<close>

datatype position_state = UNLOCKED | LOCKING | LOCKED | PREUNLOCKING | UNLOCKING

datatype 'pk target = Voting | IntegrityPool 'pk

record 'pk position =
  pos_amount :: int
  pos_activationEpoch :: int
  pos_unlockingStart :: "int option"
  pos_target :: "'pk target"

text \<open>\<^verbatim>\<open>!position.unlockingStart\<close> holds of \<^verbatim>\<open>null\<close> and of \<^verbatim>\<open>0n\<close>.\<close>

definition getPositionState :: "'pk position \<Rightarrow> int \<Rightarrow> position_state" where
  "getPositionState position currentEpoch =
     (if currentEpoch < pos_activationEpoch position then LOCKING
      else case pos_unlockingStart position of
        None \<Rightarrow> LOCKED
      | Some unlockingStart \<Rightarrow>
          if unlockingStart = 0 then LOCKED
          else
            let hasActivated = pos_activationEpoch position \<le> currentEpoch;
                unlockStarted = unlockingStart \<le> currentEpoch;
                unlockEnded = unlockingStart + 1 \<le> currentEpoch in
            if hasActivated \<and> \<not> unlockStarted then PREUNLOCKING
            else if unlockStarted \<and> \<not> unlockEnded then UNLOCKING
            else UNLOCKED)"

definition same_target :: "'pk target \<Rightarrow> 'pk target \<Rightarrow> bool" where
  "same_target wanted t =
     (case wanted of
        Voting \<Rightarrow> t = Voting
      | IntegrityPool publisher \<Rightarrow> (case t of Voting \<Rightarrow> False | IntegrityPool p \<Rightarrow> publisher = p))"

definition getAmountByTargetAndState ::
  "'pk position list \<Rightarrow> 'pk target \<Rightarrow> position_state \<Rightarrow> int \<Rightarrow> int" where
  "getAmountByTargetAndState positions targetWithParameters positionState epoch =
     foldl (\<lambda>sum amount. sum + amount) 0
       (map pos_amount
         (filter (\<lambda>p. same_target targetWithParameters (pos_target p))
           (filter (\<lambda>p. getPositionState p epoch = positionState) positions)))"

definition getVotingTokenAmount :: "'pk position list \<Rightarrow> int \<Rightarrow> int" where
  "getVotingTokenAmount positions epoch =
     foldl (\<lambda>sum p. sum + pos_amount p) 0
       (filter (\<lambda>p. getPositionState p epoch \<in> {LOCKED, PREUNLOCKING})
         (filter (\<lambda>p. pos_target p = Voting) positions))"

text \<open>The summary: an amount for each category (\<open>True\<close> is \<^verbatim>\<open>voting\<close>) and state.\<close>

type_synonym summary = "bool \<Rightarrow> position_state \<Rightarrow> int"

definition summarizeAccountPositions :: "'pk position list \<Rightarrow> int \<Rightarrow> summary" where
  "summarizeAccountPositions positions epoch =
     foldl (\<lambda>summary position.
       let category = (pos_target position = Voting); state = getPositionState position epoch in
       summary(category := (summary category)(state := summary category state + pos_amount position)))
       (\<lambda>_ _. 0) positions"

text \<open>
  The loop over the slots of an account from the byte offset \<open>i\<close>; \<open>decode\<close> is the decoder of the
  Anchor coder, which may throw.
\<close>

fun decode_slots :: "(bytes \<Rightarrow> 'p res) \<Rightarrow> bytes \<Rightarrow> nat \<Rightarrow> nat \<Rightarrow> 'p list res" where
  "decode_slots decode d i 0 = Inr []"
| "decode_slots decode d i (Suc n) =
     res_bind (if buf_at d i = Some 1 then map_sum id (\<lambda>p. [p]) (decode (drop (i + 1) d)) else Inr []) (\<lambda>ps.
     res_bind (decode_slots decode d (i + POSITION_BUFFER_SIZE) n) (\<lambda>r. Inr (ps @ r)))"

definition deserializeStakeAccountPositions ::
  "(bytes \<Rightarrow> 'pk) \<Rightarrow> (bytes \<Rightarrow> 'p res) \<Rightarrow> ('p \<Rightarrow> 'q) \<Rightarrow> bytes \<Rightarrow> ('pk \<times> 'q list) res" where
  "deserializeStakeAccountPositions newPublicKey decode convert d =
     (let owner = newPublicKey (buf_subarray d 8 40);
          numberOfPositions = (length d - POSITIONS_ACCOUNT_HEADER_SIZE) div POSITION_BUFFER_SIZE in
      res_bind (decode_slots decode d 40 numberOfPositions) (\<lambda>ps. Inr (owner, map convert ps)))"

section \<open>Epochs\<close>

text \<open>\<open>getBlockTime\<close> may have no answer.\<close>

definition getCurrentSolanaTimestamp :: "int option \<Rightarrow> int res" where
  "getCurrentSolanaTimestamp blockTime =
     (case blockTime of None \<Rightarrow> Inl (Error ''Block time is not available'') | Some t \<Rightarrow> Inr t)"

definition getCurrentEpoch :: "int option \<Rightarrow> int res" where
  "getCurrentEpoch blockTime =
     res_bind (getCurrentSolanaTimestamp blockTime) (\<lambda>timestamp. Inr (timestamp sdiv EPOCH_DURATION))"

text \<open>A \<^verbatim>\<open>Date\<close> is its time value in milliseconds.\<close>

definition epochToDate :: "int \<Rightarrow> jsnum" where
  "epochToDate epoch = of_integer (epoch * EPOCH_DURATION * 1000)"

section \<open>Vesting\<close>

record unlock =
  un_date :: jsnum
  un_amount :: int

definition unlock_amount :: "int \<Rightarrow> int \<Rightarrow> int \<Rightarrow> int" where
  "unlock_amount balance numPeriods i =
     ((numPeriods - i) * balance) sdiv numPeriods - ((numPeriods - (i + 1)) * balance) sdiv numPeriods"

definition unlock_timestamp :: "int \<Rightarrow> int \<Rightarrow> int \<Rightarrow> jsnum" where
  "unlock_timestamp startDate periodDuration i =
     js_add (of_integer startDate) (js_mul (of_integer periodDuration) (of_integer (i + 1)))"

text \<open>\<open>now\<close> is \<^verbatim>\<open>Date.now()\<close>; the loop counter runs over \<open>0, ..., numPeriods - 1\<close>.\<close>

definition getPeriodicUnlockSchedule ::
  "jsnum \<Rightarrow> int \<Rightarrow> int \<Rightarrow> int \<Rightarrow> int \<Rightarrow> bool \<Rightarrow> unlock list" where
  "getPeriodicUnlockSchedule now balance startDate periodDuration numPeriods includePastPeriods =
     (let currentTimeStamp = js_div now (Fin 1000) in
      concat (map (\<lambda>k. let i = int k; unlockTimeStamp = unlock_timestamp startDate periodDuration i in
        if js_lt currentTimeStamp unlockTimeStamp \<or> includePastPeriods
          then [\<lparr>un_date = js_mul unlockTimeStamp (Fin 1000), un_amount = unlock_amount balance numPeriods i\<rparr>]
          else []) [0..<nat numPeriods]))"

datatype vesting_schedule =
    FullyVested
  | PeriodicVestingAfterListing int int int
  | PeriodicVesting int int int int

datatype unlock_type = fullyUnlocked | periodicUnlockingAfterListing | periodicUnlocking

text \<open>The arguments of the periodic schedules are initial balance, periods, duration (and start date).\<close>

definition getUnlockSchedule :: "jsnum \<Rightarrow> int \<Rightarrow> vesting_schedule \<Rightarrow> bool \<Rightarrow> unlock_type \<times> unlock list" where
  "getUnlockSchedule now pythTokenListTime vestingSchedule includePastPeriods =
     (case vestingSchedule of
        FullyVested \<Rightarrow> (fullyUnlocked, [])
      | PeriodicVestingAfterListing balance numPeriods periodDuration \<Rightarrow>
          (periodicUnlockingAfterListing,
           getPeriodicUnlockSchedule now balance pythTokenListTime periodDuration numPeriods includePastPeriods)
      | PeriodicVesting balance numPeriods periodDuration startDate \<Rightarrow>
          (periodicUnlocking,
           getPeriodicUnlockSchedule now balance startDate periodDuration numPeriods includePastPeriods))"

section \<open>Yields\<close>

definition convertEpochYieldToApy :: "int \<Rightarrow> jsnum" where
  "convertEpochYieldToApy epochYield =
     js_div (js_mul (js_mul (of_integer epochYield) (Fin 52)) (Fin 100)) FRACTION_PRECISION"

definition computeDelegatorRewardPercentage :: "int \<Rightarrow> jsnum" where
  "computeDelegatorRewardPercentage delegationFee =
     js_sub (Fin 1) (js_div (of_integer delegationFee) FRACTION_PRECISION)"

text \<open>\<open>None\<close> for \<^verbatim>\<open>isSelf\<close>, else the pool utilization.\<close>

definition calculateApy :: "int \<Rightarrow> int \<Rightarrow> int \<Rightarrow> int \<Rightarrow> int option \<Rightarrow> jsnum" where
  "calculateApy selfStake poolCapacity yieldRate delegationFee utilization =
     (let eligibleSelfStake = (if selfStake > poolCapacity then poolCapacity else selfStake) in
      if poolCapacity = 0 then Fin 0
      else let apyPercentage = convertEpochYieldToApy yieldRate in
        case utilization of
          None \<Rightarrow>
            if selfStake = 0 then apyPercentage
            else js_div (js_mul apyPercentage (of_integer eligibleSelfStake)) (of_integer selfStake)
        | Some poolUtilization \<Rightarrow>
            let delegatorPercentage = computeDelegatorRewardPercentage delegationFee;
                delegatorPoolUtilization = poolUtilization - selfStake;
                delegatorPoolCapacity = poolCapacity - eligibleSelfStake;
                eligibleStake = (if delegatorPoolUtilization > delegatorPoolCapacity
                  then delegatorPoolCapacity else delegatorPoolUtilization) in
            if poolUtilization = selfStake
              then js_mul (if selfStake \<ge> poolCapacity then Fin 0 else apyPercentage) delegatorPercentage
              else js_div (js_mul (js_mul apyPercentage delegatorPercentage) (of_integer eligibleStake))
                     (of_integer delegatorPoolUtilization))"

section \<open>The publisher table\<close>

record delegation_state =
  dl_totalDelegation :: int
  dl_deltaDelegation :: int

record event_ratios =
  er_otherRewardRatio :: int
  er_selfRewardRatio :: int

record pool_event =
  ev_epoch :: int
  ev_y :: int
  ev_eventData :: "event_ratios list"

record 'pk pool_data =
  pd_publishers :: "'pk list"
  pd_publisherStakeAccounts :: "'pk list"
  pd_delState :: "delegation_state list"
  pd_selfDelState :: "delegation_state list"
  pd_delegationFees :: "int list"
  pd_events :: "pool_event list"

record apy_entry =
  ae_epoch :: int
  ae_apy :: jsnum
  ae_selfApy :: jsnum

record 'pk publisher_row =
  pr_pubkey :: 'pk
  pr_stakeAccount :: "'pk option"
  pr_totalDelegation :: int
  pr_totalDelegationDelta :: int
  pr_selfDelegation :: int
  pr_selfDelegationDelta :: int
  pr_delegationFee :: int
  pr_apyHistory :: "apy_entry list"

text \<open>\<^verbatim>\<open>xs[i]?.field ?? 0n\<close>.\<close>

definition field_at :: "('a \<Rightarrow> int) \<Rightarrow> 'a list \<Rightarrow> nat \<Rightarrow> int" where
  "field_at f xs i = (case buf_at xs i of None \<Rightarrow> 0 | Some x \<Rightarrow> f x)"

text \<open>The stable sort of \<^verbatim>\<open>Array.prototype.sort\<close> for a comparator that returns a difference.\<close>

fun js_insert_by :: "('a \<Rightarrow> 'a \<Rightarrow> jsnum) \<Rightarrow> 'a \<Rightarrow> 'a list \<Rightarrow> 'a list" where
  "js_insert_by cmp x [] = [x]"
| "js_insert_by cmp x (y # ys) =
     (if js_gt (cmp x y) (Fin 0) then y # js_insert_by cmp x ys else x # y # ys)"

definition js_sort_by :: "('a \<Rightarrow> 'a \<Rightarrow> jsnum) \<Rightarrow> 'a list \<Rightarrow> 'a list" where
  "js_sort_by cmp xs = foldr (js_insert_by cmp) xs []"

definition apy_history :: "'pk pool_data \<Rightarrow> nat \<Rightarrow> apy_entry list" where
  "apy_history pd index =
     js_sort_by (\<lambda>a b. js_sub (of_integer (ae_epoch a)) (of_integer (ae_epoch b)))
       (map (\<lambda>event.
          \<lparr>ae_epoch = ev_epoch event,
           ae_apy = js_mul
             (convertEpochYieldToApy
               ((ev_y event * field_at er_otherRewardRatio (ev_eventData event) index) sdiv FRACTION_PRECISION_N))
             (computeDelegatorRewardPercentage (field_at (\<lambda>x. x) (pd_delegationFees pd) index)),
           ae_selfApy = convertEpochYieldToApy
             ((ev_y event * field_at er_selfRewardRatio (ev_eventData event) index) sdiv FRACTION_PRECISION_N)\<rparr>)
         (filter (\<lambda>event. 0 < ev_epoch event) (pd_events pd)))"

definition publisher_entry :: "'pk \<Rightarrow> 'pk pool_data \<Rightarrow> nat \<Rightarrow> 'pk \<Rightarrow> 'pk publisher_row" where
  "publisher_entry default_key pd index publisher =
     \<lparr>pr_pubkey = publisher,
      pr_stakeAccount = (case buf_at (pd_publisherStakeAccounts pd) index of
        None \<Rightarrow> None | Some k \<Rightarrow> if k = default_key then None else Some k),
      pr_totalDelegation = field_at dl_totalDelegation (pd_delState pd) index +
        field_at dl_totalDelegation (pd_selfDelState pd) index,
      pr_totalDelegationDelta = field_at dl_deltaDelegation (pd_delState pd) index +
        field_at dl_deltaDelegation (pd_selfDelState pd) index,
      pr_selfDelegation = field_at dl_totalDelegation (pd_selfDelState pd) index,
      pr_selfDelegationDelta = field_at dl_deltaDelegation (pd_selfDelState pd) index,
      pr_delegationFee = field_at (\<lambda>x. x) (pd_delegationFees pd) index,
      pr_apyHistory = apy_history pd index\<rparr>"

text \<open>\<open>default_key\<close> is \<^verbatim>\<open>PublicKey.default\<close>.\<close>

definition extractPublisherData :: "'pk \<Rightarrow> 'pk pool_data \<Rightarrow> 'pk publisher_row list" where
  "extractPublisherData default_key pd =
     map (\<lambda>(index, publisher). publisher_entry default_key pd index publisher)
       (List.enumerate 0 (filter (\<lambda>publisher. publisher \<noteq> default_key) (pd_publishers pd)))"

section \<open>Properties of positions\<close>

text \<open>
  The life of a position: locking until its activation epoch; then locked for as long as no
  unlocking is scheduled; else waiting, unlocking for the one epoch \<open>u\<close>, and unlocked.
\<close>

lemma getPositionState_life:
  assumes "pos_unlockingStart p = Some u" and "u \<noteq> 0" and "pos_activationEpoch p \<le> u"
  shows "getPositionState p e =
    (if e < pos_activationEpoch p then LOCKING else if e < u then PREUNLOCKING
     else if e = u then UNLOCKING else UNLOCKED)"
  using assms by (auto simp: getPositionState_def Let_def)

lemma foldl_add: "foldl (\<lambda>s a. s + f a) (n :: int) xs = n + sum_list (map f xs)"
  by (induction xs arbitrary: n) auto

lemma getAmountByTargetAndState_sum:
  "getAmountByTargetAndState ps t s e =
     sum_list (map pos_amount (filter (\<lambda>p. getPositionState p e = s \<and> same_target t (pos_target p)) ps))"
  using foldl_add [of "\<lambda>a. a" 0] by (simp add: getAmountByTargetAndState_def filter_filter conj_commute)

lemma summarizeAccountPositions_sum:
  "summarizeAccountPositions ps e c s =
     sum_list (map pos_amount (filter (\<lambda>p. (pos_target p = Voting) = c \<and> getPositionState p e = s) ps))"
  by (induction ps rule: rev_induct) (auto simp: summarizeAccountPositions_def Let_def)

lemma sum_list_filter_disjoint:
  "(\<And>x. x \<in> set xs \<Longrightarrow> \<not> (P x \<and> Q x)) \<Longrightarrow>
   sum_list (map f (filter (\<lambda>x. P x \<or> Q x) xs)) =
     sum_list (map f (filter P xs)) + (sum_list (map f (filter Q xs)) :: int)"
  by (induction xs) auto

lemma sum_list_by_state:
  "sum_list (map (f :: 'a \<Rightarrow> int) xs) = (\<Sum>s \<in> {UNLOCKED, LOCKING, LOCKED, PREUNLOCKING, UNLOCKING}.
     sum_list (map f (filter (\<lambda>x. st x = s) xs)))"
proof (induction xs)
  case (Cons x xs)
  then show ?case by (cases "st x") auto
qed simp

text \<open>The positions of integrity pools, publisher by publisher.\<close>

lemma sum_list_by_publisher:
  assumes "finite A" and "\<forall>p \<in> set ps. \<forall>x. pos_target p = IntegrityPool x \<longrightarrow> x \<in> A"
  shows "sum_list (map pos_amount (filter (\<lambda>p. pos_target p \<noteq> Voting \<and> P p) ps)) =
    (\<Sum>x \<in> A. sum_list (map pos_amount (filter (\<lambda>p. P p \<and> same_target (IntegrityPool x) (pos_target p)) ps)))"
  using assms(2)
proof (induction ps)
  case (Cons p ps)
  let ?S = "\<lambda>x. sum_list (map pos_amount (filter (\<lambda>p. P p \<and> same_target (IntegrityPool x) (pos_target p)) ps))"
  have IH: "sum_list (map pos_amount (filter (\<lambda>p. pos_target p \<noteq> Voting \<and> P p) ps)) = (\<Sum>x \<in> A. ?S x)" using Cons by simp
  show ?case
  proof (cases "pos_target p")
    case Voting
    then show ?thesis using IH by (simp add: same_target_def)
  next
    case (IntegrityPool y)
    then have "y \<in> A" using Cons.prems by simp
    then have "(\<Sum>x \<in> A. (if x = y \<and> P p then pos_amount p else 0) + ?S x) = (if P p then pos_amount p else 0) + (\<Sum>x \<in> A. ?S x)"
      using assms(1) by (cases "P p") (simp_all add: sum.distrib)
    moreover have "sum_list (map pos_amount (filter (\<lambda>p. P p \<and> same_target (IntegrityPool x) (pos_target p)) (p # ps))) =
        (if x = y \<and> P p then pos_amount p else 0) + ?S x" for x
      using IntegrityPool by (simp add: same_target_def)
    ultimately show ?thesis using IH IntegrityPool by simp
  qed
qed simp

text \<open>
  C38. The summary of an account is the sum it stands for.  Its entries add up to all the amounts; the voting entry of each state is
  \<^verbatim>\<open>getAmountByTargetAndState\<close> for voting, and the integrity pool entry is the sum of \<^verbatim>\<open>getAmountByTargetAndState\<close> over the publishers of the positions;
  the voting power is the locked and the pre-unlocking entry, that is, the amounts of the voting positions that are activated and whose
  unlocking, if any (a start of 0 counts as none), has not started.
\<close>

theorem summarizeAccountPositions_consistent:
  "(\<Sum>s \<in> {UNLOCKED, LOCKING, LOCKED, PREUNLOCKING, UNLOCKING}.
      summarizeAccountPositions ps e True s + summarizeAccountPositions ps e False s) = sum_list (map pos_amount ps) \<and>
   summarizeAccountPositions ps e True s = getAmountByTargetAndState ps Voting s e \<and>
   summarizeAccountPositions ps e False s =
     (\<Sum>publisher \<in> {x. IntegrityPool x \<in> pos_target ` set ps}. getAmountByTargetAndState ps (IntegrityPool publisher) s e) \<and>
   getVotingTokenAmount ps e =
     summarizeAccountPositions ps e True LOCKED + summarizeAccountPositions ps e True PREUNLOCKING \<and>
   getVotingTokenAmount ps e = sum_list (map pos_amount (filter (\<lambda>p. pos_target p = Voting \<and> pos_activationEpoch p \<le> e \<and>
     (case pos_unlockingStart p of None \<Rightarrow> True | Some u \<Rightarrow> u = 0 \<or> e < u)) ps))"
proof (intro conjI)
  have split: "summarizeAccountPositions ps e True s + summarizeAccountPositions ps e False s =
      sum_list (map pos_amount (filter (\<lambda>p. getPositionState p e = s) ps))" for s
    unfolding summarizeAccountPositions_sum
    by (subst sum_list_filter_disjoint [symmetric]) (auto intro!: arg_cong [of _ _ sum_list] arg_cong [of _ _ "map pos_amount"] filter_cong)
  show "(\<Sum>s \<in> {UNLOCKED, LOCKING, LOCKED, PREUNLOCKING, UNLOCKING}.
      summarizeAccountPositions ps e True s + summarizeAccountPositions ps e False s) = sum_list (map pos_amount ps)"
    unfolding split by (rule sum_list_by_state [symmetric])
  show "summarizeAccountPositions ps e True s = getAmountByTargetAndState ps Voting s e"
    by (simp add: summarizeAccountPositions_sum getAmountByTargetAndState_sum same_target_def conj_commute)
  have "{x. IntegrityPool x \<in> pos_target ` set ps} = (\<lambda>t. case t of IntegrityPool x \<Rightarrow> x) ` {t \<in> pos_target ` set ps. t \<noteq> Voting}"
    by (force split: target.splits)
  then have "finite {x. IntegrityPool x \<in> pos_target ` set ps}" by simp
  then show "summarizeAccountPositions ps e False s =
      (\<Sum>publisher \<in> {x. IntegrityPool x \<in> pos_target ` set ps}. getAmountByTargetAndState ps (IntegrityPool publisher) s e)"
    unfolding getAmountByTargetAndState_sum by (subst sum_list_by_publisher [symmetric]) (force simp: summarizeAccountPositions_sum)+
  have "getVotingTokenAmount ps e = sum_list (map pos_amount (filter (\<lambda>p. pos_target p = Voting \<and> getPositionState p e \<in> {LOCKED, PREUNLOCKING}) ps))"
    unfolding getVotingTokenAmount_def foldl_add by (simp add: filter_filter conj_commute)
  also have "filter (\<lambda>p. pos_target p = Voting \<and> getPositionState p e \<in> {LOCKED, PREUNLOCKING}) ps =
      filter (\<lambda>p. pos_target p = Voting \<and> pos_activationEpoch p \<le> e \<and>
        (case pos_unlockingStart p of None \<Rightarrow> True | Some u \<Rightarrow> u = 0 \<or> e < u)) ps"
    by (rule filter_cong) (auto simp: getPositionState_def Let_def split: option.split)
  finally show "getVotingTokenAmount ps e = sum_list (map pos_amount (filter (\<lambda>p. pos_target p = Voting \<and> pos_activationEpoch p \<le> e \<and>
     (case pos_unlockingStart p of None \<Rightarrow> True | Some u \<Rightarrow> u = 0 \<or> e < u)) ps))" .
  have "getVotingTokenAmount ps e = sum_list (map pos_amount (filter (\<lambda>p.
      (pos_target p = Voting) = True \<and> getPositionState p e = LOCKED \<or>
      (pos_target p = Voting) = True \<and> getPositionState p e = PREUNLOCKING) ps))"
    unfolding getVotingTokenAmount_def foldl_add
    by (auto simp: filter_filter intro!: arg_cong [of _ _ sum_list] arg_cong [of _ _ "map pos_amount"] filter_cong)
  then show "getVotingTokenAmount ps e =
      summarizeAccountPositions ps e True LOCKED + summarizeAccountPositions ps e True PREUNLOCKING"
    unfolding summarizeAccountPositions_sum by (subst sum_list_filter_disjoint [symmetric]) auto
qed

text \<open>
  An unlocking start of epoch 0 counts as none: such a position is reported as locked in every
  epoch after its activation, although its unlocking ended with epoch 0. Any other start behaves as documented.
\<close>

theorem getPositionState_zero_start:
  assumes "pos_unlockingStart p = Some 0" and "pos_activationEpoch p \<le> e" and "u \<noteq> 0"
  shows "getPositionState p e = LOCKED \<and>
    getPositionState (p\<lparr>pos_unlockingStart := Some u\<rparr>) e =
      (if e < u then PREUNLOCKING else if e = u then UNLOCKING else UNLOCKED)"
  using assms by (auto simp: getPositionState_def Let_def)

section \<open>Properties of vesting\<close>

lemma sdiv_cancel: "n \<noteq> 0 \<Longrightarrow> (n * b) sdiv n = (b :: int)"
  by (auto simp: signed_divide_int_def abs_mult sgn_mult mult_sgn_abs sgn_mult_abs abs_mult_sgn ac_simps)

lemma sdiv_nonneg: "0 \<le> a \<Longrightarrow> 0 < n \<Longrightarrow> a sdiv n = (a div n :: int)"
  by (cases "a = 0") (simp_all add: signed_divide_int_def)

lemma unlock_amounts_telescope:
  "sum_list (map (\<lambda>k. unlock_amount b n (int k)) [0..<m]) = (n * b) sdiv n - ((n - int m) * b) sdiv n"
  by (induction m) (simp_all add: unlock_amount_def algebra_simps)

lemma schedule_all:
  "getPeriodicUnlockSchedule now b start dur n True =
     map (\<lambda>k. \<lparr>un_date = js_mul (unlock_timestamp start dur (int k)) (Fin 1000),
               un_amount = unlock_amount b n (int k)\<rparr>) [0..<nat n]"
  by (simp add: getPeriodicUnlockSchedule_def Let_def concat_map_singleton)

lemma schedule_future:
  "getPeriodicUnlockSchedule now b start dur n False =
     map (\<lambda>k. \<lparr>un_date = js_mul (unlock_timestamp start dur (int k)) (Fin 1000),
               un_amount = unlock_amount b n (int k)\<rparr>)
       (filter (\<lambda>k. js_lt (js_div now (Fin 1000)) (unlock_timestamp start dur (int k))) [0..<nat n])"
proof -
  have "concat (map (\<lambda>x. if P x then [f x] else []) xs) = map f (filter P xs)" for P and f :: "nat \<Rightarrow> unlock" and xs
    by (induction xs) auto
  then show ?thesis by (simp add: getPeriodicUnlockSchedule_def Let_def)
qed

lemma unlock_amount_bounds:
  assumes "0 \<le> b" and "0 < n" and "0 \<le> i" and "i < n"
  shows "b div n \<le> unlock_amount b n i" and "unlock_amount b n i \<le> b div n + 1"
proof -
  let ?x = "(n - (i + 1)) * b"
  have nn: "0 \<le> ?x" using assms by simp
  have "(n - i) * b = ?x + b" by (simp add: algebra_simps)
  then have "unlock_amount b n i = (?x + b) div n - ?x div n"
    using assms nn by (simp add: unlock_amount_def sdiv_nonneg add_nonneg_nonneg)
  moreover have "(?x + b) div n = ?x div n + b div n + (?x mod n + b mod n) div n"
    by (rule div_add1_eq)
  moreover have "0 \<le> (?x mod n + b mod n) div n" and "(?x mod n + b mod n) div n \<le> 1"
  proof -
    have "0 \<le> ?x mod n" "?x mod n < n" "0 \<le> b mod n" "b mod n < n" using assms(2) by simp_all
    then show "0 \<le> (?x mod n + b mod n) div n" using assms(2) by (simp add: pos_imp_zdiv_nonneg_iff)
    have "n * ((?x mod n + b mod n) div n) < n * 2"
      using \<open>?x mod n < n\<close> \<open>b mod n < n\<close> assms(2) mult_div_mod_eq [of n "?x mod n + b mod n"]
        pos_mod_sign [OF assms(2), of "?x mod n + b mod n"] by linarith
    then have "(?x mod n + b mod n) div n < 2" using assms(2) by (simp only: mult_less_cancel_left_pos)
    then show "(?x mod n + b mod n) div n \<le> 1" by simp
  qed
  ultimately show "b div n \<le> unlock_amount b n i" and "unlock_amount b n i \<le> b div n + 1" by linarith+
qed

text \<open>
  C39. Vesting loses nothing: over all periods the unlocked amounts add up to the balance exactly,
  and each of them is the balance divided by the number of periods, rounded down or up.
\<close>

theorem vesting_unlocks_balance:
  assumes "0 < numPeriods" and "0 \<le> balance"
  shows "length (getPeriodicUnlockSchedule now balance startDate periodDuration numPeriods True) = nat numPeriods \<and>
    sum_list (map un_amount (getPeriodicUnlockSchedule now balance startDate periodDuration numPeriods True)) = balance \<and>
    (\<forall>u \<in> set (getPeriodicUnlockSchedule now balance startDate periodDuration numPeriods incl).
      un_amount u = balance div numPeriods \<or> un_amount u = balance div numPeriods + 1)"
proof (intro conjI)
  show "length (getPeriodicUnlockSchedule now balance startDate periodDuration numPeriods True) = nat numPeriods"
    by (simp add: schedule_all)
  show "sum_list (map un_amount (getPeriodicUnlockSchedule now balance startDate periodDuration numPeriods True)) = balance"
    using assms(1) unlock_amounts_telescope [of balance numPeriods "nat numPeriods"]
    by (simp add: schedule_all comp_def sdiv_cancel)
  show "\<forall>u \<in> set (getPeriodicUnlockSchedule now balance startDate periodDuration numPeriods incl).
      un_amount u = balance div numPeriods \<or> un_amount u = balance div numPeriods + 1"
  proof
    fix u assume "u \<in> set (getPeriodicUnlockSchedule now balance startDate periodDuration numPeriods incl)"
    then obtain k where k: "k < nat numPeriods" and u: "un_amount u = unlock_amount balance numPeriods (int k)"
      by (cases incl) (auto simp: schedule_all schedule_future)
    then have "int k < numPeriods" by linarith
    then show "un_amount u = balance div numPeriods \<or> un_amount u = balance div numPeriods + 1"
      using unlock_amount_bounds [OF assms(2,1), of "int k"] unfolding u by force
  qed
qed

section \<open>Properties of the publisher table\<close>

lemma enumerate_filter_prefix:
  "List.enumerate 0 (filter P (xs @ ys)) = List.enumerate 0 xs"
  if "\<forall>x \<in> set xs. P x" and "\<forall>y \<in> set ys. \<not> P y"
  using that by (simp add: filter_empty_conv)

text \<open>
  As long as the empty slots of the pool come after the used ones, every publisher is listed
  with the data of its own slot; with an empty slot before it, a publisher is listed with the data of
  an earlier slot.
\<close>

theorem extractPublisherData_alignment:
  assumes "\<forall>k \<in> set ks. k \<noteq> d"
  shows "(pd_publishers pd = ks @ replicate m d \<longrightarrow>
      extractPublisherData d pd = map (\<lambda>i. publisher_entry d pd i (pd_publishers pd ! i)) [0..<length ks]) \<and>
    (pd_publishers pd = d # ks \<longrightarrow>
      extractPublisherData d pd = map (\<lambda>i. publisher_entry d pd i (pd_publishers pd ! Suc i)) [0..<length ks])"
  using assms
  by (auto intro!: nth_equalityI simp: extractPublisherData_def nth_enumerate_eq nth_append filter_empty_conv)

theorem getPositionState_zero_start_witness:
  "getPositionState \<lparr>pos_amount = 5, pos_activationEpoch = 0, pos_unlockingStart = Some 0, pos_target = Voting :: nat target\<rparr> 9 = LOCKED"
  using getPositionState_zero_start
    [of "\<lparr>pos_amount = 5, pos_activationEpoch = 0, pos_unlockingStart = Some 0, pos_target = Voting :: nat target\<rparr>" 9 1]
  by simp

theorem vesting_unlocks_balance_witness:
  "sum_list (map un_amount (getPeriodicUnlockSchedule (Fin 0) 100 0 60 7 True)) = 100"
  using vesting_unlocks_balance [of 7 100 "Fin 0" 0 60 True] by simp

theorem extractPublisherData_alignment_witness:
  "extractPublisherData 0 \<lparr>pd_publishers = [0, 7], pd_publisherStakeAccounts = [], pd_delState = [],
      pd_selfDelState = [], pd_delegationFees = [3, 4], pd_events = []\<rparr> =
   [publisher_entry 0 \<lparr>pd_publishers = [0, 7], pd_publisherStakeAccounts = [], pd_delState = [],
      pd_selfDelState = [], pd_delegationFees = [3, 4], pd_events = []\<rparr> 0 (7 :: nat)]"
  using extractPublisherData_alignment [of "[7 :: nat]" 0 "\<lparr>pd_publishers = [0, 7], pd_publisherStakeAccounts = [],
      pd_delState = [], pd_selfDelState = [], pd_delegationFees = [3, 4], pd_events = []\<rparr>" 0]
  by simp

end
