(* ===== verification/Price_Feed.thy ===== *)
theory Price_Feed
  imports Js_Number
begin

text \<open>
  Price feeds of the price service SDK (\<^verbatim>\<open>price_service/sdk/js/src/index.ts\<close>) and the conversion of their
  JSON form (\<^verbatim>\<open>schemas/PriceFeed.ts\<close>): a run-time interpreter of type descriptions, \<^verbatim>\<open>transform\<close>, with
  one description per class.  \<^verbatim>\<open>JSON.stringify\<close>, which only shows up in error messages, is an argument,
  and so is the current time.  Field names are not \<^verbatim>\<open>__proto__\<close>.
\<close>

section \<open>JSON values\<close>

datatype json = JUndefined | JNull | JBool bool | JNum jsnum | JStr string
  | JArr "json list" | JObj "(string \<times> json) list"

datatype js_type = T_undefined | T_object | T_boolean | T_number | T_string

definition typeof :: "json \<Rightarrow> js_type" where
  "typeof v = (case v of JUndefined \<Rightarrow> T_undefined | JNull \<Rightarrow> T_object | JBool _ \<Rightarrow> T_boolean | JNum _ \<Rightarrow> T_number
     | JStr _ \<Rightarrow> T_string | JArr _ \<Rightarrow> T_object | JObj _ \<Rightarrow> T_object)"

text \<open>\<^verbatim>\<open>obj[key] = v\<close> keeps the place of an existing key; \<^verbatim>\<open>obj[key]\<close> is \<^verbatim>\<open>undefined\<close> without one.\<close>

fun obj_set :: "string \<Rightarrow> 'v \<Rightarrow> (string \<times> 'v) list \<Rightarrow> (string \<times> 'v) list" where
  "obj_set k v [] = [(k, v)]"
| "obj_set k v ((k', v') # kvs) = (if k = k' then (k, v) # kvs else (k', v') # obj_set k v kvs)"

definition obj_of :: "(string \<times> 'v) list \<Rightarrow> (string \<times> 'v) list" where
  "obj_of kvs = foldl (\<lambda>obj (k, v). obj_set k v obj) [] kvs"

definition prop_of :: "string \<Rightarrow> (string \<times> json) list \<Rightarrow> json" where
  "prop_of k kvs = (case map_of kvs k of None \<Rightarrow> JUndefined | Some v \<Rightarrow> v)"

definition field :: "json \<Rightarrow> string \<Rightarrow> json" where
  "field v k = (case v of JObj kvs \<Rightarrow> prop_of k kvs | _ \<Rightarrow> JUndefined)"

section \<open>Type descriptions\<close>

text \<open>\<open>TPrim\<close> stands for a sample value, whose \<^verbatim>\<open>typeof\<close> is all that counts; a property has its JSON
  name, its JavaScript name and its type.\<close>

datatype json_type = TAny | TNull | TFalse | TPrim js_type | TRef string | TEnum "string list"
  | TUnion "json_type list" | TArray json_type | TObject "(string \<times> string \<times> json_type) list" json_type

definition price_type :: json_type where
  "price_type = TObject
     [(''conf'', ''conf'', TPrim T_string), (''expo'', ''expo'', TPrim T_number),
      (''price'', ''price'', TPrim T_string), (''publish_time'', ''publish_time'', TPrim T_number)] TAny"

definition metadata_type :: json_type where
  "metadata_type = TObject
     [(''attestation_time'', ''attestation_time'', TUnion [TPrim T_undefined, TPrim T_number]),
      (''emitter_chain'', ''emitter_chain'', TPrim T_number),
      (''prev_publish_time'', ''prev_publish_time'', TUnion [TPrim T_undefined, TPrim T_number]),
      (''price_service_receive_time'', ''price_service_receive_time'', TUnion [TPrim T_undefined, TPrim T_number]),
      (''sequence_number'', ''sequence_number'', TUnion [TPrim T_undefined, TPrim T_number]),
      (''slot'', ''slot'', TUnion [TPrim T_undefined, TPrim T_number])] TAny"

definition price_feed_type :: json_type where
  "price_feed_type = TObject
     [(''ema_price'', ''ema_price'', TRef ''Price''), (''id'', ''id'', TPrim T_string),
      (''metadata'', ''metadata'', TUnion [TPrim T_undefined, TRef ''PriceFeedMetadata'']),
      (''price'', ''price'', TRef ''Price''),
      (''vaa'', ''vaa'', TUnion [TPrim T_undefined, TPrim T_string])] TAny"

definition typeMap :: "string \<rightharpoonup> json_type" where
  "typeMap = [''PriceFeed'' \<mapsto> price_feed_type, ''Price'' \<mapsto> price_type, ''PriceFeedMetadata'' \<mapsto> metadata_type]"

text \<open>
  The loop \<^verbatim>\<open>while (typeof typ === "object" && typ.ref !== undefined)\<close>: no entry of the table is a
  reference (\<open>deref_not_ref\<close> below), so it runs at most once.
\<close>

definition deref :: "json_type \<Rightarrow> json_type" where
  "deref t = (case t of TRef n \<Rightarrow> (case typeMap n of None \<Rightarrow> TPrim T_undefined | Some t' \<Rightarrow> t') | _ \<Rightarrow> t)"

lemma deref_not_ref: "deref t \<noteq> TRef n"
  by (auto simp: deref_def typeMap_def price_feed_type_def price_type_def metadata_type_def
      split: json_type.split)

text \<open>\<^verbatim>\<open>jsonToJSProps\<close> and \<^verbatim>\<open>jsToJSONProps\<close>.\<close>

datatype direction = JsonToJS | JsToJSON

definition getProps :: "direction \<Rightarrow> (string \<times> string \<times> json_type) list \<Rightarrow> (string \<times> string \<times> json_type) list" where
  "getProps d props = obj_of (map (\<lambda>(json, js, typ).
     case d of JsonToJS \<Rightarrow> (json, js, typ) | JsToJSON \<Rightarrow> (js, json, typ)) props)"

section \<open>The interpreter\<close>

record stringify =
  sf_type :: "json_type \<Rightarrow> string"
  sf_value :: "json \<Rightarrow> string"

text \<open>\<open>typ\<close> is the type as \<^verbatim>\<open>JSON.stringify\<close> shows it.\<close>

definition invalidValue :: "stringify \<Rightarrow> string \<Rightarrow> json \<Rightarrow> string \<Rightarrow> 'a res" where
  "invalidValue S typ val key = Inl (Error
     (if key \<noteq> '''' then ''Invalid value for key \"'' @ key @ ''\". Expected type '' @ typ @
        '' but got '' @ sf_value S val
      else ''Invalid value '' @ sf_value S val @ '' for type '' @ typ))"

text \<open>The first of the attempts that does not throw.\<close>

fun first_ok :: "'a res list \<Rightarrow> 'a res \<Rightarrow> 'a res" where
  "first_ok [] e = e"
| "first_ok (Inr x # rs) e = Inr x"
| "first_ok (Inl _ # rs) e = first_ok rs e"

text \<open>
  Termination is by the rank of the type: its size, with a reference above what it refers to.  The
  rank is a proof device, the program has no such number.
\<close>

fun rank :: "json_type \<Rightarrow> nat" where
  "rank (TRef n) = (if n = ''PriceFeed'' then 1000 else 100)"
| "rank (TUnion ts) = Suc (sum_list (map rank ts))"
| "rank (TArray t) = Suc (rank t)"
| "rank (TObject ps t) = Suc (sum_list (map (\<lambda>p. rank (snd (snd p))) ps) + rank t)"
| "rank _ = 1"

lemma obj_set_subset: "set (obj_set k v kvs) \<subseteq> insert (k, v) (set kvs)"
  by (induction k v kvs rule: obj_set.induct) auto

lemma obj_of_snoc: "obj_of (kvs @ [(k, v)]) = obj_set k v (obj_of kvs)"
  by (simp add: obj_of_def)

lemma obj_of_subset: "set (obj_of kvs) \<subseteq> set kvs"
proof (induction kvs rule: rev_induct)
  case (snoc p kvs)
  then show ?case using obj_set_subset [of "fst p" "snd p" "obj_of kvs"] by (cases p) (auto simp: obj_of_snoc)
qed (simp add: obj_of_def)

lemma getProps_rank:
  assumes "(name, k, t) \<in> set (getProps d ps)"
  shows "rank t \<le> sum_list (map (\<lambda>p. rank (snd (snd p))) ps)"
proof -
  from assms obj_of_subset obtain p where "p \<in> set ps" and "t = snd (snd p)"
    unfolding getProps_def by (fastforce split: direction.splits)
  then show ?thesis by (auto intro!: member_le_sum_list)
qed

lemma rank_deref: "rank (deref t) \<le> rank t"
  by (auto simp: deref_def typeMap_def price_feed_type_def price_type_def metadata_type_def
      split: json_type.split option.splits)

lemma rank_part:
  "deref ty = TUnion ts \<Longrightarrow> t \<in> set ts \<Longrightarrow> rank t < rank ty"
  "deref ty = TArray t \<Longrightarrow> rank t < rank ty"
  "deref ty = TObject ps t \<Longrightarrow> rank t < rank ty"
  "deref ty = TObject ps additional \<Longrightarrow> (name, k, t) \<in> set (getProps d ps) \<Longrightarrow> rank t < rank ty"
proof -
  note le = rank_deref [of ty]
  show "rank t < rank ty" if "deref ty = TUnion ts" "t \<in> set ts"
    using le that member_le_sum_list [of "rank t" "map rank ts"] by auto
  show "rank t < rank ty" if "deref ty = TArray t" using le that by simp
  show "rank t < rank ty" if "deref ty = TObject ps t" using le that by simp
  show "rank t < rank ty" if "deref ty = TObject ps additional" "(name, k, t) \<in> set (getProps d ps)"
    using le that(1) getProps_rank [OF that(2)] by simp
qed

function transform :: "stringify \<Rightarrow> direction \<Rightarrow> json_type \<Rightarrow> string \<Rightarrow> json \<Rightarrow> json res" where
  "transform S d typ key val =
     (if typ = TAny then Inr val
      else if typ = TNull then (if val = JNull then Inr val else invalidValue S (sf_type S typ) val '''')
      else if typ = TFalse then invalidValue S (sf_type S typ) val ''''
      else
        (case deref typ of
           TEnum cases \<Rightarrow> (case val of
               JStr s \<Rightarrow> if s \<in> set cases then Inr val else invalidValue S (sf_type S (deref typ)) val ''''
             | _ \<Rightarrow> invalidValue S (sf_type S (deref typ)) val '''')
         | TUnion typs \<Rightarrow>
             first_ok (map (\<lambda>t. transform S d t '''' val) typs) (invalidValue S (sf_type S (deref typ)) val '''')
         | TArray t \<Rightarrow> (case val of
               JArr els \<Rightarrow> res_bind (map_res (\<lambda>el. transform S d t '''' el) els) (\<lambda>els'. Inr (JArr els'))
             | _ \<Rightarrow> invalidValue S ''\"array\"'' val '''')
         | TObject props additional \<Rightarrow> (case val of
               JObj kvs \<Rightarrow>
                 res_bind (map_res (\<lambda>(name, k, t).
                     res_bind (transform S d t k (prop_of name kvs)) (\<lambda>v. Inr (k, v))) (getProps d props))
                   (\<lambda>known. res_bind (map_res (\<lambda>(name, v).
                       res_bind (transform S d additional name v) (\<lambda>v'. Inr (name, v')))
                       (filter (\<lambda>kv. fst kv \<notin> fst ` set (getProps d props)) kvs))
                     (\<lambda>extra. Inr (JObj (obj_of (known @ extra)))))
             | _ \<Rightarrow> invalidValue S ''\"object\"'' val '''')
         | TPrim t \<Rightarrow> if typeof val = t then Inr val else invalidValue S (sf_type S (deref typ)) val key
         | _ \<Rightarrow> invalidValue S (sf_type S (deref typ)) val ''''))"
  by pat_completeness auto

termination
  by (relation "measure (\<lambda>(S, d, typ, key, val). rank typ)") (auto intro: rank_part)

declare transform.simps [simp del]

definition cast :: "stringify \<Rightarrow> json \<Rightarrow> json_type \<Rightarrow> json res" where
  "cast S val t = transform S JsonToJS t '''' val"

definition uncast :: "stringify \<Rightarrow> json \<Rightarrow> json_type \<Rightarrow> json res" where
  "uncast S val t = transform S JsToJSON t '''' val"

section \<open>The classes\<close>

record price =
  px_conf :: string
  px_expo :: jsnum
  px_price :: string
  px_publishTime :: jsnum

record price_feed_metadata =
  md_attestationTime :: "jsnum option"
  md_emitterChain :: jsnum
  md_priceServiceReceiveTime :: "jsnum option"
  md_sequenceNumber :: "jsnum option"
  md_slot :: "jsnum option"
  md_prevPublishTime :: "jsnum option"

record price_feed =
  fd_emaPrice :: price
  fd_id :: string
  fd_metadata :: "price_feed_metadata option"
  fd_vaa :: "string option"
  fd_price :: price

text \<open>
  A field after the cast has checked its type; the last alternatives do not occur then.
\<close>

definition as_string :: "json \<Rightarrow> string" where
  "as_string v = (case v of JStr s \<Rightarrow> s | _ \<Rightarrow> '''')"

definition as_number :: "json \<Rightarrow> jsnum" where
  "as_number v = (case v of JNum x \<Rightarrow> x | _ \<Rightarrow> NaN)"

definition opt_string :: "json \<Rightarrow> string option" where
  "opt_string v = (case v of JStr s \<Rightarrow> Some s | _ \<Rightarrow> None)"

definition opt_number :: "json \<Rightarrow> jsnum option" where
  "opt_number v = (case v of JNum x \<Rightarrow> Some x | _ \<Rightarrow> None)"

definition of_opt :: "('a \<Rightarrow> json) \<Rightarrow> 'a option \<Rightarrow> json" where
  "of_opt f x = (case x of None \<Rightarrow> JUndefined | Some v \<Rightarrow> f v)"

definition Price_fromJson :: "stringify \<Rightarrow> json \<Rightarrow> price res" where
  "Price_fromJson S json = res_bind (cast S json (TRef ''Price'')) (\<lambda>j. Inr
     \<lparr>px_conf = as_string (field j ''conf''), px_expo = as_number (field j ''expo''),
      px_price = as_string (field j ''price''), px_publishTime = as_number (field j ''publish_time'')\<rparr>)"

definition Price_toJson :: "stringify \<Rightarrow> price \<Rightarrow> json res" where
  "Price_toJson S p = uncast S
     (JObj [(''conf'', JStr (px_conf p)), (''expo'', JNum (px_expo p)), (''price'', JStr (px_price p)),
            (''publish_time'', JNum (px_publishTime p))]) (TRef ''Price'')"

definition PriceFeedMetadata_fromJson :: "stringify \<Rightarrow> json \<Rightarrow> price_feed_metadata option res" where
  "PriceFeedMetadata_fromJson S json =
     (if json = JUndefined then Inr None
      else res_bind (cast S json (TRef ''PriceFeedMetadata'')) (\<lambda>j. Inr (Some
        \<lparr>md_attestationTime = opt_number (field j ''attestation_time''),
         md_emitterChain = as_number (field j ''emitter_chain''),
         md_priceServiceReceiveTime = opt_number (field j ''price_service_receive_time''),
         md_sequenceNumber = opt_number (field j ''sequence_number''),
         md_slot = opt_number (field j ''slot''),
         md_prevPublishTime = opt_number (field j ''prev_publish_time'')\<rparr>)))"

definition PriceFeedMetadata_toJson :: "stringify \<Rightarrow> price_feed_metadata \<Rightarrow> json res" where
  "PriceFeedMetadata_toJson S m = uncast S
     (JObj [(''attestation_time'', of_opt JNum (md_attestationTime m)),
            (''emitter_chain'', JNum (md_emitterChain m)),
            (''price_service_receive_time'', of_opt JNum (md_priceServiceReceiveTime m)),
            (''sequence_number'', of_opt JNum (md_sequenceNumber m)),
            (''slot'', of_opt JNum (md_slot m)),
            (''prev_publish_time'', of_opt JNum (md_prevPublishTime m))]) (TRef ''PriceFeedMetadata'')"

definition PriceFeed_fromJson :: "stringify \<Rightarrow> json \<Rightarrow> price_feed res" where
  "PriceFeed_fromJson S json =
     res_bind (cast S json (TRef ''PriceFeed'')) (\<lambda>j.
     res_bind (Price_fromJson S (field j ''ema_price'')) (\<lambda>ema.
     res_bind (PriceFeedMetadata_fromJson S (field j ''metadata'')) (\<lambda>metadata.
     res_bind (Price_fromJson S (field j ''price'')) (\<lambda>price. Inr
       \<lparr>fd_emaPrice = ema, fd_id = as_string (field j ''id''), fd_metadata = metadata,
        fd_vaa = opt_string (field j ''vaa''), fd_price = price\<rparr>))))"

definition PriceFeed_toJson :: "stringify \<Rightarrow> price_feed \<Rightarrow> json res" where
  "PriceFeed_toJson S feed =
     res_bind (Price_toJson S (fd_emaPrice feed)) (\<lambda>ema.
     res_bind (case fd_metadata feed of None \<Rightarrow> Inr JUndefined | Some m \<Rightarrow> PriceFeedMetadata_toJson S m) (\<lambda>metadata.
     res_bind (Price_toJson S (fd_price feed)) (\<lambda>price.
       uncast S (JObj [(''ema_price'', ema), (''id'', JStr (fd_id feed)), (''metadata'', metadata),
                       (''price'', price)]) (TRef ''PriceFeed''))))"

text \<open>\<^verbatim>\<open>10 ** expo\<close> is the argument \<open>pow\<close>: the language leaves its rounding to the implementation.\<close>

definition getPriceAsNumberUnchecked :: "(jsnum \<Rightarrow> jsnum \<Rightarrow> jsnum) \<Rightarrow> price \<Rightarrow> jsnum" where
  "getPriceAsNumberUnchecked pow p = js_mul (js_Number (px_price p)) (pow (Fin 10) (px_expo p))"

definition getConfAsNumberUnchecked :: "(jsnum \<Rightarrow> jsnum \<Rightarrow> jsnum) \<Rightarrow> price \<Rightarrow> jsnum" where
  "getConfAsNumberUnchecked pow p = js_mul (js_Number (px_conf p)) (pow (Fin 10) (px_expo p))"

fun js_floor :: "jsnum \<Rightarrow> jsnum" where
  "js_floor (Fin q) = Fin (of_int \<lfloor>q\<rfloor>)"
| "js_floor x = x"

text \<open>\<open>now\<close> is \<^verbatim>\<open>Date.now()\<close>.\<close>

definition no_older_than :: "jsnum \<Rightarrow> jsnum \<Rightarrow> price \<Rightarrow> price option" where
  "no_older_than now age price =
     (let currentTime = js_floor (js_div now (Fin 1000)) in
      if js_gt (js_abs (js_sub currentTime (px_publishTime price))) age then None else Some price)"

definition getPriceNoOlderThan :: "jsnum \<Rightarrow> jsnum \<Rightarrow> price_feed \<Rightarrow> price option" where
  "getPriceNoOlderThan now age feed = no_older_than now age (fd_price feed)"

definition getEmaPriceNoOlderThan :: "jsnum \<Rightarrow> jsnum \<Rightarrow> price_feed \<Rightarrow> price option" where
  "getEmaPriceNoOlderThan now age feed = no_older_than now age (fd_emaPrice feed)"

section \<open>What the interpreter accepts\<close>

lemma obj_set_new: "k \<notin> fst ` set kvs \<Longrightarrow> obj_set k v kvs = kvs @ [(k, v)]"
  by (induction k v kvs rule: obj_set.induct) auto

lemma fst_obj_set: "fst ` set (obj_set k v t) = insert k (fst ` set t)"
  by (induction k v t rule: obj_set.induct) auto

lemma map_fst_obj_set: "map fst (obj_set k v t) = (if k \<in> fst ` set t then map fst t else map fst t @ [k])"
  by (induction k v t rule: obj_set.induct) auto

lemma obj_of_distinct: "distinct (map fst kvs) \<Longrightarrow> obj_of kvs = kvs"
proof (induction kvs rule: rev_induct)
  case (snoc p kvs)
  then show ?case by (cases p) (simp add: obj_of_snoc obj_set_new)
qed (simp add: obj_of_def)

lemma map_of_obj_set: "map_of (obj_set k v kvs) = (map_of kvs)(k \<mapsto> v)"
  by (induction k v kvs rule: obj_set.induct) (auto simp: fun_eq_iff)

lemma map_of_obj_of: "map_of (obj_of kvs) = map_of (rev kvs)"
proof (induction kvs rule: rev_induct)
  case (snoc p kvs)
  then show ?case by (cases p) (simp add: obj_of_snoc map_of_obj_set)
qed (simp add: obj_of_def)

text \<open>The descriptions of the classes use the same name on both sides.\<close>

definition plain_props :: "(string \<times> string \<times> json_type) list \<Rightarrow> bool" where
  "plain_props ps \<longleftrightarrow> distinct (map fst ps) \<and> (\<forall>p \<in> set ps. fst (snd p) = fst p)"

lemma getProps_plain: "plain_props ps \<Longrightarrow> getProps d ps = ps"
proof -
  assume ps: "plain_props ps"
  then have "map (\<lambda>(json, js, typ). case d of JsonToJS \<Rightarrow> (json, js, typ) | JsToJSON \<Rightarrow> (js, json, typ)) ps = ps"
    by (intro map_idI) (auto simp: plain_props_def split: direction.split)
  then show ?thesis using ps by (simp add: getProps_def obj_of_distinct plain_props_def)
qed

lemma transform_simple:
  "transform S d TAny key v = Inr v"
  "transform S d (TPrim t) key v = (if typeof v = t then Inr v else invalidValue S (sf_type S (TPrim t)) v key)"
  "transform S d (TUnion ts) key v =
     first_ok (map (\<lambda>t. transform S d t '''' v) ts) (invalidValue S (sf_type S (TUnion ts)) v '''')"
  by (subst transform.simps, simp add: deref_def)+

lemma transform_object:
  assumes "plain_props ps"
  shows "transform S d (TObject ps TAny) key v =
    (case v of
       JObj kvs \<Rightarrow> res_bind (map_res (\<lambda>(name, k, t).
           res_bind (transform S d t k (prop_of name kvs)) (\<lambda>w. Inr (k, w))) ps)
         (\<lambda>known. Inr (JObj (obj_of (known @ filter (\<lambda>kv. fst kv \<notin> fst ` set ps) kvs))))
     | _ \<Rightarrow> invalidValue S ''\"object\"'' v '''')"
proof -
  have "map_res (\<lambda>(name, v). res_bind (transform S d TAny name v) (\<lambda>v'. Inr (name, v'))) xs = Inr xs" for xs
    by (intro map_res_id) (auto simp: transform_simple)
  then show ?thesis
    by (subst transform.simps) (auto simp: deref_def getProps_plain [OF assms] split: json.split)
qed

lemma transform_ref:
  "transform S d (TRef ''Price'') key v = transform S d price_type key v"
  "transform S d (TRef ''PriceFeedMetadata'') key v = transform S d metadata_type key v"
  "transform S d (TRef ''PriceFeed'') key v = transform S d price_feed_type key v"
proof -
  have object: "transform S d t key v = transform S d (TObject ps a) key v" if "deref t = TObject ps a" "\<exists>n. t = TRef n"
    for t ps a
  proof -
    have "deref (TObject ps a) = TObject ps a" by (simp add: deref_def)
    with that show ?thesis by (subst (1 2) transform.simps) auto
  qed
  show "transform S d (TRef ''Price'') key v = transform S d price_type key v"
    unfolding price_type_def by (rule object) (simp_all add: deref_def typeMap_def price_type_def)
  show "transform S d (TRef ''PriceFeedMetadata'') key v = transform S d metadata_type key v"
    unfolding metadata_type_def by (rule object) (simp_all add: deref_def typeMap_def metadata_type_def)
  show "transform S d (TRef ''PriceFeed'') key v = transform S d price_feed_type key v"
    unfolding price_feed_type_def by (rule object) (simp_all add: deref_def typeMap_def price_feed_type_def)
qed

text \<open>
  An object is accepted exactly when every described field is, and then the result has the accepted
  values there, whatever other fields the object has and in whatever order.
\<close>

lemma transform_object_fields:
  assumes ps: "plain_props ps" and r: "transform S d (TObject ps TAny) key v = Inr r" and p: "(n, n, t) \<in> set ps"
  shows "transform S d t n (field v n) = Inr (field r n)"
proof -
  obtain kvs known where v: "v = JObj kvs"
      and k: "map_res (\<lambda>(name, k, t). res_bind (transform S d t k (prop_of name kvs)) (\<lambda>w. Inr (k, w))) ps = Inr known"
      and rr: "r = JObj (obj_of (known @ filter (\<lambda>kv. fst kv \<notin> fst ` set ps) kvs))"
    using r by (auto simp: transform_object [OF ps] invalidValue_def res_bind_eq_Inr split: json.splits)
  from k have rel: "list_all2 (\<lambda>p y. \<exists>w. transform S d (snd (snd p)) (fst (snd p)) (prop_of (fst p) kvs) = Inr w \<and>
      y = (fst (snd p), w)) ps known"
    unfolding map_res_Inr_iff by (rule list_all2_mono) (auto simp: res_bind_eq_Inr)
  then have "map fst known = map (\<lambda>p. fst (snd p)) ps" by (induction rule: list_all2_induct) auto
  also have "\<dots> = map fst ps" using ps by (auto simp: plain_props_def)
  finally have keys: "map fst known = map fst ps" .
  from p obtain i where i: "i < length ps" "ps ! i = (n, n, t)" by (auto simp: in_set_conv_nth)
  from list_all2_nthD [OF rel i(1)] i(2) obtain w where
    w1: "transform S d t n (prop_of n kvs) = Inr w" and "known ! i = (n, w)" by auto
  with nth_mem [of i known] i(1) list_all2_lengthD [OF rel] have w2: "(n, w) \<in> set known" by simp
  note w = w1 w2
  have "distinct (map fst known)" using ps by (simp add: keys plain_props_def)
  then have "map_of (rev known) n = Some w"
    using w(2) by (intro map_of_is_SomeI) (simp_all add: rev_map [symmetric])
  moreover have "map_of (rev (filter (\<lambda>kv. fst kv \<notin> fst ` set ps) kvs)) n = None"
    using p by (force simp: map_of_eq_None_iff)
  ultimately have "field r n = w" by (simp add: rr field_def prop_of_def map_of_obj_of map_add_def)
  with w(1) show ?thesis by (simp add: v field_def)
qed

lemma transform_object_ok:
  assumes ps: "plain_props ps"
  shows "(\<exists>r. transform S d (TObject ps TAny) key v = Inr r) \<longleftrightarrow>
    (\<exists>kvs. v = JObj kvs) \<and> (\<forall>(n, _, t) \<in> set ps. \<exists>w. transform S d t n (field v n) = Inr w)"
    (is "?ok \<longleftrightarrow> ?parts")
proof
  assume ?ok
  then obtain r where r: "transform S d (TObject ps TAny) key v = Inr r" ..
  then have "\<exists>kvs. v = JObj kvs" by (auto simp: transform_object [OF ps] invalidValue_def split: json.splits)
  with transform_object_fields [OF ps r] ps show ?parts by (fastforce simp: plain_props_def)
next
  assume parts: ?parts
  then obtain kvs where v: "v = JObj kvs" by blast
  have "\<exists>known. map_res (\<lambda>(name, k, t). res_bind (transform S d t k (prop_of name kvs)) (\<lambda>w. Inr (k, w))) qs = Inr known"
    if "set qs \<subseteq> set ps" for qs
    using that
  proof (induction qs)
    case (Cons q qs)
    then obtain known where "map_res (\<lambda>(name, k, t). res_bind (transform S d t k (prop_of name kvs)) (\<lambda>w. Inr (k, w))) qs = Inr known"
      by auto
    moreover obtain n t where q: "q = (n, n, t)" using Cons.prems ps by (cases q) (auto simp: plain_props_def)
    moreover obtain w where "transform S d t n (prop_of n kvs) = Inr w"
      using parts Cons.prems by (fastforce simp: q v field_def)
    ultimately show ?case by simp
  qed simp
  from this [of ps] show ?ok by (auto simp: transform_object [OF ps] v)
qed

section \<open>Round trip and acceptance\<close>

lemma typeof_iff:
  "typeof v = T_string \<longleftrightarrow> (\<exists>s. v = JStr s)" "typeof v = T_number \<longleftrightarrow> (\<exists>x. v = JNum x)"
  "typeof v = T_undefined \<longleftrightarrow> v = JUndefined"
  by (auto simp: typeof_def split: json.splits)

definition is_string :: "json \<Rightarrow> bool" where "is_string v \<longleftrightarrow> typeof v = T_string"
definition is_number :: "json \<Rightarrow> bool" where "is_number v \<longleftrightarrow> typeof v = T_number"
definition is_object :: "json \<Rightarrow> bool" where "is_object v = (case v of JObj _ \<Rightarrow> True | _ \<Rightarrow> False)"
definition optional :: "(json \<Rightarrow> bool) \<Rightarrow> json \<Rightarrow> bool" where "optional P v \<longleftrightarrow> v = JUndefined \<or> P v"

text \<open>The shape of the JSON of a price, of its metadata and of a feed.\<close>

definition price_json :: "json \<Rightarrow> bool" where
  "price_json v \<longleftrightarrow> is_object v \<and> is_string (field v ''conf'') \<and> is_number (field v ''expo'') \<and>
     is_string (field v ''price'') \<and> is_number (field v ''publish_time'')"

definition metadata_json :: "json \<Rightarrow> bool" where
  "metadata_json v \<longleftrightarrow> is_object v \<and> optional is_number (field v ''attestation_time'') \<and>
     is_number (field v ''emitter_chain'') \<and> optional is_number (field v ''prev_publish_time'') \<and>
     optional is_number (field v ''price_service_receive_time'') \<and>
     optional is_number (field v ''sequence_number'') \<and> optional is_number (field v ''slot'')"

definition feed_json :: "json \<Rightarrow> bool" where
  "feed_json v \<longleftrightarrow> is_object v \<and> price_json (field v ''ema_price'') \<and> is_string (field v ''id'') \<and>
     optional metadata_json (field v ''metadata'') \<and> price_json (field v ''price'') \<and>
     optional is_string (field v ''vaa'')"

lemma transform_opt:
  "(\<exists>w. transform S d (TUnion [TPrim T_undefined, TPrim t]) key v = Inr w) \<longleftrightarrow> v = JUndefined \<or> typeof v = t"
  "transform S d (TUnion [TPrim T_undefined, TPrim t]) key v = Inr w \<Longrightarrow> w = v"
  by (auto simp: transform_simple typeof_iff invalidValue_def split: if_splits)

lemma transform_prim_id: "transform S d (TPrim t) key v = Inr w \<Longrightarrow> w = v"
  by (simp add: transform_simple invalidValue_def split: if_splits)

lemma is_object_iff: "is_object v \<longleftrightarrow> (\<exists>kvs. v = JObj kvs)"
  by (auto simp: is_object_def split: json.splits)

lemma price_type_ok: "(\<exists>r. transform S d price_type key v = Inr r) \<longleftrightarrow> price_json v"
  unfolding price_type_def
  by (subst transform_object_ok)
    (auto simp: plain_props_def transform_simple price_json_def is_string_def is_number_def is_object_iff invalidValue_def)

lemma metadata_type_ok: "(\<exists>r. transform S d metadata_type key v = Inr r) \<longleftrightarrow> metadata_json v"
  unfolding metadata_type_def
  by (subst transform_object_ok)
    (auto simp: plain_props_def transform_opt transform_simple(2) metadata_json_def is_number_def optional_def
      is_object_iff invalidValue_def)

lemma price_fields:
  assumes "transform S d price_type key v = Inr r"
  shows "field r ''conf'' = field v ''conf''" and "field r ''expo'' = field v ''expo''"
    and "field r ''price'' = field v ''price''" and "field r ''publish_time'' = field v ''publish_time''"
  by (rule transform_prim_id, rule transform_object_fields [OF _ assms [unfolded price_type_def]];
      simp add: plain_props_def)+

lemma metadata_fields:
  assumes "transform S d metadata_type key v = Inr r"
  shows "field r ''attestation_time'' = field v ''attestation_time''"
    and "field r ''emitter_chain'' = field v ''emitter_chain''"
    and "field r ''prev_publish_time'' = field v ''prev_publish_time''"
    and "field r ''price_service_receive_time'' = field v ''price_service_receive_time''"
    and "field r ''sequence_number'' = field v ''sequence_number''"
    and "field r ''slot'' = field v ''slot''"
proof -
  note f = transform_object_fields [OF _ assms [unfolded metadata_type_def]]
  show "field r ''emitter_chain'' = field v ''emitter_chain''"
    by (rule transform_prim_id, rule f; simp add: plain_props_def)
  show "field r ''attestation_time'' = field v ''attestation_time''"
    "field r ''prev_publish_time'' = field v ''prev_publish_time''"
    "field r ''price_service_receive_time'' = field v ''price_service_receive_time''"
    "field r ''sequence_number'' = field v ''sequence_number''" "field r ''slot'' = field v ''slot''"
    by (rule transform_opt(2), rule f; simp add: plain_props_def)+
qed

text \<open>What the classes read from an object of the right shape.\<close>

definition price_of :: "json \<Rightarrow> price" where
  "price_of v = \<lparr>px_conf = as_string (field v ''conf''), px_expo = as_number (field v ''expo''),
     px_price = as_string (field v ''price''), px_publishTime = as_number (field v ''publish_time'')\<rparr>"

definition metadata_of :: "json \<Rightarrow> price_feed_metadata" where
  "metadata_of v = \<lparr>md_attestationTime = opt_number (field v ''attestation_time''),
     md_emitterChain = as_number (field v ''emitter_chain''),
     md_priceServiceReceiveTime = opt_number (field v ''price_service_receive_time''),
     md_sequenceNumber = opt_number (field v ''sequence_number''), md_slot = opt_number (field v ''slot''),
     md_prevPublishTime = opt_number (field v ''prev_publish_time'')\<rparr>"

definition feed_of :: "json \<Rightarrow> price_feed" where
  "feed_of v = \<lparr>fd_emaPrice = price_of (field v ''ema_price''), fd_id = as_string (field v ''id''),
     fd_metadata = (if field v ''metadata'' = JUndefined then None else Some (metadata_of (field v ''metadata''))),
     fd_vaa = opt_string (field v ''vaa''), fd_price = price_of (field v ''price'')\<rparr>"

lemma transform_object_result:
  "plain_props ps \<Longrightarrow> transform S d (TObject ps TAny) key v = Inr r \<Longrightarrow> is_object r"
  by (auto simp: transform_object is_object_iff invalidValue_def res_bind_eq_Inr split: json.splits)

lemma price_result:
  assumes "transform S d price_type key v = Inr r"
  shows "price_json r" and "price_of r = price_of v"
proof -
  have "is_object r"
    using assms unfolding price_type_def by (rule transform_object_result [rotated]) (simp add: plain_props_def)
  moreover have "price_json v" using assms price_type_ok by blast
  ultimately show "price_json r" and "price_of r = price_of v"
    by (simp_all add: price_json_def price_of_def price_fields [OF assms])
qed

lemma metadata_result:
  assumes "transform S d metadata_type key v = Inr r"
  shows "metadata_json r" and "metadata_of r = metadata_of v"
proof -
  have "is_object r"
    using assms unfolding metadata_type_def by (rule transform_object_result [rotated]) (simp add: plain_props_def)
  moreover have "metadata_json v" using assms metadata_type_ok by blast
  ultimately show "metadata_json r" and "metadata_of r = metadata_of v"
    by (simp_all add: metadata_json_def metadata_of_def metadata_fields [OF assms])
qed

lemma transform_opt_metadata:
  "transform S d (TUnion [TPrim T_undefined, TRef ''PriceFeedMetadata'']) key v = Inr w \<longleftrightarrow>
     (if v = JUndefined then w = JUndefined else transform S d metadata_type '''' v = Inr w)"
proof (cases "v = JUndefined")
  case False
  then have "typeof v \<noteq> T_undefined" by (simp add: typeof_iff)
  with False show ?thesis
    by (cases "transform S d metadata_type '''' v") (simp_all add: transform_simple transform_ref invalidValue_def)
qed (auto simp: transform_simple typeof_def)

lemma feed_type_ok: "(\<exists>r. transform S d price_feed_type key v = Inr r) \<longleftrightarrow> feed_json v"
proof -
  have "(\<exists>w. transform S d (TUnion [TPrim T_undefined, TRef ''PriceFeedMetadata'']) k u = Inr w) \<longleftrightarrow>
      optional metadata_json u" for k u
    using metadata_type_ok [of S d "''''" u] by (cases "u = JUndefined") (auto simp: transform_opt_metadata optional_def)
  then show ?thesis
    unfolding price_feed_type_def
    by (subst transform_object_ok)
      (auto simp: plain_props_def transform_ref price_type_ok transform_opt transform_simple(2) feed_json_def
        is_string_def optional_def is_object_iff invalidValue_def)
qed

lemma feed_fields:
  assumes "transform S d price_feed_type key v = Inr r"
  shows "price_json (field r ''ema_price'') \<and> price_of (field r ''ema_price'') = price_of (field v ''ema_price'')"
    and "price_json (field r ''price'') \<and> price_of (field r ''price'') = price_of (field v ''price'')"
    and "field r ''id'' = field v ''id''" and "field r ''vaa'' = field v ''vaa''"
    and "if field v ''metadata'' = JUndefined then field r ''metadata'' = JUndefined
      else metadata_json (field r ''metadata'') \<and> metadata_of (field r ''metadata'') = metadata_of (field v ''metadata'')"
proof -
  note f = transform_object_fields [OF _ assms [unfolded price_feed_type_def]]
  have "transform S d price_type ''ema_price'' (field v ''ema_price'') = Inr (field r ''ema_price'')"
    and "transform S d price_type ''price'' (field v ''price'') = Inr (field r ''price'')"
    using f [of "''ema_price''"] f [of "''price''"] by (simp_all add: plain_props_def transform_ref)
  from price_result [OF this(1)] price_result [OF this(2)]
  show "price_json (field r ''ema_price'') \<and> price_of (field r ''ema_price'') = price_of (field v ''ema_price'')"
    and "price_json (field r ''price'') \<and> price_of (field r ''price'') = price_of (field v ''price'')" by simp_all
  show "field r ''id'' = field v ''id''"
    by (rule transform_prim_id, rule f; simp add: plain_props_def)
  show "field r ''vaa'' = field v ''vaa''"
    by (rule transform_opt(2), rule f; simp add: plain_props_def)
  have "transform S d (TUnion [TPrim T_undefined, TRef ''PriceFeedMetadata'']) ''metadata'' (field v ''metadata'') =
      Inr (field r ''metadata'')"
    by (rule f; simp add: plain_props_def)
  then show "if field v ''metadata'' = JUndefined then field r ''metadata'' = JUndefined
      else metadata_json (field r ''metadata'') \<and> metadata_of (field r ''metadata'') = metadata_of (field v ''metadata'')"
    by (auto simp: transform_opt_metadata metadata_result split: if_splits)
qed

lemma Price_fromJson_iff: "Price_fromJson S v = Inr p \<longleftrightarrow> price_json v \<and> p = price_of v"
proof (cases "transform S JsonToJS price_type '''' v")
  case (Inl e)
  moreover from this have "\<not> price_json v" using price_type_ok [of S JsonToJS "''''" v] by auto
  ultimately show ?thesis by (simp add: Price_fromJson_def cast_def transform_ref)
next
  case (Inr r)
  moreover from this have "price_json v" using price_type_ok [of S JsonToJS "''''" v] by auto
  ultimately show ?thesis
    by (auto simp: Price_fromJson_def cast_def transform_ref price_of_def price_fields [OF Inr])
qed

lemma PriceFeedMetadata_fromJson_iff:
  "PriceFeedMetadata_fromJson S v = Inr m \<longleftrightarrow>
     (if v = JUndefined then m = None else metadata_json v \<and> m = Some (metadata_of v))"
proof (cases "transform S JsonToJS metadata_type '''' v")
  case (Inl e)
  moreover from this have "\<not> metadata_json v" using metadata_type_ok [of S JsonToJS "''''" v] by auto
  ultimately show ?thesis by (auto simp: PriceFeedMetadata_fromJson_def cast_def transform_ref)
next
  case (Inr r)
  moreover from this have "metadata_json v" using metadata_type_ok [of S JsonToJS "''''" v] by auto
  ultimately show ?thesis
    by (auto simp: PriceFeedMetadata_fromJson_def cast_def transform_ref metadata_of_def metadata_fields [OF Inr])
qed

lemma feed_accepted:
  "PriceFeed_fromJson S v = Inr feed \<longleftrightarrow> feed_json v \<and> feed = feed_of v"
proof (cases "transform S JsonToJS price_feed_type '''' v")
  case (Inl e)
  moreover from this have "\<not> feed_json v" using feed_type_ok [of S JsonToJS "''''" v] by auto
  ultimately show ?thesis by (simp add: PriceFeed_fromJson_def cast_def transform_ref)
next
  case (Inr r)
  note f = feed_fields [OF Inr]
  have "feed_json v" using feed_type_ok [of S JsonToJS "''''" v] Inr by auto
  moreover have "PriceFeedMetadata_fromJson S (field r ''metadata'') =
      Inr (if field v ''metadata'' = JUndefined then None else Some (metadata_of (field v ''metadata'')))"
  proof -
    have "field r ''metadata'' \<noteq> JUndefined" if "metadata_json (field r ''metadata'')"
      using that by (auto simp: metadata_json_def is_object_def)
    then show ?thesis using f(5) by (simp add: PriceFeedMetadata_fromJson_iff split: if_splits)
  qed
  moreover have "Price_fromJson S (field r ''ema_price'') = Inr (price_of (field v ''ema_price''))"
    "Price_fromJson S (field r ''price'') = Inr (price_of (field v ''price''))"
    using f(1,2) by (simp_all add: Price_fromJson_iff)
  ultimately show ?thesis
    using Inr f(3,4) by (auto simp: PriceFeed_fromJson_def cast_def transform_ref feed_of_def)
qed

lemma feed_result:
  assumes "transform S d price_feed_type key v = Inr r"
  shows "feed_json r" and "feed_of r = feed_of v"
proof -
  have "is_object r"
    using assms unfolding price_feed_type_def by (rule transform_object_result [rotated]) (simp add: plain_props_def)
  moreover have "feed_json v" using assms feed_type_ok by blast
  moreover have "\<not> metadata_json JUndefined" by (simp add: metadata_json_def is_object_def)
  ultimately show "feed_json r" and "feed_of r = feed_of v"
    using feed_fields [OF assms] by (auto simp: feed_json_def feed_of_def optional_def split: if_splits)
qed

lemma field_literal: "field (JObj kvs) k = prop_of k kvs"
  by (simp add: field_def)

lemma prop_of_simps [simp]:
  "prop_of k [] = JUndefined" "prop_of k ((k', v) # kvs) = (if k = k' then v else prop_of k kvs)"
  by (auto simp: prop_of_def)

lemmas literal_simps = field_literal is_object_def is_string_def is_number_def optional_def typeof_def
  as_string_def as_number_def opt_string_def opt_number_def of_opt_def

lemma Price_toJson_ok: "\<exists>r. Price_toJson S p = Inr r \<and> price_json r \<and> price_of r = p"
proof -
  let ?v = "JObj [(''conf'', JStr (px_conf p)), (''expo'', JNum (px_expo p)), (''price'', JStr (px_price p)),
            (''publish_time'', JNum (px_publishTime p))]"
  have "price_json ?v" and "price_of ?v = p"
    by (simp_all add: price_json_def price_of_def literal_simps)
  then obtain r where r: "transform S JsToJSON price_type '''' ?v = Inr r"
    using price_type_ok by blast
  with price_result [OF r] \<open>price_of ?v = p\<close> show ?thesis
    by (simp add: Price_toJson_def uncast_def transform_ref)
qed

lemma PriceFeedMetadata_toJson_ok:
  "\<exists>r. PriceFeedMetadata_toJson S m = Inr r \<and> metadata_json r \<and> metadata_of r = m"
proof -
  let ?v = "JObj [(''attestation_time'', of_opt JNum (md_attestationTime m)), (''emitter_chain'', JNum (md_emitterChain m)),
      (''price_service_receive_time'', of_opt JNum (md_priceServiceReceiveTime m)),
      (''sequence_number'', of_opt JNum (md_sequenceNumber m)), (''slot'', of_opt JNum (md_slot m)),
      (''prev_publish_time'', of_opt JNum (md_prevPublishTime m))]"
  have opt: "of_opt JNum x = JUndefined \<or> typeof (of_opt JNum x) = T_number" "opt_number (of_opt JNum x) = x" for x
    by (cases x; simp add: literal_simps)+
  have "metadata_json ?v"
    using opt(1) by (simp add: metadata_json_def field_literal is_object_def is_number_def optional_def) (simp add: typeof_def)
  moreover have "metadata_of ?v = m"
    by (simp add: metadata_of_def field_literal opt(2)) (simp add: as_number_def)
  ultimately obtain r where r: "transform S JsToJSON metadata_type '''' ?v = Inr r" and "metadata_of ?v = m"
    using metadata_type_ok by blast
  with metadata_result [OF r] show ?thesis
    by (simp add: PriceFeedMetadata_toJson_def uncast_def transform_ref)
qed

text \<open>
  C19. \<^verbatim>\<open>PriceFeed.fromJson\<close> accepts exactly the objects of the documented shape, with any further
  fields and in any order, and reads from them the feed they describe; anything else is an error.
\<close>

theorem PriceFeed_fromJson_iff:
  "PriceFeed_fromJson S v = Inr feed \<longleftrightarrow> feed_json v \<and> feed = feed_of v"
  by (rule feed_accepted)

text \<open>
  Every feed converts to JSON that converts back to the same feed except for its VAA, which
  \<^verbatim>\<open>toJson\<close> leaves out.
\<close>

theorem PriceFeed_json_roundtrip:
  "\<exists>j. PriceFeed_toJson S feed = Inr j \<and> PriceFeed_fromJson S j = Inr (feed\<lparr>fd_vaa := None\<rparr>)"
proof -
  obtain ema where ema: "Price_toJson S (fd_emaPrice feed) = Inr ema" "price_json ema" "price_of ema = fd_emaPrice feed"
    using Price_toJson_ok by blast
  obtain price where price: "Price_toJson S (fd_price feed) = Inr price" "price_json price" "price_of price = fd_price feed"
    using Price_toJson_ok by blast
  obtain md where md: "(case fd_metadata feed of None \<Rightarrow> Inr JUndefined | Some m \<Rightarrow> PriceFeedMetadata_toJson S m) = Inr md"
      "optional metadata_json md" "(if md = JUndefined then None else Some (metadata_of md)) = fd_metadata feed"
  proof (cases "fd_metadata feed")
    case None
    then show thesis by (intro that [of JUndefined]) (simp_all add: optional_def)
  next
    case (Some m)
    obtain r where r: "PriceFeedMetadata_toJson S m = Inr r" "metadata_json r" "metadata_of r = m"
      using PriceFeedMetadata_toJson_ok by blast
    then show thesis using Some by (intro that [of r]) (auto simp: optional_def metadata_json_def is_object_def)
  qed
  let ?v = "JObj [(''ema_price'', ema), (''id'', JStr (fd_id feed)), (''metadata'', md), (''price'', price)]"
  have "feed_json ?v"
    using ema(2) price(2) md(2) by (simp add: feed_json_def field_literal is_object_def optional_def is_string_def typeof_def)
  moreover have "feed_of ?v = feed\<lparr>fd_vaa := None\<rparr>"
    using ema(3) price(3) md(3)
    by (cases feed) (auto simp: feed_of_def field_literal as_string_def opt_string_def split: if_splits)
  ultimately obtain r where r: "transform S JsToJSON price_feed_type '''' ?v = Inr r" "feed_of ?v = feed\<lparr>fd_vaa := None\<rparr>"
    using feed_type_ok by blast
  have "PriceFeed_fromJson S r = Inr (feed\<lparr>fd_vaa := None\<rparr>)" if "feed_json r" "feed_of r = feed\<lparr>fd_vaa := None\<rparr>"
    using that feed_accepted by simp
  with r feed_result [OF r(1)] ema(1) price(1) md(1) show ?thesis
    by (simp add: PriceFeed_toJson_def uncast_def transform_ref)
qed

section \<open>Staleness\<close>

text \<open>The rounding of \<^verbatim>\<open>now / 1000\<close> never moves the whole seconds.\<close>

lemma floor_seconds:
  assumes "0 \<le> n" and "n < 2 ^ 52"
  shows "js_floor (js_div (Fin (of_int n)) (Fin 1000)) = Fin (of_int (n div 1000))"
proof (cases "n = 0")
  case False
  define q where "q = (of_int n / 1000 :: rat)"
  have "(1 :: rat) \<le> of_int n" using assms(1) False by simp
  then have lo: "1 / 1000 \<le> q" by (simp add: q_def)
  have "(of_int n :: rat) < of_int (2 ^ 52)" using assms(2) by (simp only: of_int_less_iff)
  then have hi: "q < 2 ^ 52 / 1000" by (simp add: q_def)
  have "pow2 (- 1022) \<le> 1 / 1000" by (simp add: pow2_def)
  then obtain r where r: "round_double q = Fin r" "\<bar>r - q\<bar> \<le> q * pow2 (- 53)"
    using round_double_normal [of q] lo hi by (auto simp: field_simps)
  have "q * pow2 (- 53) < 1 / 2000" using hi by (simp add: pow2_def field_simps)
  with r(2) have near: "r - q < 1 / 2000" "q - r < 1 / 2000" by (simp_all add: abs_le_iff)
  define k m where "k = n div 1000" and "m = n mod 1000"
  have n: "n = 1000 * k + m" and m: "0 \<le> m" "m \<le> 999" by (simp_all add: k_def m_def)
  have qk: "q = of_int k + of_int m / 1000" by (simp add: q_def n field_simps)
  have "(of_int m :: rat) \<le> of_int 999" using m(2) by (simp only: of_int_le_iff)
  then have up: "r < of_int k + 1" using near(1) by (simp add: qk field_simps)
  have "of_int k \<le> r"
  proof (cases "m = 0")
    case True
    then have q: "q = of_int k" by (simp add: qk)
    have "\<bar>k\<bar> \<le> 2 ^ 53" using assms by (simp add: k_def)
    then have "r = of_int k" using r(1) of_integer_exact [of k] by (simp add: of_integer_def q)
    then show ?thesis by simp
  next
    case False
    then have "(of_int 1 :: rat) \<le> of_int m" using m(1) by (simp only: of_int_le_iff)
    then show ?thesis using near(2) by (simp add: qk field_simps)
  qed
  with up have "\<lfloor>r\<rfloor> = k" by (simp add: floor_unique)
  moreover have "js_div (Fin (of_int n)) (Fin 1000) = round_double q"
    using assms(1) by (simp add: js_div_def signed_def q_def)
  ultimately show ?thesis using r(1) by (simp add: k_def)
qed (simp add: js_div_def signed_def round_double_def)

text \<open>
  \<^verbatim>\<open>getPriceNoOlderThan\<close> returns the price exactly when its publish time is at most \<^verbatim>\<open>age\<close> seconds
  away, in the past or in the future, from the whole seconds of the current time; floating point
  rounding has no influence for times up to \<open>2\<^sup>5\<^sup>2\<close>.
\<close>

theorem getPriceNoOlderThan_exact:
  assumes "0 \<le> now" and "now < 2 ^ 52" and "px_publishTime (fd_price feed) = Fin (of_int t)" and "\<bar>t\<bar> \<le> 2 ^ 52"
  shows "getPriceNoOlderThan (Fin (of_int now)) (Fin age) feed =
    (if of_int \<bar>now div 1000 - t\<bar> \<le> age then Some (fd_price feed) else None)"
proof -
  have "now div 1000 \<le> now" and "0 \<le> now div 1000" using assms(1) by simp_all
  then have le: "\<bar>now div 1000 - t\<bar> \<le> 2 ^ 53"
    using assms(2,4) by (simp add: abs_le_iff)
  have "js_sub (Fin (of_int (now div 1000))) (Fin (of_int t)) = Fin (of_int (now div 1000 - t))"
    using of_integer_exact [OF le] by (cases "t = 0") (simp_all add: js_sub_def of_integer_def)
  then have "js_abs (js_sub (js_floor (js_div (Fin (of_int now)) (Fin 1000))) (px_publishTime (fd_price feed))) =
      Fin (of_int \<bar>now div 1000 - t\<bar>)"
    using assms by (simp add: floor_seconds)
  then show ?thesis
    unfolding getPriceNoOlderThan_def no_older_than_def Let_def by (simp add: not_less)
qed

definition sample_feed :: price_feed where
  "sample_feed = (let p = \<lparr>px_conf = ''1'', px_expo = Fin (- 8), px_price = ''7'', px_publishTime = Fin 1000\<rparr> in
     \<lparr>fd_emaPrice = p, fd_id = ''ab'', fd_metadata = None, fd_vaa = Some ''x'', fd_price = p\<rparr>)"

theorem getPriceNoOlderThan_exact_witness:
  "getPriceNoOlderThan (Fin 1060999) (Fin 60) sample_feed = Some (fd_price sample_feed) \<and>
   getPriceNoOlderThan (Fin 1061000) (Fin 60) sample_feed = None"
  using getPriceNoOlderThan_exact [of 1060999 sample_feed 1000 60]
    getPriceNoOlderThan_exact [of 1061000 sample_feed 1000 60]
  by (simp add: sample_feed_def Let_def)

end
