(* ===== verification/Price_Service.thy ===== *)
theory Price_Service
  imports Price_Feed Step_System
begin

text \<open>
  The subscriptions of the price service client (\<^verbatim>\<open>price_service/client/js/src/PriceServiceConnection.ts\<close>):
  the table of callbacks, the messages that subscribe and unsubscribe, the handler of server messages and
  the resubscription after a reconnect.  \<^verbatim>\<open>await wsClient.send(..)\<close> leaves the message in an outbox until
  the web socket is ready; which message leaves it, when the socket drops and when it is back are events
  of a step relation.  The HTTP requests of the class are not modelled.
\<close>

definition removeLeading0xIfExists :: "string \<Rightarrow> string" where
  "removeLeading0xIfExists i = (if take 2 i = ''0x'' then drop 2 i else i)"

text \<open>\<^verbatim>\<open>makeWebsocketUrl\<close>: \<open>parse\<close> is \<^verbatim>\<open>new URL("ws", endpoint)\<close>, which may throw, and \<open>with_protocol\<close> the
  assignment of \<^verbatim>\<open>url.protocol\<close> followed by \<^verbatim>\<open>toString\<close>.\<close>

definition makeWebsocketUrl ::
  "(string \<Rightarrow> 'url res) \<Rightarrow> ('url \<Rightarrow> string) \<Rightarrow> ('url \<Rightarrow> string \<Rightarrow> string) \<Rightarrow> string \<Rightarrow> string res" where
  "makeWebsocketUrl parse protocol with_protocol endpoint =
     res_bind (parse endpoint) (\<lambda>url. Inr (with_protocol url (if protocol url = ''https:'' then ''wss:'' else ''ws:'')))"

section \<open>State\<close>

record price_feed_request_config =
  rc_verbose :: "bool option"
  rc_binary :: "bool option"
  rc_allowOutOfOrder :: "bool option"

datatype client_message =
    SubscribeMessage "string list" price_feed_request_config
  | UnsubscribeMessage "string list"

text \<open>\<^verbatim>\<open>priceFeedCallbacks\<close> in insertion order, as \<^verbatim>\<open>Map\<close> and \<^verbatim>\<open>Set\<close> keep it; whether there is a
  \<^verbatim>\<open>wsClient\<close>; the messages whose \<^verbatim>\<open>send\<close> still waits.\<close>

record 'cb connection =
  cn_callbacks :: "(string \<times> 'cb list) list"
  cn_wsClient :: bool
  cn_outbox :: "client_message list"
  cn_config :: price_feed_request_config

definition new_connection :: "price_feed_request_config \<Rightarrow> 'cb connection" where
  "new_connection cfg = \<lparr>cn_callbacks = [], cn_wsClient = False, cn_outbox = [], cn_config = cfg\<rparr>"

section \<open>Operations\<close>

text \<open>The body of the loop of \<^verbatim>\<open>subscribePriceFeedUpdates\<close>: the table and \<^verbatim>\<open>newPriceIds\<close>.\<close>

definition subscribe_id ::
  "'cb \<Rightarrow> string \<Rightarrow> (string \<times> 'cb list) list \<times> string list \<Rightarrow> (string \<times> 'cb list) list \<times> string list" where
  "subscribe_id cb i st = (case st of (table, newPriceIds) \<Rightarrow>
     (case map_of table i of
        None \<Rightarrow> (table @ [(i, [cb])], newPriceIds @ [i])
      | Some cbs \<Rightarrow> (obj_set i (set_add cb cbs) table, newPriceIds)))"

definition subscribePriceFeedUpdates :: "string list \<Rightarrow> 'cb \<Rightarrow> 'cb connection \<Rightarrow> 'cb connection" where
  "subscribePriceFeedUpdates priceIds cb cn =
     (case fold (subscribe_id cb) (map removeLeading0xIfExists priceIds) (cn_callbacks cn, []) of
        (table, newPriceIds) \<Rightarrow>
          cn\<lparr>cn_wsClient := True, cn_callbacks := table,
             cn_outbox := cn_outbox cn @ [SubscribeMessage newPriceIds (cn_config cn)]\<rparr>)"

text \<open>The body of the loop of \<^verbatim>\<open>unsubscribePriceFeedUpdates\<close>: the table and \<^verbatim>\<open>removedPriceIds\<close>.\<close>

definition unsubscribe_id ::
  "'cb option \<Rightarrow> string \<Rightarrow> (string \<times> 'cb list) list \<times> string list \<Rightarrow> (string \<times> 'cb list) list \<times> string list" where
  "unsubscribe_id cb i st = (case st of (table, removedPriceIds) \<Rightarrow>
     (case map_of table i of
        None \<Rightarrow> (table, removedPriceIds)
      | Some cbs \<Rightarrow>
         (case cb of
            None \<Rightarrow> (filter (\<lambda>kv. fst kv \<noteq> i) table, removedPriceIds @ [i])
          | Some f \<Rightarrow>
              let cbs' = filter (\<lambda>g. g \<noteq> f) cbs in
              if cbs' = [] then (filter (\<lambda>kv. fst kv \<noteq> i) table, removedPriceIds @ [i])
              else (obj_set i cbs' table, removedPriceIds))))"

text \<open>Up to its \<^verbatim>\<open>await\<close> of \<^verbatim>\<open>send\<close>, and what follows it.\<close>

definition unsubscribePriceFeedUpdates :: "string list \<Rightarrow> 'cb option \<Rightarrow> 'cb connection \<Rightarrow> 'cb connection" where
  "unsubscribePriceFeedUpdates priceIds cb cn =
     (case fold (unsubscribe_id cb) (map removeLeading0xIfExists priceIds) (cn_callbacks cn, []) of
        (table, removedPriceIds) \<Rightarrow>
          cn\<lparr>cn_wsClient := True, cn_callbacks := table,
             cn_outbox := cn_outbox cn @ [UnsubscribeMessage removedPriceIds]\<rparr>)"

definition closeWebSocket :: "'cb connection \<Rightarrow> 'cb connection" where
  "closeWebSocket cn = cn\<lparr>cn_wsClient := False, cn_callbacks := [], cn_outbox := []\<rparr>"

definition unsubscribe_sent :: "'cb connection \<Rightarrow> 'cb connection" where
  "unsubscribe_sent cn = (if cn_callbacks cn = [] then closeWebSocket cn else cn)"

definition onReconnect :: "'cb connection \<Rightarrow> 'cb connection" where
  "onReconnect cn =
     (if cn_callbacks cn = [] then cn
      else cn\<lparr>cn_outbox := cn_outbox cn @ [SubscribeMessage (map fst (cn_callbacks cn)) (cn_config cn)]\<rparr>)"

section \<open>Server messages\<close>

datatype 'cb ws_outcome =
    CallbacksCalled "'cb list" price_feed
  | OnWsError js_error
  | Ignored
  | Thrown js_error

text \<open>
  \<^verbatim>\<open>wsClient.onMessage\<close>: \<open>parse\<close> is \<^verbatim>\<open>JSON.parse\<close> of the text of a message and \<open>String\<close> the conversion
  that \<^verbatim>\<open>new Error(..)\<close> applies to its argument.  Reading \<^verbatim>\<open>type\<close> of \<^verbatim>\<open>null\<close> throws.
\<close>

definition onMessage ::
  "stringify \<Rightarrow> (string \<Rightarrow> json res) \<Rightarrow> (json \<Rightarrow> string) \<Rightarrow> 'cb connection \<Rightarrow> string \<Rightarrow> 'cb ws_outcome" where
  "onMessage S parse String cn data =
     (case parse data of
        Inl e \<Rightarrow> OnWsError e
      | Inr message \<Rightarrow>
          if message = JNull then Thrown TypeError
          else if field message ''type'' = JStr ''response'' then
            (if field message ''status'' = JStr ''error''
             then OnWsError (Error (String (field message ''error''))) else Ignored)
          else if field message ''type'' = JStr ''price_update'' then
            (case PriceFeed_fromJson S (field message ''price_feed'') of
               Inl e \<Rightarrow> OnWsError e
             | Inr priceFeed \<Rightarrow>
                 (case map_of (cn_callbacks cn) (fd_id priceFeed) of
                    None \<Rightarrow> Ignored
                  | Some cbs \<Rightarrow> CallbacksCalled cbs priceFeed))
          else Ignored)"

section \<open>Runs\<close>

text \<open>
  The client together with its link to the server and the ids the server has for it.  A call puts its
  message into the outbox; \<open>Sent k\<close> delivers the one at position \<open>k\<close>.  When the socket drops, the
  server forgets, and of the waiting messages only those that \<open>keep\<close> marks survive: the others find no
  web socket when they wake up, and their calls go on as if they had been sent.  Once it is open again,
  waiting messages may be sent before \<^verbatim>\<open>onReconnect\<close> runs.
\<close>

datatype link = Closed | Connecting | Ready | Lost | Reopened

record 'cb world =
  wl_client :: "'cb connection"
  wl_link :: link
  wl_server :: "string set"

datatype 'cb conn_event =
    Subscribe "string list" 'cb
  | Unsubscribe "string list" "'cb option"
  | Opened
  | Sent nat
  | Dropped "bool list"
  | Reopen
  | Reconnected

fun serve :: "client_message \<Rightarrow> string set \<Rightarrow> string set" where
  "serve (SubscribeMessage ids _) s = s \<union> set ids"
| "serve (UnsubscribeMessage ids) s = s - set ids"

definition is_unsubscribe :: "client_message \<Rightarrow> bool" where
  "is_unsubscribe m = (case m of UnsubscribeMessage _ \<Rightarrow> True | _ \<Rightarrow> False)"

text \<open>A call creates the web socket when there is none; closing it ends the link.\<close>

definition link_after_call :: "'cb world \<Rightarrow> link" where
  "link_after_call w = (if cn_wsClient (wl_client w) then wl_link w else Connecting)"

definition link_if_open :: "'cb connection \<Rightarrow> link \<Rightarrow> link" where
  "link_if_open c l = (if cn_wsClient c then l else Closed)"

definition kept :: "bool list \<Rightarrow> 'a list \<Rightarrow> 'a list" where
  "kept keep ms = map snd (filter fst (zip keep ms))"

definition called :: "'cb connection \<Rightarrow> 'cb world \<Rightarrow> 'cb world" where
  "called c w = \<lparr>wl_client = c, wl_link = link_after_call w,
     wl_server = (if cn_wsClient (wl_client w) then wl_server w else {})\<rparr>"

definition deliver :: "nat \<Rightarrow> 'cb world \<Rightarrow> 'cb world" where
  "deliver k w =
     (let c = wl_client w; m = cn_outbox c ! k;
          c' = c\<lparr>cn_outbox := take k (cn_outbox c) @ drop (Suc k) (cn_outbox c)\<rparr>;
          c'' = (if is_unsubscribe m then unsubscribe_sent c' else c') in
      \<lparr>wl_client = c'', wl_link = link_if_open c'' (wl_link w), wl_server = serve m (wl_server w)\<rparr>)"

definition drop_link :: "bool list \<Rightarrow> 'cb world \<Rightarrow> 'cb world" where
  "drop_link keep w =
     (let c = wl_client w; c' = c\<lparr>cn_outbox := kept keep (cn_outbox c)\<rparr>;
          c'' = (if \<exists>m \<in> set (cn_outbox c). is_unsubscribe m \<and> m \<notin> set (cn_outbox c') then unsubscribe_sent c' else c') in
      \<lparr>wl_client = c'', wl_link = link_if_open c'' Lost, wl_server = {}\<rparr>)"

inductive conn_step :: "'cb world \<Rightarrow> 'cb conn_event \<Rightarrow> 'cb world \<Rightarrow> bool" where
  subscribe: "conn_step w (Subscribe ids cb) (called (subscribePriceFeedUpdates ids cb (wl_client w)) w)"
| unsubscribe: "conn_step w (Unsubscribe ids cb) (called (unsubscribePriceFeedUpdates ids cb (wl_client w)) w)"
| opened: "wl_link w = Connecting \<Longrightarrow> conn_step w Opened (w\<lparr>wl_link := Ready\<rparr>)"
| sent: "wl_link w = Ready \<or> wl_link w = Reopened \<Longrightarrow> k < length (cn_outbox (wl_client w)) \<Longrightarrow>
    conn_step w (Sent k) (deliver k w)"
| dropped: "wl_link w \<noteq> Closed \<Longrightarrow> wl_link w \<noteq> Lost \<Longrightarrow> conn_step w (Dropped keep) (drop_link keep w)"
| reopen: "wl_link w = Lost \<Longrightarrow> conn_step w Reopen (w\<lparr>wl_link := Reopened\<rparr>)"
| reconnected: "wl_link w = Reopened \<Longrightarrow>
    conn_step w Reconnected (w\<lparr>wl_client := onReconnect (wl_client w), wl_link := Ready\<rparr>)"

inductive_simps conn_step_simps [simp]:
  "conn_step w (Subscribe ids cb) w'" "conn_step w (Unsubscribe ids f) w'" "conn_step w Opened w'"
  "conn_step w (Sent k) w'" "conn_step w (Dropped keep) w'" "conn_step w Reopen w'" "conn_step w Reconnected w'"

definition new_world :: "price_feed_request_config \<Rightarrow> 'cb world" where
  "new_world cfg = \<lparr>wl_client = new_connection cfg, wl_link = Closed, wl_server = {}\<rparr>"

section \<open>The table of callbacks\<close>

definition table_ok :: "(string \<times> 'cb list) list \<Rightarrow> bool" where
  "table_ok t \<longleftrightarrow> distinct (map fst t) \<and> (\<forall>kv \<in> set t. snd kv \<noteq> [] \<and> distinct (snd kv))"

text \<open>Who is subscribed to what.\<close>

definition subscribers :: "(string \<times> 'cb list) list \<Rightarrow> (string \<times> 'cb) set" where
  "subscribers t = {(i, cb). \<exists>cbs. map_of t i = Some cbs \<and> cb \<in> set cbs}"

lemma obj_set_ok: "table_ok t \<Longrightarrow> v \<noteq> [] \<Longrightarrow> distinct v \<Longrightarrow> table_ok (obj_set k v t)"
  using obj_set_subset [of k v t] by (auto simp: table_ok_def map_fst_obj_set)

lemma filter_ok: "table_ok t \<Longrightarrow> table_ok (filter P t)"
  by (auto simp: table_ok_def distinct_map_filter)

lemma map_of_filter_key: "map_of (filter (\<lambda>kv. fst kv \<noteq> i) t) j = (if j = i then None else map_of t j)"
  by (induction t) auto

lemma table_ok_value: "table_ok t \<Longrightarrow> map_of t i = Some cbs \<Longrightarrow> cbs \<noteq> [] \<and> distinct cbs"
  by (auto simp: table_ok_def dest!: map_of_SomeD)

lemma keys_map_of: "i \<in> fst ` set t \<longleftrightarrow> map_of t i \<noteq> None"
  by (simp add: map_of_eq_None_iff)

lemma subscribe_id_step:
  assumes "table_ok t"
  shows "table_ok (fst (subscribe_id cb i (t, n)))"
    and "subscribers (fst (subscribe_id cb i (t, n))) = subscribers t \<union> {(i, cb)}"
    and "fst ` set (fst (subscribe_id cb i (t, n))) = fst ` set t \<union> {i}"
    and "set (snd (subscribe_id cb i (t, n))) = set n \<union> ({i} - fst ` set t)"
proof -
  have "table_ok (fst (subscribe_id cb i (t, n))) \<and>
    subscribers (fst (subscribe_id cb i (t, n))) = subscribers t \<union> {(i, cb)} \<and>
    fst ` set (fst (subscribe_id cb i (t, n))) = fst ` set t \<union> {i} \<and>
    set (snd (subscribe_id cb i (t, n))) = set n \<union> ({i} - fst ` set t)"
  proof (cases "map_of t i")
    case None
    then have new: "i \<notin> fst ` set t" by (simp add: map_of_eq_None_iff)
    have "map_of (t @ [(i, [cb])]) j = (if j = i then Some [cb] else map_of t j)" for j
      using None by (auto simp: map_add_def split: option.split)
    then have "subscribers (t @ [(i, [cb])]) = subscribers t \<union> {(i, cb)}"
      using None by (auto simp: subscribers_def simp del: map_of_append split: if_splits)
    moreover have "table_ok (t @ [(i, [cb])])"
      using assms new by (auto simp: table_ok_def image_iff)
    ultimately show ?thesis using None new by (simp add: subscribe_id_def) blast
  next
    case (Some cbs)
    then have old: "i \<in> fst ` set t" by (metis keys_map_of option.distinct(1))
    have "table_ok (obj_set i (set_add cb cbs) t)"
      using table_ok_value [OF assms Some] assms by (auto simp: set_add_def intro!: obj_set_ok)
    moreover have "subscribers (obj_set i (set_add cb cbs) t) = subscribers t \<union> {(i, cb)}"
      using Some by (auto simp: subscribers_def map_of_obj_set set_add_def split: if_splits)
    ultimately show ?thesis using Some old by (auto simp: subscribe_id_def fst_obj_set)
  qed
  then show "table_ok (fst (subscribe_id cb i (t, n)))"
    and "subscribers (fst (subscribe_id cb i (t, n))) = subscribers t \<union> {(i, cb)}"
    and "fst ` set (fst (subscribe_id cb i (t, n))) = fst ` set t \<union> {i}"
    and "set (snd (subscribe_id cb i (t, n))) = set n \<union> ({i} - fst ` set t)" by simp_all
qed

lemma subscribe_fold:
  assumes "table_ok t"
  shows "table_ok (fst (fold (subscribe_id cb) ids (t, n))) \<and>
    subscribers (fst (fold (subscribe_id cb) ids (t, n))) = subscribers t \<union> set ids \<times> {cb} \<and>
    fst ` set (fst (fold (subscribe_id cb) ids (t, n))) = fst ` set t \<union> set ids \<and>
    set (snd (fold (subscribe_id cb) ids (t, n))) = set n \<union> (set ids - fst ` set t)"
  using assms
proof (induction ids arbitrary: t n)
  case (Cons i ids)
  note st = subscribe_id_step [OF Cons.prems, of cb i n]
  obtain t' n' where tn: "subscribe_id cb i (t, n) = (t', n')" by (cases "subscribe_id cb i (t, n)")
  have "table_ok t'" using st(1) tn by simp
  from Cons.IH [OF this, of n'] st tn show ?case by auto
qed auto

lemma unsubscribe_id_step:
  assumes "table_ok t"
  shows "table_ok (fst (unsubscribe_id cb i (t, n)))"
    and "subscribers (fst (unsubscribe_id cb i (t, n))) =
      subscribers t - {i} \<times> (case cb of None \<Rightarrow> UNIV | Some f \<Rightarrow> {f})"
    and "\<exists>r. r \<subseteq> {i} \<inter> fst ` set t \<and> fst ` set (fst (unsubscribe_id cb i (t, n))) = fst ` set t - r \<and>
      set (snd (unsubscribe_id cb i (t, n))) = set n \<union> r"
proof -
  let ?t = "filter (\<lambda>kv. fst kv \<noteq> i) t"
  have keys: "fst ` set ?t = fst ` set t - {i}" by auto
  have sub: "subscribers ?t = subscribers t - {i} \<times> UNIV"
    by (auto simp: subscribers_def map_of_filter_key split: if_splits)
  have "table_ok (fst (unsubscribe_id cb i (t, n))) \<and>
    subscribers (fst (unsubscribe_id cb i (t, n))) =
      subscribers t - {i} \<times> (case cb of None \<Rightarrow> UNIV | Some f \<Rightarrow> {f}) \<and>
    (\<exists>r. r \<subseteq> {i} \<inter> fst ` set t \<and> fst ` set (fst (unsubscribe_id cb i (t, n))) = fst ` set t - r \<and>
      set (snd (unsubscribe_id cb i (t, n))) = set n \<union> r)"
  proof (cases "map_of t i")
    case None
    then show ?thesis using assms
      by (auto simp: unsubscribe_id_def subscribers_def intro!: exI [of _ "{}"])
  next
    case cbs: (Some cbs)
    then have old: "i \<in> fst ` set t" by (metis keys_map_of option.distinct(1))
    have removed: ?thesis if "unsubscribe_id cb i (t, n) = (?t, n @ [i])"
        and "subscribers t - {i} \<times> UNIV = subscribers t - {i} \<times> (case cb of None \<Rightarrow> UNIV | Some f \<Rightarrow> {f})"
      using that sub keys old filter_ok [OF assms] by (auto intro!: exI [of _ "{i}"])
    show ?thesis
    proof (cases cb)
      case None
      then show ?thesis using cbs by (intro removed) (simp_all add: unsubscribe_id_def)
    next
      case (Some f)
      let ?cbs = "filter (\<lambda>g. g \<noteq> f) cbs"
      show ?thesis
      proof (cases "?cbs = []")
        case True
        then have "set cbs \<subseteq> {f}" by (auto simp: filter_empty_conv)
        then show ?thesis
          using cbs Some True by (intro removed) (auto simp: unsubscribe_id_def subscribers_def)
      next
        case False
        have "table_ok (obj_set i ?cbs t)"
          using False table_ok_value [OF assms cbs] assms by (intro obj_set_ok) auto
        moreover have "subscribers (obj_set i ?cbs t) = subscribers t - {i} \<times> {f}"
          using cbs by (auto simp: subscribers_def map_of_obj_set split: if_splits)
        ultimately show ?thesis
          using cbs Some False old by (auto simp: unsubscribe_id_def fst_obj_set Let_def intro!: exI [of _ "{}"])
      qed
    qed
  qed
  then show "table_ok (fst (unsubscribe_id cb i (t, n)))"
    and "subscribers (fst (unsubscribe_id cb i (t, n))) =
      subscribers t - {i} \<times> (case cb of None \<Rightarrow> UNIV | Some f \<Rightarrow> {f})"
    and "\<exists>r. r \<subseteq> {i} \<inter> fst ` set t \<and> fst ` set (fst (unsubscribe_id cb i (t, n))) = fst ` set t - r \<and>
      set (snd (unsubscribe_id cb i (t, n))) = set n \<union> r" by blast+
qed

lemma unsubscribe_fold:
  assumes "table_ok t"
  shows "table_ok (fst (fold (unsubscribe_id cb) ids (t, n))) \<and>
    subscribers (fst (fold (unsubscribe_id cb) ids (t, n))) =
      subscribers t - set ids \<times> (case cb of None \<Rightarrow> UNIV | Some f \<Rightarrow> {f}) \<and>
    (\<exists>r. r \<subseteq> fst ` set t \<and> fst ` set (fst (fold (unsubscribe_id cb) ids (t, n))) = fst ` set t - r \<and>
      set (snd (fold (unsubscribe_id cb) ids (t, n))) = set n \<union> r)"
  using assms
proof (induction ids arbitrary: t n)
  case (Cons i ids)
  note st = unsubscribe_id_step [OF Cons.prems, where cb = cb and i = i and n = n]
  obtain t' n' where tn: "unsubscribe_id cb i (t, n) = (t', n')" by (cases "unsubscribe_id cb i (t, n)")
  have ok: "table_ok t'" using st(1) tn by simp
  obtain r where r: "r \<subseteq> fst ` set t" "fst ` set t' = fst ` set t - r" "set n' = set n \<union> r"
    using st(3) tn by auto
  note ih = Cons.IH [OF ok, of n']
  obtain r' where r': "r' \<subseteq> fst ` set t'" "fst ` set (fst (fold (unsubscribe_id cb) ids (t', n'))) = fst ` set t' - r'"
      "set (snd (fold (unsubscribe_id cb) ids (t', n'))) = set n' \<union> r'"
    using ih by blast
  have "subscribers (fst (fold (unsubscribe_id cb) (i # ids) (t, n))) =
      subscribers t - set (i # ids) \<times> (case cb of None \<Rightarrow> UNIV | Some f \<Rightarrow> {f})"
    using ih st(2) tn by auto
  moreover have "\<exists>r. r \<subseteq> fst ` set t \<and>
      fst ` set (fst (fold (unsubscribe_id cb) (i # ids) (t, n))) = fst ` set t - r \<and>
      set (snd (fold (unsubscribe_id cb) (i # ids) (t, n))) = set n \<union> r"
    using r r' tn by (intro exI [of _ "r \<union> r'"]) auto
  ultimately show ?case using ih tn by simp
qed auto

text \<open>
  C18. Subscribing and unsubscribing act on the set of pairs of feed and callback: a call adds its
  callback to each of its feeds, or removes it (without a callback: all of them) from each, and nothing
  else, whatever prefix \<^verbatim>\<open>0x\<close> the ids have.
\<close>

theorem subscriptions_refine:
  assumes "table_ok (cn_callbacks cn)"
  shows "table_ok (cn_callbacks (subscribePriceFeedUpdates ids cb cn)) \<and>
    table_ok (cn_callbacks (unsubscribePriceFeedUpdates ids f cn)) \<and>
    subscribers (cn_callbacks (subscribePriceFeedUpdates ids cb cn)) =
      subscribers (cn_callbacks cn) \<union> (removeLeading0xIfExists ` set ids) \<times> {cb} \<and>
    subscribers (cn_callbacks (unsubscribePriceFeedUpdates ids f cn)) =
      subscribers (cn_callbacks cn) -
        (removeLeading0xIfExists ` set ids) \<times> (case f of None \<Rightarrow> UNIV | Some g \<Rightarrow> {g})"
  using subscribe_fold [OF assms, of cb "map removeLeading0xIfExists ids" "[]"]
    unsubscribe_fold [OF assms, of f "map removeLeading0xIfExists ids" "[]"]
  by (simp add: subscribePriceFeedUpdates_def unsubscribePriceFeedUpdates_def case_prod_unfold)

text \<open>
  A price update of a feed goes to every subscriber of that feed, once each, and to no one else;
  every other message of the server reaches no callback.
\<close>

theorem onMessage_dispatches:
  assumes "table_ok (cn_callbacks cn)"
  shows "(onMessage S parse String cn data = CallbacksCalled cbs feed \<longrightarrow>
      distinct cbs \<and> set cbs = {cb. (fd_id feed, cb) \<in> subscribers (cn_callbacks cn)} \<and>
      (\<exists>m. parse data = Inr m \<and> field m ''type'' = JStr ''price_update'' \<and>
        feed_json (field m ''price_feed'') \<and> feed = feed_of (field m ''price_feed''))) \<and>
    (\<forall>m. parse data = Inr m \<and> field m ''type'' = JStr ''price_update'' \<and> feed_json (field m ''price_feed'') \<and>
       (fd_id (feed_of (field m ''price_feed'')), cb) \<in> subscribers (cn_callbacks cn) \<longrightarrow>
       (\<exists>called. onMessage S parse String cn data = CallbacksCalled called (feed_of (field m ''price_feed'')) \<and>
          cb \<in> set called))"
proof (intro conjI impI allI)
  assume called: "onMessage S parse String cn data = CallbacksCalled cbs feed"
  then obtain m where m: "parse data = Inr m" "field m ''type'' = JStr ''price_update''"
      "PriceFeed_fromJson S (field m ''price_feed'') = Inr feed" "map_of (cn_callbacks cn) (fd_id feed) = Some cbs"
    by (auto simp: onMessage_def split: sum.splits if_splits option.splits)
  from table_ok_value [OF assms m(4)] show "distinct cbs" by simp
  show "set cbs = {cb. (fd_id feed, cb) \<in> subscribers (cn_callbacks cn)}" using m(4) by (simp add: subscribers_def)
  show "\<exists>m. parse data = Inr m \<and> field m ''type'' = JStr ''price_update'' \<and>
      feed_json (field m ''price_feed'') \<and> feed = feed_of (field m ''price_feed'')"
    using m(1-3) by (auto simp: feed_accepted)
next
  fix m
  assume m: "parse data = Inr m \<and> field m ''type'' = JStr ''price_update'' \<and> feed_json (field m ''price_feed'') \<and>
       (fd_id (feed_of (field m ''price_feed'')), cb) \<in> subscribers (cn_callbacks cn)"
  then have "PriceFeed_fromJson S (field m ''price_feed'') = Inr (feed_of (field m ''price_feed''))"
    by (simp add: feed_accepted)
  moreover have "m \<noteq> JNull" using m by (auto simp: field_def)
  ultimately show "\<exists>called. onMessage S parse String cn data = CallbacksCalled called (feed_of (field m ''price_feed'')) \<and>
      cb \<in> set called"
    using m by (auto simp: onMessage_def subscribers_def)
qed

section \<open>What the server knows\<close>

definition keys :: "'cb connection \<Rightarrow> string set" where
  "keys cn = fst ` set (cn_callbacks cn)"

text \<open>The subscriptions of the server once it has received the waiting messages, in order.\<close>

definition pending :: "'cb world \<Rightarrow> string set" where
  "pending w = fold serve (cn_outbox (wl_client w)) (wl_server w)"

definition world_ok :: "'cb world \<Rightarrow> bool" where
  "world_ok w \<longleftrightarrow> table_ok (cn_callbacks (wl_client w)) \<and>
     (cn_wsClient (wl_client w) \<longleftrightarrow> wl_link w \<noteq> Closed) \<and>
     (wl_link w = Closed \<longrightarrow> cn_callbacks (wl_client w) = [] \<and> cn_outbox (wl_client w) = []) \<and>
     (wl_link w = Connecting \<or> wl_link w = Ready \<longrightarrow> keys (wl_client w) \<subseteq> pending w)"

definition in_order :: "'cb conn_event \<Rightarrow> bool" where
  "in_order e = (case e of Sent k \<Rightarrow> k = 0 | _ \<Rightarrow> True)"

lemma subscribe_keys:
  assumes "table_ok (cn_callbacks cn)"
  shows "\<exists>new. cn_outbox (subscribePriceFeedUpdates ids cb cn) = cn_outbox cn @ [SubscribeMessage new (cn_config cn)] \<and>
    keys (subscribePriceFeedUpdates ids cb cn) = keys cn \<union> set new"
  using subscribe_fold [OF assms, of cb "map removeLeading0xIfExists ids" "[]"]
  by (auto simp: subscribePriceFeedUpdates_def keys_def case_prod_unfold)

lemma unsubscribe_keys:
  assumes "table_ok (cn_callbacks cn)"
  shows "\<exists>removed. cn_outbox (unsubscribePriceFeedUpdates ids f cn) = cn_outbox cn @ [UnsubscribeMessage removed] \<and>
    keys (unsubscribePriceFeedUpdates ids f cn) = keys cn - set removed"
  using unsubscribe_fold [OF assms, of f "map removeLeading0xIfExists ids" "[]"]
  by (auto simp: unsubscribePriceFeedUpdates_def keys_def case_prod_unfold)

lemma call_table_ok:
  assumes "table_ok (cn_callbacks cn)"
  shows "table_ok (cn_callbacks (subscribePriceFeedUpdates ids cb cn))"
    and "table_ok (cn_callbacks (unsubscribePriceFeedUpdates ids f cn))"
  using subscribe_fold [OF assms, of cb "map removeLeading0xIfExists ids" "[]"]
    unsubscribe_fold [OF assms, of f "map removeLeading0xIfExists ids" "[]"]
  by (simp_all add: subscribePriceFeedUpdates_def unsubscribePriceFeedUpdates_def case_prod_unfold)

lemma call_wsClient [simp]:
  "cn_wsClient (subscribePriceFeedUpdates ids cb cn)" "cn_wsClient (unsubscribePriceFeedUpdates ids f cn)"
  by (simp_all add: subscribePriceFeedUpdates_def unsubscribePriceFeedUpdates_def split: prod.split)

lemma unsubscribe_sent_simps [simp]:
  "cn_wsClient (unsubscribe_sent c) \<longleftrightarrow> cn_wsClient c \<and> cn_callbacks c \<noteq> []"
  "cn_callbacks (unsubscribe_sent c) = cn_callbacks c"
  "cn_outbox (unsubscribe_sent c) = (if cn_callbacks c = [] then [] else cn_outbox c)"
  by (auto simp: unsubscribe_sent_def closeWebSocket_def)

lemma onReconnect_simps [simp]:
  "cn_wsClient (onReconnect c) = cn_wsClient c" "cn_callbacks (onReconnect c) = cn_callbacks c"
  by (auto simp: onReconnect_def)

lemma called_simps [simp]:
  "wl_client (called c w) = c" "wl_link (called c w) = link_after_call w"
  by (simp_all add: called_def)

text \<open>What a relation of keys and pending subscriptions needs to survive a call.\<close>

lemma call_keeps:
  assumes ok: "world_ok w"
    and add: "\<And>K P N. R K P \<Longrightarrow> R (K \<union> N) (P \<union> N)" and del: "\<And>K P N. R K P \<Longrightarrow> R (K - N) (P - N)"
    and rel: "wl_link w = Connecting \<or> wl_link w = Ready \<Longrightarrow> R (keys (wl_client w)) (pending w)"
    and empty: "R {} {}" and l: "link_after_call w = Connecting \<or> link_after_call w = Ready"
  shows "R (keys (subscribePriceFeedUpdates ids cb (wl_client w)))
      (pending (called (subscribePriceFeedUpdates ids cb (wl_client w)) w))"
    and "R (keys (unsubscribePriceFeedUpdates ids f (wl_client w)))
      (pending (called (unsubscribePriceFeedUpdates ids f (wl_client w)) w))"
proof -
  let ?c = "wl_client w" and ?S = "if cn_wsClient (wl_client w) then wl_server w else {}"
  have t: "table_ok (cn_callbacks ?c)" using ok by (simp add: world_ok_def)
  have base: "R (keys ?c) (fold serve (cn_outbox ?c) ?S)"
  proof (cases "cn_wsClient ?c")
    case True
    then show ?thesis using rel l by (auto simp: link_after_call_def pending_def)
  next
    case False
    then show ?thesis using ok empty by (simp add: world_ok_def keys_def)
  qed
  from subscribe_keys [OF t, of ids cb] add [OF base]
  show "R (keys (subscribePriceFeedUpdates ids cb ?c)) (pending (called (subscribePriceFeedUpdates ids cb ?c) w))"
    by (auto simp: pending_def called_def)
  from unsubscribe_keys [OF t, of ids f] del [OF base]
  show "R (keys (unsubscribePriceFeedUpdates ids f ?c)) (pending (called (unsubscribePriceFeedUpdates ids f ?c) w))"
    by (auto simp: pending_def called_def)
qed

lemma call_world_ok:
  assumes "world_ok w"
  shows "world_ok (called (subscribePriceFeedUpdates ids cb (wl_client w)) w)"
    and "world_ok (called (unsubscribePriceFeedUpdates ids f (wl_client w)) w)"
proof -
  have t: "table_ok (cn_callbacks (wl_client w))" using assms by (simp add: world_ok_def)
  have rel: "keys (wl_client w) \<subseteq> pending w" if "wl_link w = Connecting \<or> wl_link w = Ready"
    using that assms by (simp add: world_ok_def)
  have open_: "link_after_call w \<noteq> Closed" using assms by (auto simp: link_after_call_def world_ok_def)
  have "keys (subscribePriceFeedUpdates ids cb (wl_client w)) \<subseteq>
        pending (called (subscribePriceFeedUpdates ids cb (wl_client w)) w)"
      "keys (unsubscribePriceFeedUpdates ids f (wl_client w)) \<subseteq>
        pending (called (unsubscribePriceFeedUpdates ids f (wl_client w)) w)"
      if "link_after_call w = Connecting \<or> link_after_call w = Ready"
    by (rule call_keeps [where R = "(\<subseteq>)", OF assms _ _ rel _ that]; blast)+
  with open_ call_table_ok [OF t]
  show "world_ok (called (subscribePriceFeedUpdates ids cb (wl_client w)) w)"
    and "world_ok (called (unsubscribePriceFeedUpdates ids f (wl_client w)) w)"
    by (simp_all add: world_ok_def)
qed

lemma deliver_in_order:
  assumes "0 < length (cn_outbox (wl_client w))"
  shows "cn_callbacks (wl_client (deliver 0 w)) = cn_callbacks (wl_client w)"
    and "wl_link (deliver 0 w) = link_if_open (wl_client (deliver 0 w)) (wl_link w)"
    and "\<not> cn_wsClient (wl_client (deliver 0 w)) \<Longrightarrow> cn_wsClient (wl_client w) \<Longrightarrow>
      cn_callbacks (wl_client w) = [] \<and> cn_outbox (wl_client (deliver 0 w)) = []"
    and "cn_wsClient (wl_client (deliver 0 w)) \<Longrightarrow> pending (deliver 0 w) = pending w"
  using assms by (cases "cn_outbox (wl_client w)"; auto simp: deliver_def Let_def pending_def split: if_splits)+

interpretation link_client: step_invariant conn_step in_order world_ok
proof
  fix w w' :: "'cb world" and e
  assume step: "conn_step w e w'" and ord: "in_order e" and ok: "world_ok w"
  from step show "world_ok w'"
  proof cases
    case (subscribe ids cb)
    show ?thesis unfolding subscribe by (rule call_world_ok(1) [OF ok])
  next
    case (unsubscribe ids f)
    show ?thesis unfolding unsubscribe by (rule call_world_ok(2) [OF ok])
  next
    case opened
    then show ?thesis using ok by (auto simp: world_ok_def pending_def)
  next
    case (sent k)
    then have k: "k = 0" using ord by (simp add: in_order_def)
    then show ?thesis
      using ok sent deliver_in_order [of w]
      by (auto simp: world_ok_def link_if_open_def keys_def split: if_splits)
  next
    case (dropped keep)
    then show ?thesis using ok by (auto simp: world_ok_def drop_link_def Let_def link_if_open_def)
  next
    case reopen
    then show ?thesis using ok by (auto simp: world_ok_def)
  next
    case reconnected
    then show ?thesis using ok by (auto simp: world_ok_def onReconnect_def pending_def keys_def)
  qed
qed

text \<open>As long as the connection never drops, the server will know the keys exactly.\<close>

definition undisturbed :: "'cb conn_event \<Rightarrow> bool" where
  "undisturbed e \<longleftrightarrow> in_order e \<and> (case e of Dropped _ \<Rightarrow> False | _ \<Rightarrow> True)"

definition world_exact :: "'cb world \<Rightarrow> bool" where
  "world_exact w \<longleftrightarrow> world_ok w \<and> wl_link w \<noteq> Lost \<and> wl_link w \<noteq> Reopened \<and>
     (wl_link w \<noteq> Closed \<longrightarrow> pending w = keys (wl_client w))"

interpretation steady_link: step_invariant conn_step undisturbed world_exact
proof
  fix w w' :: "'cb world" and e
  assume step: "conn_step w e w'" and und: "undisturbed e" and ex: "world_exact w"
  have ok: "world_ok w" using ex by (simp add: world_exact_def)
  have "in_order e" using und by (simp add: undisturbed_def)
  then have ok': "world_ok w'" by (rule link_client.step_keeps [OF step _ ok])
  have rel: "pending w = keys (wl_client w)" if "wl_link w = Connecting \<or> wl_link w = Ready"
    using ex that by (auto simp: world_exact_def)
  have l: "link_after_call w = Connecting \<or> link_after_call w = Ready"
    using ex by (cases "wl_link w") (auto simp: world_exact_def world_ok_def link_after_call_def)
  have call: "keys (subscribePriceFeedUpdates ids cb (wl_client w)) =
        pending (called (subscribePriceFeedUpdates ids cb (wl_client w)) w)"
      "keys (unsubscribePriceFeedUpdates ids f (wl_client w)) =
        pending (called (unsubscribePriceFeedUpdates ids f (wl_client w)) w)" for ids cb f
    by (rule call_keeps [where R = "(=)", OF ok _ _ rel [symmetric] _ l]; blast)+
  from step show "world_exact w'"
  proof cases
    case (subscribe ids cb)
    then show ?thesis using ok' l call(1) [of ids cb] by (auto simp: world_exact_def)
  next
    case (unsubscribe ids f)
    then show ?thesis using ok' l call(2) [of ids f] by (auto simp: world_exact_def)
  next
    case opened
    then show ?thesis using ok' rel by (auto simp: world_exact_def pending_def)
  next
    case (sent k)
    then have k: "k = 0" using und by (simp add: undisturbed_def in_order_def)
    then show ?thesis
      using ok' ex sent deliver_in_order [of w]
      by (auto simp: world_exact_def link_if_open_def keys_def split: if_splits)
  next
    case dropped
    then show ?thesis using und by (simp add: undisturbed_def)
  next
    case reopen
    then show ?thesis using ex by (simp add: world_exact_def)
  next
    case reconnected
    then show ?thesis using ex by (simp add: world_exact_def)
  qed
qed

lemma new_world_exact: "world_exact (new_world cfg)"
  by (simp add: world_exact_def world_ok_def new_world_def new_connection_def table_ok_def)

text \<open>
  C17. Whenever the connection is up, and however often it dropped before and whichever waiting messages
  were lost with it, the server has every feed that some callback waits for, or a message that
  subscribes it is on its way; if it never dropped, the server will have exactly those feeds.  This
  holds as long as waiting messages are sent in the order of the calls.
\<close>

theorem subscriptions_reach_server:
  assumes "step_run conn_step (new_world cfg) es w" and "\<forall>e \<in> set es. in_order e" and "wl_link w = Ready"
  shows "fst ` set (cn_callbacks (wl_client w)) \<subseteq> fold serve (cn_outbox (wl_client w)) (wl_server w) \<and>
    ((\<forall>keep. Dropped keep \<notin> set es) \<longrightarrow>
      fold serve (cn_outbox (wl_client w)) (wl_server w) = fst ` set (cn_callbacks (wl_client w)))"
proof
  have "world_ok (new_world cfg)" using new_world_exact [of cfg] unfolding world_exact_def by blast
  then have "world_ok w" by (rule link_client.run_keeps [OF assms(1,2)])
  then show "fst ` set (cn_callbacks (wl_client w)) \<subseteq> fold serve (cn_outbox (wl_client w)) (wl_server w)"
    using assms(3) by (simp add: world_ok_def keys_def pending_def)
  show "(\<forall>keep. Dropped keep \<notin> set es) \<longrightarrow>
      fold serve (cn_outbox (wl_client w)) (wl_server w) = fst ` set (cn_callbacks (wl_client w))"
  proof
    assume "\<forall>keep. Dropped keep \<notin> set es"
    then have "\<forall>e \<in> set es. undisturbed e" using assms(2) by (auto simp: undisturbed_def split: conn_event.split)
    then have "world_exact w" by (rule steady_link.run_keeps [OF assms(1) _ new_world_exact])
    then show "fold serve (cn_outbox (wl_client w)) (wl_server w) = fst ` set (cn_callbacks (wl_client w))"
      using assms(3) by (simp add: world_exact_def keys_def pending_def)
  qed
qed

text \<open>
  The order matters: of two waiting messages the later one can leave first, because each
  \<^verbatim>\<open>send\<close> polls on its own whether the socket is open.  A feed that is unsubscribed and subscribed again while
  the socket opens can end up with a callback and nothing on the server or under way.
\<close>

theorem overtaken_message_loses_feed:
  "\<exists>w. step_run conn_step (new_world cfg)
      [Subscribe [''a'', ''b''] cb, Unsubscribe [''a''] None, Opened, Subscribe [''a''] cb, Sent 2, Sent 0, Sent 0] w \<and>
    wl_link w = Ready \<and> (''a'', cb) \<in> subscribers (cn_callbacks (wl_client w)) \<and>
    cn_outbox (wl_client w) = [] \<and> wl_server w = {''b''}"
proof -
  let ?W = "\<lambda>cbs ob l sv. \<lparr>wl_client = \<lparr>cn_callbacks = cbs, cn_wsClient = True, cn_outbox = ob, cn_config = cfg\<rparr>,
    wl_link = l, wl_server = sv\<rparr>"
  let ?ab = "SubscribeMessage [''a'', ''b''] cfg" and ?u = "UnsubscribeMessage [''a'']" and ?a = "SubscribeMessage [''a''] cfg"
  let ?t = "[(''b'', [cb]), (''a'', [cb])]"
  note defs = new_world_def new_connection_def called_def link_after_call_def removeLeading0xIfExists_def
  have "conn_step (new_world cfg) (Subscribe [''a'', ''b''] cb) (?W [(''a'', [cb]), (''b'', [cb])] [?ab] Connecting {})"
    by (simp add: defs subscribePriceFeedUpdates_def subscribe_id_def)
  moreover have "conn_step (?W [(''a'', [cb]), (''b'', [cb])] [?ab] Connecting {}) (Unsubscribe [''a''] None)
      (?W [(''b'', [cb])] [?ab, ?u] Connecting {})"
    by (simp add: defs unsubscribePriceFeedUpdates_def unsubscribe_id_def)
  moreover have "conn_step (?W [(''b'', [cb])] [?ab, ?u] Connecting {}) Opened (?W [(''b'', [cb])] [?ab, ?u] Ready {})"
    by simp
  moreover have "conn_step (?W [(''b'', [cb])] [?ab, ?u] Ready {}) (Subscribe [''a''] cb) (?W ?t [?ab, ?u, ?a] Ready {})"
    by (simp add: defs subscribePriceFeedUpdates_def subscribe_id_def)
  moreover have "conn_step (?W ?t [?ab, ?u, ?a] Ready {}) (Sent 2) (?W ?t [?ab, ?u] Ready {''a''})"
    by (simp add: deliver_def is_unsubscribe_def link_if_open_def)
  moreover have "conn_step (?W ?t [?ab, ?u] Ready {''a''}) (Sent 0) (?W ?t [?u] Ready {''a'', ''b''})"
    by (simp add: deliver_def is_unsubscribe_def link_if_open_def insert_commute)
  moreover have "conn_step (?W ?t [?u] Ready {''a'', ''b''}) (Sent 0) (?W ?t [] Ready {''b''})"
    by (simp add: deliver_def is_unsubscribe_def link_if_open_def unsubscribe_sent_def insert_Diff_if)
  ultimately have run: "step_run conn_step (new_world cfg)
      [Subscribe [''a'', ''b''] cb, Unsubscribe [''a''] None, Opened, Subscribe [''a''] cb, Sent 2, Sent 0, Sent 0]
      (?W ?t [] Ready {''b''})"
    by - ((rule step_run.run_Cons, assumption)+, rule step_run.run_Nil)
  show ?thesis by (intro exI conjI, rule run) (simp_all add: subscribers_def)
qed

section \<open>Witnesses\<close>

definition sample_request_config :: price_feed_request_config where
  "sample_request_config = \<lparr>rc_verbose = None, rc_binary = None, rc_allowOutOfOrder = None\<rparr>"

definition sample_connection :: "nat connection" where
  "sample_connection = (new_connection sample_request_config)\<lparr>cn_callbacks := [(''ab'', [1, 2])]\<rparr>"

lemma sample_connection_ok: "table_ok (cn_callbacks sample_connection)"
  by (simp add: sample_connection_def new_connection_def table_ok_def)

theorem subscriptions_refine_witness:
  "subscribers (cn_callbacks (unsubscribePriceFeedUpdates [''0xab''] (Some 1) sample_connection)) = {(''ab'', 2)}"
proof -
  have "subscribers (cn_callbacks sample_connection) = {(''ab'', 1), (''ab'', 2)}"
    by (auto simp: subscribers_def sample_connection_def new_connection_def split: if_splits)
  then show ?thesis
    using subscriptions_refine [OF sample_connection_ok, of "[''0xab'']" 0 "Some 1"]
    by (auto simp: removeLeading0xIfExists_def)
qed

definition sample_message :: json where
  "sample_message = (let p = JObj [(''conf'', JStr ''1''), (''expo'', JNum (Fin 0)), (''price'', JStr ''7''),
        (''publish_time'', JNum (Fin 5))] in
     JObj [(''type'', JStr ''price_update''),
       (''price_feed'', JObj [(''id'', JStr ''ab''), (''price'', p), (''ema_price'', p)])])"

theorem onMessage_dispatches_witness:
  "\<exists>called. onMessage \<lparr>sf_type = (\<lambda>_. ''''), sf_value = (\<lambda>_. '''')\<rparr> (\<lambda>_. Inr sample_message) (\<lambda>_. '''')
     sample_connection ''m'' = CallbacksCalled called (feed_of (field sample_message ''price_feed'')) \<and> 2 \<in> set called"
proof -
  have "feed_json (field sample_message ''price_feed'')" "field sample_message ''type'' = JStr ''price_update''"
      "fd_id (feed_of (field sample_message ''price_feed'')) = ''ab''"
    by (simp_all add: sample_message_def Let_def feed_json_def price_json_def feed_of_def literal_simps)
  moreover have "(''ab'', 2) \<in> subscribers (cn_callbacks sample_connection)"
    by (simp add: subscribers_def sample_connection_def)
  ultimately show ?thesis
    using onMessage_dispatches [OF sample_connection_ok, where S = "\<lparr>sf_type = (\<lambda>_. ''''), sf_value = (\<lambda>_. '''')\<rparr>"
        and parse = "\<lambda>_. Inr sample_message" and String = "\<lambda>_. ''''" and data = "''m''" and cb = 2]
    by simp
qed

theorem subscriptions_reach_server_witness:
  "fold serve [SubscribeMessage [''ab''] sample_request_config] {} = {''ab''}"
proof -
  have "step_run conn_step (new_world sample_request_config) [Subscribe [''ab''] (1 :: nat), Opened]
      \<lparr>wl_client = \<lparr>cn_callbacks = [(''ab'', [1])], cn_wsClient = True,
         cn_outbox = [SubscribeMessage [''ab''] sample_request_config], cn_config = sample_request_config\<rparr>,
       wl_link = Ready, wl_server = {}\<rparr>"
    by (simp add: new_world_def new_connection_def called_def link_after_call_def subscribePriceFeedUpdates_def
        removeLeading0xIfExists_def subscribe_id_def)
  from subscriptions_reach_server [OF this] show ?thesis by (simp add: in_order_def)
qed

end
