(* ===== verification/Web_Socket.thy ===== *)
theory Web_Socket
  imports Step_System
begin

text \<open>
  The reconnecting web socket (\<^verbatim>\<open>price_service/client/js/src/ResillientWebSocket.ts\<close>) as a step relation.
  The events are the calls of its user, what happens to the sockets it has created, and the ends of its
  timers.  Sockets are numbered in the order of their creation.  The client runs in Node, where pings are
  handled.
\<close>

definition PING_TIMEOUT_DURATION :: nat where "PING_TIMEOUT_DURATION = 30000 + 3000"

definition expoBackoff :: "nat \<Rightarrow> nat" where
  "expoBackoff attempts = 2 ^ attempts * 100"

section \<open>State\<close>

text \<open>A socket connects or is open (\<open>Live\<close>), has been told to close, or has reported that it closed.\<close>

datatype socket_state = Live bool | Closing | Gone

text \<open>\<open>rw_restarts\<close> are the waiting times of the close handlers that sleep before they restart the client;
  \<open>rw_pingTimer\<close> tells whether a ping timer runs.\<close>

record resilient_ws =
  rw_wsClient :: "nat option"
  rw_wsUserClosed :: bool
  rw_wsFailedAttempts :: nat
  rw_pingTimer :: bool
  rw_restarts :: "nat list"
  rw_sockets :: "socket_state list"

definition new_ws :: resilient_ws where
  "new_ws = \<lparr>rw_wsClient = None, rw_wsUserClosed = True, rw_wsFailedAttempts = 0, rw_pingTimer = False,
     rw_restarts = [], rw_sockets = []\<rparr>"

section \<open>Operations and handlers\<close>

definition startWebSocket :: "resilient_ws \<Rightarrow> resilient_ws" where
  "startWebSocket s =
     (case rw_wsClient s of
        Some _ \<Rightarrow> s
      | None \<Rightarrow> s\<lparr>rw_wsClient := Some (length (rw_sockets s)), rw_wsUserClosed := False,
                 rw_sockets := rw_sockets s @ [Live False]\<rparr>)"

definition restartUnexpectedClosedWebsocket :: "resilient_ws \<Rightarrow> resilient_ws" where
  "restartUnexpectedClosedWebsocket s = (if rw_wsUserClosed s then s else startWebSocket s)"

definition heartbeat :: "resilient_ws \<Rightarrow> resilient_ws" where
  "heartbeat s = s\<lparr>rw_pingTimer := True\<rparr>"

definition on_open :: "nat \<Rightarrow> resilient_ws \<Rightarrow> resilient_ws" where
  "on_open n s = heartbeat (s\<lparr>rw_sockets := (rw_sockets s)[n := Live True], rw_wsFailedAttempts := 0\<rparr>)"

definition on_close :: "nat \<Rightarrow> resilient_ws \<Rightarrow> resilient_ws" where
  "on_close n s =
     (let s = s\<lparr>rw_sockets := (rw_sockets s)[n := Gone], rw_pingTimer := False\<rparr> in
      if rw_wsUserClosed s then s
      else s\<lparr>rw_wsFailedAttempts := Suc (rw_wsFailedAttempts s), rw_wsClient := None,
             rw_restarts := rw_restarts s @ [expoBackoff (Suc (rw_wsFailedAttempts s))]\<rparr>)"

definition tell_to_close :: "nat option \<Rightarrow> resilient_ws \<Rightarrow> resilient_ws" where
  "tell_to_close c s = (case c of
     None \<Rightarrow> s
   | Some n \<Rightarrow> (case rw_sockets s ! n of
        Live _ \<Rightarrow> s\<lparr>rw_sockets := (rw_sockets s)[n := Closing]\<rparr> | _ \<Rightarrow> s))"

definition on_ping_timeout :: "resilient_ws \<Rightarrow> resilient_ws" where
  "on_ping_timeout s =
     restartUnexpectedClosedWebsocket (tell_to_close (rw_wsClient s) (s\<lparr>rw_pingTimer := False\<rparr>))"

definition closeWebSocket :: "resilient_ws \<Rightarrow> resilient_ws" where
  "closeWebSocket s =
     (tell_to_close (rw_wsClient s) s)\<lparr>rw_wsClient := None, rw_wsUserClosed := True\<rparr>"

text \<open>
  \<^verbatim>\<open>waitForMaybeReadyWebSocket\<close>: \<open>obs t\<close> is what the loop finds after having waited \<open>t\<close> milliseconds, no
  client (\<open>None\<close>) or whether it is open.  The result is the time waited and whether the client was closed.
\<close>

function wait_ready :: "(nat \<Rightarrow> bool option) \<Rightarrow> nat \<Rightarrow> nat \<times> bool" where
  "wait_ready obs waitedTime =
     (if obs waitedTime = Some False
      then (if 5000 < waitedTime then (waitedTime, True) else wait_ready obs (waitedTime + 10))
      else (waitedTime, False))"
  by pat_completeness auto
termination
  by (relation "measure (\<lambda>(obs, t). 5011 - t)") auto

declare wait_ready.simps [simp del]

section \<open>Runs\<close>

datatype ws_event = StartCalled | CloseCalled | SocketOpened nat | Ping nat | SocketClosed nat | PingTimeout | Woken

inductive ws_step :: "resilient_ws \<Rightarrow> ws_event \<Rightarrow> resilient_ws \<Rightarrow> bool" where
  start: "ws_step s StartCalled (startWebSocket s)"
| close: "ws_step s CloseCalled (closeWebSocket s)"
| opened: "n < length (rw_sockets s) \<Longrightarrow> rw_sockets s ! n = Live False \<Longrightarrow> ws_step s (SocketOpened n) (on_open n s)"
| ping: "n < length (rw_sockets s) \<Longrightarrow> rw_sockets s ! n = Live True \<Longrightarrow> ws_step s (Ping n) (heartbeat s)"
| closed: "n < length (rw_sockets s) \<Longrightarrow> rw_sockets s ! n \<noteq> Gone \<Longrightarrow> ws_step s (SocketClosed n) (on_close n s)"
| timed_out: "rw_pingTimer s \<Longrightarrow> ws_step s PingTimeout (on_ping_timeout s)"
| woken: "rw_restarts s = t # ts \<Longrightarrow>
    ws_step s Woken (restartUnexpectedClosedWebsocket (s\<lparr>rw_restarts := ts\<rparr>))"

inductive_simps ws_step_simps [simp]:
  "ws_step s StartCalled s'" "ws_step s CloseCalled s'" "ws_step s (SocketOpened n) s'" "ws_step s (Ping n) s'"
  "ws_step s (SocketClosed n) s'" "ws_step s PingTimeout s'" "ws_step s Woken s'"

section \<open>One connection at a time\<close>

text \<open>The sockets that can still deliver messages.\<close>

definition live_sockets :: "resilient_ws \<Rightarrow> nat set" where
  "live_sockets s = {n. n < length (rw_sockets s) \<and> (\<exists>b. rw_sockets s ! n = Live b)}"

text \<open>The sockets that have not reported that they closed.\<close>

definition not_gone :: "socket_state list \<Rightarrow> nat set" where
  "not_gone ss = {n. n < length ss \<and> ss ! n \<noteq> Gone}"

lemma not_gone_append: "x \<noteq> Gone \<Longrightarrow> not_gone (ss @ [x]) = insert (length ss) (not_gone ss)"
  by (auto simp: not_gone_def nth_append less_Suc_eq)

lemma not_gone_same: "n \<in> not_gone ss \<Longrightarrow> x \<noteq> Gone \<Longrightarrow> not_gone (ss[n := x]) = not_gone ss"
  by (auto simp: not_gone_def nth_list_update)

lemma not_gone_close: "not_gone (ss[n := Gone]) = not_gone ss - {n}"
  by (cases "n < length ss") (auto simp: not_gone_def nth_list_update split: if_splits)

text \<open>Each of them is the current client.\<close>

definition only_client :: "resilient_ws \<Rightarrow> bool" where
  "only_client s \<longleftrightarrow> not_gone (rw_sockets s) \<subseteq> set_option (rw_wsClient s) \<and>
     set_option (rw_wsClient s) \<subseteq> {..<length (rw_sockets s)} \<and> (rw_wsUserClosed s \<longrightarrow> rw_sockets s = [])"

lemma only_client_cong:
  assumes "only_client s" and "rw_wsClient s' = rw_wsClient s" and "rw_wsUserClosed s' = rw_wsUserClosed s"
    and "length (rw_sockets s') = length (rw_sockets s)" and "not_gone (rw_sockets s') = not_gone (rw_sockets s)"
  shows "only_client s'"
proof -
  have "rw_sockets s' = [] \<longleftrightarrow> rw_sockets s = []" using assms(4) by (metis length_0_conv)
  with assms show ?thesis unfolding only_client_def by simp
qed

lemma only_client_start: "only_client s \<Longrightarrow> only_client (startWebSocket s)"
  by (cases "rw_wsClient s") (simp_all add: only_client_def startWebSocket_def not_gone_append)

lemma only_client_restart: "only_client s \<Longrightarrow> only_client (restartUnexpectedClosedWebsocket s)"
  by (simp add: restartUnexpectedClosedWebsocket_def only_client_start)

lemma only_client_tell:
  assumes "only_client s"
  shows "only_client (tell_to_close (rw_wsClient s) s)"
proof (cases "rw_wsClient s")
  case (Some n)
  show ?thesis
  proof (cases "rw_sockets s ! n")
    case (Live b)
    then have "n \<in> not_gone (rw_sockets s)" using assms Some by (simp add: only_client_def not_gone_def)
    then show ?thesis
      using Some Live by (intro only_client_cong [OF assms]) (simp_all add: tell_to_close_def not_gone_same)
  qed (use assms Some in \<open>simp_all add: tell_to_close_def\<close>)
qed (use assms in \<open>simp add: tell_to_close_def\<close>)

interpretation single_client: step_invariant ws_step "\<lambda>e. e \<noteq> CloseCalled" only_client
proof
  fix s e s'
  assume "ws_step s e s'" and "e \<noteq> CloseCalled" and ok: "only_client s"
  then show "only_client s'"
  proof cases
    case start
    then show ?thesis using only_client_start [OF ok] by simp
  next
    case (opened n)
    then have "n \<in> not_gone (rw_sockets s)" by (simp add: not_gone_def)
    then show ?thesis unfolding opened
      by (intro only_client_cong [OF ok]) (simp_all add: on_open_def heartbeat_def not_gone_same)
  next
    case (ping n)
    show ?thesis unfolding ping by (intro only_client_cong [OF ok]) (simp_all add: heartbeat_def)
  next
    case (closed n)
    then have "n \<in> not_gone (rw_sockets s)" by (simp add: not_gone_def)
    with ok have "rw_wsClient s = Some n" and "\<not> rw_wsUserClosed s"
      by (auto simp: only_client_def not_gone_def)
    then show ?thesis
      using ok unfolding closed by (simp add: only_client_def on_close_def not_gone_close)
  next
    case timed_out
    have "only_client (s\<lparr>rw_pingTimer := False\<rparr>)" by (intro only_client_cong [OF ok]) simp_all
    from only_client_tell [OF this] show ?thesis
      unfolding timed_out on_ping_timeout_def by (intro only_client_restart) simp
  next
    case (woken t ts)
    have "only_client (s\<lparr>rw_restarts := ts\<rparr>)" by (intro only_client_cong [OF ok]) simp_all
    then show ?thesis unfolding woken by (rule only_client_restart)
  qed simp
qed

text \<open>
  C34. Until its user closes it, the client has at most one socket that has not closed, whatever drops,
  pings, time-outs and restarts overlap.
\<close>

theorem resilient_ws_single:
  assumes "step_run ws_step new_ws es s" and "CloseCalled \<notin> set es"
  shows "\<forall>m < length (rw_sockets s). \<forall>n < length (rw_sockets s).
    rw_sockets s ! m \<noteq> Gone \<and> rw_sockets s ! n \<noteq> Gone \<longrightarrow> m = n \<and> rw_wsClient s = Some n"
proof -
  have "only_client new_ws" by (simp add: only_client_def new_ws_def not_gone_def)
  then have "only_client s" using single_client.run_keeps [OF assms(1)] assms(2) by blast
  then have "n \<in> not_gone (rw_sockets s) \<Longrightarrow> rw_wsClient s = Some n" for n
    unfolding only_client_def by (cases "rw_wsClient s") auto
  then have client: "rw_wsClient s = Some n" if "n < length (rw_sockets s)" "rw_sockets s ! n \<noteq> Gone" for n
    using that by (simp add: not_gone_def)
  show ?thesis using client by (metis option.inject)
qed

text \<open>
  A client that is closed and started again before the old socket has reported that it closed loses
  track of its new socket: the report clears \<^verbatim>\<open>wsClient\<close>, and the restart after it creates a further
  socket beside the live one.
\<close>

theorem resilient_ws_two_sockets:
  "\<exists>s. step_run ws_step new_ws
      [StartCalled, SocketOpened 0, CloseCalled, StartCalled, SocketOpened 1, SocketClosed 0, Woken] s \<and>
    live_sockets s = {1, 2} \<and> rw_wsClient s = Some 2"
proof -
  let ?s = "\<lparr>rw_wsClient = Some 2, rw_wsUserClosed = False, rw_wsFailedAttempts = 1, rw_pingTimer = False,
    rw_restarts = [], rw_sockets = [Gone, Live True, Live False]\<rparr>"
  have "step_run ws_step new_ws
      [StartCalled, SocketOpened 0, CloseCalled, StartCalled, SocketOpened 1, SocketClosed 0, Woken] ?s"
    by (simp add: new_ws_def startWebSocket_def on_open_def heartbeat_def closeWebSocket_def tell_to_close_def
        on_close_def restartUnexpectedClosedWebsocket_def)
  moreover have "live_sockets ?s = {1, 2}"
    by (auto simp: live_sockets_def less_Suc_eq numeral_3_eq_3)
  ultimately show ?thesis by (intro exI [of _ ?s] conjI) (assumption | simp)+
qed

definition waited_ok :: "(nat \<Rightarrow> bool option) \<Rightarrow> nat \<Rightarrow> nat \<times> bool \<Rightarrow> bool" where
  "waited_ok obs w r \<longleftrightarrow> w \<le> fst r \<and> fst r \<le> 5010 \<and> 10 dvd fst r \<and>
     (\<forall>u. w \<le> u \<and> u < fst r \<and> 10 dvd u \<longrightarrow> obs u = Some False) \<and>
     (snd r \<longleftrightarrow> obs (fst r) = Some False) \<and> (snd r \<longrightarrow> fst r = 5010)"

lemma next_multiple: "10 dvd w \<Longrightarrow> 10 dvd u \<Longrightarrow> w < u \<Longrightarrow> w + 10 \<le> (u :: nat)"
  by (elim dvdE) simp

lemma wait_ready_from:
  "10 dvd w \<Longrightarrow> w \<le> 5010 \<Longrightarrow> waited_ok obs w (wait_ready obs w)"
proof (induction obs w rule: wait_ready.induct)
  case (1 obs w)
  show ?case
  proof (cases "obs w = Some False \<and> w \<le> 5000")
    case True
    then have eq: "wait_ready obs w = wait_ready obs (w + 10)" by (subst wait_ready.simps) simp
    have "10 dvd w + 10" using 1(2) by simp
    moreover have "\<not> 5000 < w" and "w + 10 \<le> 5010" using True by simp_all
    ultimately have ih: "waited_ok obs (w + 10) (wait_ready obs (w + 10))" using 1(1) True by blast
    have "obs u = Some False" if "w \<le> u" "u < fst (wait_ready obs (w + 10))" "10 dvd u" for u
    proof (cases "u = w")
      case False
      then have "w + 10 \<le> u" using that 1(2) by (intro next_multiple) simp_all
      then show ?thesis using ih that unfolding waited_ok_def by blast
    qed (use True in simp)
    moreover have "w \<le> fst (wait_ready obs (w + 10))" using ih unfolding waited_ok_def by linarith
    ultimately show ?thesis using ih unfolding waited_ok_def eq by blast
  next
    case False
    have "w = 5010" if "5000 < w" using next_multiple [of 5000 w] 1(2,3) that by simp
    with False 1(2,3) show ?thesis by (subst wait_ready.simps) (auto simp: waited_ok_def)
  qed
qed

text \<open>
  Waiting for the socket ends within 5010 milliseconds: either the loop saw the socket open or gone, after
  a multiple of 10 milliseconds, or it found it not open all the time and closes it.
\<close>

theorem wait_ready_ends:
  "case wait_ready obs 0 of (t, closed) \<Rightarrow>
     t \<le> 5010 \<and> 10 dvd t \<and> (\<forall>u. u < t \<and> 10 dvd u \<longrightarrow> obs u = Some False) \<and>
     (closed \<longleftrightarrow> obs t = Some False) \<and> (closed \<longrightarrow> t = 5010)"
  using wait_ready_from [OF dvd_0_right le0, of obs] le0 unfolding waited_ok_def case_prod_unfold by blast

section \<open>Witnesses\<close>

theorem resilient_ws_single_witness:
  "rw_wsClient (startWebSocket new_ws) = Some 0"
  using resilient_ws_single [of "[StartCalled]" "startWebSocket new_ws"] by (simp add: new_ws_def startWebSocket_def)


theorem wait_ready_ends_witness: "wait_ready (\<lambda>_. Some False) 0 = (5010, True)"
  using wait_ready_ends [of "\<lambda>_. Some False"] by (auto split: prod.splits)

end
