(* ===== verification/Rate_Limiter.thy ===== *)
theory Rate_Limiter
  imports Step_System
begin

text \<open>
  The sliding-window rate limiter of the developer hub (\<^verbatim>\<open>apps/developer-hub/src/lib/rate-limiter.ts\<close>):
  a table of the times of the granted requests of each client, and a periodic clean-up.  Times are the
  whole milliseconds of \<^verbatim>\<open>Date.now()\<close>, which the caller passes in.
\<close>

section \<open>State and operations\<close>

record rate_limit_result =
  rr_allowed :: bool
  rr_remaining :: int
  rr_resetIn :: int

record rate_limiter_config =
  rc_windowMs :: int
  rc_maxRequests :: int

definition DEFAULT_CONFIG :: rate_limiter_config where
  "DEFAULT_CONFIG = \<lparr>rc_windowMs = 60 * 1000, rc_maxRequests = 5\<rparr>"

definition CLEANUP_INTERVAL_MS :: int where "CLEANUP_INTERVAL_MS = 5 * 60 * 1000"

text \<open>\<^verbatim>\<open>rateLimitStore\<close>, and the window that the clean-up uses once it has been started.\<close>

record limiter =
  rl_store :: "string \<rightharpoonup> int list"
  rl_cleanup :: "int option"

definition new_limiter :: limiter where
  "new_limiter = \<lparr>rl_store = Map.empty, rl_cleanup = None\<rparr>"

definition startCleanup :: "int \<Rightarrow> limiter \<Rightarrow> limiter" where
  "startCleanup windowMs s = (case rl_cleanup s of None \<Rightarrow> s\<lparr>rl_cleanup := Some windowMs\<rparr> | Some _ \<Rightarrow> s)"

definition in_window :: "int \<Rightarrow> int \<Rightarrow> int list \<Rightarrow> int list" where
  "in_window now windowMs timestamps = filter (\<lambda>timestamp. now - timestamp < windowMs) timestamps"

text \<open>The callback of the interval timer.\<close>

definition cleanup :: "int \<Rightarrow> int \<Rightarrow> limiter \<Rightarrow> limiter" where
  "cleanup now windowMs s = s\<lparr>rl_store := (\<lambda>key.
     case rl_store s key of
       None \<Rightarrow> None
     | Some timestamps \<Rightarrow>
         if in_window now windowMs timestamps = [] then None else Some (in_window now windowMs timestamps))\<rparr>"

definition reset_in :: "int \<Rightarrow> int \<Rightarrow> int list \<Rightarrow> int" where
  "reset_in now windowMs timestamps =
     (case timestamps of [] \<Rightarrow> windowMs | first # _ \<Rightarrow> windowMs - (now - first))"

definition checkRateLimit ::
  "int \<Rightarrow> string \<Rightarrow> rate_limiter_config \<Rightarrow> limiter \<Rightarrow> rate_limit_result \<times> limiter" where
  "checkRateLimit now identifier config s =
     (let windowMs = rc_windowMs config; maxRequests = rc_maxRequests config;
          s = startCleanup windowMs s;
          entry = (case rl_store s identifier of None \<Rightarrow> [] | Some timestamps \<Rightarrow> timestamps);
          timestamps = in_window now windowMs entry in
      if int (length timestamps) < maxRequests
        then let timestamps = timestamps @ [now] in
          (\<lparr>rr_allowed = True, rr_remaining = maxRequests - int (length timestamps),
            rr_resetIn = reset_in now windowMs timestamps\<rparr>,
           s\<lparr>rl_store := (rl_store s)(identifier \<mapsto> timestamps)\<rparr>)
        else
          (\<lparr>rr_allowed = False, rr_remaining = 0, rr_resetIn = reset_in now windowMs timestamps\<rparr>,
           s\<lparr>rl_store := (rl_store s)(identifier \<mapsto> timestamps)\<rparr>))"

definition resetRateLimit :: "string \<Rightarrow> limiter \<Rightarrow> limiter" where
  "resetRateLimit identifier s = s\<lparr>rl_store := (rl_store s)(identifier := None)\<rparr>"

text \<open>A first timestamp of 0 counts as missing here (\<^verbatim>\<open>oldestTimestamp ? ..\<close>).\<close>

definition getRateLimitStatus :: "int \<Rightarrow> string \<Rightarrow> rate_limiter_config \<Rightarrow> limiter \<Rightarrow> rate_limit_result" where
  "getRateLimitStatus now identifier config s =
     (let windowMs = rc_windowMs config; maxRequests = rc_maxRequests config in
      case rl_store s identifier of
        None \<Rightarrow> \<lparr>rr_allowed = True, rr_remaining = maxRequests, rr_resetIn = windowMs\<rparr>
      | Some timestamps \<Rightarrow>
          let validTimestamps = in_window now windowMs timestamps;
              remaining = max 0 (maxRequests - int (length validTimestamps)) in
          \<lparr>rr_allowed = 0 < remaining, rr_remaining = remaining,
           rr_resetIn = (case validTimestamps of [] \<Rightarrow> windowMs
             | oldest # _ \<Rightarrow> if oldest = 0 then windowMs else windowMs - (now - oldest))\<rparr>)"

section \<open>Runs\<close>

text \<open>
  The limiter with the time of the last event and, for the specification, the times of the requests it has
  granted to each client.
\<close>

record limiter_run =
  lr_limiter :: limiter
  lr_now :: int
  lr_granted :: "string \<Rightarrow> int list"

datatype limiter_event = Check int string rate_limiter_config | Tick int | Status int string rate_limiter_config

definition check_run :: "int \<Rightarrow> string \<Rightarrow> rate_limiter_config \<Rightarrow> limiter_run \<Rightarrow> limiter_run" where
  "check_run now i cfg r =
     (case checkRateLimit now i cfg (lr_limiter r) of (res, s) \<Rightarrow>
        \<lparr>lr_limiter = s, lr_now = now,
         lr_granted = (if rr_allowed res then (lr_granted r)(i := lr_granted r i @ [now]) else lr_granted r)\<rparr>)"

inductive limiter_step :: "limiter_run \<Rightarrow> limiter_event \<Rightarrow> limiter_run \<Rightarrow> bool" where
  check: "lr_now r \<le> now \<Longrightarrow> limiter_step r (Check now i cfg) (check_run now i cfg r)"
| tick: "lr_now r \<le> now \<Longrightarrow> rl_cleanup (lr_limiter r) = Some w \<Longrightarrow>
    limiter_step r (Tick now) (r\<lparr>lr_limiter := cleanup now w (lr_limiter r), lr_now := now\<rparr>)"
| status: "lr_now r \<le> now \<Longrightarrow> limiter_step r (Status now i cfg) (r\<lparr>lr_now := now\<rparr>)"

inductive_simps limiter_step_simps [simp]:
  "limiter_step r (Check now i cfg) r'" "limiter_step r (Tick now) r'" "limiter_step r (Status now i cfg) r'"

definition new_run :: "int \<Rightarrow> limiter_run" where
  "new_run t = \<lparr>lr_limiter = new_limiter, lr_now = t, lr_granted = (\<lambda>_. [])\<rparr>"

section \<open>The bound\<close>

definition stored :: "limiter \<Rightarrow> string \<Rightarrow> int list" where
  "stored s i = (case rl_store s i of None \<Rightarrow> [] | Some ts \<Rightarrow> ts)"

text \<open>
  What holds of a run in which every check uses \<open>cfg\<close>: the table agrees with the granted requests inside the
  window, and no window holds more than the allowed number of granted requests.
\<close>

definition run_ok :: "rate_limiter_config \<Rightarrow> limiter_run \<Rightarrow> bool" where
  "run_ok cfg r \<longleftrightarrow>
     (\<forall>i. in_window (lr_now r) (rc_windowMs cfg) (stored (lr_limiter r) i) =
            in_window (lr_now r) (rc_windowMs cfg) (lr_granted r i)) \<and>
     (\<forall>i. \<forall>t \<in> set (lr_granted r i). t \<le> lr_now r) \<and>
     (\<forall>i t. int (length (filter (\<lambda>x. t - rc_windowMs cfg < x \<and> x \<le> t) (lr_granted r i))) \<le> max 0 (rc_maxRequests cfg)) \<and>
     (rl_cleanup (lr_limiter r) = None \<or> rl_cleanup (lr_limiter r) = Some (rc_windowMs cfg))"

lemma in_window_later: "t \<le> now \<Longrightarrow> in_window now w (in_window t w ts) = in_window now w ts"
  by (auto simp: in_window_def filter_filter intro!: filter_cong)

lemma in_window_mono: "t \<le> now \<Longrightarrow> in_window t w xs = in_window t w ys \<Longrightarrow> in_window now w xs = in_window now w ys"
  using in_window_later [of t now w] by metis

lemma in_window_append: "in_window now w (xs @ ys) = in_window now w xs @ in_window now w ys"
  by (simp add: in_window_def)

lemma in_window_Nil [simp]: "in_window now w [] = []"
  by (simp add: in_window_def)

lemma in_window_idem: "in_window now w (in_window now w ts) = in_window now w ts"
  by (rule in_window_later) simp

lemma stored_simps [simp]:
  "stored (startCleanup w s) i = stored s i"
  "stored (s\<lparr>rl_store := (rl_store s')(j \<mapsto> ts)\<rparr>) i = (if i = j then ts else stored (s\<lparr>rl_store := rl_store s'\<rparr>) i)"
  "stored (cleanup now w s) i = in_window now w (stored s i)"
  by (auto simp: stored_def startCleanup_def cleanup_def in_window_def split: option.split)

lemma checkRateLimit_result:
  "rr_allowed (fst (checkRateLimit now i cfg s)) \<longleftrightarrow>
     int (length (in_window now (rc_windowMs cfg) (stored s i))) < rc_maxRequests cfg"
  "stored (snd (checkRateLimit now i cfg s)) j =
     (if i = j then in_window now (rc_windowMs cfg) (stored s i) @
        (if rr_allowed (fst (checkRateLimit now i cfg s)) then [now] else []) else stored s j)"
  "rl_cleanup (snd (checkRateLimit now i cfg s)) =
     (case rl_cleanup s of None \<Rightarrow> Some (rc_windowMs cfg) | Some w \<Rightarrow> Some w)"
  by (auto simp: checkRateLimit_def Let_def stored_def startCleanup_def split: option.split)

text \<open>Granting one more request in a window with room keeps the bound of every window.\<close>

lemma window_bound:
  assumes bound: "\<And>t. int (length (filter (\<lambda>x. t - w < x \<and> x \<le> t) ts)) \<le> max 0 m"
    and old: "\<forall>x \<in> set ts. x \<le> now" and room: "int (length (in_window now w ts)) < m"
  shows "int (length (filter (\<lambda>x. t - w < x \<and> x \<le> t) (ts @ [now]))) \<le> max 0 m"
proof (cases "t < now")
  case True
  then show ?thesis using bound [of t] by simp
next
  case False
  have "length (filter (\<lambda>x. t - w < x \<and> x \<le> t) ts) \<le> length (in_window now w ts)"
  proof -
    have "filter (\<lambda>x. t - w < x \<and> x \<le> t) ts = filter (\<lambda>x. t - w < x \<and> x \<le> t) (in_window now w ts)"
      using False old unfolding in_window_def filter_filter by (intro filter_cong) auto
    then show ?thesis by simp
  qed
  then show ?thesis using room by simp
qed

lemma check_run_ok:
  assumes ok: "run_ok cfg r" and now: "lr_now r \<le> now"
  shows "run_ok cfg (check_run now i cfg r)"
proof -
  let ?w = "rc_windowMs cfg" and ?m = "rc_maxRequests cfg"
  obtain res s where c: "checkRateLimit now i cfg (lr_limiter r) = (res, s)" by (cases "checkRateLimit now i cfg (lr_limiter r)")
  have same: "in_window now ?w (stored (lr_limiter r) j) = in_window now ?w (lr_granted r j)" for j
    using ok now by (auto simp: run_ok_def intro: in_window_mono)
  have old: "\<forall>x \<in> set (lr_granted r j). x \<le> now" for j
    using ok now unfolding run_ok_def by (meson order.trans)
  have bound: "int (length (filter (\<lambda>x. t - ?w < x \<and> x \<le> t) (lr_granted r j))) \<le> max 0 ?m" for t j
    using ok by (simp add: run_ok_def)
  have allowed: "rr_allowed res \<longleftrightarrow> int (length (in_window now ?w (lr_granted r i))) < ?m"
    using checkRateLimit_result(1) [of now i cfg "lr_limiter r"] by (simp add: c same)
  have st: "stored s j = (if i = j then in_window now ?w (stored (lr_limiter r) i) @ (if rr_allowed res then [now] else [])
      else stored (lr_limiter r) j)" for j
    using checkRateLimit_result(2) [of now i cfg "lr_limiter r" j] unfolding c fst_conv snd_conv .
  have g: "lr_granted (check_run now i cfg r) j = lr_granted r j @ (if i = j \<and> rr_allowed res then [now] else [])" for j
    by (simp add: check_run_def c)
  show ?thesis unfolding run_ok_def
  proof (intro conjI allI ballI impI)
    fix j
    have "in_window now ?w (stored s j) = in_window now ?w (lr_granted (check_run now i cfg r) j)"
      using same [of j] by (simp add: g st in_window_append in_window_idem)
    then show "in_window (lr_now (check_run now i cfg r)) ?w (stored (lr_limiter (check_run now i cfg r)) j) =
        in_window (lr_now (check_run now i cfg r)) ?w (lr_granted (check_run now i cfg r) j)"
      by (simp add: check_run_def c)
    show "t \<le> lr_now (check_run now i cfg r)" if "t \<in> set (lr_granted (check_run now i cfg r) j)" for t
      using that old [of j] by (auto simp: g check_run_def c split: if_splits)
    show "int (length (filter (\<lambda>x. t - ?w < x \<and> x \<le> t) (lr_granted (check_run now i cfg r) j))) \<le> max 0 ?m" for t
      using window_bound [OF bound old, of j t] bound [of t j] allowed unfolding g by auto
    show "rl_cleanup (lr_limiter (check_run now i cfg r)) = None \<or>
        rl_cleanup (lr_limiter (check_run now i cfg r)) = Some (rc_windowMs cfg)"
      using ok checkRateLimit_result(3) [of now i cfg "lr_limiter r"]
      by (auto simp: check_run_def c run_ok_def split: option.splits)
  qed
qed

lemma advance_ok:
  assumes ok: "run_ok cfg r" and now: "lr_now r \<le> now"
    and st: "\<And>i. in_window now (rc_windowMs cfg) (stored s i) = in_window now (rc_windowMs cfg) (stored (lr_limiter r) i)"
    and cl: "rl_cleanup s = rl_cleanup (lr_limiter r)"
  shows "run_ok cfg (r\<lparr>lr_limiter := s, lr_now := now\<rparr>)"
proof -
  have "in_window now (rc_windowMs cfg) (stored s i) = in_window now (rc_windowMs cfg) (lr_granted r i)" for i
    unfolding st using ok by (intro in_window_mono [OF now]) (simp add: run_ok_def)
  moreover have "\<forall>i. \<forall>t \<in> set (lr_granted r i). t \<le> now"
    using ok now unfolding run_ok_def by (meson order.trans)
  ultimately show ?thesis using ok cl by (simp add: run_ok_def)
qed

definition uses :: "rate_limiter_config \<Rightarrow> limiter_event \<Rightarrow> bool" where
  "uses cfg e = (case e of Check _ _ cfg' \<Rightarrow> cfg' = cfg | _ \<Rightarrow> True)"

interpretation limiter: step_invariant limiter_step "uses cfg" "run_ok cfg" for cfg
proof
  fix r e r'
  assume "limiter_step r e r'" and "uses cfg e" and ok: "run_ok cfg r"
  then show "run_ok cfg r'"
  proof cases
    case (check now i cfg')
    then show ?thesis using check_run_ok [OF ok] \<open>uses cfg e\<close> by (simp add: uses_def)
  next
    case (tick now w)
    then have "w = rc_windowMs cfg" using ok by (simp add: run_ok_def)
    then show ?thesis
      unfolding tick using tick(3) by (intro advance_ok [OF ok]) (simp_all add: in_window_idem, simp add: cleanup_def)
  next
    case (status now i cfg')
    then show ?thesis using advance_ok [OF ok, of now "lr_limiter r"] by simp
  qed
qed

lemma new_run_ok: "run_ok cfg (new_run t)"
  by (simp add: run_ok_def new_run_def new_limiter_def stored_def)

text \<open>
  C20. When all checks use the same configuration, no client is ever granted more than
  \<^verbatim>\<open>maxRequests\<close> requests in any window of \<^verbatim>\<open>windowMs\<close> milliseconds, and a request is refused only if that many were
  granted in the window that ends with it, whenever the clean-up runs.
\<close>

theorem rate_limit_window:
  assumes "step_run limiter_step (new_run t0) es r" and "\<forall>e \<in> set es. uses cfg e"
  shows "int (length (filter (\<lambda>x. t - rc_windowMs cfg < x \<and> x \<le> t) (lr_granted r i))) \<le> max 0 (rc_maxRequests cfg) \<and>
    (lr_now r \<le> now \<longrightarrow>
      (rr_allowed (fst (checkRateLimit now i cfg (lr_limiter r))) \<longleftrightarrow>
       int (length (filter (\<lambda>x. now - x < rc_windowMs cfg) (lr_granted r i))) < rc_maxRequests cfg))"
proof -
  have ok: "run_ok cfg r" by (rule limiter.run_keeps [OF assms new_run_ok])
  then have "in_window now (rc_windowMs cfg) (stored (lr_limiter r) i) = in_window now (rc_windowMs cfg) (lr_granted r i)"
    if "lr_now r \<le> now"
    using that by (auto simp: run_ok_def intro: in_window_mono)
  with ok show ?thesis by (auto simp: run_ok_def checkRateLimit_result(1) in_window_def)
qed

text \<open>
  The clean-up keeps the window of whichever check came first: a client that is limited over a longer
  window is granted a second request as soon as the clean-up has dropped the first.
\<close>

theorem rate_limit_cleanup_window:
  "\<exists>r. step_run limiter_step (new_run 0)
      [Check 0 ''a'' DEFAULT_CONFIG, Check 1 ''b'' \<lparr>rc_windowMs = 600000, rc_maxRequests = 1\<rparr>, Tick 300000,
       Check 300001 ''b'' \<lparr>rc_windowMs = 600000, rc_maxRequests = 1\<rparr>] r \<and>
    lr_granted r ''b'' = [1, 300001]"
  by (simp add: new_run_def new_limiter_def check_run_def checkRateLimit_def Let_def startCleanup_def cleanup_def
      in_window_def DEFAULT_CONFIG_def)

section \<open>Witnesses\<close>

theorem rate_limit_window_witness:
  "\<not> rr_allowed (fst (checkRateLimit 7 ''a'' \<lparr>rc_windowMs = 10, rc_maxRequests = 1\<rparr>
     (lr_limiter (check_run 5 ''a'' \<lparr>rc_windowMs = 10, rc_maxRequests = 1\<rparr> (new_run 0)))))"
proof -
  let ?cfg = "\<lparr>rc_windowMs = 10, rc_maxRequests = 1\<rparr>"
  have "step_run limiter_step (new_run 0) [Check 5 ''a'' ?cfg] (check_run 5 ''a'' ?cfg (new_run 0))"
    by (simp add: new_run_def)
  moreover have "lr_granted (check_run 5 ''a'' ?cfg (new_run 0)) ''a'' = [5]" "lr_now (check_run 5 ''a'' ?cfg (new_run 0)) = 5"
    by (simp_all add: check_run_def checkRateLimit_def Let_def new_run_def new_limiter_def startCleanup_def in_window_def)
  ultimately show ?thesis
    using rate_limit_window [of 0 "[Check 5 ''a'' ?cfg]" "check_run 5 ''a'' ?cfg (new_run 0)" ?cfg 7 "''a''" 7]
    by (simp add: uses_def)
qed

end
