(* ===== verification/Update_Filler.thy ===== *)
theory Update_Filler
  imports Prelude
begin

text \<open>
  The part of the Ethereum SDK that finds out which price updates a call needs
  (\<^verbatim>\<open>target_chains/ethereum/sdk/js/src\<close>): the extraction of feed ids from call traces
  (\<^verbatim>\<open>tracer/debug-trace-call.ts\<close>, \<^verbatim>\<open>tracer/trace-call-many.ts\<close>), the loop of \<^verbatim>\<open>filler.ts\<close> that traces
  the call with more and more updates, and the bundler of \<^verbatim>\<open>multicall3-bundler.ts\<close>.  viem's address comparison
  and calldata codec, the node and Hermes are arguments.
\<close>

section \<open>Feed ids in traces\<close>

text \<open>\<open>ab_same\<close> is \<^verbatim>\<open>isAddressEqual\<close>, which throws on an invalid address; \<open>ab_decode\<close> is
  \<^verbatim>\<open>decodeFunctionData\<close> with the Pyth interface, giving the function and its arguments.\<close>

record pyth_abi =
  ab_same :: "string \<Rightarrow> string \<Rightarrow> bool res"
  ab_decode :: "string \<Rightarrow> (string \<times> string list) res"

definition PRICE_READS :: "string list" where
  "PRICE_READS = [''getPrice'', ''getPriceNoOlderThan'', ''getPriceUnsafe'', ''getEmaPrice'',
     ''getEmaPriceNoOlderThan'', ''getEmaPriceUnsafe'']"

text \<open>The part that both extractors share: the ids that a single call adds.\<close>

definition call_feeds :: "pyth_abi \<Rightarrow> string \<Rightarrow> bool \<Rightarrow> string \<Rightarrow> string \<Rightarrow> string list res" where
  "call_feeds abi pythContractAddress ignoreParsingErrors to_address input =
     res_bind (ab_same abi to_address pythContractAddress) (\<lambda>same.
       if \<not> same then Inr []
       else
         (case ab_decode abi input of
            Inr (functionName, args) \<Rightarrow>
              Inr (if functionName \<in> set PRICE_READS then (case args of [] \<Rightarrow> [] | i # _ \<Rightarrow> [i]) else [])
          | Inl e \<Rightarrow>
              if ignoreParsingErrors then Inr []
              else Inl (Error (''Failed to decode calldata: '' @ input @
                ''. Make sure correct Pyth contract address is used.''))))"

datatype call_trace = CallTrace (ct_to: string) (ct_input: string) (ct_calls: "call_trace list option")

fun extractPythPriceFeedsFromDebugTraceCall :: "pyth_abi \<Rightarrow> string \<Rightarrow> bool \<Rightarrow> call_trace \<Rightarrow> string list res" where
  "extractPythPriceFeedsFromDebugTraceCall abi pyth ignoreParsingErrors (CallTrace to_address input calls) =
     res_bind (call_feeds abi pyth ignoreParsingErrors to_address input) (\<lambda>result.
       (case calls of
          None \<Rightarrow> Inr result
        | Some cs \<Rightarrow>
            res_bind (map_res (\<lambda>c. extractPythPriceFeedsFromDebugTraceCall abi pyth False c) cs)
              (\<lambda>nested. Inr (js_Set (result @ concat nested)))))"

record trace_call =
  tc_to :: string
  tc_input :: string

text \<open>\<^verbatim>\<open>trace_callMany\<close> answers a flat list of calls per transaction.\<close>

definition extractPythPriceFeedsFromTraceCallMany ::
  "pyth_abi \<Rightarrow> string \<Rightarrow> bool \<Rightarrow> trace_call list list \<Rightarrow> string list res" where
  "extractPythPriceFeedsFromTraceCallMany abi pyth ignoreParsingErrors traceResults =
     res_bind (map_res (\<lambda>t. call_feeds abi pyth ignoreParsingErrors (tc_to t) (tc_input t)) (concat traceResults))
       (\<lambda>found. Inr (js_Set (concat found)))"

section \<open>The loop\<close>

record call_request =
  cr_from :: "string option"
  cr_to :: string
  cr_data :: "string option"
  cr_value :: "int option"

record pyth_update =
  pu_call :: call_request
  pu_updateData :: "string list"
  pu_updateFee :: int

record filler_env =
  fe_hermes :: "string list \<Rightarrow> string list res"
  fe_updateFee :: "string list \<Rightarrow> int res"
  fe_encodeUpdate :: "string list \<Rightarrow> string"
  fe_debugTrace :: "call_request \<Rightarrow> call_trace res"
  fe_traceMany :: "call_request list \<Rightarrow> trace_call list list res"
  fe_abi :: pyth_abi

datatype trace_method = Trace_callMany | Debug_traceCall "pyth_update \<Rightarrow> call_request \<Rightarrow> call_request"

definition getPythUpdate :: "filler_env \<Rightarrow> string list \<Rightarrow> string \<Rightarrow> call_request \<Rightarrow> pyth_update res" where
  "getPythUpdate env priceFeeds pythContractAddress call =
     res_bind (fe_hermes env priceFeeds) (\<lambda>raw.
     let updateData = map (\<lambda>d. ''0x'' @ d) raw in
     res_bind (fe_updateFee env updateData) (\<lambda>updateFee. Inr
       \<lparr>pu_call = \<lparr>cr_from = cr_from call, cr_to = pythContractAddress,
          cr_data = Some (fe_encodeUpdate env updateData), cr_value = Some updateFee\<rparr>,
        pu_updateData = updateData, pu_updateFee = updateFee\<rparr>))"

definition getPriceFeeds ::
  "filler_env \<Rightarrow> string \<Rightarrow> call_request \<Rightarrow> trace_method \<Rightarrow> pyth_update option \<Rightarrow> string list res" where
  "getPriceFeeds env pythContractAddress call method pythUpdate =
     (case method of
        Debug_traceCall bundler \<Rightarrow>
          res_bind (fe_debugTrace env (case pythUpdate of None \<Rightarrow> call | Some u \<Rightarrow> bundler u call))
            (extractPythPriceFeedsFromDebugTraceCall (fe_abi env) pythContractAddress False)
      | Trace_callMany \<Rightarrow>
          res_bind (fe_traceMany env (case pythUpdate of None \<Rightarrow> [call] | Some u \<Rightarrow> [pu_call u, call]))
            (extractPythPriceFeedsFromTraceCallMany (fe_abi env) pythContractAddress False))"

text \<open>The body of \<^verbatim>\<open>for (let i = 0; i < maxIter; i++)\<close>; the first argument counts what is left of \<^verbatim>\<open>maxIter\<close>.\<close>

fun fill_loop ::
  "filler_env \<Rightarrow> string \<Rightarrow> call_request \<Rightarrow> trace_method \<Rightarrow> nat \<Rightarrow> string list \<Rightarrow> pyth_update option \<Rightarrow>
   pyth_update option res" where
  "fill_loop env pyth call method 0 requiredPriceFeeds pythUpdate = Inr pythUpdate"
| "fill_loop env pyth call method (Suc n) requiredPriceFeeds pythUpdate =
     res_bind (getPriceFeeds env pyth call method pythUpdate) (\<lambda>priceFeeds.
       if set priceFeeds \<subseteq> set requiredPriceFeeds then Inr pythUpdate
       else
         let requiredPriceFeeds = js_Set (requiredPriceFeeds @ priceFeeds) in
         res_bind (getPythUpdate env requiredPriceFeeds pyth call) (\<lambda>u.
           fill_loop env pyth call method n requiredPriceFeeds (Some u)))"

definition fillPythUpdate ::
  "filler_env \<Rightarrow> call_request \<Rightarrow> string \<Rightarrow> trace_method \<Rightarrow> nat option \<Rightarrow> pyth_update option res" where
  "fillPythUpdate env call pyth method maxIter =
     fill_loop env pyth call method (case maxIter of None \<Rightarrow> 5 | Some n \<Rightarrow> n) [] None"

section \<open>The bundler\<close>

definition MULTICALL3_ADDRESS :: string where
  "MULTICALL3_ADDRESS = ''0xcA11bde05977b3631167028862bE2a173976CA11''"

record multicall_entry =
  me_target :: string
  me_allowFailure :: bool
  me_value :: int
  me_callData :: string

definition entry_of :: "call_request \<Rightarrow> multicall_entry" where
  "entry_of c = \<lparr>me_target = cr_to c, me_allowFailure = False,
     me_value = (case cr_value c of None \<Rightarrow> 0 | Some v \<Rightarrow> v),
     me_callData = (case cr_data c of None \<Rightarrow> ''0x'' | Some d \<Rightarrow> d)\<rparr>"

text \<open>\<open>encode\<close> is \<^verbatim>\<open>encodeFunctionData\<close> for \<^verbatim>\<open>aggregate3Value\<close>.\<close>

definition multicall3Bundler :: "(multicall_entry list \<Rightarrow> string) \<Rightarrow> pyth_update \<Rightarrow> call_request \<Rightarrow> call_request" where
  "multicall3Bundler encode pythUpdate call =
     (let entries = [entry_of (pu_call pythUpdate), entry_of call] in
      \<lparr>cr_from = cr_from call, cr_to = MULTICALL3_ADDRESS, cr_data = Some (encode entries),
       cr_value = Some (me_value (entry_of call) + me_value (entry_of (pu_call pythUpdate)))\<rparr>)"

section \<open>Extraction\<close>

text \<open>All calls of a trace, the outer ones first.\<close>

fun trace_nodes :: "call_trace \<Rightarrow> (string \<times> string) list" where
  "trace_nodes (CallTrace to_address input calls) =
     (to_address, input) # (case calls of None \<Rightarrow> [] | Some cs \<Rightarrow> concat (map trace_nodes cs))"

definition reads_price :: "pyth_abi \<Rightarrow> string \<Rightarrow> string \<times> string \<Rightarrow> string \<Rightarrow> bool" where
  "reads_price abi pyth node i \<longleftrightarrow> ab_same abi (fst node) pyth = Inr True \<and>
     (\<exists>f args. ab_decode abi (snd node) = Inr (f, i # args) \<and> f \<in> set PRICE_READS)"

lemma call_feeds_reads:
  assumes "call_feeds abi pyth ignr to_address input = Inr ids"
  shows "set ids = {i. reads_price abi pyth (to_address, input) i}"
proof -
  obtain same where same: "ab_same abi to_address pyth = Inr same"
    using assms by (auto simp: call_feeds_def res_bind_eq_Inr)
  show ?thesis
  proof (cases "ab_decode abi input")
    case (Inl e)
    then show ?thesis using assms same by (auto simp: call_feeds_def reads_price_def split: if_splits)
  next
    case (Inr d)
    obtain f args where d: "d = (f, args)" by (cases d)
    show ?thesis
      using assms same Inr d by (cases args) (auto simp: call_feeds_def reads_price_def split: if_splits)
  qed
qed

lemma extract_nodes:
  "extractPythPriceFeedsFromDebugTraceCall abi pyth ignr t = Inr ids \<Longrightarrow>
     set ids = {i. \<exists>node \<in> set (trace_nodes t). reads_price abi pyth node i}"
proof (induction t arbitrary: ignr ids)
  case (CallTrace to_address input calls)
  from CallTrace.prems obtain result where r: "call_feeds abi pyth ignr to_address input = Inr result"
    by (auto simp: res_bind_eq_Inr)
  note own = call_feeds_reads [OF r]
  show ?case
  proof (cases calls)
    case None
    then show ?thesis using CallTrace.prems r own by simp
  next
    case (Some cs)
    with CallTrace.prems r obtain nested where
      n: "list_all2 (\<lambda>c y. extractPythPriceFeedsFromDebugTraceCall abi pyth False c = Inr y) cs nested"
      and ids: "ids = js_Set (result @ concat nested)"
      by (auto simp: res_bind_eq_Inr map_res_Inr_iff)
    have "set (nested ! k) = {i. \<exists>node \<in> set (trace_nodes (cs ! k)). reads_price abi pyth node i}"
        if "k < length cs" for k
      by (rule CallTrace.IH [OF _ nth_mem [OF that] list_all2_nthD [OF n that]]) (simp add: Some)
    moreover have "set (concat nested) = (\<Union>k < length cs. set (nested ! k))"
      using list_all2_lengthD [OF n] by (auto simp: set_conv_nth [of nested])
    moreover have "set (concat (map trace_nodes cs)) = (\<Union>k < length cs. set (trace_nodes (cs ! k)))"
      by (auto simp: set_conv_nth [of cs])
    ultimately show ?thesis using own by (auto simp: ids Some)
  qed
qed

lemma map_res_ok: "(\<exists>ys. map_res f xs = Inr ys) \<longleftrightarrow> (\<forall>x \<in> set xs. \<exists>y. f x = Inr y)"
  by (induction xs) (auto simp: res_bind_eq_Inr)

lemma extract_ok:
  "(\<exists>ids. extractPythPriceFeedsFromDebugTraceCall abi pyth False t = Inr ids) \<longleftrightarrow>
   (\<forall>node \<in> set (trace_nodes t). \<exists>ids. call_feeds abi pyth False (fst node) (snd node) = Inr ids)"
proof (induction t)
  case (CallTrace to_address input calls)
  show ?case
  proof (cases calls)
    case (Some cs)
    have "(\<exists>ys. map_res (\<lambda>c. extractPythPriceFeedsFromDebugTraceCall abi pyth False c) cs = Inr ys) \<longleftrightarrow>
        (\<forall>c \<in> set cs. \<forall>node \<in> set (trace_nodes c). \<exists>ids. call_feeds abi pyth False (fst node) (snd node) = Inr ids)"
      unfolding map_res_ok using CallTrace.IH [of cs] Some by auto
    then show ?thesis by (auto simp: Some res_bind_eq_Inr)
  qed (auto simp: res_bind_eq_Inr)
qed

lemma many_ok:
  "(\<exists>ids. extractPythPriceFeedsFromTraceCallMany abi pyth ignr ts = Inr ids) \<longleftrightarrow>
   (\<forall>t \<in> set (concat ts). \<exists>ids. call_feeds abi pyth ignr (tc_to t) (tc_input t) = Inr ids)"
  unfolding map_res_ok [symmetric] by (auto simp: extractPythPriceFeedsFromTraceCallMany_def res_bind_eq_Inr)

lemma many_nodes:
  assumes "extractPythPriceFeedsFromTraceCallMany abi pyth ignr ts = Inr ids"
  shows "set ids = {i. \<exists>t \<in> set (concat ts). reads_price abi pyth (tc_to t, tc_input t) i}"
proof -
  obtain found where f: "list_all2 (\<lambda>t y. call_feeds abi pyth ignr (tc_to t) (tc_input t) = Inr y) (concat ts) found"
      and ids: "ids = js_Set (concat found)"
    using assms by (auto simp: extractPythPriceFeedsFromTraceCallMany_def res_bind_eq_Inr map_res_Inr_iff)
  from f have "set (concat found) = {i. \<exists>t \<in> set (concat ts). reads_price abi pyth (tc_to t, tc_input t) i}"
    by (induction rule: list_all2_induct) (auto dest: call_feeds_reads)
  then show ?thesis by (simp add: ids)
qed

definition flat_trace :: "call_trace \<Rightarrow> trace_call list" where
  "flat_trace t = map (\<lambda>node. \<lparr>tc_to = fst node, tc_input = snd node\<rparr>) (trace_nodes t)"

text \<open>
  Both tracers find the same feeds: on the same calls, nested or flat, they fail on the same inputs and
  otherwise return exactly the ids that some call, at any depth, reads from the Pyth contract.
\<close>

theorem extractors_agree:
  "((\<exists>ids. extractPythPriceFeedsFromDebugTraceCall abi pyth False t = Inr ids) \<longleftrightarrow>
    (\<exists>ids. extractPythPriceFeedsFromTraceCallMany abi pyth False [flat_trace t] = Inr ids)) \<and>
   (extractPythPriceFeedsFromDebugTraceCall abi pyth False t = Inr ids \<longrightarrow>
      set ids = {i. \<exists>node \<in> set (trace_nodes t). reads_price abi pyth node i}) \<and>
   (extractPythPriceFeedsFromTraceCallMany abi pyth False [flat_trace t] = Inr ids \<longrightarrow>
      set ids = {i. \<exists>node \<in> set (trace_nodes t). reads_price abi pyth node i})"
proof (intro conjI impI)
  show "(\<exists>ids. extractPythPriceFeedsFromDebugTraceCall abi pyth False t = Inr ids) \<longleftrightarrow>
      (\<exists>ids. extractPythPriceFeedsFromTraceCallMany abi pyth False [flat_trace t] = Inr ids)"
    unfolding extract_ok many_ok by (auto simp: flat_trace_def)
  show "set ids = {i. \<exists>node \<in> set (trace_nodes t). reads_price abi pyth node i}"
    if "extractPythPriceFeedsFromDebugTraceCall abi pyth False t = Inr ids"
    by (rule extract_nodes [OF that])
  show "set ids = {i. \<exists>node \<in> set (trace_nodes t). reads_price abi pyth node i}"
    if "extractPythPriceFeedsFromTraceCallMany abi pyth False [flat_trace t] = Inr ids"
    using many_nodes [OF that] by (auto simp: flat_trace_def)
qed

text \<open>
  \<^verbatim>\<open>ignoreParsingErrors\<close> only covers the outermost call: calldata inside that cannot be decoded fails the
  extraction all the same.
\<close>

theorem ignore_errors_not_nested:
  assumes "ab_same abi a pyth = Inr True" and "ab_decode abi input = Inl e"
  shows "extractPythPriceFeedsFromDebugTraceCall abi pyth True (CallTrace a input None) = Inr [] \<and>
    (\<exists>m. extractPythPriceFeedsFromDebugTraceCall abi pyth True (CallTrace a input (Some [CallTrace a input None])) =
      Inl (Error m))"
  using assms by (simp add: call_feeds_def)

section \<open>The loop\<close>

text \<open>What the loop returns after a round without new feeds.\<close>

definition complete_update ::
  "filler_env \<Rightarrow> string \<Rightarrow> call_request \<Rightarrow> trace_method \<Rightarrow> string list \<Rightarrow> pyth_update option \<Rightarrow> bool" where
  "complete_update env pyth call method feeds upd \<longleftrightarrow>
     (case upd of None \<Rightarrow> feeds = [] | Some u \<Rightarrow> getPythUpdate env feeds pyth call = Inr u) \<and>
     (\<exists>needed. getPriceFeeds env pyth call method upd = Inr needed \<and> set needed \<subseteq> set feeds)"

lemma fill_loop_complete:
  assumes "fill_loop env pyth call method n req upd = Inr res"
    and "\<And>u feeds. getPriceFeeds env pyth call method u = Inr feeds \<Longrightarrow> set feeds \<subseteq> U" and "finite U"
    and "set req \<subseteq> U" and "distinct req" and "card U < n + length req"
    and "case upd of None \<Rightarrow> req = [] | Some u \<Rightarrow> getPythUpdate env req pyth call = Inr u"
  shows "\<exists>feeds. complete_update env pyth call method feeds res"
  using assms(1,4-7)
proof (induction n arbitrary: req upd)
  case 0
  then have "card (set req) \<le> card U" using assms(3) by (intro card_mono) auto
  then show ?case using 0 by (simp add: distinct_card)
next
  case (Suc n)
  obtain needed where needed: "getPriceFeeds env pyth call method upd = Inr needed"
    using Suc.prems(1) by (auto simp: res_bind_eq_Inr)
  show ?case
  proof (cases "set needed \<subseteq> set req")
    case True
    then have "res = upd" using Suc.prems(1) needed by simp
    then show ?thesis using True needed Suc.prems(5) by (auto simp: complete_update_def)
  next
    case False
    let ?req = "js_Set (req @ needed)"
    obtain u where u: "getPythUpdate env ?req pyth call = Inr u" "fill_loop env pyth call method n ?req (Some u) = Inr res"
      using Suc.prems(1) needed False by (auto simp: res_bind_eq_Inr Let_def)
    have "set req \<subset> set ?req" using False by auto
    then have "length req < length ?req"
      using Suc.prems(3) psubset_card_mono [of "set ?req" "set req"] by (simp add: distinct_card [symmetric])
    then show ?thesis
      using Suc.IH [OF u(2)] assms(2) [OF needed] Suc.prems u(1) by auto
  qed
qed

text \<open>
  C24. With more iterations than there are feeds that tracing can ever bring up, the loop does not stop early: the
  update it returns (none if the call needs none) covers every feed that the call reads once the update is
  applied.
\<close>

theorem fillPythUpdate_complete:
  assumes "fillPythUpdate env call pyth method maxIter = Inr upd"
    and "\<And>u feeds. getPriceFeeds env pyth call method u = Inr feeds \<Longrightarrow> set feeds \<subseteq> U" and "finite U"
    and "card U < (case maxIter of None \<Rightarrow> 5 | Some n \<Rightarrow> n)"
  shows "\<exists>feeds needed. (case upd of None \<Rightarrow> feeds = [] | Some u \<Rightarrow> getPythUpdate env feeds pyth call = Inr u) \<and>
    getPriceFeeds env pyth call method upd = Inr needed \<and> set needed \<subseteq> set feeds"
  using fill_loop_complete [OF assms(1) [unfolded fillPythUpdate_def] assms(2,3)] assms(4)
  by (auto simp: complete_update_def)

section \<open>Witnesses\<close>

text \<open>A contract that reads feed \<open>f\<close> and, once that is there, feed \<open>g\<close>.\<close>

definition sample_abi :: pyth_abi where
  "sample_abi = \<lparr>ab_same = (\<lambda>a b. Inr (a = b)),
     ab_decode = (\<lambda>d. if d = ''bad'' then Inl RangeError else Inr (''getPrice'', [d]))\<rparr>"

definition sample_filler :: filler_env where
  "sample_filler = \<lparr>fe_hermes = (\<lambda>ids. Inr ids), fe_updateFee = (\<lambda>_. Inr 1), fe_encodeUpdate = concat,
     fe_debugTrace = (\<lambda>_. Inl RangeError),
     fe_traceMany = (\<lambda>cs. Inr [\<lparr>tc_to = ''p'', tc_input = ''f''\<rparr> #
       (if length cs = 2 then [\<lparr>tc_to = ''p'', tc_input = ''g''\<rparr>] else [])]),
     fe_abi = sample_abi\<rparr>"

definition sample_call :: call_request where
  "sample_call = \<lparr>cr_from = None, cr_to = ''c'', cr_data = None, cr_value = None\<rparr>"

lemma sample_feeds:
  "getPriceFeeds sample_filler ''p'' sample_call Trace_callMany u =
     Inr (case u of None \<Rightarrow> [''f''] | Some _ \<Rightarrow> [''f'', ''g''])"
  by (auto simp: getPriceFeeds_def sample_filler_def sample_abi_def extractPythPriceFeedsFromTraceCallMany_def
      call_feeds_def PRICE_READS_def js_Set_def set_add_def split: option.split)

theorem ignore_errors_not_nested_witness:
  "extractPythPriceFeedsFromDebugTraceCall sample_abi ''p'' True (CallTrace ''p'' ''bad'' None) = Inr []"
  using ignore_errors_not_nested [of sample_abi "''p''" "''p''" "''bad''" RangeError] by (simp add: sample_abi_def)

theorem fillPythUpdate_complete_witness:
  "\<exists>upd feeds needed. fillPythUpdate sample_filler sample_call ''p'' Trace_callMany None = Inr (Some upd) \<and>
    getPythUpdate sample_filler feeds ''p'' sample_call = Inr upd \<and> set needed \<subseteq> set feeds \<and> ''g'' \<in> set needed"
proof -
  obtain upd where upd: "fillPythUpdate sample_filler sample_call ''p'' Trace_callMany None = Inr (Some upd)"
    by (simp add: fillPythUpdate_def eval_nat_numeral sample_feeds getPythUpdate_def Let_def js_Set_def set_add_def)
      (simp add: sample_filler_def)
  have "\<exists>feeds needed. (case Some upd of None \<Rightarrow> feeds = [] | Some u \<Rightarrow> getPythUpdate sample_filler feeds ''p'' sample_call = Inr u) \<and>
      getPriceFeeds sample_filler ''p'' sample_call Trace_callMany (Some upd) = Inr needed \<and> set needed \<subseteq> set feeds"
    by (rule fillPythUpdate_complete [OF upd, of "{''f'', ''g''}"]) (auto simp: sample_feeds split: option.splits)
  with upd show ?thesis by (fastforce simp: sample_feeds)
qed


text \<open>A call of another contract that reads feed \<open>f\<close> from the Pyth contract further in.\<close>

theorem extractors_agree_witness:
  "\<exists>ids. extractPythPriceFeedsFromDebugTraceCall sample_abi ''p'' False
      (CallTrace ''c'' ''x'' (Some [CallTrace ''p'' ''f'' None])) = Inr ids \<and> ''f'' \<in> set ids \<and> ''x'' \<notin> set ids"
proof -
  let ?t = "CallTrace ''c'' ''x'' (Some [CallTrace ''p'' ''f'' None])"
  obtain ids where ids: "extractPythPriceFeedsFromDebugTraceCall sample_abi ''p'' False ?t = Inr ids"
    by (simp add: call_feeds_def sample_abi_def)
  then have "set ids = {i. \<exists>node \<in> set (trace_nodes ?t). reads_price sample_abi ''p'' node i}"
    using extractors_agree [of sample_abi "''p''" ?t ids] by blast
  then have "''f'' \<in> set ids \<and> ''x'' \<notin> set ids"
    by (auto simp: reads_price_def sample_abi_def PRICE_READS_def)
  with ids show ?thesis by blast
qed

end
