(* ===== verification/Core_Config.thy ===== *)
theory Core_Config
  imports Price_Feed "HOL-Library.Multiset"
begin

text \<open>
  The configuration of the Pyth oracle on a Solana cluster, as the governance tools read, download and validate it
  (\<^verbatim>\<open>governance/xc_admin/packages/xc_admin_common/src/programs/core/core_functions.ts\<close>, \<^verbatim>\<open>types.ts\<close> and
  \<^verbatim>\<open>cluster.ts\<close>).  \<^verbatim>\<open>getConfig\<close> collects the oracle's accounts, \<^verbatim>\<open>getDownloadableConfig\<close> turns them into a sorted
  table, and \<^verbatim>\<open>validateUploadedConfig\<close> compares an edited table with the current one.  The account parsers of
  \<^verbatim>\<open>@pythnetwork/client\<close>, \<^verbatim>\<open>toBase58\<close> and \<^verbatim>\<open>localeCompare\<close> are arguments.  An uploaded product is a JSON value as the
  user wrote it; no symbol and no field is the name of a property of \<^verbatim>\<open>Object.prototype\<close> or a number, which
  objects would keep in another order.
\<close>

section \<open>Clusters\<close>

definition isRemoteCluster :: "string \<Rightarrow> bool" where
  "isRemoteCluster cluster \<longleftrightarrow>
     cluster = ''pythnet'' \<or> cluster = ''pythtest-conformance'' \<or> cluster = ''pythtest-crosschain''"

definition getMultisigCluster :: "string \<Rightarrow> string" where
  "getMultisigCluster cluster =
     (if cluster = ''pythnet'' then ''mainnet-beta''
      else if cluster = ''pythtest-conformance'' \<or> cluster = ''pythtest-crosschain'' then ''devnet''
      else cluster)"

definition getMaximumNumberOfPublishers :: "string \<Rightarrow> nat option" where
  "getMaximumNumberOfPublishers cluster =
     (if cluster \<in> {''mainnet-beta'', ''devnet'', ''testnet''} then Some 32
      else if cluster \<in> {''pythnet'', ''pythtest-conformance'', ''pythtest-crosschain''} then Some 64
      else if cluster = ''localnet'' then Some 32
      else None)"

section \<open>Accounts on chain\<close>

datatype account_type = MappingAccount | ProductAccount | PriceAccount | PermissionAccount | OtherAccount

record 'pk parsed_price =
  pp_nextPriceAccountKey :: "'pk option"
  pp_publishers :: "'pk option list"
  pp_exponent :: jsnum
  pp_minPublishers :: jsnum
  pp_maxLatency :: jsnum

record 'pk parsed_product =
  pr_priceAccountKey :: "'pk option"
  pr_product :: "(string \<times> string) list"

record 'pk parsed_mapping =
  pm_nextMappingAccount :: "'pk option"
  pm_productAccountKeys :: "'pk list"

record ('pk, 'perm) parsers =
  ps_toBase58 :: "'pk \<Rightarrow> string"
  ps_baseType :: "bytes \<Rightarrow> account_type option"
  ps_price :: "bytes \<Rightarrow> 'pk parsed_price"
  ps_product :: "bytes \<Rightarrow> 'pk parsed_product"
  ps_mapping :: "bytes \<Rightarrow> 'pk parsed_mapping"
  ps_permission :: "bytes \<Rightarrow> 'perm"

record 'pk account_entry =
  ac_pubkey :: 'pk
  ac_data :: bytes

record 'pk price_raw =
  rp_next :: "'pk option"
  rp_address :: 'pk
  rp_publishers :: "'pk list"
  rp_expo :: jsnum
  rp_minPub :: jsnum
  rp_maxLatency :: jsnum

record 'pk product_raw =
  ro_priceAccounts :: "'pk price_raw list"
  ro_metadata :: "(string \<times> string) list"
  ro_address :: 'pk

record 'pk mapping_raw =
  rm_next :: "'pk option"
  rm_address :: 'pk
  rm_products :: "'pk product_raw list"

record ('pk, 'perm) raw_config =
  cf_mappingAccounts :: "'pk mapping_raw list"
  cf_permissionAccount :: "'perm option"

text \<open>A \<^verbatim>\<open>Map\<close> or an object that is built from entries and only looked up: of two entries with the same key the
  later one counts.\<close>

definition table_of :: "(string \<times> 'v) list \<Rightarrow> string \<Rightarrow> 'v option" where
  "table_of kvs = map_of (rev kvs)"

definition parsed_type :: "('pk, 'perm) parsers \<Rightarrow> 'pk account_entry list \<Rightarrow> 'pk account_entry \<Rightarrow> account_type option" where
  "parsed_type P accounts account =
     (case table_of (map (\<lambda>a. (ps_toBase58 P (ac_pubkey a), ps_baseType P (ac_data a))) accounts)
             (ps_toBase58 P (ac_pubkey account)) of
        None \<Rightarrow> None | Some t \<Rightarrow> t)"

definition price_raw_of :: "('pk, 'perm) parsers \<Rightarrow> 'pk account_entry \<Rightarrow> 'pk price_raw" where
  "price_raw_of P a =
     (let parsed = ps_price P (ac_data a) in
      \<lparr>rp_next = pp_nextPriceAccountKey parsed, rp_address = ac_pubkey a,
       rp_publishers = List.map_filter id (pp_publishers parsed), rp_expo = pp_exponent parsed,
       rp_minPub = pp_minPublishers parsed, rp_maxLatency = pp_maxLatency parsed\<rparr>)"

text \<open>
  The loop that follows the linked list of price accounts.  It ends because every round takes a key of the table
  that it has not taken before.
\<close>

function follow_prices ::
  "('pk \<Rightarrow> string) \<Rightarrow> (string \<times> 'pk price_raw) list \<Rightarrow> string option \<Rightarrow> string list \<Rightarrow> 'pk price_raw list" where
  "follow_prices b58 priceRawConfigs priceAccountKey processedPriceKeys =
     (case priceAccountKey of
        None \<Rightarrow> []
      | Some key \<Rightarrow>
          if key = '''' \<or> key \<in> set processedPriceKeys then []
          else
            (case table_of priceRawConfigs key of
               None \<Rightarrow> []
             | Some priceConfig \<Rightarrow>
                 priceConfig # follow_prices b58 priceRawConfigs (map_option b58 (rp_next priceConfig))
                   (set_add key processedPriceKeys)))"
  by pat_completeness auto
termination
proof (relation "measure (\<lambda>(b58, prices, key, processed). card (fst ` set prices - set processed))", goal_cases)
  case 1
  then show ?case by simp
next
  case (2 b58 prices key processed k c)
  then have "k \<in> fst ` set prices"
    by (force simp: table_of_def dest: map_of_SomeD)
  then have "fst ` set prices - set (set_add k processed) \<subset> fst ` set prices - set processed" using 2 by auto
  from psubset_card_mono [OF _ this] show ?case by simp
qed

declare follow_prices.simps [simp del]

definition product_raw_of ::
  "('pk, 'perm) parsers \<Rightarrow> (string \<times> 'pk price_raw) list \<Rightarrow> 'pk account_entry \<Rightarrow> 'pk product_raw" where
  "product_raw_of P priceRawConfigs a =
     (let parsed = ps_product P (ac_data a) in
      \<lparr>ro_priceAccounts = follow_prices (ps_toBase58 P) priceRawConfigs
         (map_option (ps_toBase58 P) (pr_priceAccountKey parsed)) [],
       ro_metadata = pr_product parsed, ro_address = ac_pubkey a\<rparr>)"

text \<open>The products of one mapping account: the filter runs over all keys before the first one is marked.\<close>

definition mapping_products ::
  "('pk \<Rightarrow> string) \<Rightarrow> (string \<times> 'pk product_raw) list \<Rightarrow> string list \<Rightarrow> 'pk list \<Rightarrow> 'pk product_raw list \<times> string list" where
  "mapping_products b58 productRawConfigs processedProducts keys =
     (let wanted = filter (\<lambda>keyStr. case table_of productRawConfigs keyStr of
            None \<Rightarrow> False
          | Some product \<Rightarrow> ro_priceAccounts product \<noteq> [] \<and> keyStr \<notin> set processedProducts) (map b58 keys) in
      (List.map_filter (table_of productRawConfigs) wanted, foldl (\<lambda>s k. set_add k s) processedProducts wanted))"

fun mapping_accounts ::
  "('pk, 'perm) parsers \<Rightarrow> (string \<times> 'pk product_raw) list \<Rightarrow> string list \<Rightarrow> 'pk account_entry list \<Rightarrow> 'pk mapping_raw list"
where
  "mapping_accounts P productRawConfigs processedProducts [] = []"
| "mapping_accounts P productRawConfigs processedProducts (a # as) =
     (let parsed = ps_mapping P (ac_data a);
          (products, processed) = mapping_products (ps_toBase58 P) productRawConfigs processedProducts
            (pm_productAccountKeys parsed) in
      \<lparr>rm_next = pm_nextMappingAccount parsed, rm_address = ac_pubkey a, rm_products = products\<rparr> #
        mapping_accounts P productRawConfigs processed as)"

definition getConfig :: "('pk, 'perm) parsers \<Rightarrow> 'pk account_entry list \<Rightarrow> ('pk, 'perm) raw_config" where
  "getConfig P accounts =
     (let of_type = (\<lambda>t. filter (\<lambda>a. parsed_type P accounts a = Some t) accounts);
          key = (\<lambda>a. ps_toBase58 P (ac_pubkey a));
          priceRawConfigs = map (\<lambda>a. (key a, price_raw_of P a)) (of_type PriceAccount);
          productRawConfigs = map (\<lambda>a. (key a, product_raw_of P priceRawConfigs a)) (of_type ProductAccount) in
      \<lparr>cf_mappingAccounts = mapping_accounts P productRawConfigs [] (of_type MappingAccount),
       cf_permissionAccount = (case of_type PermissionAccount of [] \<Rightarrow> None
         | a # _ \<Rightarrow> Some (ps_permission P (ac_data a)))\<rparr>)"

section \<open>The downloadable table\<close>

record price_account_cfg =
  da_address :: string
  da_publishers :: "string list"
  da_expo :: jsnum
  da_minPub :: jsnum
  da_maxLatency :: jsnum

record product_cfg =
  dp_address :: string
  dp_metadata :: "(string \<times> string) list"
  dp_priceAccounts :: "price_account_cfg list"

type_synonym downloadable_config = "(string \<times> product_cfg) list"

text \<open>\<^verbatim>\<open>Array.prototype.sort\<close> is stable; for a comparison that orders its arguments its result does not depend on the
  algorithm.\<close>

fun js_insert :: "('a \<Rightarrow> 'a \<Rightarrow> int) \<Rightarrow> 'a \<Rightarrow> 'a list \<Rightarrow> 'a list" where
  "js_insert cmp x [] = [x]"
| "js_insert cmp x (y # ys) = (if cmp x y \<le> 0 then x # y # ys else y # js_insert cmp x ys)"

definition js_sort :: "('a \<Rightarrow> 'a \<Rightarrow> int) \<Rightarrow> 'a list \<Rightarrow> 'a list" where
  "js_sort cmp xs = foldr (js_insert cmp) xs []"

definition sortObjectByKeys :: "(string \<Rightarrow> string \<Rightarrow> int) \<Rightarrow> (string \<times> 'v) list \<Rightarrow> (string \<times> 'v) list" where
  "sortObjectByKeys localeCompare obj = js_sort (\<lambda>a b. localeCompare (fst a) (fst b)) obj"

definition mapValues :: "('a \<Rightarrow> 'b) \<Rightarrow> (string \<times> 'a) list \<Rightarrow> (string \<times> 'b) list" where
  "mapValues f obj = obj_of (map (\<lambda>(key, value). (key, f value)) obj)"

definition sort_product :: "(string \<Rightarrow> string \<Rightarrow> int) \<Rightarrow> product_cfg \<Rightarrow> product_cfg" where
  "sort_product localeCompare productData =
     \<lparr>dp_address = dp_address productData,
      dp_metadata = obj_of (sortObjectByKeys localeCompare (dp_metadata productData)),
      dp_priceAccounts = map (\<lambda>pa. pa\<lparr>da_publishers := js_sort localeCompare (da_publishers pa)\<rparr>)
        (js_sort (\<lambda>a b. localeCompare (da_address a) (da_address b)) (dp_priceAccounts productData))\<rparr>"

definition sortData :: "(string \<Rightarrow> string \<Rightarrow> int) \<Rightarrow> downloadable_config \<Rightarrow> downloadable_config" where
  "sortData localeCompare data = mapValues (sort_product localeCompare) data"

text \<open>Every product has a symbol, as its type says.\<close>

definition symbol_of :: "'pk product_raw \<Rightarrow> string" where
  "symbol_of product = (case map_of (ro_metadata product) ''symbol'' of None \<Rightarrow> ''undefined'' | Some s \<Rightarrow> s)"

definition downloadable_price :: "('pk \<Rightarrow> string) \<Rightarrow> 'pk price_raw \<Rightarrow> price_account_cfg" where
  "downloadable_price b58 p =
     \<lparr>da_address = b58 (rp_address p), da_publishers = map b58 (rp_publishers p), da_expo = rp_expo p,
      da_minPub = rp_minPub p, da_maxLatency = rp_maxLatency p\<rparr>"

definition downloadable_product :: "('pk \<Rightarrow> string) \<Rightarrow> 'pk product_raw \<Rightarrow> product_cfg" where
  "downloadable_product b58 product =
     \<lparr>dp_address = b58 (ro_address product),
      dp_metadata = filter (\<lambda>kv. fst kv \<noteq> ''price_account'') (ro_metadata product),
      dp_priceAccounts = map (downloadable_price b58) (ro_priceAccounts product)\<rparr>"

text \<open>The sorts are done in place, so the raw configuration that is left is sorted, too: its first mapping account
  is one with the most products.\<close>

definition sort_mappings ::
  "(string \<Rightarrow> string \<Rightarrow> int) \<Rightarrow> ('pk, 'perm) raw_config \<Rightarrow> ('pk, 'perm) raw_config" where
  "sort_mappings localeCompare rawConfig =
     rawConfig\<lparr>cf_mappingAccounts :=
       (case js_sort (\<lambda>m1 m2. int (length (rm_products m2)) - int (length (rm_products m1)))
               (cf_mappingAccounts rawConfig) of
          [] \<Rightarrow> []
        | m # ms \<Rightarrow> m\<lparr>rm_products := js_sort (\<lambda>p q. localeCompare (symbol_of p) (symbol_of q)) (rm_products m)\<rparr> # ms)\<rparr>"

definition getDownloadableConfig ::
  "(string \<Rightarrow> string \<Rightarrow> int) \<Rightarrow> ('pk \<Rightarrow> string) \<Rightarrow> ('pk, 'perm) raw_config \<Rightarrow>
   downloadable_config \<times> ('pk, 'perm) raw_config" where
  "getDownloadableConfig localeCompare b58 rawConfig =
     (let rawConfig = sort_mappings localeCompare rawConfig in
      (case cf_mappingAccounts rawConfig of
         [] \<Rightarrow> []
       | m # _ \<Rightarrow> sortData localeCompare (obj_of (map (\<lambda>p. (symbol_of p, downloadable_product b58 p)) (rm_products m))),
       rawConfig))"

section \<open>JSON values of the table\<close>

definition price_account_to_json :: "price_account_cfg \<Rightarrow> json" where
  "price_account_to_json pa = JObj
     [(''address'', JStr (da_address pa)), (''expo'', JNum (da_expo pa)), (''minPub'', JNum (da_minPub pa)),
      (''maxLatency'', JNum (da_maxLatency pa)), (''publishers'', JArr (map JStr (da_publishers pa)))]"

definition product_to_json :: "product_cfg \<Rightarrow> json" where
  "product_to_json p = JObj
     [(''address'', JStr (dp_address p)),
      (''metadata'', JObj (map (\<lambda>(k, v). (k, JStr v)) (dp_metadata p))),
      (''priceAccounts'', JArr (map price_account_to_json (dp_priceAccounts p)))]"

definition config_to_json :: "downloadable_config \<Rightarrow> (string \<times> json) list" where
  "config_to_json c = map (\<lambda>(symbol, p). (symbol, product_to_json p)) c"

text \<open>Truth, \<^verbatim>\<open>x?.[0]\<close>, the entries that a spread copies, and the elements that \<^verbatim>\<open>new Set(x)\<close> takes.\<close>

definition js_truthy :: "json \<Rightarrow> bool" where
  "js_truthy v = (case v of
     JUndefined \<Rightarrow> False | JNull \<Rightarrow> False | JBool b \<Rightarrow> b | JNum x \<Rightarrow> x \<noteq> NaN \<and> x \<noteq> Fin 0 | JStr s \<Rightarrow> s \<noteq> ''''
   | JArr _ \<Rightarrow> True | JObj _ \<Rightarrow> True)"

definition first_elem :: "json \<Rightarrow> json" where
  "first_elem v = (case v of
     JArr (x # _) \<Rightarrow> x | JStr (c # _) \<Rightarrow> JStr [c] | JObj kvs \<Rightarrow> prop_of ''0'' kvs | _ \<Rightarrow> JUndefined)"

definition spread_entries :: "json \<Rightarrow> (string \<times> json) list" where
  "spread_entries v = (case v of
     JObj kvs \<Rightarrow> kvs
   | JArr xs \<Rightarrow> zip (map show_nat [0..<length xs]) xs
   | JStr s \<Rightarrow> zip (map show_nat [0..<length s]) (map (\<lambda>c. JStr [c]) s)
   | _ \<Rightarrow> [])"

text \<open>The equality of \<^verbatim>\<open>Set\<close> and \<^verbatim>\<open>includes\<close>: two objects are different, however much alike.\<close>

definition same_value :: "json \<Rightarrow> json \<Rightarrow> bool" where
  "same_value x y = (case x of JArr _ \<Rightarrow> False | JObj _ \<Rightarrow> False | _ \<Rightarrow> x = y)"

definition distinct_values :: "json list \<Rightarrow> json list" where
  "distinct_values xs = foldl (\<lambda>s x. if list_ex (same_value x) s then s else s @ [x]) [] xs"

definition new_Set :: "json \<Rightarrow> json list res" where
  "new_Set v =
     (case v of
        JUndefined \<Rightarrow> Inr [] | JNull \<Rightarrow> Inr []
      | JArr xs \<Rightarrow> Inr (distinct_values xs)
      | JStr s \<Rightarrow> Inr (distinct_values (map (\<lambda>c. JStr [c]) s))
      | _ \<Rightarrow> Inl TypeError)"

text \<open>
  \<^verbatim>\<open>JSON.stringify\<close> prints a value without its undefined fields, and what is no finite number as \<^verbatim>\<open>null\<close>.
  The text determines the printed value and the order of its fields, so that two texts are equal if and only if
  the printed values are.
\<close>

fun printed :: "json \<Rightarrow> json" where
  "printed (JNum x) = (case x of Fin q \<Rightarrow> JNum (Fin q) | _ \<Rightarrow> JNull)"
| "printed (JArr xs) = JArr (map (\<lambda>x. if x = JUndefined then JNull else printed x) xs)"
| "printed (JObj kvs) = JObj (map (\<lambda>(k, v). (k, printed v)) (filter (\<lambda>(k, v). v \<noteq> JUndefined) kvs))"
| "printed v = v"


section \<open>Validation\<close>

type_synonym uploaded_config = "(string \<times> json) list"

definition price_account_0 :: "json \<Rightarrow> json" where
  "price_account_0 product = first_elem (field product ''priceAccounts'')"

definition publishers_0 :: "json \<Rightarrow> json" where
  "publishers_0 product = field (price_account_0 product) ''publishers''"

definition dedup_price_account :: "json \<Rightarrow> json res" where
  "dedup_price_account pa =
     (if pa = JUndefined \<or> pa = JNull then Inl TypeError
      else res_bind (new_Set (field pa ''publishers'')) (\<lambda>publishers.
        Inr (JObj (obj_of (spread_entries pa @ [(''publishers'', JArr publishers)])))))"

definition dedup_product :: "json \<Rightarrow> json res" where
  "dedup_product product =
     (case publishers_0 product of
        JArr _ \<Rightarrow>
          (case field product ''priceAccounts'' of
             JArr pas \<Rightarrow> res_bind (map_res dedup_price_account pas) (\<lambda>pas'.
               Inr (JObj (obj_of (spread_entries product @ [(''priceAccounts'', JArr pas')]))))
           | _ \<Rightarrow> Inl TypeError)
      | _ \<Rightarrow> Inr product)"

definition processed_config :: "uploaded_config \<Rightarrow> uploaded_config res" where
  "processed_config uploadedConfig =
     res_bind (map_res (\<lambda>(symbol, product). res_bind (dedup_product product) (\<lambda>p. Inr (symbol, p))) uploadedConfig)
       (\<lambda>entries. Inr (obj_of entries))"

text \<open>A missing \<^verbatim>\<open>prev\<close> or \<^verbatim>\<open>new\<close> is \<^verbatim>\<open>undefined\<close>.\<close>

record change =
  ch_prev :: json
  ch_new :: json

text \<open>
  The entry for a new symbol.  Replacing the first price account writes to the array of the product, which
  afterwards is only read for its publishers.
\<close>

definition clear_price_address :: "json \<Rightarrow> json" where
  "clear_price_address pas =
     (let cleared = (\<lambda>pa. JObj (obj_of (filter (\<lambda>kv. fst kv \<noteq> ''address'') (spread_entries pa) @ [(''address'', JStr '''')]))) in
      case pas of
        JArr (pa # rest) \<Rightarrow> JArr (cleared pa # rest)
      | JObj kvs \<Rightarrow> JObj (obj_set ''0'' (cleared (first_elem pas)) kvs)
      | _ \<Rightarrow> pas)"

definition new_product :: "string \<Rightarrow> json \<Rightarrow> json" where
  "new_product symbol product =
     (let newProduct = spread_entries product;
          metadata = prop_of ''metadata'' newProduct;
          newProduct = (if js_truthy metadata
            then obj_set ''metadata'' (JObj (obj_of ((''symbol'', JStr symbol) # spread_entries metadata))) newProduct
            else newProduct);
          newProduct = (if js_truthy (prop_of ''address'' newProduct)
            then filter (\<lambda>kv. fst kv \<noteq> ''address'') newProduct else newProduct);
          pas = prop_of ''priceAccounts'' newProduct in
      JObj (if js_truthy (field (first_elem pas) ''address'')
            then obj_set ''priceAccounts'' (clear_price_address pas) newProduct else newProduct))"

definition compare_symbol ::
  "uploaded_config \<Rightarrow> (string \<times> change) list \<Rightarrow> string \<times> json \<Rightarrow> (string \<times> change) list" where
  "compare_symbol existingConfig changes sp = (case sp of (symbol, product) \<Rightarrow>
     if symbol \<notin> fst ` set existingConfig
     then obj_set symbol \<lparr>ch_prev = JUndefined, ch_new = new_product symbol product\<rparr> changes
     else if printed (prop_of symbol existingConfig) \<noteq> printed product
     then obj_set symbol \<lparr>ch_prev = prop_of symbol existingConfig, ch_new = product\<rparr> changes
     else changes)"

definition remove_symbol ::
  "uploaded_config \<Rightarrow> (string \<times> change) list \<Rightarrow> string \<times> json \<Rightarrow> (string \<times> change) list" where
  "remove_symbol processedConfig changes sp = (case sp of (symbol, product) \<Rightarrow>
     if \<not> js_truthy (prop_of symbol processedConfig)
     then obj_set symbol \<lparr>ch_prev = product, ch_new = JUndefined\<rparr> changes else changes)"

definition config_changes :: "uploaded_config \<Rightarrow> uploaded_config \<Rightarrow> (string \<times> change) list" where
  "config_changes existingConfig processedConfig =
     foldl (remove_symbol processedConfig) (foldl (compare_symbol existingConfig) [] processedConfig) existingConfig"

text \<open>\<^verbatim>\<open>!==\<close>.\<close>

definition strict_ne :: "json \<Rightarrow> json \<Rightarrow> bool" where
  "strict_ne x y \<longleftrightarrow> \<not> same_value x y \<or> x = JNum NaN"

definition address_changed :: "uploaded_config \<Rightarrow> string \<times> json \<Rightarrow> bool" where
  "address_changed existingConfig sp = (case sp of (symbol, product) \<Rightarrow>
     symbol \<in> fst ` set existingConfig \<and> js_truthy (field product ''address'') \<and>
     strict_ne (field product ''address'') (field (prop_of symbol existingConfig) ''address''))"

definition price_address_changed :: "uploaded_config \<Rightarrow> string \<times> json \<Rightarrow> bool" where
  "price_address_changed existingConfig sp = (case sp of (symbol, product) \<Rightarrow>
     let pa = price_account_0 product; existing = price_account_0 (prop_of symbol existingConfig) in
     symbol \<in> fst ` set existingConfig \<and> js_truthy pa \<and> js_truthy existing \<and> js_truthy (field pa ''address'') \<and>
     strict_ne (field pa ''address'') (field existing ''address''))"

text \<open>\<^verbatim>\<open>publishers.length > max\<close>; a comparison with a missing length or limit is false.\<close>

definition js_length :: "json \<Rightarrow> jsnum option" where
  "js_length v = (case v of
     JArr xs \<Rightarrow> Some (Fin (of_nat (length xs)))
   | JStr s \<Rightarrow> Some (Fin (of_nat (length s)))
   | _ \<Rightarrow> (case field v ''length'' of JNum n \<Rightarrow> Some n | _ \<Rightarrow> None))"

definition too_many_publishers :: "string \<Rightarrow> string \<times> json \<Rightarrow> bool" where
  "too_many_publishers cluster sp = (case sp of (symbol, product) \<Rightarrow>
     js_truthy (publishers_0 product) \<and>
     (case (js_length (publishers_0 product), getMaximumNumberOfPublishers cluster) of
        (Some n, Some mx) \<Rightarrow> js_gt n (Fin (of_nat mx)) | _ \<Rightarrow> False))"

text \<open>\<open>ValidationThrew\<close> is the answer of the \<^verbatim>\<open>catch\<close> block, whose text is that of the engine's exception.\<close>

datatype validation_result = Valid "(string \<times> change) list" | Invalid string | ValidationThrew js_error

definition first_error :: "('a \<Rightarrow> bool) \<Rightarrow> ('a \<Rightarrow> string) \<Rightarrow> 'a list \<Rightarrow> string option" where
  "first_error bad msg xs = (case filter bad xs of [] \<Rightarrow> None | x # _ \<Rightarrow> Some (msg x))"

definition max_publishers_text :: "string \<Rightarrow> string" where
  "max_publishers_text cluster =
     (case getMaximumNumberOfPublishers cluster of None \<Rightarrow> ''undefined'' | Some n \<Rightarrow> show_nat n)"

definition address_error :: "string \<Rightarrow> string \<times> json \<Rightarrow> string" where
  "address_error what sp = ''Address field for '' @ what @ '' cannot be changed for symbol '' @ fst sp @
     ''. Please revert any changes to the address field and try again.''"

definition validateUploadedConfig :: "uploaded_config \<Rightarrow> uploaded_config \<Rightarrow> string \<Rightarrow> validation_result" where
  "validateUploadedConfig existingConfig uploadedConfig cluster =
     (case processed_config uploadedConfig of
        Inl e \<Rightarrow> ValidationThrew e
      | Inr processedConfig \<Rightarrow>
          let changes = config_changes existingConfig processedConfig in
          (case first_error (address_changed existingConfig) (address_error ''product'') processedConfig of
             Some e \<Rightarrow> Invalid e
           | None \<Rightarrow>
          (case first_error (price_address_changed existingConfig) (address_error ''priceAccounts'') processedConfig of
             Some e \<Rightarrow> Invalid e
           | None \<Rightarrow>
          (case first_error (too_many_publishers cluster)
                  (\<lambda>sp. fst sp @ '' has more than '' @ max_publishers_text cluster @ '' publishers.'') processedConfig of
             Some e \<Rightarrow> Invalid e
           | None \<Rightarrow> Valid changes))))"


section \<open>Objects and sorts\<close>

lemma obj_of_keys: "distinct (map fst (obj_of kvs))" "fst ` set (obj_of kvs) = fst ` set kvs"
proof -
  have "distinct (map fst (obj_of kvs)) \<and> fst ` set (obj_of kvs) = fst ` set kvs"
  proof (induction kvs rule: rev_induct)
    case (snoc p kvs)
    then show ?case by (cases p) (simp add: obj_of_snoc map_fst_obj_set fst_obj_set)
  qed (simp add: obj_of_def)
  then show "distinct (map fst (obj_of kvs))" "fst ` set (obj_of kvs) = fst ` set kvs" by blast+
qed

lemma prop_of_mem: "distinct (map fst kvs) \<Longrightarrow> (k, v) \<in> set kvs \<Longrightarrow> prop_of k kvs = v"
  by (simp add: prop_of_def)

lemma mset_js_insert: "mset (js_insert cmp x xs) = add_mset x (mset xs)"
  by (induction cmp x xs rule: js_insert.induct) auto

lemma mset_js_sort [simp]: "mset (js_sort cmp xs) = mset xs"
  unfolding js_sort_def by (induction xs) (simp_all add: mset_js_insert)

lemma set_js_sort [simp]: "set (js_sort cmp xs) = set xs"
  by (metis mset_js_sort set_mset_mset)

lemma length_js_sort [simp]: "length (js_sort cmp xs) = length xs"
  by (metis mset_js_sort size_mset)

lemma distinct_js_sort [simp]: "distinct (js_sort cmp xs) \<longleftrightarrow> distinct xs"
  by (metis mset_js_sort mset_eq_imp_distinct_iff)

lemma distinct_values_strings: "distinct ss \<Longrightarrow> distinct_values (map JStr ss) = map JStr ss"
proof (induction ss rule: rev_induct)
  case (snoc s ss)
  then show ?case by (auto simp: distinct_values_def list_ex_iff same_value_def)
qed (simp add: distinct_values_def)

lemma first_error_None: "first_error bad msg xs = None \<longleftrightarrow> (\<forall>x \<in> set xs. \<not> bad x)"
  using filter_empty_conv [of bad xs] by (cases "filter bad xs") (auto simp: first_error_def)

section \<open>Reading the accounts\<close>

text \<open>The accounts \<open>rs\<close> with the keys \<open>ks\<close> form a linked list from the key \<open>k\<close>, after which \<open>e\<close> would be next.\<close>

fun linked ::
  "('pk \<Rightarrow> string) \<Rightarrow> (string \<times> 'pk price_raw) list \<Rightarrow> string option \<Rightarrow> string list \<Rightarrow> 'pk price_raw list \<Rightarrow> string option \<Rightarrow> bool"
where
  "linked b58 T k [] [] e \<longleftrightarrow> e = k"
| "linked b58 T k (x # ks) (r # rs) e \<longleftrightarrow>
     k = Some x \<and> table_of T x = Some r \<and> linked b58 T (map_option b58 (rp_next r)) ks rs e"
| "linked b58 T k _ _ e \<longleftrightarrow> False"

lemma follow_prices_linked:
  "\<exists>ks e. linked b58 T k ks (follow_prices b58 T k ps) e \<and> distinct ks \<and> set ks \<inter> set ps = {} \<and>
     (case e of None \<Rightarrow> True | Some x \<Rightarrow> x = '''' \<or> x \<in> set ks \<union> set ps \<or> table_of T x = None)"
proof (induction b58 T k ps rule: follow_prices.induct)
  case (1 b58 T k ps)
  show ?case
  proof (cases "\<exists>x r. k = Some x \<and> x \<noteq> '''' \<and> x \<notin> set ps \<and> table_of T x = Some r")
    case True
    then obtain x r where x: "k = Some x" "x \<noteq> ''''" "x \<notin> set ps" "table_of T x = Some r" by blast
    obtain ks e where ks: "linked b58 T (map_option b58 (rp_next r)) ks
        (follow_prices b58 T (map_option b58 (rp_next r)) (set_add x ps)) e"
      "distinct ks" "set ks \<inter> set (set_add x ps) = {}"
      "case e of None \<Rightarrow> True | Some y \<Rightarrow> y = '''' \<or> y \<in> set ks \<union> set (set_add x ps) \<or> table_of T y = None"
      using 1 [of x r] x by auto
    have "follow_prices b58 T k ps = r # follow_prices b58 T (map_option b58 (rp_next r)) (set_add x ps)"
      unfolding x(1) by (subst follow_prices.simps) (simp add: x)
    then have "linked b58 T k (x # ks) (follow_prices b58 T k ps) e" using ks(1) x by simp
    moreover have "distinct (x # ks)" "set (x # ks) \<inter> set ps = {}" using ks(2,3) x by auto
    moreover have "case e of None \<Rightarrow> True | Some y \<Rightarrow> y = '''' \<or> y \<in> set (x # ks) \<union> set ps \<or> table_of T y = None"
      using ks(4) by (auto split: option.splits)
    ultimately show ?thesis by blast
  next
    case False
    then have "follow_prices b58 T k ps = []"
      by (subst follow_prices.simps) (auto split: option.split)
    then have "linked b58 T k [] (follow_prices b58 T k ps) k" by simp
    moreover have "case k of None \<Rightarrow> True | Some y \<Rightarrow> y = '''' \<or> y \<in> set [] \<union> set ps \<or> table_of T y = None"
      using False by (auto split: option.split)
    ultimately show ?thesis by (intro exI [of _ "[]"] exI [of _ k]) simp
  qed
qed

text \<open>
  C9. Whatever links the price accounts of a product have, cycles and dangling keys included, reading them ends,
  takes no account twice, and stops only where the list ends, leaves the known accounts or comes back to an account it
  has taken.
\<close>

theorem follow_prices_complete:
  "\<exists>keys next. linked (ps_toBase58 P) T (map_option (ps_toBase58 P) (pr_priceAccountKey (ps_product P (ac_data a)))) keys
       (ro_priceAccounts (product_raw_of P T a)) next \<and> distinct keys \<and>
     (next = None \<or> next = Some '''' \<or> (\<exists>x. next = Some x \<and> (x \<in> set keys \<or> table_of T x = None)))"
  using follow_prices_linked [of "ps_toBase58 P" T "map_option (ps_toBase58 P) (pr_priceAccountKey (ps_product P (ac_data a)))" "[]"]
  by (fastforce simp: product_raw_of_def Let_def split: option.splits)


text \<open>The product accounts that a key stands for have that key.\<close>

definition keyed :: "('pk \<Rightarrow> string) \<Rightarrow> (string \<times> 'pk product_raw) list \<Rightarrow> bool" where
  "keyed b58 T \<longleftrightarrow> (\<forall>(k, p) \<in> set T. b58 (ro_address p) = k)"

lemma keyed_table: "keyed b58 T \<Longrightarrow> table_of T k = Some p \<Longrightarrow> b58 (ro_address p) = k"
  by (force simp: keyed_def table_of_def dest: map_of_SomeD)

lemma map_filter_table:
  assumes "keyed b58 T" and "\<forall>k \<in> set ks. table_of T k \<noteq> None"
  shows "map (\<lambda>p. b58 (ro_address p)) (List.map_filter (table_of T) ks) = ks"
  using assms by (induction ks) (auto simp: List.map_filter_def dest: keyed_table)

lemma foldl_set_add: "set (foldl (\<lambda>s k. set_add k s) ps ks) = set ps \<union> set ks"
  by (induction ks arbitrary: ps) auto

lemma mapping_products_keys:
  assumes "keyed b58 T" and "mapping_products b58 T ps keys = (products, ps')"
  shows "set ps' = set ps \<union> (\<lambda>p. b58 (ro_address p)) ` set products"
    "set ps \<inter> (\<lambda>p. b58 (ro_address p)) ` set products = {}"
    "distinct (map b58 keys) \<Longrightarrow> distinct (map (\<lambda>p. b58 (ro_address p)) products)"
    "\<forall>p \<in> set products. ro_priceAccounts p \<noteq> []"
proof -
  define wanted where "wanted = filter (\<lambda>keyStr. case table_of T keyStr of
            None \<Rightarrow> False
          | Some product \<Rightarrow> ro_priceAccounts product \<noteq> [] \<and> keyStr \<notin> set ps) (map b58 keys)"
  have products: "products = List.map_filter (table_of T) wanted" and ps': "ps' = foldl (\<lambda>s k. set_add k s) ps wanted"
    using assms(2) by (simp_all add: mapping_products_def wanted_def Let_def)
  have "\<forall>k \<in> set wanted. table_of T k \<noteq> None" by (auto simp: wanted_def split: option.splits)
  from map_filter_table [OF assms(1) this]
  have keys: "map (\<lambda>p. b58 (ro_address p)) products = wanted" by (simp add: products)
  then have img: "(\<lambda>p. b58 (ro_address p)) ` set products = set wanted" by (metis list.set_map)
  show "set ps' = set ps \<union> (\<lambda>p. b58 (ro_address p)) ` set products" by (simp add: ps' img foldl_set_add)
  show "set ps \<inter> (\<lambda>p. b58 (ro_address p)) ` set products = {}"
    unfolding img by (auto simp: wanted_def split: option.splits)
  show "distinct (map b58 keys) \<Longrightarrow> distinct (map (\<lambda>p. b58 (ro_address p)) products)"
    unfolding keys by (simp add: wanted_def)
  show "\<forall>p \<in> set products. ro_priceAccounts p \<noteq> []"
    by (auto simp: products wanted_def map_filter_def split: option.splits)
qed

lemma image_disjointI:
  assumes "\<And>q. q \<in> B \<Longrightarrow> f q \<notin> f ` A"
  shows "f ` A \<inter> f ` B = {}"
proof (rule equals0I)
  fix y assume "y \<in> f ` A \<inter> f ` B"
  then obtain q where "q \<in> B" and "y = f q" and "y \<in> f ` A" by blast
  with assms [of q] show False by simp
qed

lemma mapping_accounts_distinct:
  assumes "keyed (ps_toBase58 P) T"
    and "\<forall>a \<in> set as. distinct (map (ps_toBase58 P) (pm_productAccountKeys (ps_mapping P (ac_data a))))"
  defines "key \<equiv> \<lambda>p. ps_toBase58 P (ro_address p)"
  shows "distinct (map key (concat (map rm_products (mapping_accounts P T ps as)))) \<and>
    (\<forall>p \<in> set (concat (map rm_products (mapping_accounts P T ps as))). key p \<notin> set ps \<and> ro_priceAccounts p \<noteq> [])"
  using assms(2)
proof (induction as arbitrary: ps)
  case (Cons a as)
  obtain products ps' where m: "mapping_products (ps_toBase58 P) T ps (pm_productAccountKeys (ps_mapping P (ac_data a))) = (products, ps')"
    by fastforce
  note facts = mapping_products_keys [OF assms(1) m, folded key_def]
  let ?rest = "concat (map rm_products (mapping_accounts P T ps' as))"
  have all: "concat (map rm_products (mapping_accounts P T ps (a # as))) = products @ ?rest" by (simp add: m Let_def)
  have ih: "distinct (map key ?rest)" "\<forall>p \<in> set ?rest. key p \<notin> set ps' \<and> ro_priceAccounts p \<noteq> []"
    using Cons.IH [of ps'] Cons.prems by simp_all
  have new: "key q \<notin> key ` set products" if "q \<in> set ?rest" for q
    using bspec [OF ih(2) that] unfolding facts(1) by blast
  have "distinct (map key products)" using facts(3) Cons.prems by simp
  moreover have "key ` set products \<inter> key ` set ?rest = {}" by (rule image_disjointI [OF new])
  moreover have "\<forall>p \<in> set products. key p \<notin> set ps \<and> ro_priceAccounts p \<noteq> []" using facts(2,4) by blast
  moreover have "\<forall>p \<in> set ?rest. key p \<notin> set ps \<and> ro_priceAccounts p \<noteq> []"
    using ih(2) unfolding facts(1) by blast
  ultimately show ?case unfolding all map_append distinct_append set_append set_map using ih(1) by blast
qed simp

text \<open>
  When no mapping account lists a product twice, the configuration that is read contains every product at most once, across
  all mapping accounts, and only products that have a price account.
\<close>

theorem getConfig_products_once:
  assumes "\<forall>a \<in> set accounts. distinct (map (ps_toBase58 P) (pm_productAccountKeys (ps_mapping P (ac_data a))))"
  shows "let products = concat (map rm_products (cf_mappingAccounts (getConfig P accounts))) in
    distinct (map (\<lambda>p. ps_toBase58 P (ro_address p)) products) \<and> (\<forall>p \<in> set products. ro_priceAccounts p \<noteq> [])"
proof -
  let ?prices = "map (\<lambda>a. (ps_toBase58 P (ac_pubkey a), price_raw_of P a))
    (filter (\<lambda>a. parsed_type P accounts a = Some PriceAccount) accounts)"
  let ?T = "map (\<lambda>a. (ps_toBase58 P (ac_pubkey a), product_raw_of P ?prices a))
    (filter (\<lambda>a. parsed_type P accounts a = Some ProductAccount) accounts)"
  have "keyed (ps_toBase58 P) ?T" by (auto simp: keyed_def product_raw_of_def Let_def)
  from mapping_accounts_distinct [OF this, of "filter (\<lambda>a. parsed_type P accounts a = Some MappingAccount) accounts" "[]"]
  show ?thesis using assms by (simp add: getConfig_def Let_def)
qed


section \<open>Validation is exact\<close>

text \<open>What a change of a symbol should be, from the product it has and the product that is uploaded for it.\<close>

definition change_of :: "string \<Rightarrow> json option \<Rightarrow> json option \<Rightarrow> change option" where
  "change_of symbol existing uploaded =
     (case (existing, uploaded) of
        (None, None) \<Rightarrow> None
      | (None, Some p) \<Rightarrow> Some \<lparr>ch_prev = JUndefined, ch_new = new_product symbol p\<rparr>
      | (Some q, None) \<Rightarrow> Some \<lparr>ch_prev = q, ch_new = JUndefined\<rparr>
      | (Some q, Some p) \<Rightarrow>
          if \<not> js_truthy p then Some \<lparr>ch_prev = q, ch_new = JUndefined\<rparr>
          else if printed q \<noteq> printed p then Some \<lparr>ch_prev = q, ch_new = p\<rparr> else None)"

lemma map_of_compare:
  assumes "distinct (map fst ps)"
  shows "map_of (foldl (compare_symbol ex) ch ps) s =
    (case map_of ps s of
       None \<Rightarrow> map_of ch s
     | Some p \<Rightarrow>
         if s \<notin> fst ` set ex then Some \<lparr>ch_prev = JUndefined, ch_new = new_product s p\<rparr>
         else if printed (prop_of s ex) \<noteq> printed p then Some \<lparr>ch_prev = prop_of s ex, ch_new = p\<rparr>
         else map_of ch s)"
  using assms
proof (induction ps arbitrary: ch)
  case (Cons sp ps)
  obtain t p where sp: "sp = (t, p)" by (cases sp)
  have "map_of ps t = None" using Cons.prems by (simp add: sp map_of_eq_None_iff)
  then show ?case using Cons by (auto simp: sp compare_symbol_def map_of_obj_set split: option.split)
qed simp

lemma map_of_remove:
  assumes "distinct (map fst ex)"
  shows "map_of (foldl (remove_symbol ps) ch ex) s =
    (case map_of ex s of
       None \<Rightarrow> map_of ch s
     | Some q \<Rightarrow> if js_truthy (prop_of s ps) then map_of ch s else Some \<lparr>ch_prev = q, ch_new = JUndefined\<rparr>)"
  using assms
proof (induction ex arbitrary: ch)
  case (Cons sq ex)
  obtain t q where sq: "sq = (t, q)" by (cases sq)
  have "map_of ex t = None" using Cons.prems by (simp add: sq map_of_eq_None_iff)
  then show ?case using Cons by (auto simp: sq remove_symbol_def map_of_obj_set split: option.split)
qed simp

lemma js_truthy_undefined [simp]: "\<not> js_truthy JUndefined"
  by (simp add: js_truthy_def)

lemma config_changes_exact:
  assumes "distinct (map fst ps)" and "distinct (map fst ex)"
  shows "map_of (config_changes ex ps) s = change_of s (map_of ex s) (map_of ps s)"
proof -
  have keys: "s \<in> fst ` set ex \<longleftrightarrow> map_of ex s \<noteq> None" by (simp add: map_of_eq_None_iff)
  show ?thesis
    by (cases "map_of ex s"; cases "map_of ps s")
      (simp_all add: config_changes_def map_of_remove [OF assms(2)] map_of_compare [OF assms(1)] change_of_def prop_of_def keys)
qed

lemma processed_config_keys: "processed_config up = Inr ps \<Longrightarrow> distinct (map fst ps)"
  by (auto simp: processed_config_def res_simps obj_of_keys)

lemma processed_config_lookup:
  assumes "processed_config up = Inr ps" and "distinct (map fst up)"
  shows "map_of ps s =
    (case map_of up s of None \<Rightarrow> None | Some u \<Rightarrow> case dedup_product u of Inl _ \<Rightarrow> None | Inr p \<Rightarrow> Some p)"
proof -
  obtain es where es: "list_all2 (\<lambda>(t, u) y. res_bind (dedup_product u) (\<lambda>p. Inr (t, p)) = Inr y) up es" and ps: "ps = obj_of es"
    using assms(1) by (auto simp: processed_config_def res_simps map_res_Inr_iff split_def)
  have keys: "map fst es = map fst up"
    using es by (induction rule: list_all2_induct) (auto simp: res_simps)
  have "map_of es s =
      (case map_of up s of None \<Rightarrow> None | Some u \<Rightarrow> case dedup_product u of Inl _ \<Rightarrow> None | Inr p \<Rightarrow> Some p)"
    using es by (induction rule: list_all2_induct) (auto simp: res_simps)
  then show ?thesis using obj_of_distinct [of es] assms(2) by (simp add: ps keys)
qed

lemma case_first_error:
  "(case first_error bad msg xs of None \<Rightarrow> r | Some e \<Rightarrow> Invalid e) = Valid changes \<longleftrightarrow>
     (\<forall>x \<in> set xs. \<not> bad x) \<and> r = Valid changes"
  unfolding first_error_None [of bad msg xs, symmetric] by (cases "first_error bad msg xs") auto

definition acceptable :: "uploaded_config \<Rightarrow> string \<Rightarrow> uploaded_config \<Rightarrow> bool" where
  "acceptable existing cluster processed \<longleftrightarrow> (\<forall>sp \<in> set processed.
     \<not> address_changed existing sp \<and> \<not> price_address_changed existing sp \<and> \<not> too_many_publishers cluster sp)"

lemma validate_Valid:
  "validateUploadedConfig existing uploaded cluster = Valid changes \<longleftrightarrow>
     (\<exists>processed. processed_config uploaded = Inr processed \<and> acceptable existing cluster processed \<and>
       changes = config_changes existing processed)"
  by (cases "processed_config uploaded")
    (auto simp: validateUploadedConfig_def acceptable_def Let_def case_first_error)

lemma valid_changes_lookup:
  assumes "validateUploadedConfig existing uploaded cluster = Valid changes"
    and "distinct (map fst existing)" and "distinct (map fst uploaded)"
  shows "map_of changes s = change_of s (map_of existing s)
    (case map_of uploaded s of None \<Rightarrow> None | Some u \<Rightarrow> case dedup_product u of Inl _ \<Rightarrow> None | Inr p \<Rightarrow> Some p)"
proof -
  obtain ps where ps: "processed_config uploaded = Inr ps" and ch: "changes = config_changes existing ps"
    using assms(1) by (auto simp: validate_Valid)
  show ?thesis
    unfolding ch config_changes_exact [OF processed_config_keys [OF ps] assms(2)]
      processed_config_lookup [OF ps assms(3)] ..
qed

section \<open>Products as tables\<close>

lemma prop_of_obj_set: "prop_of k (obj_set k' v kvs) = (if k = k' then v else prop_of k kvs)"
  by (simp add: prop_of_def map_of_obj_set)

lemma prop_of_filter: "prop_of k (filter (\<lambda>kv. fst kv \<noteq> k') kvs) = (if k = k' then JUndefined else prop_of k kvs)"
  by (induction kvs) (auto simp: prop_of_def)

lemma field_extended:
  "distinct (map fst kvs) \<Longrightarrow> field (JObj (obj_of (kvs @ [(k', v)]))) k = (if k = k' then v else field (JObj kvs) k)"
  by (simp add: field_literal obj_of_snoc obj_of_distinct prop_of_obj_set)

lemma distinct_keys_obj_set: "distinct (map fst kvs) \<Longrightarrow> distinct (map fst (obj_set k v kvs))"
  by (simp add: map_fst_obj_set)

lemma distinct_keys_filter: "distinct (map fst kvs) \<Longrightarrow> distinct (map fst (filter P kvs))"
  by (simp add: distinct_map_filter)

text \<open>
  A product as a table: an object with an object of metadata and a list of price accounts, each an object with a
  list of publishers.
\<close>

definition table_account :: "json \<Rightarrow> bool" where
  "table_account pa \<longleftrightarrow> (\<exists>kvs ps. pa = JObj kvs \<and> distinct (map fst kvs) \<and> prop_of ''publishers'' kvs = JArr (map JStr ps))"

definition table_product :: "json \<Rightarrow> bool" where
  "table_product u \<longleftrightarrow> (\<exists>kvs md pas. u = JObj kvs \<and> distinct (map fst kvs) \<and> prop_of ''metadata'' kvs = JObj md \<and>
     distinct (map fst md) \<and> prop_of ''priceAccounts'' kvs = JArr pas \<and> (\<forall>pa \<in> set pas. table_account pa))"

text \<open>The same product, with the publishers of each price account listed once, where they first occurred.\<close>

definition deduped_account :: "json \<Rightarrow> json \<Rightarrow> bool" where
  "deduped_account a b \<longleftrightarrow> (\<forall>k. k \<noteq> ''publishers'' \<longrightarrow> field b k = field a k) \<and>
     (\<forall>ps. field a ''publishers'' = JArr (map JStr ps) \<longrightarrow> field b ''publishers'' = JArr (map JStr (rev (remdups (rev ps)))))"

definition deduped :: "json \<Rightarrow> json \<Rightarrow> bool" where
  "deduped u p \<longleftrightarrow> (\<forall>k. k \<noteq> ''priceAccounts'' \<longrightarrow> field p k = field u k) \<and>
     (\<exists>as bs. field u ''priceAccounts'' = JArr as \<and> field p ''priceAccounts'' = JArr bs \<and> list_all2 deduped_account as bs)"

text \<open>
  The entry for a new symbol: the product without its address and without the address of its first price account,
  and with the symbol in the metadata unless they name one already.
\<close>

definition without_address :: "json \<Rightarrow> json \<Rightarrow> bool" where
  "without_address a b \<longleftrightarrow> (\<forall>k. k \<noteq> ''address'' \<longrightarrow> field b k = field a k) \<and> \<not> js_truthy (field b ''address'')"

definition entry_for :: "string \<Rightarrow> json \<Rightarrow> json \<Rightarrow> bool" where
  "entry_for s p n \<longleftrightarrow>
     (\<forall>k. k \<notin> {''address'', ''metadata'', ''priceAccounts''} \<longrightarrow> field n k = field p k) \<and>
     \<not> js_truthy (field n ''address'') \<and>
     (\<exists>md md'. field p ''metadata'' = JObj md \<and> field n ''metadata'' = JObj md' \<and>
        (\<forall>k. map_of md' k = (if k = ''symbol'' \<and> map_of md k = None then Some (JStr s) else map_of md k))) \<and>
     (\<exists>as bs. field p ''priceAccounts'' = JArr as \<and> field n ''priceAccounts'' = JArr bs \<and> length bs = length as \<and>
        tl bs = tl as \<and> (as \<noteq> [] \<longrightarrow> without_address (hd as) (hd bs)))"

lemma distinct_values_JStr: "distinct_values (map JStr ps) = map JStr (rev (remdups (rev ps)))"
proof (induction ps rule: rev_induct)
  case (snoc p ps)
  have "distinct_values (map JStr (ps @ [p])) =
      (if list_ex (same_value (JStr p)) (distinct_values (map JStr ps)) then distinct_values (map JStr ps)
       else distinct_values (map JStr ps) @ [JStr p])"
    by (simp add: distinct_values_def)
  moreover have "list_ex (same_value (JStr p)) (map JStr (rev (remdups (rev ps)))) \<longleftrightarrow> p \<in> set ps"
    by (auto simp: list_ex_iff same_value_def)
  ultimately show ?case using snoc by simp
qed (simp add: distinct_values_def)

lemma dedup_table_account:
  assumes "table_account a"
  shows "\<exists>b. dedup_price_account a = Inr b \<and> deduped_account a b \<and> table_account b"
proof -
  obtain kvs ps where a: "a = JObj kvs" "distinct (map fst kvs)" "prop_of ''publishers'' kvs = JArr (map JStr ps)"
    using assms by (auto simp: table_account_def)
  let ?kvs = "obj_of (kvs @ [(''publishers'', JArr (map JStr (rev (remdups (rev ps)))))])"
  have "dedup_price_account a = Inr (JObj ?kvs)"
    using a by (simp add: dedup_price_account_def new_Set_def field_literal distinct_values_JStr spread_entries_def)
  moreover have f: "field (JObj ?kvs) k = (if k = ''publishers'' then JArr (map JStr (rev (remdups (rev ps)))) else field a k)" for k
    using field_extended [OF a(2)] by (simp add: a(1))
  moreover have "deduped_account a (JObj ?kvs)"
    using a by (auto simp: deduped_account_def f field_literal [of kvs] dest: map_injective [OF _ injI])
  moreover have "table_account (JObj ?kvs)"
    using f [of "''publishers''"] obj_of_keys(1) unfolding table_account_def by (auto simp: field_literal)
  ultimately show ?thesis by blast
qed

lemma dedup_table_product:
  assumes "table_product u"
  shows "\<exists>p. dedup_product u = Inr p \<and> deduped u p \<and> table_product p"
proof -
  obtain kvs md as where u: "u = JObj kvs" "distinct (map fst kvs)" "prop_of ''metadata'' kvs = JObj md" "distinct (map fst md)"
    "prop_of ''priceAccounts'' kvs = JArr as" "\<forall>a \<in> set as. table_account a"
    using assms by (auto simp: table_product_def)
  obtain f where f: "\<And>a. table_account a \<Longrightarrow> dedup_price_account a = Inr (f a) \<and> deduped_account a (f a) \<and> table_account (f a)"
    using dedup_table_account by metis
  show ?thesis
  proof (cases "as = []")
    case True
    then have "dedup_product u = Inr u" using u by (simp add: dedup_product_def publishers_0_def price_account_0_def
        first_elem_def field_literal) (simp add: field_def)
    then show ?thesis using assms u True by (auto simp: deduped_def field_literal)
  next
    case False
    define kvs' where "kvs' = obj_of (kvs @ [(''priceAccounts'', JArr (map f as))])"
    have fields: "field (JObj kvs') k = (if k = ''priceAccounts'' then JArr (map f as) else field u k)" for k
      using field_extended [OF u(2)] by (simp add: u(1) kvs'_def)
    have "map_res dedup_price_account as = Inr (map f as)" using u(6) f by (intro map_res_Inr_map) blast
    moreover have "\<exists>xs. publishers_0 u = JArr xs"
      using u False by (cases as) (auto simp: publishers_0_def price_account_0_def first_elem_def field_literal table_account_def)
    ultimately have "dedup_product u = Inr (JObj kvs')"
      using u by (auto simp: dedup_product_def kvs'_def field_literal spread_entries_def)
    moreover have "deduped u (JObj kvs')"
      using u f by (auto simp: deduped_def fields field_literal [of kvs] list_all2_conv_all_nth)
    moreover have "table_product (JObj kvs')"
      unfolding table_product_def
      using u f fields [of "''metadata''"] fields [of "''priceAccounts''"] obj_of_keys(1) [of "kvs @ [(''priceAccounts'', JArr (map f as))]"]
      by (intro exI [of _ kvs'] exI [of _ md] exI [of _ "map f as"]) (simp add: field_literal kvs'_def [symmetric])
    ultimately show ?thesis by blast
  qed
qed

lemma clear_account:
  assumes "table_account a"
  shows "without_address a (if js_truthy (field a ''address'')
    then JObj (obj_of (filter (\<lambda>kv. fst kv \<noteq> ''address'') (spread_entries a) @ [(''address'', JStr '''')])) else a)"
proof -
  obtain kvs where a: "a = JObj kvs" "distinct (map fst kvs)" using assms by (auto simp: table_account_def)
  have "field (JObj (obj_of (filter (\<lambda>kv. fst kv \<noteq> ''address'') kvs @ [(''address'', JStr '''')]))) k =
      (if k = ''address'' then JStr '''' else field a k)" for k
    using field_extended [OF distinct_keys_filter [OF a(2)]] by (simp add: a(1) field_literal prop_of_filter)
  then show ?thesis by (simp add: without_address_def a(1) spread_entries_def) (simp add: js_truthy_def)
qed

lemma new_table_product:
  assumes "table_product p"
  shows "entry_for s p (new_product s p)"
proof -
  obtain kvs md as where p: "p = JObj kvs" "distinct (map fst kvs)" "prop_of ''metadata'' kvs = JObj md" "distinct (map fst md)"
    "prop_of ''priceAccounts'' kvs = JArr as" "\<forall>a \<in> set as. table_account a"
    using assms by (auto simp: table_product_def)
  let ?md = "obj_of ((''symbol'', JStr s) # md)"
  define cl where "cl = (\<lambda>a. JObj (obj_of (filter (\<lambda>kv. fst kv \<noteq> ''address'') (spread_entries a) @ [(''address'', JStr '''')])))"
  define bs where "bs = (case as of [] \<Rightarrow> [] | a # r \<Rightarrow> (if js_truthy (field a ''address'') then cl a else a) # r)"
  have md: "map_of ?md k = (if k = ''symbol'' \<and> map_of md k = None then Some (JStr s) else map_of md k)" for k
  proof -
    have "map_of (rev md) = map_of md" using map_of_obj_of [of md] obj_of_distinct [OF p(4)] by simp
    then show ?thesis by (simp add: map_of_obj_of map_add_def split: option.split)
  qed
  have new: "field (new_product s p) k = (if k = ''metadata'' then JObj ?md else if k = ''priceAccounts'' then JArr bs
      else if k = ''address'' \<and> js_truthy (field p ''address'') then JUndefined else field p k)" for k
    using p(3,5) by (cases as) (simp_all add: new_product_def Let_def p(1) field_literal spread_entries_def bs_def cl_def
        clear_price_address_def first_elem_def prop_of_obj_set prop_of_filter js_truthy_def [of "JObj md"] field_def [of JUndefined])
  have "length bs = length as \<and> tl bs = tl as \<and> (as \<noteq> [] \<longrightarrow> without_address (hd as) (hd bs))"
    using p(6) clear_account [of "hd as"] by (cases as) (simp_all add: bs_def cl_def split: if_splits)
  moreover have "field p ''metadata'' = JObj md" "field p ''priceAccounts'' = JArr as"
    using p by (simp_all add: field_literal)
  ultimately show ?thesis unfolding entry_for_def new using md by simp
qed

text \<open>An address that is left out, or kept.\<close>

definition address_kept :: "json \<Rightarrow> json \<Rightarrow> bool" where
  "address_kept v w \<longleftrightarrow> v \<in> {JUndefined, JNull, JBool False, JNum (Fin 0), JNum NaN, JStr ''''} \<or>
     v = w \<and> (\<forall>xs. v \<noteq> JArr xs) \<and> (\<forall>kvs. v \<noteq> JObj kvs)"

lemma address_kept_iff: "address_kept v w \<longleftrightarrow> \<not> (js_truthy v \<and> strict_ne v w)"
  by (cases v) (auto simp: address_kept_def js_truthy_def strict_ne_def same_value_def)

text \<open>The publishers a product may have on a cluster: 64 on the clusters of Pythnet, 32 on the others.\<close>

definition publishers_fit :: "string \<Rightarrow> json \<Rightarrow> bool" where
  "publishers_fit cluster publishers \<longleftrightarrow> (\<forall>n. js_length publishers = Some n \<longrightarrow>
     (cluster \<in> {''pythnet'', ''pythtest-conformance'', ''pythtest-crosschain''} \<longrightarrow> \<not> js_gt n (Fin 64)) \<and>
     (cluster \<in> {''mainnet-beta'', ''devnet'', ''testnet'', ''localnet''} \<longrightarrow> \<not> js_gt n (Fin 32)))"

lemma publishers_fit_iff: "publishers_fit cluster (publishers_0 p) \<longleftrightarrow> \<not> too_many_publishers cluster (s, p)"
proof -
  have "js_truthy v" if "js_length v = Some n" "js_gt n (Fin (of_nat m))" for v n and m :: nat
    using that by (cases v) (auto simp: js_length_def js_truthy_def field_def)
  then have "too_many_publishers cluster (s, p) \<longleftrightarrow>
      (\<exists>n mx. js_length (publishers_0 p) = Some n \<and> getMaximumNumberOfPublishers cluster = Some mx \<and> js_gt n (Fin (of_nat mx)))"
    by (auto simp: too_many_publishers_def split: option.splits)
  also have "\<dots> \<longleftrightarrow> \<not> publishers_fit cluster (publishers_0 p)"
    by (cases "js_length (publishers_0 p)") (simp_all add: publishers_fit_def getMaximumNumberOfPublishers_def)
  finally show ?thesis by blast
qed

text \<open>The conditions on an uploaded product \<open>p\<close> (its publishers deduplicated) and the product \<open>q\<close> its symbol has, if any.\<close>

definition accepted_product :: "string \<Rightarrow> json option \<Rightarrow> json \<Rightarrow> bool" where
  "accepted_product cluster existing p \<longleftrightarrow>
     (\<forall>q. existing = Some q \<longrightarrow> address_kept (field p ''address'') (field q ''address'') \<and>
        (js_truthy (first_elem (field p ''priceAccounts'')) \<longrightarrow> js_truthy (first_elem (field q ''priceAccounts'')) \<longrightarrow>
           address_kept (field (first_elem (field p ''priceAccounts'')) ''address'')
             (field (first_elem (field q ''priceAccounts'')) ''address''))) \<and>
     publishers_fit cluster (field (first_elem (field p ''priceAccounts'')) ''publishers'')"

lemma accepted_product_iff:
  assumes "distinct (map fst existing)"
  shows "accepted_product cluster (map_of existing s) p \<longleftrightarrow>
    \<not> address_changed existing (s, p) \<and> \<not> price_address_changed existing (s, p) \<and> \<not> too_many_publishers cluster (s, p)"
proof -
  have "s \<in> fst ` set existing \<longleftrightarrow> map_of existing s \<noteq> None" by (simp add: map_of_eq_None_iff)
  then show ?thesis
    using publishers_fit_iff [of cluster p s]
    by (cases "map_of existing s")
      (auto simp: accepted_product_def address_changed_def price_address_changed_def Let_def address_kept_iff prop_of_def
        price_account_0_def publishers_0_def)
qed

lemma processed_config_total:
  "(\<exists>ps. processed_config up = Inr ps) \<longleftrightarrow> (\<forall>(s, u) \<in> set up. \<exists>p. dedup_product u = Inr p)"
proof -
  have "(\<exists>ps. map_res (\<lambda>(s, u). res_bind (dedup_product u) (\<lambda>p. Inr (s, p))) up = Inr ps) \<longleftrightarrow>
      (\<forall>(s, u) \<in> set up. \<exists>p. dedup_product u = Inr p)"
    by (induction up) (auto simp: res_simps split_def)
  then show ?thesis by (auto simp: processed_config_def res_simps)
qed

lemma valid_iff_accepted:
  assumes "distinct (map fst existing)" and "distinct (map fst uploaded)"
  shows "(\<exists>changes. validateUploadedConfig existing uploaded cluster = Valid changes) \<longleftrightarrow>
    (\<forall>(s, u) \<in> set uploaded. \<exists>p. dedup_product u = Inr p \<and> accepted_product cluster (map_of existing s) p)"
    (is "?l \<longleftrightarrow> ?r")
proof (cases "\<exists>ps. processed_config uploaded = Inr ps")
  case True
  then obtain ps where ps: "processed_config uploaded = Inr ps" by blast
  note dedup = iffD1 [OF processed_config_total True]
  have "(s, p) \<in> set ps \<longleftrightarrow> (\<exists>u. (s, u) \<in> set uploaded \<and> dedup_product u = Inr p)" for s p
    unfolding map_of_eq_Some_iff [OF processed_config_keys [OF ps], symmetric] map_of_eq_Some_iff [OF assms(2), symmetric]
      processed_config_lookup [OF ps assms(2)]
    by (auto split: option.splits sum.splits)
  moreover have "?l \<longleftrightarrow> (\<forall>(s, p) \<in> set ps. accepted_product cluster (map_of existing s) p)"
    using ps by (auto simp: validate_Valid acceptable_def accepted_product_iff [OF assms(1)])
  ultimately show ?thesis using dedup by fastforce
next
  case False
  then show ?thesis using processed_config_total [of uploaded] by (force simp: validate_Valid)
qed


section \<open>Uploading what was downloaded\<close>

lemma field_to_json [simp]:
  "field (product_to_json p) ''priceAccounts'' = JArr (map price_account_to_json (dp_priceAccounts p))"
  "field (product_to_json p) ''address'' = JStr (dp_address p)"
  "field (price_account_to_json pa) ''publishers'' = JArr (map JStr (da_publishers pa))"
  "field (price_account_to_json pa) ''address'' = JStr (da_address pa)"
  "spread_entries (JObj kvs) = kvs"
  by (simp_all add: product_to_json_def price_account_to_json_def field_literal spread_entries_def)

lemma first_account_to_json [simp]:
  "price_account_0 (product_to_json p) =
     (case dp_priceAccounts p of [] \<Rightarrow> JUndefined | pa # _ \<Rightarrow> price_account_to_json pa)"
  "publishers_0 (product_to_json p) =
     (case dp_priceAccounts p of [] \<Rightarrow> JUndefined | pa # _ \<Rightarrow> JArr (map JStr (da_publishers pa)))"
  "field JUndefined k = JUndefined"
  by (auto simp: publishers_0_def price_account_0_def first_elem_def field_def [of JUndefined] split: list.split)

lemma dedup_price_account_id:
  assumes "distinct (da_publishers pa)"
  shows "dedup_price_account (price_account_to_json pa) = Inr (price_account_to_json pa)"
proof -
  have "new_Set (field (price_account_to_json pa) ''publishers'') = Inr (map JStr (da_publishers pa))"
    using assms by (simp add: new_Set_def distinct_values_strings)
  moreover have "obj_of (spread_entries (price_account_to_json pa) @ [(''publishers'', JArr (map JStr (da_publishers pa)))]) =
      spread_entries (price_account_to_json pa)"
    by (simp add: price_account_to_json_def obj_of_def)
  ultimately show ?thesis
    by (simp add: dedup_price_account_def) (simp add: price_account_to_json_def)
qed

lemma dedup_product_id:
  assumes "\<forall>pa \<in> set (dp_priceAccounts p). distinct (da_publishers pa)"
  shows "dedup_product (product_to_json p) = Inr (product_to_json p)"
proof (cases "dp_priceAccounts p")
  case Nil
  then show ?thesis by (simp add: dedup_product_def)
next
  case (Cons pa pas)
  have "map_res dedup_price_account (map price_account_to_json (dp_priceAccounts p)) =
      Inr (map price_account_to_json (dp_priceAccounts p))"
    using assms by (intro map_res_id) (auto simp: dedup_price_account_id)
  moreover have "obj_of (spread_entries (product_to_json p) @
      [(''priceAccounts'', JArr (map price_account_to_json (dp_priceAccounts p)))]) = spread_entries (product_to_json p)"
    by (simp add: product_to_json_def obj_of_def)
  moreover have "publishers_0 (product_to_json p) = JArr (map JStr (da_publishers pa))"
    by (simp add: Cons)
  ultimately show ?thesis by (simp add: dedup_product_def) (simp add: product_to_json_def)
qed

lemma same_value_refl: "same_value (JStr s) (JStr s)"
  by (simp add: same_value_def)

definition small_config :: "nat \<Rightarrow> downloadable_config \<Rightarrow> bool" where
  "small_config mx c \<longleftrightarrow> distinct (map fst c) \<and>
     (\<forall>p \<in> snd ` set c. \<forall>pa \<in> set (dp_priceAccounts p). distinct (da_publishers pa) \<and> length (da_publishers pa) \<le> mx)"

lemma fst_config_to_json: "map fst (config_to_json c) = map fst c"
  by (simp add: config_to_json_def split_def comp_def)

lemma validate_unchanged:
  assumes "small_config mx c" and mx: "getMaximumNumberOfPublishers cluster = Some mx"
  shows "validateUploadedConfig (config_to_json c) (config_to_json c) cluster = Valid []"
proof -
  let ?j = "config_to_json c"
  have keys: "distinct (map fst ?j)" using assms(1) by (simp add: fst_config_to_json small_config_def)
  have entry: "\<exists>p. snd sp = product_to_json p \<and> prop_of (fst sp) ?j = product_to_json p \<and>
      (\<forall>pa \<in> set (dp_priceAccounts p). distinct (da_publishers pa) \<and> length (da_publishers pa) \<le> mx)"
    if sp: "sp \<in> set ?j" for sp
  proof -
    obtain s p where "sp = (s, product_to_json p)" "(s, p) \<in> set c" using sp by (auto simp: config_to_json_def)
    moreover have "prop_of (fst sp) ?j = snd sp" using prop_of_mem [OF keys, of "fst sp" "snd sp"] sp by simp
    ultimately show ?thesis using assms(1) by (force simp: small_config_def)
  qed
  have "dedup_product (snd sp) = Inr (snd sp)" if "sp \<in> set ?j" for sp
    using entry [OF that] dedup_product_id by metis
  then have "processed_config ?j = Inr (obj_of ?j)"
    unfolding processed_config_def by (subst map_res_id) (auto simp: split_def)
  then have processed: "processed_config ?j = Inr ?j" using obj_of_distinct [OF keys] by simp
  have "acceptable ?j cluster ?j"
    unfolding acceptable_def
  proof
    fix sp assume sp: "sp \<in> set ?j"
    obtain p where p: "snd sp = product_to_json p" "prop_of (fst sp) ?j = product_to_json p"
      "\<forall>pa \<in> set (dp_priceAccounts p). length (da_publishers pa) \<le> mx" using entry [OF sp] by blast
    have "\<not> address_changed ?j sp" "\<not> price_address_changed ?j sp"
      using p by (auto simp: address_changed_def price_address_changed_def split_def Let_def strict_ne_def same_value_def
          split: list.split)
    moreover have "\<not> too_many_publishers cluster sp"
      using p by (auto simp: too_many_publishers_def split_def mx js_length_def split: list.split)
    ultimately show "\<not> address_changed ?j sp \<and> \<not> price_address_changed ?j sp \<and> \<not> too_many_publishers cluster sp" by blast
  qed
  then have valid: "validateUploadedConfig ?j ?j cluster = Valid (config_changes ?j ?j)"
    using processed by (simp add: validate_Valid)
  have "js_truthy (product_to_json p)" for p by (simp add: js_truthy_def product_to_json_def)
  then have "map_of (config_changes ?j ?j) s = None" for s
    using entry [OF map_of_SomeD, of s]
    by (cases "map_of ?j s") (auto simp: config_changes_exact [OF keys keys] change_of_def)
  then have "config_changes ?j ?j = []" by (metis map_of_eq_empty_iff ext)
  with valid show ?thesis by simp
qed


lemma mapValues_subset: "set (mapValues f kvs) \<subseteq> (\<lambda>(k, v). (k, f v)) ` set kvs"
  using obj_of_subset [of "map (\<lambda>(k, v). (k, f v)) kvs"] by (simp add: mapValues_def)

lemma mapValues_obj_of: "set (mapValues f (obj_of kvs)) \<subseteq> (\<lambda>(k, v). (k, f v)) ` set kvs"
  by (rule order_trans [OF mapValues_subset image_mono [OF obj_of_subset]])

lemma small_downloadable:
  assumes "inj b58"
    and "\<forall>m \<in> set (cf_mappingAccounts raw). \<forall>p \<in> set (rm_products m). \<forall>pa \<in> set (ro_priceAccounts p).
      distinct (rp_publishers pa) \<and> length (rp_publishers pa) \<le> mx"
  shows "small_config mx (fst (getDownloadableConfig localeCompare b58 raw))"
proof -
  let ?sorted = "cf_mappingAccounts (sort_mappings localeCompare raw)"
  have members: "\<forall>p \<in> set (rm_products m). \<forall>pa \<in> set (ro_priceAccounts p).
      distinct (rp_publishers pa) \<and> length (rp_publishers pa) \<le> mx" if m: "m \<in> set ?sorted" for m
  proof -
    obtain m' where "m' \<in> set (cf_mappingAccounts raw)" "set (rm_products m) = set (rm_products m')"
    proof (cases "js_sort (\<lambda>m1 m2. int (length (rm_products m2)) - int (length (rm_products m1))) (cf_mappingAccounts raw)")
      case (Cons x xs)
      then have "set (cf_mappingAccounts raw) = insert x (set xs)" by (metis list.simps(15) set_js_sort)
      moreover have "set (rm_products m) = set (rm_products x) \<or> m \<in> set xs" using m Cons by (auto simp: sort_mappings_def)
      ultimately show ?thesis using that by blast
    qed (use m in \<open>simp add: sort_mappings_def\<close>)
    then show ?thesis using assms(2) by simp
  qed
  have entry: "\<exists>p. q = sort_product localeCompare (downloadable_product b58 p) \<and> p \<in> set (rm_products m)"
    if "?sorted = m # ms" "q \<in> snd ` set (fst (getDownloadableConfig localeCompare b58 raw))" for q m ms
  proof -
    let ?entries = "map (\<lambda>p. (symbol_of p, downloadable_product b58 p)) (rm_products m)"
    have "set (fst (getDownloadableConfig localeCompare b58 raw)) \<subseteq>
        (\<lambda>(k, v). (k, sort_product localeCompare v)) ` set ?entries"
      using mapValues_obj_of [of "sort_product localeCompare" ?entries] that(1)
      by (simp add: getDownloadableConfig_def sortData_def Let_def)
    with that(2) show ?thesis by auto
  qed
  show ?thesis
    unfolding small_config_def
  proof (intro conjI ballI)
    show "distinct (map fst (fst (getDownloadableConfig localeCompare b58 raw)))"
      by (auto simp: getDownloadableConfig_def Let_def sortData_def mapValues_def obj_of_keys split: list.split)
    fix q pa assume q: "q \<in> snd ` set (fst (getDownloadableConfig localeCompare b58 raw))" and pa: "pa \<in> set (dp_priceAccounts q)"
    have "?sorted \<noteq> []" using q by (auto simp: getDownloadableConfig_def Let_def split: list.splits)
    then obtain m ms where m: "?sorted = m # ms" by (cases ?sorted) auto
    obtain p where "q = sort_product localeCompare (downloadable_product b58 p)" and p: "p \<in> set (rm_products m)"
      using entry [OF m q] by blast
    then obtain r where r: "r \<in> set (ro_priceAccounts p)" "da_publishers pa = js_sort localeCompare (map b58 (rp_publishers r))"
      using pa by (auto simp: sort_product_def downloadable_product_def downloadable_price_def)
    have "distinct (rp_publishers r) \<and> length (rp_publishers r) \<le> mx" using members [of m] m p r(1) by simp
    then show "distinct (da_publishers pa)" "length (da_publishers pa) \<le> mx"
      using assms(1) by (auto simp: r(2) distinct_map inj_on_def inj_def)
  qed
qed

text \<open>
  C8. Uploading the downloaded table as it is gives no changes, as long as every price account has different
  publishers and not more of them than the cluster allows.
\<close>

theorem download_upload_unchanged:
  assumes "inj b58" and "getMaximumNumberOfPublishers cluster = Some mx"
    and "\<forall>m \<in> set (cf_mappingAccounts raw). \<forall>p \<in> set (rm_products m). \<forall>pa \<in> set (ro_priceAccounts p).
      distinct (rp_publishers pa) \<and> length (rp_publishers pa) \<le> mx"
  shows "let c = config_to_json (fst (getDownloadableConfig localeCompare b58 raw)) in
    validateUploadedConfig c c cluster = Valid []"
  using validate_unchanged [OF small_downloadable [OF assms(1,3)] assms(2)] by (simp add: Let_def)


section \<open>Witnesses\<close>

text \<open>Accounts of all types: the first byte is the type, a product has one price account and a mapping account two
  products.\<close>

definition demo_parsers :: "(string, unit) parsers" where
  "demo_parsers =
     \<lparr>ps_toBase58 = (\<lambda>s. s),
      ps_baseType = (\<lambda>d. if d = [1] then Some MappingAccount else if d = [2] then Some ProductAccount else Some PriceAccount),
      ps_price = (\<lambda>d. \<lparr>pp_nextPriceAccountKey = Some ''r'', pp_publishers = [Some ''x'', None], pp_exponent = Fin (- 8),
        pp_minPublishers = Fin 3, pp_maxLatency = Fin 0\<rparr>),
      ps_product = (\<lambda>d. \<lparr>pr_priceAccountKey = Some ''r'', pr_product = [(''symbol'', ''ETH''), (''price_account'', ''r'')]\<rparr>),
      ps_mapping = (\<lambda>d. \<lparr>pm_nextMappingAccount = None, pm_productAccountKeys = [''p'', ''q'']\<rparr>),
      ps_permission = (\<lambda>d. ())\<rparr>"

definition demo_chain :: "string account_entry list" where
  "demo_chain = [\<lparr>ac_pubkey = ''m'', ac_data = [1]\<rparr>, \<lparr>ac_pubkey = ''n'', ac_data = [1]\<rparr>, \<lparr>ac_pubkey = ''p'', ac_data = [2]\<rparr>,
     \<lparr>ac_pubkey = ''r'', ac_data = [3]\<rparr>]"

theorem getConfig_products_once_witness:
  "length (concat (map rm_products (cf_mappingAccounts (getConfig demo_parsers demo_chain)))) = 1 \<and>
   (let products = concat (map rm_products (cf_mappingAccounts (getConfig demo_parsers demo_chain))) in
    distinct (map (\<lambda>p. ps_toBase58 demo_parsers (ro_address p)) products) \<and> (\<forall>p \<in> set products. ro_priceAccounts p \<noteq> []))"
proof
  show "length (concat (map rm_products (cf_mappingAccounts (getConfig demo_parsers demo_chain)))) = 1" by code_simp
  show "let products = concat (map rm_products (cf_mappingAccounts (getConfig demo_parsers demo_chain))) in
    distinct (map (\<lambda>p. ps_toBase58 demo_parsers (ro_address p)) products) \<and> (\<forall>p \<in> set products. ro_priceAccounts p \<noteq> [])"
    by (rule getConfig_products_once) (simp add: demo_parsers_def)
qed

definition demo_raw :: "(string, unit) raw_config" where
  "demo_raw = getConfig demo_parsers demo_chain"

theorem download_upload_unchanged_witness:
  "length (fst (getDownloadableConfig (\<lambda>a b. 0) (\<lambda>s. s) demo_raw)) = 1 \<and>
   (let c = config_to_json (fst (getDownloadableConfig (\<lambda>a b. 0) (\<lambda>s. s) demo_raw)) in
    validateUploadedConfig c c ''pythnet'' = Valid [])"
proof
  show "length (fst (getDownloadableConfig (\<lambda>a b. 0) (\<lambda>s. s) demo_raw)) = 1" by code_simp
  have "list_all (\<lambda>m. list_all (\<lambda>p. list_all (\<lambda>pa. distinct (rp_publishers pa) \<and> length (rp_publishers pa) \<le> 64)
      (ro_priceAccounts p)) (rm_products m)) (cf_mappingAccounts demo_raw)" by code_simp
  then show "let c = config_to_json (fst (getDownloadableConfig (\<lambda>a b. 0) (\<lambda>s. s) demo_raw)) in
    validateUploadedConfig c c ''pythnet'' = Valid []"
    by (intro download_upload_unchanged [where mx = 64]) (auto simp: list_all_iff getMaximumNumberOfPublishers_def inj_def)
qed


end
