(* ===== verification/Core_Instructions.thy ===== *)
theory Core_Instructions
  imports Price_Store Core_Config
begin

text \<open>
  The instructions that bring the oracle's accounts from one configuration to another
  (\<^verbatim>\<open>generateInstructions\<close> of \<^verbatim>\<open>governance/xc_admin/packages/xc_admin_common/src/programs/core/core_functions.ts\<close>,
  with \<^verbatim>\<open>deterministic_oracle_accounts.ts\<close> and \<^verbatim>\<open>message_buffer.ts\<close>).  An instruction of the oracle or the message buffer
  is the method with its arguments and accounts; the generated Anchor client, which may reject the arguments and
  otherwise gives the size of the data, is an argument, and so are the key operations of \<^verbatim>\<open>@solana/web3.js\<close>.  What
  the instructions mean for a price or product account is the specification at the end.
\<close>

section \<open>Instructions\<close>

datatype 'pk core_call =
    AddProduct "(string \<times> json) list" 'pk 'pk 'pk
  | UpdProduct "(string \<times> json) list" 'pk 'pk
  | DelProduct 'pk 'pk 'pk
  | AddPrice json nat 'pk 'pk 'pk
  | DelPrice 'pk 'pk 'pk
  | SetExponent json nat 'pk 'pk
  | SetMinPub json "nat list" 'pk 'pk
  | SetMaxLatency json "nat list" 'pk 'pk
  | AddPublisher 'pk 'pk 'pk
  | DelPublisher 'pk 'pk 'pk
  | CreateBuffer 'pk 'pk nat 'pk 'pk "'pk account_meta list"
  | DeleteBuffer 'pk 'pk 'pk 'pk 'pk

text \<open>
  The accounts of a call follow its arguments: \<open>AddProduct metadata fundingAccount tailMappingAccount
  productAccount\<close>, \<open>UpdProduct metadata fundingAccount productAccount\<close>, \<open>DelProduct fundingAccount mappingAccount
  productAccount\<close>, \<open>AddPrice expo priceType fundingAccount productAccount priceAccount\<close>, \<open>DelPrice
  fundingAccount productAccount priceAccount\<close>, and for the settings of a price account \<open>fundingAccount
  priceAccount\<close>.
\<close>

datatype 'pk core_instruction = Call "'pk core_call" | Store "'pk transaction_instruction"

record 'pk core_env =
  ce_keys :: "'pk price_store_env"
  ce_newPublicKey :: "json \<Rightarrow> 'pk res"
  ce_programKey :: "string \<Rightarrow> 'pk"
  ce_instruction :: "'pk core_call \<Rightarrow> nat res"

definition instruction :: "'pk core_env \<Rightarrow> 'pk core_call \<Rightarrow> 'pk core_instruction res" where
  "instruction env c = res_bind (ce_instruction env c) (\<lambda>_. Inr (Call c))"

definition MAX_SIZE_ADD_PRODUCT_INSTRUCTION_DATA :: nat where "MAX_SIZE_ADD_PRODUCT_INSTRUCTION_DATA = 369"
definition MAX_SIZE_UPD_PRODUCT_INSTRUCTION_DATA :: nat where "MAX_SIZE_UPD_PRODUCT_INSTRUCTION_DATA = 403"

definition checkSizeOfProductInstruction :: "nat \<Rightarrow> nat \<Rightarrow> string \<Rightarrow> unit res" where
  "checkSizeOfProductInstruction sz maxSize symbol =
     (if sz > maxSize then Inl (Error (''A symbol metadata is too big to be sent in a transaction ('' @ show_nat sz @
        '' > '' @ show_nat maxSize @ '' bytes). Please reduce the size of the symbol metadata for '' @ symbol @ ''.''))
      else Inr ())"

definition product_instruction :: "'pk core_env \<Rightarrow> nat \<Rightarrow> string \<Rightarrow> 'pk core_call \<Rightarrow> 'pk core_instruction res" where
  "product_instruction env maxSize symbol c =
     res_bind (ce_instruction env c) (\<lambda>sz.
     res_bind (checkSizeOfProductInstruction sz maxSize symbol) (\<lambda>_. Inr (Call c)))"

section \<open>Deterministic accounts and message buffers\<close>

definition getSeed :: "account_type \<Rightarrow> string \<Rightarrow> string res" where
  "getSeed accountType symbol = (case accountType of
     PriceAccount \<Rightarrow> Inr (''price:'' @ symbol)
   | ProductAccount \<Rightarrow> Inr (''product:'' @ symbol)
   | _ \<Rightarrow> Inl (Error ''Unimplemented''))"

definition getAccountTypeSize :: "account_type \<Rightarrow> string \<Rightarrow> nat res" where
  "getAccountTypeSize accountType cluster = (case accountType of
     PriceAccount \<Rightarrow> Inr (if isRemoteCluster cluster then 12576 else 3312)
   | ProductAccount \<Rightarrow> Inr 512
   | _ \<Rightarrow> Inl (Error ''Unimplemented''))"

definition findDetermisticAccountAddress ::
  "'pk core_env \<Rightarrow> account_type \<Rightarrow> string \<Rightarrow> string \<Rightarrow> ('pk \<times> string) res" where
  "findDetermisticAccountAddress env accountType symbol cluster =
     res_bind (getSeed accountType symbol) (\<lambda>full.
     let seed = take 32 full in
     Inr (pse_createWithSeed (ce_keys env) (PRICE_FEED_OPS_KEY (ce_keys env)) seed (ce_programKey env cluster), seed))"

definition getCreateAccountWithSeedInstruction ::
  "'pk core_env \<Rightarrow> ('pk create_with_seed_params \<Rightarrow> 'ix) \<Rightarrow> (nat \<Rightarrow> nat) \<Rightarrow> string \<Rightarrow> 'pk \<Rightarrow> string \<Rightarrow> account_type \<Rightarrow> 'ix res" where
  "getCreateAccountWithSeedInstruction env createAccountWithSeed getMinimumBalanceForRentExemption cluster base symbol accountType =
     res_bind (findDetermisticAccountAddress env accountType symbol cluster) (\<lambda>(address, seed).
     res_bind (getAccountTypeSize accountType cluster) (\<lambda>space.
     Inr (createAccountWithSeed
       \<lparr>cws_basePubkey = base, cws_fromPubkey = base, cws_lamports = getMinimumBalanceForRentExemption space,
        cws_newAccountPubkey = address, cws_programId = ce_programKey env cluster, cws_seed = seed, cws_space = space\<rparr>)))"

definition MESSAGE_BUFFER_PROGRAM_ID :: "'pk core_env \<Rightarrow> 'pk" where
  "MESSAGE_BUFFER_PROGRAM_ID env = pse_PublicKey (ce_keys env) ''7Vbmv1jt4vyuqBZcpYPpnVhrqVe5e6ZPb6JxDcffRHUM''"

definition MESSAGE_BUFFER_BUFFER_SIZE :: nat where "MESSAGE_BUFFER_BUFFER_SIZE = 2048"

definition isMessageBufferAvailable :: "string \<Rightarrow> bool" where
  "isMessageBufferAvailable cluster \<longleftrightarrow> cluster = ''pythtest-crosschain'' \<or> cluster = ''pythnet''"

definition getPythOracleMessageBufferCpiAuth :: "'pk core_env \<Rightarrow> string \<Rightarrow> 'pk" where
  "getPythOracleMessageBufferCpiAuth env cluster =
     fst (pse_findProgramAddressSync (ce_keys env)
       [ascii_bytes ''upd_price_write'', pse_toBuffer (ce_keys env) (MESSAGE_BUFFER_PROGRAM_ID env)]
       (ce_programKey env cluster))"

definition getMessageBufferAddressForPrice :: "'pk core_env \<Rightarrow> string \<Rightarrow> 'pk \<Rightarrow> 'pk" where
  "getMessageBufferAddressForPrice env cluster priceAccount =
     fst (pse_findProgramAddressSync (ce_keys env)
       [pse_toBuffer (ce_keys env) (getPythOracleMessageBufferCpiAuth env cluster), ascii_bytes ''message'',
        pse_toBuffer (ce_keys env) priceAccount]
       (MESSAGE_BUFFER_PROGRAM_ID env))"

section \<open>Generating the instructions\<close>

text \<open>\<^verbatim>\<open>CoreInstructionAccounts\<close>: whether there is a message buffer client, and the account lookup of the connection,
  if there is one.\<close>

record 'pk core_accounts =
  ca_fundingAccount :: 'pk
  ca_messageBufferClient :: bool
  ca_connection :: "('pk \<Rightarrow> unit option) option"
  ca_mappingAccounts :: "'pk mapping_raw list"

definition first_mapping :: "'pk core_accounts \<Rightarrow> 'pk res" where
  "first_mapping accounts = (case ca_mappingAccounts accounts of [] \<Rightarrow> Inl TypeError | m # _ \<Rightarrow> Inr (rm_address m))"

text \<open>\<^verbatim>\<open>x || ""\<close>, and the elements that a \<^verbatim>\<open>for ... of\<close> loop visits.\<close>

definition or_empty :: "json \<Rightarrow> json" where
  "or_empty v = (if js_truthy v then v else JStr '''')"

definition iterate :: "json \<Rightarrow> json list res" where
  "iterate v = (case v of JArr xs \<Rightarrow> Inr xs | JStr s \<Rightarrow> Inr (map (\<lambda>c. JStr [c]) s) | _ \<Rightarrow> Inl TypeError)"

definition initializePublisherInPriceStore ::
  "'pk core_env \<Rightarrow> 'pk core_accounts \<Rightarrow> 'pk \<Rightarrow> 'pk list \<Rightarrow> 'pk core_instruction list \<times> 'pk list" where
  "initializePublisherInPriceStore env accounts publisherKey verifiedPublishers =
     (case ca_connection accounts of
        None \<Rightarrow> ([], verifiedPublishers)
      | Some getAccountInfo \<Rightarrow>
          if publisherKey \<in> set verifiedPublishers then ([], verifiedPublishers)
          else if isPriceStoreInitialized (ce_keys env) getAccountInfo \<and>
            \<not> isPriceStorePublisherInitialized (ce_keys env) getAccountInfo publisherKey
          then ([Store (createDetermisticPriceStoreInitializePublisherInstruction (ce_keys env)
                   (ca_fundingAccount accounts) publisherKey)], verifiedPublishers @ [publisherKey])
          else ([], verifiedPublishers))"

text \<open>The loop that adds publishers; where the price account is given as text, it is parsed in every round.\<close>

fun add_publishers ::
  "'pk core_env \<Rightarrow> 'pk core_accounts \<Rightarrow> 'pk res \<Rightarrow> json list \<Rightarrow> 'pk list \<Rightarrow> ('pk core_instruction list \<times> 'pk list) res" where
  "add_publishers env accounts priceAccount [] verifiedPublishers = Inr ([], verifiedPublishers)"
| "add_publishers env accounts priceAccount (pubKey # pubKeys) verifiedPublishers =
     res_bind (ce_newPublicKey env pubKey) (\<lambda>publisherPubKey.
     res_bind priceAccount (\<lambda>price.
     res_bind (instruction env (AddPublisher publisherPubKey (ca_fundingAccount accounts) price)) (\<lambda>ix.
     let (store, verifiedPublishers) =
       initializePublisherInPriceStore env accounts publisherPubKey verifiedPublishers in
     res_bind (add_publishers env accounts priceAccount pubKeys verifiedPublishers) (\<lambda>(ixs, verifiedPublishers).
     Inr (ix # store @ ixs, verifiedPublishers)))))"

text \<open>An instruction that is only generated under a condition.\<close>

definition gen_if :: "bool \<Rightarrow> 'a res \<Rightarrow> 'a list res" where
  "gen_if b r = (if b then res_bind r (\<lambda>x. Inr [x]) else Inr [])"

definition add_product ::
  "'pk core_env \<Rightarrow> string \<Rightarrow> json \<Rightarrow> 'pk core_accounts \<Rightarrow> 'pk \<Rightarrow> 'pk core_instruction res" where
  "add_product env symbol newChanges accounts productAccountKey =
     res_bind (first_mapping accounts) (\<lambda>tailMappingAccount.
       product_instruction env MAX_SIZE_ADD_PRODUCT_INSTRUCTION_DATA symbol
         (AddProduct (spread_entries (field newChanges ''metadata'')) (ca_fundingAccount accounts)
           tailMappingAccount productAccountKey))"

definition create_buffer ::
  "'pk core_env \<Rightarrow> string \<Rightarrow> 'pk core_accounts \<Rightarrow> 'pk \<Rightarrow> 'pk core_instruction res" where
  "create_buffer env cluster accounts priceAccountKey =
     instruction env (CreateBuffer (getPythOracleMessageBufferCpiAuth env cluster) priceAccountKey
       MESSAGE_BUFFER_BUFFER_SIZE (ca_fundingAccount accounts) (PRICE_FEED_OPS_KEY (ce_keys env))
       [meta False True (getMessageBufferAddressForPrice env cluster priceAccountKey)])"

definition generateAddInstructions ::
  "'pk core_env \<Rightarrow> string \<Rightarrow> json \<Rightarrow> string \<Rightarrow> 'pk core_accounts \<Rightarrow> 'pk list \<Rightarrow> ('pk core_instruction list \<times> 'pk list) res"
where
  "generateAddInstructions env symbol newChanges cluster accounts verifiedPublishers =
     (let funding = ca_fundingAccount accounts; pa = price_account_0 newChanges in
      res_bind (findDetermisticAccountAddress env ProductAccount symbol cluster) (\<lambda>(productAccountKey, _).
      res_bind (gen_if (js_truthy (field newChanges ''metadata''))
        (add_product env symbol newChanges accounts productAccountKey)) (\<lambda>product.
      if \<not> js_truthy pa then Inr (product, verifiedPublishers)
      else
        res_bind (findDetermisticAccountAddress env PriceAccount symbol cluster) (\<lambda>(priceAccountKey, _).
        res_bind (instruction env (AddPrice (field pa ''expo'') 1 funding productAccountKey priceAccountKey)) (\<lambda>price.
        res_bind (gen_if (isMessageBufferAvailable cluster \<and> ca_messageBufferClient accounts)
          (create_buffer env cluster accounts priceAccountKey)) (\<lambda>buffer.
        res_bind (if js_truthy (field pa ''publishers'')
          then res_bind (iterate (field pa ''publishers'')) (\<lambda>keys.
            add_publishers env accounts (Inr priceAccountKey) keys verifiedPublishers)
          else Inr ([], verifiedPublishers)) (\<lambda>(publishers, verifiedPublishers).
        res_bind (gen_if (field pa ''minPub'' \<noteq> JUndefined)
          (instruction env (SetMinPub (field pa ''minPub'') [0, 0, 0] funding priceAccountKey))) (\<lambda>minPub.
        res_bind (gen_if (field pa ''maxLatency'' \<noteq> JUndefined \<and> field pa ''maxLatency'' \<noteq> JNum (Fin 0))
          (instruction env (SetMaxLatency (field pa ''maxLatency'') [0, 0, 0] funding priceAccountKey))) (\<lambda>maxLatency.
        Inr (product @ price # buffer @ publishers @ minPub @ maxLatency, verifiedPublishers))))))))))"

definition generateDeleteInstructions ::
  "'pk core_env \<Rightarrow> json \<Rightarrow> string \<Rightarrow> 'pk core_accounts \<Rightarrow> 'pk core_instruction list res" where
  "generateDeleteInstructions env prev cluster accounts =
     (let funding = ca_fundingAccount accounts; address = field (price_account_0 prev) ''address'' in
      if \<not> js_truthy address then Inr []
      else
        res_bind (ce_newPublicKey env address) (\<lambda>priceAccount.
        res_bind (ce_newPublicKey env (or_empty (field prev ''address''))) (\<lambda>productAccount.
        res_bind (instruction env (DelPrice funding productAccount priceAccount)) (\<lambda>price.
        res_bind (first_mapping accounts) (\<lambda>mappingAccount.
        res_bind (instruction env (DelProduct funding mappingAccount productAccount)) (\<lambda>product.
        res_bind (gen_if (isMessageBufferAvailable cluster \<and> ca_messageBufferClient accounts)
          (instruction env (DeleteBuffer (getPythOracleMessageBufferCpiAuth env cluster) priceAccount funding
            (PRICE_FEED_OPS_KEY (ce_keys env)) (getMessageBufferAddressForPrice env cluster priceAccount)))) (\<lambda>buffer.
        Inr (price # product # buffer))))))))"

definition update_metadata ::
  "'pk core_env \<Rightarrow> string \<Rightarrow> json \<Rightarrow> json \<Rightarrow> 'pk core_accounts \<Rightarrow> 'pk core_instruction list res" where
  "update_metadata env symbol prev newChanges accounts =
     gen_if (js_truthy (field prev ''metadata'') \<and> js_truthy (field newChanges ''metadata'') \<and>
         printed (field prev ''metadata'') \<noteq> printed (field newChanges ''metadata''))
       (res_bind (ce_newPublicKey env (or_empty (field prev ''address''))) (\<lambda>productAccount.
         product_instruction env MAX_SIZE_UPD_PRODUCT_INSTRUCTION_DATA symbol
           (UpdProduct (obj_of ((''symbol'', JStr symbol) # spread_entries (field newChanges ''metadata'')))
             (ca_fundingAccount accounts) productAccount)))"

text \<open>\<^verbatim>\<open>xs.filter(x => !ys.includes(x))\<close>.\<close>

definition without :: "json list \<Rightarrow> json list \<Rightarrow> json list" where
  "without xs ys = filter (\<lambda>x. \<not> list_ex (same_value x) ys) xs"

definition update_publishers ::
  "'pk core_env \<Rightarrow> json \<Rightarrow> json \<Rightarrow> 'pk core_accounts \<Rightarrow> 'pk list \<Rightarrow> ('pk core_instruction list \<times> 'pk list) res" where
  "update_publishers env prevPrice newPrice accounts verifiedPublishers =
     (let funding = ca_fundingAccount accounts;
          priceAccount = ce_newPublicKey env (or_empty (field prevPrice ''address'')) in
      case (field prevPrice ''publishers'', field newPrice ''publishers'') of
        (JArr prevs, JArr news) \<Rightarrow>
          res_bind (map_res (\<lambda>pubKey.
              res_bind (ce_newPublicKey env pubKey) (\<lambda>key.
              res_bind priceAccount (\<lambda>price. instruction env (DelPublisher key funding price)))) (without prevs news)) (\<lambda>removed.
          res_bind (add_publishers env accounts priceAccount (without news prevs) verifiedPublishers)
            (\<lambda>(added, verifiedPublishers). Inr (removed @ added, verifiedPublishers)))
      | _ \<Rightarrow> Inl TypeError)"

definition generateUpdateInstructions ::
  "'pk core_env \<Rightarrow> string \<Rightarrow> json \<Rightarrow> json \<Rightarrow> 'pk core_accounts \<Rightarrow> 'pk list \<Rightarrow> ('pk core_instruction list \<times> 'pk list) res"
where
  "generateUpdateInstructions env symbol prev newChanges accounts verifiedPublishers =
     (let funding = ca_fundingAccount accounts; prevPrice = price_account_0 prev; newPrice = price_account_0 newChanges;
          priceAccount = ce_newPublicKey env (or_empty (field prevPrice ''address'')) in
      res_bind (update_metadata env symbol prev newChanges accounts) (\<lambda>metadata.
      if \<not> (js_truthy prevPrice \<and> js_truthy newPrice) then Inr (metadata, verifiedPublishers)
      else
        res_bind (gen_if (strict_ne (field prevPrice ''expo'') (field newPrice ''expo''))
          (res_bind priceAccount (\<lambda>price. instruction env (SetExponent (field newPrice ''expo'') 1 funding price)))) (\<lambda>expo.
        res_bind (gen_if (strict_ne (field prevPrice ''maxLatency'') (field newPrice ''maxLatency''))
          (res_bind priceAccount (\<lambda>price.
            instruction env (SetMaxLatency (field newPrice ''maxLatency'') [0, 0, 0] funding price)))) (\<lambda>maxLatency.
        res_bind (if js_truthy (field prevPrice ''publishers'') \<and> js_truthy (field newPrice ''publishers'')
          then update_publishers env prevPrice newPrice accounts verifiedPublishers
          else Inr ([], verifiedPublishers)) (\<lambda>(publishers, verifiedPublishers).
        res_bind (gen_if (strict_ne (field prevPrice ''minPub'') (field newPrice ''minPub''))
          (res_bind priceAccount (\<lambda>price.
            instruction env (SetMinPub (field newPrice ''minPub'') [0, 0, 0] funding price)))) (\<lambda>minPub.
        Inr (metadata @ expo @ maxLatency @ publishers @ minPub, verifiedPublishers)))))))"

text \<open>The body of the loop over the symbols.\<close>

definition generate_symbol ::
  "'pk core_env \<Rightarrow> string \<Rightarrow> 'pk core_accounts \<Rightarrow> string \<times> change \<Rightarrow> 'pk list \<Rightarrow> ('pk core_instruction list \<times> 'pk list) res" where
  "generate_symbol env cluster accounts sc verifiedPublishers = (case sc of (symbol, ch) \<Rightarrow>
     let prev = ch_prev ch; newChanges = ch_new ch in
     if \<not> js_truthy prev \<and> js_truthy newChanges
     then generateAddInstructions env symbol newChanges cluster accounts verifiedPublishers
     else if js_truthy prev \<and> \<not> js_truthy newChanges
     then res_bind (generateDeleteInstructions env prev cluster accounts) (\<lambda>ixs. Inr (ixs, verifiedPublishers))
     else if js_truthy prev \<and> js_truthy newChanges
     then generateUpdateInstructions env symbol prev newChanges accounts verifiedPublishers
     else Inr ([], verifiedPublishers))"

fun generate_all ::
  "'pk core_env \<Rightarrow> string \<Rightarrow> 'pk core_accounts \<Rightarrow> (string \<times> change) list \<Rightarrow> 'pk list \<Rightarrow> 'pk core_instruction list res" where
  "generate_all env cluster accounts [] verifiedPublishers = Inr []"
| "generate_all env cluster accounts (sc # changes) verifiedPublishers =
     res_bind (generate_symbol env cluster accounts sc verifiedPublishers) (\<lambda>(ixs, verifiedPublishers).
     res_bind (generate_all env cluster accounts changes verifiedPublishers) (\<lambda>rest. Inr (ixs @ rest)))"

definition generateInstructions ::
  "'pk core_env \<Rightarrow> (string \<times> change) list \<Rightarrow> string \<Rightarrow> 'pk core_accounts \<Rightarrow> 'pk core_instruction list res" where
  "generateInstructions env changes cluster accounts = generate_all env cluster accounts changes []"


section \<open>What the instructions mean\<close>

text \<open>
  The oracle program that runs the calls is not part of the repository.  What is documented of it is the effect of a call
  on the settings of the price account and the metadata of the product account it names: \<open>price_effect\<close> and
  \<open>product_effect\<close> are used in the hypothesis \<open>oracle_ok\<close> (theory \<open>Core_Upload\<close>) about the program that is given as an
  argument.  A new price account has no publishers, no maximum latency and a minimum number of publishers \<open>m0\<close> that the
  oracle chooses.
\<close>

record 'pk price_settings =
  st_expo :: json
  st_minPub :: json
  st_maxLatency :: json
  st_publishers :: "'pk set"

fun price_of_call :: "'pk core_call \<Rightarrow> 'pk option" where
  "price_of_call (AddPrice _ _ _ _ k) = Some k"
| "price_of_call (DelPrice _ _ k) = Some k"
| "price_of_call (SetExponent _ _ _ k) = Some k"
| "price_of_call (SetMinPub _ _ _ k) = Some k"
| "price_of_call (SetMaxLatency _ _ _ k) = Some k"
| "price_of_call (AddPublisher _ _ k) = Some k"
| "price_of_call (DelPublisher _ _ k) = Some k"
| "price_of_call _ = None"

fun price_effect :: "json \<Rightarrow> 'pk core_call \<Rightarrow> 'pk price_settings option \<Rightarrow> 'pk price_settings option" where
  "price_effect m0 (AddPrice e _ _ _ _) s =
     Some \<lparr>st_expo = e, st_minPub = m0, st_maxLatency = JNum (Fin 0), st_publishers = {}\<rparr>"
| "price_effect m0 (DelPrice _ _ _) s = None"
| "price_effect m0 (SetExponent e _ _ _) s = map_option (\<lambda>s. s\<lparr>st_expo := e\<rparr>) s"
| "price_effect m0 (SetMinPub n _ _ _) s = map_option (\<lambda>s. s\<lparr>st_minPub := n\<rparr>) s"
| "price_effect m0 (SetMaxLatency l _ _ _) s = map_option (\<lambda>s. s\<lparr>st_maxLatency := l\<rparr>) s"
| "price_effect m0 (AddPublisher p _ _) s = map_option (\<lambda>s. s\<lparr>st_publishers := insert p (st_publishers s)\<rparr>) s"
| "price_effect m0 (DelPublisher p _ _) s = map_option (\<lambda>s. s\<lparr>st_publishers := st_publishers s - {p}\<rparr>) s"
| "price_effect m0 _ s = s"

fun product_of_call :: "'pk core_call \<Rightarrow> 'pk option" where
  "product_of_call (AddProduct _ _ _ k) = Some k"
| "product_of_call (UpdProduct _ _ k) = Some k"
| "product_of_call (DelProduct _ _ k) = Some k"
| "product_of_call _ = None"

fun product_effect :: "'pk core_call \<Rightarrow> (string \<rightharpoonup> json) option \<Rightarrow> (string \<rightharpoonup> json) option" where
  "product_effect (AddProduct md _ _ _) s = Some (map_of md)"
| "product_effect (UpdProduct md _ _) s = Some (map_of md)"
| "product_effect (DelProduct _ _ _) s = None"
| "product_effect _ s = s"

definition run_price :: "json \<Rightarrow> 'pk \<Rightarrow> 'pk core_instruction list \<Rightarrow> 'pk price_settings option \<Rightarrow> 'pk price_settings option" where
  "run_price m0 k = fold (\<lambda>ix s. case ix of Call c \<Rightarrow> if price_of_call c = Some k then price_effect m0 c s else s | Store _ \<Rightarrow> s)"

definition run_product :: "'pk \<Rightarrow> 'pk core_instruction list \<Rightarrow> (string \<rightharpoonup> json) option \<Rightarrow> (string \<rightharpoonup> json) option" where
  "run_product k = fold (\<lambda>ix s. case ix of Call c \<Rightarrow> if product_of_call c = Some k then product_effect c s else s | Store _ \<Rightarrow> s)"

lemma run_simps [simp]:
  "run_price m0 k [] s = s"
  "run_price m0 k (Store t # ixs) s = run_price m0 k ixs s"
  "run_price m0 k (Call c # ixs) s = run_price m0 k ixs (if price_of_call c = Some k then price_effect m0 c s else s)"
  "run_price m0 k (ixs @ jxs) s = run_price m0 k jxs (run_price m0 k ixs s)"
  "run_product k [] p = p"
  "run_product k (Store t # ixs) p = run_product k ixs p"
  "run_product k (Call c # ixs) p = run_product k ixs (if product_of_call c = Some k then product_effect c p else p)"
  "run_product k (ixs @ jxs) p = run_product k jxs (run_product k ixs p)"
  by (simp_all add: run_price_def run_product_def)

text \<open>Instructions that are about one price account and one product account leave the others as they are.\<close>

definition about :: "'pk \<Rightarrow> 'pk \<Rightarrow> 'pk core_instruction list \<Rightarrow> bool" where
  "about price product ixs \<longleftrightarrow> list_all (\<lambda>ix. case ix of
     Call c \<Rightarrow> price_of_call c \<in> {None, Some price} \<and> product_of_call c \<in> {None, Some product} | Store _ \<Rightarrow> True) ixs"

lemma about_simps [simp]:
  "about k q []" "about k q (Store t # ixs) = about k q ixs" "about k q (ixs @ jxs) \<longleftrightarrow> about k q ixs \<and> about k q jxs"
  "about k q (Call c # ixs) \<longleftrightarrow> price_of_call c \<in> {None, Some k} \<and> product_of_call c \<in> {None, Some q} \<and> about k q ixs"
  by (simp_all add: about_def)

lemma run_other: "about k q ixs \<Longrightarrow> k' \<noteq> k \<Longrightarrow> run_price m0 k' ixs s = s"
proof (induction ixs arbitrary: s)
  case (Cons ix ixs)
  then show ?case by (cases ix) auto
qed simp

lemma run_other_product: "about k q ixs \<Longrightarrow> q' \<noteq> q \<Longrightarrow> run_product q' ixs p = p"
proof (induction ixs arbitrary: p)
  case (Cons ix ixs)
  then show ?case by (cases ix) auto
qed simp

section \<open>Each kind of change\<close>

definition keys_of :: "'pk core_env \<Rightarrow> json list \<Rightarrow> 'pk set" where
  "keys_of env xs = {k. \<exists>x \<in> set xs. ce_newPublicKey env x = Inr k}"

lemma keys_of_simps [simp]:
  "keys_of env [] = {}" "ce_newPublicKey env x = Inr k \<Longrightarrow> keys_of env (x # xs) = insert k (keys_of env xs)"
  by (auto simp: keys_of_def)

lemma instruction_Inr: "instruction env c = Inr ix \<longleftrightarrow> ix = Call c \<and> (\<exists>n. ce_instruction env c = Inr n)"
  by (auto simp: instruction_def res_simps)

lemma product_instruction_Inr: "product_instruction env mx s c = Inr ix \<Longrightarrow> ix = Call c"
  by (auto simp: product_instruction_def res_simps)

lemma gen_if_Inr:
  "gen_if b r = Inr ixs \<longleftrightarrow> (if b then \<exists>x. r = Inr x \<and> ixs = [x] else ixs = [])"
  by (auto simp: gen_if_def res_simps)

lemma initialize_stores:
  "initializePublisherInPriceStore env accounts p v = (ixs, v') \<Longrightarrow> ixs = [] \<or> (\<exists>t. ixs = [Store t])"
  by (auto simp: initializePublisherInPriceStore_def split: option.splits if_splits)

lemma add_publishers_effect:
  assumes "add_publishers env accounts (Inr k) keys v = Inr (ixs, v')"
  shows "run_price m0 k ixs (Some s) = Some (s\<lparr>st_publishers := st_publishers s \<union> keys_of env keys\<rparr>) \<and>
    run_product q ixs p = p \<and> about k q ixs"
  using assms
proof (induction keys arbitrary: v ixs s)
  case (Cons x xs)
  obtain pk where x: "ce_newPublicKey env x = Inr pk" using Cons.prems by (auto simp: res_simps)
  obtain store v1 where store: "initializePublisherInPriceStore env accounts pk v = (store, v1)" by fastforce
  obtain rest where rest: "add_publishers env accounts (Inr k) xs v1 = Inr (rest, v')"
    and ixs: "ixs = Call (AddPublisher pk (ca_fundingAccount accounts) k) # store @ rest"
    using Cons.prems by (auto simp: res_simps instruction_Inr x store)
  have stores: "run_price m0 k store s' = s'" "run_product q store p = p" "about k q store" for s'
    using initialize_stores [OF store] by auto
  show ?case
    using Cons.IH [OF rest, of "s\<lparr>st_publishers := insert pk (st_publishers s)\<rparr>"] x by (simp add: ixs stores)
qed simp

lemma remove_publishers_effect:
  assumes "map_res (\<lambda>x. res_bind (ce_newPublicKey env x) (\<lambda>key. instruction env (DelPublisher key f k))) keys = Inr ixs"
  shows "run_price m0 k ixs (Some s) = Some (s\<lparr>st_publishers := st_publishers s - keys_of env keys\<rparr>) \<and>
    run_product q ixs p = p \<and> about k q ixs"
  using assms
proof (induction keys arbitrary: ixs s)
  case (Cons x xs)
  obtain pk rest where x: "ce_newPublicKey env x = Inr pk" and ixs: "ixs = Call (DelPublisher pk f k) # rest"
    and rest: "map_res (\<lambda>x. res_bind (ce_newPublicKey env x) (\<lambda>key. instruction env (DelPublisher key f k))) xs = Inr rest"
    using Cons.prems by (auto simp: res_simps instruction_Inr)
  show ?case
    using Cons.IH [OF rest, of "s\<lparr>st_publishers := st_publishers s - {pk}\<rparr>"] x by (simp add: ixs Diff_insert2 [symmetric])
qed simp


text \<open>Price accounts and products with all their fields, of their declared types.\<close>

definition good_price :: "json \<Rightarrow> bool" where
  "good_price pa \<longleftrightarrow> (\<exists>kvs e m l ps. pa = JObj kvs \<and> distinct (map fst kvs) \<and> field pa ''expo'' = JNum (Fin e) \<and> field pa ''minPub'' = JNum (Fin m) \<and>
     field pa ''maxLatency'' = JNum (Fin l) \<and> field pa ''publishers'' = JArr (map JStr ps))"

definition settings_of :: "'pk core_env \<Rightarrow> json \<Rightarrow> 'pk price_settings" where
  "settings_of env pa =
     \<lparr>st_expo = field pa ''expo'', st_minPub = field pa ''minPub'', st_maxLatency = field pa ''maxLatency'',
      st_publishers = keys_of env (case field pa ''publishers'' of JArr xs \<Rightarrow> xs | _ \<Rightarrow> [])\<rparr>"

definition product_metadata :: "json \<Rightarrow> (string \<times> json) list" where
  "product_metadata p = (case field p ''metadata'' of JObj md \<Rightarrow> md | _ \<Rightarrow> [])"

definition good_product :: "json \<Rightarrow> bool" where
  "good_product p \<longleftrightarrow> (\<exists>kvs md pas. p = JObj kvs \<and> distinct (map fst kvs) \<and>
     field p ''metadata'' = JObj (map (\<lambda>(k, v). (k, JStr v)) md) \<and> distinct (map fst md) \<and>
     field p ''priceAccounts'' = JArr pas \<and> pas \<noteq> [] \<and> (\<forall>pa \<in> set pas. good_price pa))"

lemma js_truthy_simps [simp]: "js_truthy (JObj kvs)" "js_truthy (JArr xs)"
  by (simp_all add: js_truthy_def)

lemma good_priceD:
  assumes "good_price pa"
  shows "js_truthy pa" "\<exists>ps. field pa ''publishers'' = JArr (map JStr ps)"
    "field pa ''minPub'' \<noteq> JUndefined" "field pa ''maxLatency'' \<noteq> JUndefined"
  using assms by (auto simp: good_price_def)

lemma not_good_undefined [simp]: "\<not> good_product JUndefined"
  by (simp add: good_product_def)

lemma good_productD:
  assumes "good_product p"
  shows "js_truthy p" "js_truthy (field p ''metadata'')" "spread_entries (field p ''metadata'') = product_metadata p"
    "good_price (price_account_0 p)"
proof -
  show "js_truthy p" "js_truthy (field p ''metadata'')" "spread_entries (field p ''metadata'') = product_metadata p"
    using assms by (auto simp: good_product_def product_metadata_def)
  obtain pas where "field p ''priceAccounts'' = JArr pas" "pas \<noteq> []" "\<forall>pa \<in> set pas. good_price pa"
    using assms by (auto simp: good_product_def)
  then show "good_price (price_account_0 p)" by (cases pas) (simp_all add: price_account_0_def first_elem_def)
qed

definition price_key :: "'pk core_env \<Rightarrow> string \<Rightarrow> string \<times> change \<Rightarrow> 'pk res" where
  "price_key env cluster sc =
     (if js_truthy (ch_prev (snd sc))
      then ce_newPublicKey env (or_empty (field (price_account_0 (ch_prev (snd sc))) ''address''))
      else res_bind (findDetermisticAccountAddress env PriceAccount (fst sc) cluster) (\<lambda>(k, _). Inr k))"

definition product_key :: "'pk core_env \<Rightarrow> string \<Rightarrow> string \<times> change \<Rightarrow> 'pk res" where
  "product_key env cluster sc =
     (if js_truthy (ch_prev (snd sc)) then ce_newPublicKey env (or_empty (field (ch_prev (snd sc)) ''address''))
      else res_bind (findDetermisticAccountAddress env ProductAccount (fst sc) cluster) (\<lambda>(k, _). Inr k))"

lemma add_effect:
  assumes "generateAddInstructions env symbol new cluster accounts v = Inr (ixs, v')" and good: "good_product new"
    and k: "findDetermisticAccountAddress env PriceAccount symbol cluster = Inr (k, sd)"
    and q: "findDetermisticAccountAddress env ProductAccount symbol cluster = Inr (q, sd')"
  shows "run_price m0 k ixs s = Some (settings_of env (price_account_0 new)) \<and>
    run_product q ixs p = Some (map_of (product_metadata new)) \<and> about k q ixs"
proof -
  let ?pa = "price_account_0 new" and ?f = "ca_fundingAccount accounts"
  note g = good_productD [OF good] and pa = good_priceD [OF good_productD(4) [OF good]]
  obtain ps where ps: "field ?pa ''publishers'' = JArr (map JStr ps)" using pa(2) by blast
  obtain tail where tail: "first_mapping accounts = Inr tail"
    using assms(1) g(2) by (auto simp: generateAddInstructions_def Let_def res_simps q gen_if_Inr add_product_def)
  obtain bufs pubs lat where parts:
    "gen_if (isMessageBufferAvailable cluster \<and> ca_messageBufferClient accounts) (create_buffer env cluster accounts k) = Inr bufs"
    "add_publishers env accounts (Inr k) (map JStr ps) v = Inr (pubs, v')"
    "gen_if (field ?pa ''maxLatency'' \<noteq> JNum (Fin 0))
       (instruction env (SetMaxLatency (field ?pa ''maxLatency'') [0, 0, 0] ?f k)) = Inr lat"
    "ixs = [Call (AddProduct (product_metadata new) ?f tail q), Call (AddPrice (field ?pa ''expo'') 1 ?f q k)] @ bufs @ pubs @
       [Call (SetMinPub (field ?pa ''minPub'') [0, 0, 0] ?f k)] @ lat"
    using assms(1) g pa ps
    by (auto simp: generateAddInstructions_def Let_def res_simps q k gen_if_Inr add_product_def tail iterate_def instruction_Inr
        dest!: product_instruction_Inr)
  have bufs: "run_price m0 k bufs s' = s'" "run_product q bufs p' = p'" "about k q bufs" for s' p'
    using parts(1) by (auto simp: gen_if_Inr create_buffer_def instruction_Inr split: if_splits)
  note pubs = add_publishers_effect [OF parts(2)]
  have lat: "run_price m0 k lat (Some s') = Some (s'\<lparr>st_maxLatency := field ?pa ''maxLatency''\<rparr>)"
      if "st_maxLatency s' = JNum (Fin 0)" for s'
    using parts(3) that by (auto simp: gen_if_Inr instruction_Inr split: if_splits)
  have "run_product q lat p' = p'" "about k q lat" for p'
    using parts(3) by (auto simp: gen_if_Inr instruction_Inr split: if_splits)
  then show ?thesis
    unfolding parts(4) by (simp add: bufs pubs lat settings_of_def ps)
qed

lemma delete_effect:
  assumes "generateDeleteInstructions env prev cluster accounts = Inr ixs"
    and "js_truthy (field (price_account_0 prev) ''address'')"
    and k: "ce_newPublicKey env (or_empty (field (price_account_0 prev) ''address'')) = Inr k"
    and q: "ce_newPublicKey env (or_empty (field prev ''address'')) = Inr q"
  shows "run_price m0 k ixs s = None \<and> run_product q ixs p = None \<and> about k q ixs"
  using assms
  by (auto simp: generateDeleteInstructions_def Let_def res_simps gen_if_Inr instruction_Inr or_empty_def split: if_splits)


text \<open>Base58 texts of different keys are different, and a text that can be parsed is the only one of its key.\<close>

definition keys_ok :: "'pk core_env \<Rightarrow> bool" where
  "keys_ok env \<longleftrightarrow> (\<forall>x y k. ce_newPublicKey env (JStr x) = Inr k \<longrightarrow> ce_newPublicKey env (JStr y) = Inr k \<longrightarrow> x = y)"

lemma keys_of_without:
  assumes "keys_ok env"
  shows "(keys_of env (map JStr xs) - keys_of env (without (map JStr xs) (map JStr ys))) \<union>
    keys_of env (without (map JStr ys) (map JStr xs)) = keys_of env (map JStr ys)"
proof -
  have w: "set (without (map JStr as) (map JStr bs)) = JStr ` (set as - set bs)" for as bs
    by (auto simp: without_def list_ex_iff same_value_def)
  show ?thesis using assms unfolding keys_of_def w by (auto simp: keys_ok_def)
qed

lemma printed_metadata: "printed (JObj (map (\<lambda>(k, v). (k, JStr v)) md)) = JObj (map (\<lambda>(k, v). (k, JStr v)) md)"
  by (induction md) auto

lemma good_metadata: "good_product p \<Longrightarrow> printed (field p ''metadata'') = JObj (product_metadata p)"
  unfolding good_product_def product_metadata_def using printed_metadata by auto

lemma map_of_with_symbol:
  assumes "distinct (map fst md)"
  shows "map_of (obj_of ((''symbol'', JStr s) # md)) = (map_of md)(''symbol'' := (case map_of md ''symbol'' of None \<Rightarrow> Some (JStr s) | v \<Rightarrow> v))"
  using map_of_rev_distinct [OF assms] by (auto simp: map_of_obj_of map_add_def fun_eq_iff split: option.splits)

lemma set_effect:
  assumes "gen_if (strict_ne a b) (instruction env c) = Inr ixs" and "price_of_call c = Some k" "product_of_call c = None"
    and "a = JNum (Fin x)"
  shows "run_price m0 k ixs s = (if a = b then s else price_effect m0 c s) \<and> run_product q ixs p = p \<and> about k q ixs"
  using assms by (auto simp: gen_if_Inr instruction_Inr strict_ne_def same_value_def split: if_splits)

lemma update_effect:
  assumes "generateUpdateInstructions env symbol prev new accounts v = Inr (ixs, v')"
    and prev: "good_product prev" "map_of (product_metadata prev) ''symbol'' \<noteq> None" and new: "good_product new" and ok: "keys_ok env"
    and k: "ce_newPublicKey env (or_empty (field (price_account_0 prev) ''address'')) = Inr k"
    and q: "ce_newPublicKey env (or_empty (field prev ''address'')) = Inr q"
  shows "run_price m0 k ixs (Some (settings_of env (price_account_0 prev))) = Some (settings_of env (price_account_0 new)) \<and>
    run_product q ixs (Some (map_of (product_metadata prev))) = Some (map_of (obj_of ((''symbol'', JStr symbol) # product_metadata new))) \<and>
    about k q ixs"
proof -
  let ?a = "price_account_0 prev" and ?b = "price_account_0 new" and ?f = "ca_fundingAccount accounts"
  note gp = good_productD [OF prev(1)] and gn = good_productD [OF new]
  obtain as bs where as: "field ?a ''publishers'' = JArr (map JStr as)" and bs: "field ?b ''publishers'' = JArr (map JStr bs)"
    using good_priceD(2) gp(4) gn(4) by meson
  obtain md ex lat pubs mn where parts:
    "update_metadata env symbol prev new accounts = Inr md"
    "gen_if (strict_ne (field ?a ''expo'') (field ?b ''expo'')) (instruction env (SetExponent (field ?b ''expo'') 1 ?f k)) = Inr ex"
    "gen_if (strict_ne (field ?a ''maxLatency'') (field ?b ''maxLatency''))
       (instruction env (SetMaxLatency (field ?b ''maxLatency'') [0, 0, 0] ?f k)) = Inr lat"
    "update_publishers env ?a ?b accounts v = Inr (pubs, v')"
    "gen_if (strict_ne (field ?a ''minPub'') (field ?b ''minPub'')) (instruction env (SetMinPub (field ?b ''minPub'') [0, 0, 0] ?f k)) = Inr mn"
    "ixs = md @ ex @ lat @ pubs @ mn"
    using assms(1) good_priceD(1) [OF gp(4)] good_priceD(1) [OF gn(4)] as bs
    by (auto simp: generateUpdateInstructions_def Let_def res_simps k)
  obtain x y z where nums: "field ?a ''expo'' = JNum (Fin x)" "field ?a ''maxLatency'' = JNum (Fin y)" "field ?a ''minPub'' = JNum (Fin z)"
    using gp(4) by (auto simp: good_price_def)
  note ex = set_effect [OF parts(2) _ _ nums(1), of k m0 _ q] and lat = set_effect [OF parts(3) _ _ nums(2), of k m0 _ q]
    and mn = set_effect [OF parts(5) _ _ nums(3), of k m0 _ q]
  obtain removed added where pubs: "pubs = removed @ added"
    "map_res (\<lambda>x. res_bind (ce_newPublicKey env x) (\<lambda>key. instruction env (DelPublisher key ?f k))) (without (map JStr as) (map JStr bs)) = Inr removed"
    "add_publishers env accounts (Inr k) (without (map JStr bs) (map JStr as)) v = Inr (added, v')"
    using parts(4) by (auto simp: update_publishers_def Let_def as bs k res_simps)
  note pub_effect = remove_publishers_effect [OF pubs(2)] add_publishers_effect [OF pubs(3)]
  have md: "md = [] \<and> product_metadata prev = product_metadata new \<or>
      md = [Call (UpdProduct (obj_of ((''symbol'', JStr symbol) # product_metadata new)) ?f q)]"
    using parts(1) gp gn good_metadata [OF prev(1)] good_metadata [OF new]
    by (auto simp: update_metadata_def gen_if_Inr q split: if_splits dest!: product_instruction_Inr)
  have same: "map_of (product_metadata prev) = map_of (obj_of ((''symbol'', JStr symbol) # product_metadata prev))"
  proof -
    have "distinct (map fst (product_metadata prev))"
      using prev(1) by (auto simp: good_product_def product_metadata_def comp_def split_def)
    from map_of_with_symbol [OF this, of symbol] show ?thesis using prev(2) by (auto split: option.split)
  qed
  have price: "run_price m0 k ixs (Some (settings_of env ?a)) = Some (settings_of env ?b)"
    using md by (auto simp: parts(6) pubs(1) ex lat mn pub_effect settings_of_def as bs keys_of_without [OF ok])
  have "run_product q ixs (Some (map_of (product_metadata prev))) = Some (map_of (obj_of ((''symbol'', JStr symbol) # product_metadata new)))"
    using md same by (auto simp: parts(6) pubs(1) ex lat mn pub_effect)
  moreover have "about k q ixs" using md by (auto simp: parts(6) pubs(1) ex lat mn pub_effect)
  ultimately show ?thesis using price by blast
qed


section \<open>All changes together\<close>

text \<open>A change that adds, removes or updates a product with all its fields.  A product that exists has its symbol
  in its metadata, and so has one to be added.\<close>

definition good_change :: "string \<times> change \<Rightarrow> bool" where
  "good_change sc \<longleftrightarrow> (let prev = ch_prev (snd sc); new = ch_new (snd sc) in
     (prev = JUndefined \<or> good_product prev \<and> map_of (product_metadata prev) ''symbol'' \<noteq> None \<and>
        js_truthy (field (price_account_0 prev) ''address'')) \<and>
     (new = JUndefined \<or> good_product new) \<and>
     (prev = JUndefined \<longrightarrow> new \<noteq> JUndefined \<and> map_of (product_metadata new) ''symbol'' \<noteq> None))"

definition price_settings_of :: "'pk core_env \<Rightarrow> json \<Rightarrow> 'pk price_settings option" where
  "price_settings_of env p = (if js_truthy p then Some (settings_of env (price_account_0 p)) else None)"

definition metadata_with_symbol :: "string \<Rightarrow> json \<Rightarrow> (string \<rightharpoonup> json) option" where
  "metadata_with_symbol symbol p =
     (if js_truthy p then Some (map_of (obj_of ((''symbol'', JStr symbol) # product_metadata p))) else None)"

lemma good_with_symbol:
  assumes "good_product p" and "map_of (product_metadata p) ''symbol'' \<noteq> None"
  shows "metadata_with_symbol s p = Some (map_of (product_metadata p))"
proof -
  have "distinct (map fst (product_metadata p))"
    using assms(1) by (auto simp: good_product_def product_metadata_def comp_def split_def)
  from map_of_with_symbol [OF this, of s] show ?thesis
    using assms good_productD(1) [OF assms(1)] by (auto simp: metadata_with_symbol_def split: option.split)
qed

lemma symbol_effect:
  assumes "generate_symbol env cluster accounts sc v = Inr (ixs, v')" and "good_change sc" and "keys_ok env"
    and "price_key env cluster sc = Inr k" and "product_key env cluster sc = Inr q"
  shows "run_price m0 k ixs (price_settings_of env (ch_prev (snd sc))) = price_settings_of env (ch_new (snd sc)) \<and>
    run_product q ixs (metadata_with_symbol (fst sc) (ch_prev (snd sc))) = metadata_with_symbol (fst sc) (ch_new (snd sc)) \<and>
    about k q ixs"
proof -
  obtain s prev new where sc: "sc = (s, \<lparr>ch_prev = prev, ch_new = new\<rparr>)" by (metis change.surjective old.unit.exhaust surj_pair)
  note good = assms(2) [unfolded good_change_def Let_def sc, simplified]
  consider (add) "prev = JUndefined" "good_product new" "map_of (product_metadata new) ''symbol'' \<noteq> None"
    | (del) "good_product prev" "new = JUndefined" | (upd) "good_product prev" "good_product new"
    using good by blast
  then show ?thesis
  proof cases
    case add
    obtain sd sd' where "findDetermisticAccountAddress env PriceAccount s cluster = Inr (k, sd)"
        "findDetermisticAccountAddress env ProductAccount s cluster = Inr (q, sd')"
      using assms(4,5) add by (auto simp: sc price_key_def product_key_def res_simps)
    from add_effect [OF _ add(2) this] assms(1) add good_productD(1) [OF add(2)] show ?thesis
      by (auto simp: sc generate_symbol_def Let_def price_settings_of_def good_with_symbol metadata_with_symbol_def [of _ JUndefined])
  next
    case del
    have keys: "ce_newPublicKey env (or_empty (field (price_account_0 prev) ''address'')) = Inr k"
        "ce_newPublicKey env (or_empty (field prev ''address'')) = Inr q"
      using assms(4,5) good_productD(1) [OF del(1)] by (simp_all add: sc price_key_def product_key_def)
    have "js_truthy (field (price_account_0 prev) ''address'')" using good del by auto
    from delete_effect [OF _ this keys] assms(1) del good_productD(1) [OF del(1)] show ?thesis
      by (auto simp: sc generate_symbol_def Let_def res_simps price_settings_of_def metadata_with_symbol_def)
  next
    case upd
    have keys: "ce_newPublicKey env (or_empty (field (price_account_0 prev) ''address'')) = Inr k"
        "ce_newPublicKey env (or_empty (field prev ''address'')) = Inr q"
      using assms(4,5) good_productD(1) [OF upd(1)] by (simp_all add: sc price_key_def product_key_def)
    have symbol: "map_of (product_metadata prev) ''symbol'' \<noteq> None" using good upd by auto
    have "generateUpdateInstructions env s prev new accounts v = Inr (ixs, v')"
      using assms(1) good_productD(1) [OF upd(1)] good_productD(1) [OF upd(2)] by (simp add: sc generate_symbol_def Let_def)
    from update_effect [OF this upd(1) symbol upd(2) assms(3) keys] show ?thesis
      using good_productD(1) [OF upd(1)] good_productD(1) [OF upd(2)] good_with_symbol [OF upd(1) symbol]
      by (simp add: sc price_settings_of_def) (simp add: metadata_with_symbol_def)
  qed
qed

definition applied :: "'pk core_env \<Rightarrow> string \<Rightarrow> json \<Rightarrow> 'pk core_instruction list \<Rightarrow> string \<times> change \<Rightarrow> bool" where
  "applied env cluster m0 ixs sc \<longleftrightarrow>
     (\<forall>k q. price_key env cluster sc = Inr k \<longrightarrow> product_key env cluster sc = Inr q \<longrightarrow>
       run_price m0 k ixs (price_settings_of env (ch_prev (snd sc))) = price_settings_of env (ch_new (snd sc)) \<and>
       run_product q ixs (metadata_with_symbol (fst sc) (ch_prev (snd sc))) = metadata_with_symbol (fst sc) (ch_new (snd sc)))"

definition untouched :: "'pk core_env \<Rightarrow> string \<Rightarrow> (string \<times> change) list \<Rightarrow> json \<Rightarrow> 'pk core_instruction list \<Rightarrow> bool" where
  "untouched env cluster changes m0 ixs \<longleftrightarrow>
     (\<forall>k s. Inr k \<notin> price_key env cluster ` set changes \<longrightarrow> run_price m0 k ixs s = s) \<and>
     (\<forall>q p. Inr q \<notin> product_key env cluster ` set changes \<longrightarrow> run_product q ixs p = p)"

lemma generate_all_applies:
  assumes "generate_all env cluster accounts changes v = Inr ixs" and "keys_ok env"
    and "\<forall>sc \<in> set changes. good_change sc \<and> (\<exists>k. price_key env cluster sc = Inr k) \<and> (\<exists>q. product_key env cluster sc = Inr q)"
    and "distinct (map (price_key env cluster) changes)" and "distinct (map (product_key env cluster) changes)"
  shows "(\<forall>sc \<in> set changes. applied env cluster m0 ixs sc) \<and> untouched env cluster changes m0 ixs"
  using assms(1,3-5)
proof (induction changes arbitrary: v ixs)
  case (Cons sc changes)
  obtain own v' rest where own: "generate_symbol env cluster accounts sc v = Inr (own, v')"
    and rest: "generate_all env cluster accounts changes v' = Inr rest" and ixs: "ixs = own @ rest"
    using Cons.prems(1) by (auto simp: res_simps)
  obtain k q where kq: "price_key env cluster sc = Inr k" "product_key env cluster sc = Inr q" using Cons.prems(2) by auto
  have good: "good_change sc" using Cons.prems(2) by simp
  have ih: "\<forall>sc \<in> set changes. applied env cluster m0 rest sc" "untouched env cluster changes m0 rest"
    using Cons.IH [OF rest] Cons.prems(2-4) by simp_all
  have fresh: "Inr k \<notin> price_key env cluster ` set changes" "Inr q \<notin> product_key env cluster ` set changes"
    using Cons.prems(3,4) kq by simp_all
  note own' = symbol_effect [OF own good assms(2) kq, of m0]
  note frame = run_other [OF own' [THEN conjunct2, THEN conjunct2]] run_other_product [OF own' [THEN conjunct2, THEN conjunct2]]
  have "applied env cluster m0 ixs sc"
    using own' ih(2) fresh kq by (simp add: applied_def ixs untouched_def)
  moreover have "applied env cluster m0 ixs sc'" if sc': "sc' \<in> set changes" for sc'
    unfolding applied_def
  proof (intro allI impI)
    fix k' q' assume k': "price_key env cluster sc' = Inr k'" and q': "product_key env cluster sc' = Inr q'"
    then have "k' \<noteq> k" "q' \<noteq> q" using fresh imageI [OF sc', of "price_key env cluster"] imageI [OF sc', of "product_key env cluster"]
      by (metis, metis)
    then show "run_price m0 k' ixs (price_settings_of env (ch_prev (snd sc'))) = price_settings_of env (ch_new (snd sc')) \<and>
        run_product q' ixs (metadata_with_symbol (fst sc') (ch_prev (snd sc'))) = metadata_with_symbol (fst sc') (ch_new (snd sc'))"
      using bspec [OF ih(1) sc'] k' q' by (simp add: applied_def ixs frame)
  qed
  moreover have "untouched env cluster (sc # changes) m0 ixs"
    using ih(2) kq frame by (simp add: untouched_def ixs)
  ultimately show ?case by simp
qed (simp add: untouched_def)


section \<open>Derived accounts\<close>

text \<open>
  The seed of a product account is cut after 24 characters of the symbol, that of a price account after 26: symbols
  that begin alike share their accounts.
\<close>

theorem deterministic_account_prefix:
  "(findDetermisticAccountAddress env ProductAccount s cluster = Inr (a, sd) \<longrightarrow> sd = ''product:'' @ take 24 s) \<and>
   (findDetermisticAccountAddress env PriceAccount s cluster = Inr (a, sd) \<longrightarrow> sd = ''price:'' @ take 26 s) \<and>
   (take 24 s = take 24 t \<longrightarrow>
      findDetermisticAccountAddress env ProductAccount s cluster = findDetermisticAccountAddress env ProductAccount t cluster)"
  by (auto simp: findDetermisticAccountAddress_def getSeed_def Let_def)

end
