(* ===== verification/Core_Upload.thy ===== *)
theory Core_Upload
  imports Core_Instructions
begin

text \<open>
  The two halves of an upload together: what \<^verbatim>\<open>validateUploadedConfig\<close> finds and \<^verbatim>\<open>generateInstructions\<close> turns into
  instructions brings the accounts of the oracle to the uploaded configuration.
\<close>

section \<open>Products through the validation\<close>

text \<open>Removing repetitions keeps the publishers.\<close>

lemma distinct_values_map: "\<exists>ps'. distinct_values (map JStr ps) = map JStr ps' \<and> set ps' = set ps"
proof (induction ps rule: rev_induct)
  case (snoc p ps)
  then obtain ps' where ps': "distinct_values (map JStr ps) = map JStr ps'" "set ps' = set ps" by blast
  have "distinct_values (map JStr (ps @ [p])) = map JStr (if p \<in> set ps' then ps' else ps' @ [p])"
    using ps'(1) by (auto simp: distinct_values_def list_ex_iff same_value_def)
  then show ?case using ps'(2) by (intro exI [of _ "if p \<in> set ps' then ps' else ps' @ [p]"]) auto
qed (simp add: distinct_values_def)

lemma keys_of_cong: "set xs = set ys \<Longrightarrow> keys_of env xs = keys_of env ys"
  by (simp add: keys_of_def)

lemma dedup_price_good:
  assumes "good_price pa"
  shows "\<exists>pa'. dedup_price_account pa = Inr pa' \<and> good_price pa' \<and> settings_of env pa' = settings_of env pa \<and>
    field pa' ''address'' = field pa ''address''"
proof -
  obtain kvs e m l ps where pa: "pa = JObj kvs" "distinct (map fst kvs)" "field pa ''expo'' = JNum (Fin e)"
    "field pa ''minPub'' = JNum (Fin m)" "field pa ''maxLatency'' = JNum (Fin l)" "field pa ''publishers'' = JArr (map JStr ps)"
    using assms by (auto simp: good_price_def)
  obtain ps' where ps': "distinct_values (map JStr ps) = map JStr ps'" "set ps' = set ps" using distinct_values_map by blast
  let ?pa = "JObj (obj_of (kvs @ [(''publishers'', JArr (map JStr ps'))]))"
  have "dedup_price_account pa = Inr ?pa" using pa ps' by (simp add: dedup_price_account_def new_Set_def)
  moreover have fields: "field ?pa k = (if k = ''publishers'' then JArr (map JStr ps') else field pa k)" for k
    using field_extended [OF pa(2)] by (simp add: pa(1))
  moreover have "settings_of env ?pa = settings_of env pa"
    using keys_of_cong [of "map JStr ps'" "map JStr ps" env] ps'(2) by (simp add: settings_of_def fields pa(6))
  moreover have "good_price ?pa" using pa fields obj_of_keys(1) unfolding good_price_def by auto
  ultimately show ?thesis by simp
qed

lemma dedup_product_good:
  assumes "good_product u"
  shows "\<exists>p. dedup_product u = Inr p \<and> good_product p \<and> settings_of env (price_account_0 p) = settings_of env (price_account_0 u) \<and>
    product_metadata p = product_metadata u \<and> field p ''address'' = field u ''address'' \<and>
    field (price_account_0 p) ''address'' = field (price_account_0 u) ''address''"
proof -
  obtain kvs md pa pas where u: "u = JObj kvs" "distinct (map fst kvs)" "field u ''metadata'' = JObj (map (\<lambda>(k, v). (k, JStr v)) md)"
    "distinct (map fst md)" "field u ''priceAccounts'' = JArr (pa # pas)" "\<forall>pa \<in> set (pa # pas). good_price pa"
    using assms by (auto simp: good_product_def neq_Nil_conv)
  obtain f where f: "\<And>pa. good_price pa \<Longrightarrow> dedup_price_account pa = Inr (f pa) \<and> good_price (f pa) \<and>
      settings_of env (f pa) = settings_of env pa \<and> field (f pa) ''address'' = field pa ''address''"
    using dedup_price_good by metis
  define kvs' where "kvs' = obj_of (kvs @ [(''priceAccounts'', JArr (map f (pa # pas)))])"
  have fields: "field (JObj kvs') k = (if k = ''priceAccounts'' then JArr (map f (pa # pas)) else field u k)" for k
    using field_extended [OF u(2)] by (simp add: u(1) kvs'_def)
  have "map_res dedup_price_account (pa # pas) = Inr (map f (pa # pas))"
    using u(6) f by (intro map_res_Inr_map) blast
  moreover have "\<exists>xs. publishers_0 u = JArr xs"
    using u(5,6) good_priceD(2) [of pa] by (auto simp: publishers_0_def price_account_0_def first_elem_def)
  ultimately have "dedup_product u = Inr (JObj kvs')" using u(1,5) by (auto simp: dedup_product_def kvs'_def)
  moreover have "good_product (JObj kvs')"
    using u f obj_of_keys(1) unfolding good_product_def fields
    by (intro exI [of _ kvs'] exI [of _ md] exI [of _ "map f (pa # pas)"]) (auto simp: kvs'_def)
  ultimately show ?thesis
    using u(5,6) f by (simp add: fields price_account_0_def first_elem_def product_metadata_def)
qed

text \<open>A new product gets its symbol, and the addresses, which are derived from the symbol, are cleared.\<close>

lemma cleared_good:
  assumes "good_price pa"
  shows "let pa' = JObj (obj_of (filter (\<lambda>kv. fst kv \<noteq> ''address'') (spread_entries pa) @ [(''address'', JStr '''')])) in
    good_price pa' \<and> settings_of env pa' = settings_of env pa"
proof -
  obtain kvs e m l ps where pa: "pa = JObj kvs" "distinct (map fst kvs)" "field pa ''expo'' = JNum (Fin e)"
    "field pa ''minPub'' = JNum (Fin m)" "field pa ''maxLatency'' = JNum (Fin l)" "field pa ''publishers'' = JArr (map JStr ps)"
    using assms by (auto simp: good_price_def)
  let ?pa = "JObj (obj_of (filter (\<lambda>kv. fst kv \<noteq> ''address'') kvs @ [(''address'', JStr '''')]))"
  have fields: "field ?pa k = (if k = ''address'' then JStr '''' else field pa k)" for k
    using field_extended [OF distinct_keys_filter [OF pa(2)]] by (simp add: pa(1) field_literal prop_of_filter)
  have "good_price ?pa" using pa fields obj_of_keys(1) unfolding good_price_def by auto
  moreover have "settings_of env ?pa = settings_of env pa" by (simp add: settings_of_def fields)
  ultimately show ?thesis by (simp add: pa(1))
qed

lemma new_product_good:
  assumes "good_product p"
  shows "good_product (new_product s p) \<and> settings_of env (price_account_0 (new_product s p)) = settings_of env (price_account_0 p) \<and>
    product_metadata (new_product s p) = obj_of ((''symbol'', JStr s) # product_metadata p)"
proof -
  obtain kvs md pa pas where p: "p = JObj kvs" "distinct (map fst kvs)" "field p ''metadata'' = JObj (map (\<lambda>(k, v). (k, JStr v)) md)"
    "distinct (map fst md)" "field p ''priceAccounts'' = JArr (pa # pas)" "\<forall>pa \<in> set (pa # pas). good_price pa"
    using assms by (auto simp: good_product_def neq_Nil_conv)
  let ?md = "obj_of ((''symbol'', JStr s) # map (\<lambda>(k, v). (k, JStr v)) md)"
  define kvs1 where "kvs1 = obj_set ''metadata'' (JObj ?md) kvs"
  define kvs2 where "kvs2 = (if js_truthy (prop_of ''address'' kvs1) then filter (\<lambda>kv. fst kv \<noteq> ''address'') kvs1 else kvs1)"
  define cl where "cl = JObj (obj_of (filter (\<lambda>kv. fst kv \<noteq> ''address'') (spread_entries pa) @ [(''address'', JStr '''')]))"
  define pa' where "pa' = (if js_truthy (field pa ''address'') then cl else pa)"
  define kvs3 where "kvs3 = (if js_truthy (field pa ''address'') then obj_set ''priceAccounts'' (JArr (cl # pas)) kvs2 else kvs2)"
  have lookup: "prop_of ''metadata'' kvs = JObj (map (\<lambda>(k, v). (k, JStr v)) md)" "prop_of ''priceAccounts'' kvs = JArr (pa # pas)"
    using p by (simp_all add: field_literal)
  have kvs2: "prop_of ''priceAccounts'' kvs2 = JArr (pa # pas)" "prop_of ''metadata'' kvs2 = JObj ?md" "distinct (map fst kvs2)"
    using lookup p(2) by (simp_all add: kvs2_def kvs1_def prop_of_filter prop_of_obj_set distinct_keys_obj_set distinct_keys_filter)
  have np: "new_product s p = JObj kvs3"
    using lookup by (cases "js_truthy (prop_of ''address'' kvs)")
      (simp_all add: new_product_def Let_def p(1) kvs3_def kvs2_def kvs1_def cl_def clear_price_address_def first_elem_def
        prop_of_obj_set prop_of_filter)
  have fields: "field (new_product s p) ''metadata'' = JObj ?md" "field (new_product s p) ''priceAccounts'' = JArr (pa' # pas)"
    "distinct (map fst kvs3)"
    using kvs2 by (simp_all add: np field_literal kvs3_def pa'_def prop_of_obj_set distinct_keys_obj_set)
  have pa': "good_price pa'" "settings_of env pa' = settings_of env pa"
    using cleared_good [of pa env] p(6) by (auto simp: pa'_def cl_def Let_def)
  have "?md = map (\<lambda>(k, v). (k, JStr v)) (obj_of ((''symbol'', s) # md))"
  proof -
    have "obj_set k (JStr v) (map (\<lambda>(k, v). (k, JStr v)) xs) = map (\<lambda>(k, v). (k, JStr v)) (obj_set k v xs)" for k v xs
      by (induction k v xs rule: obj_set.induct) auto
    then have "obj_of (map (\<lambda>(k, v). (k, JStr v)) xs) = map (\<lambda>(k, v). (k, JStr v)) (obj_of xs)" for xs
      by (induction xs rule: rev_induct) (auto simp: obj_of_snoc, simp add: obj_of_def)
    from this [of "(''symbol'', s) # md"] show ?thesis by simp
  qed
  then have "good_product (new_product s p)"
    using fields p(6) pa'(1) obj_of_keys(1) [of "(''symbol'', s) # md"] unfolding good_product_def np by auto
  then show ?thesis
    using fields pa'(2) p(3,5) by (simp add: price_account_0_def first_elem_def product_metadata_def)
qed

text \<open>Products with the same JSON text have the same settings.\<close>

lemma prop_of_printed:
  "distinct (map fst kvs) \<Longrightarrow> prop_of k (map (\<lambda>(k, v). (k, printed v)) (filter (\<lambda>(k, v). v \<noteq> JUndefined) kvs)) = printed (prop_of k kvs)"
  by (induction kvs) (auto simp: prop_of_def split: option.split, force simp: map_of_eq_None_iff)

lemma field_printed: "distinct (map fst kvs) \<Longrightarrow> field (printed (JObj kvs)) k = printed (field (JObj kvs) k)"
  by (simp add: field_literal prop_of_printed)

lemma printed_strings: "printed (JArr (map JStr ps)) = JArr (map JStr ps)"
  by (simp add: comp_def)

lemma good_price_printed:
  assumes "good_price a" and "good_price b" and "printed a = printed b"
  shows "settings_of env a = settings_of env b"
proof -
  have "printed (field a k) = printed (field b k)" for k
    using assms field_printed unfolding good_price_def by metis
  note same = this [of "''expo''"] this [of "''minPub''"] this [of "''maxLatency''"] this [of "''publishers''"]
  then show ?thesis using assms(1,2) by (auto simp: good_price_def settings_of_def printed_strings simp del: printed.simps(2))
qed

lemma good_product_printed:
  assumes "good_product p" and "good_product q" and "printed p = printed q"
  shows "settings_of env (price_account_0 p) = settings_of env (price_account_0 q) \<and> product_metadata p = product_metadata q"
proof -
  have same: "printed (field p k) = printed (field q k)" for k
    using assms field_printed unfolding good_product_def by metis
  obtain a as b bs where lists: "field p ''priceAccounts'' = JArr (a # as)" "field q ''priceAccounts'' = JArr (b # bs)" "good_price a" "good_price b"
    using assms(1,2) by (auto simp: good_product_def neq_Nil_conv)
  have "a \<noteq> JUndefined" "b \<noteq> JUndefined" using lists by (auto simp: good_price_def)
  then have "printed a = printed b" using same [of "''priceAccounts''"] lists by simp
  then have "settings_of env a = settings_of env b" using good_price_printed lists by blast
  moreover have "product_metadata p = product_metadata q"
    using same [of "''metadata''"] good_metadata [OF assms(1)] good_metadata [OF assms(2)] by simp
  ultimately show ?thesis using lists by (simp add: price_account_0_def first_elem_def)
qed


section \<open>The upload takes effect\<close>

lemma config_changes_keys: "distinct (map fst (config_changes ex ps))"
proof -
  have "distinct (map fst ch) \<Longrightarrow> distinct (map fst (foldl (compare_symbol ex) ch xs))" for ch xs
    by (induction xs arbitrary: ch) (auto simp: compare_symbol_def distinct_keys_obj_set split: prod.split)
  moreover have "distinct (map fst ch) \<Longrightarrow> distinct (map fst (foldl (remove_symbol ps) ch xs))" for ch xs
    by (induction xs arbitrary: ch) (auto simp: remove_symbol_def distinct_keys_obj_set split: prod.split)
  ultimately show ?thesis by (simp add: config_changes_def)
qed

text \<open>The accounts of a symbol: those it has, or those derived from its name.\<close>

definition symbol_change :: "uploaded_config \<Rightarrow> string \<Rightarrow> string \<times> change" where
  "symbol_change existing s = (s, \<lparr>ch_prev = prop_of s existing, ch_new = JUndefined\<rparr>)"

definition symbol_price :: "'pk core_env \<Rightarrow> string \<Rightarrow> uploaded_config \<Rightarrow> string \<Rightarrow> 'pk res" where
  "symbol_price env cluster existing s = price_key env cluster (symbol_change existing s)"

definition symbol_product :: "'pk core_env \<Rightarrow> string \<Rightarrow> uploaded_config \<Rightarrow> string \<Rightarrow> 'pk res" where
  "symbol_product env cluster existing s = product_key env cluster (symbol_change existing s)"

text \<open>Configurations whose products have all their fields, and existing products their symbols and accounts.\<close>

definition good_upload :: "uploaded_config \<Rightarrow> bool" where
  "good_upload c \<longleftrightarrow> distinct (map fst c) \<and> (\<forall>p \<in> snd ` set c. good_product p)"

definition good_existing :: "uploaded_config \<Rightarrow> bool" where
  "good_existing c \<longleftrightarrow> good_upload c \<and> (\<forall>p \<in> snd ` set c. map_of (product_metadata p) ''symbol'' \<noteq> None \<and>
     js_truthy (field (price_account_0 p) ''address''))"

lemma good_lookup: "good_upload c \<Longrightarrow> map_of c s = Some p \<Longrightarrow> good_product p"
  by (force simp: good_upload_def dest: map_of_SomeD)

lemma existing_lookup:
  "good_existing c \<Longrightarrow> map_of c s = Some p \<Longrightarrow> good_product p \<and> map_of (product_metadata p) ''symbol'' \<noteq> None \<and>
     js_truthy (field (price_account_0 p) ''address'')"
  by (force simp: good_existing_def good_upload_def dest: map_of_SomeD)

text \<open>What the changes say about a symbol, in terms of the two configurations.\<close>

lemma change_good:
  assumes ex: "good_existing existing" and up: "good_upload uploaded"
    and ch: "change_of s (map_of existing s)
      (case map_of uploaded s of None \<Rightarrow> None | Some u \<Rightarrow> case dedup_product u of Inl _ \<Rightarrow> None | Inr p \<Rightarrow> Some p) = Some ch"
  shows "good_change (s, ch) \<and> ch_prev ch = prop_of s existing \<and>
    price_settings_of env (ch_new ch) = price_settings_of env (prop_of s uploaded) \<and>
    metadata_with_symbol s (ch_new ch) = metadata_with_symbol s (prop_of s uploaded)"
proof (cases "map_of uploaded s")
  case None
  then obtain q where q: "map_of existing s = Some q" "ch = \<lparr>ch_prev = q, ch_new = JUndefined\<rparr>"
    using ch by (auto simp: change_of_def split: option.splits)
  then show ?thesis using existing_lookup [OF ex q(1)] None by (simp add: good_change_def prop_of_def Let_def) auto
next
  case (Some u)
  note u = good_lookup [OF up Some]
  obtain p where p: "dedup_product u = Inr p" "good_product p" "settings_of env (price_account_0 p) = settings_of env (price_account_0 u)"
    "product_metadata p = product_metadata u" using dedup_product_good [OF u, of env] by blast
  have t: "js_truthy p" "js_truthy u" using good_productD(1) p(2) u by auto
  have views: "price_settings_of env p = price_settings_of env u" "metadata_with_symbol s p = metadata_with_symbol s u"
    using t p by (simp_all add: price_settings_of_def metadata_with_symbol_def)
  have uploaded: "prop_of s uploaded = u" by (simp add: prop_of_def Some)
  show ?thesis
  proof (cases "map_of existing s")
    case None
    then have c: "ch = \<lparr>ch_prev = JUndefined, ch_new = new_product s p\<rparr>" using ch Some p(1) by (simp add: change_of_def)
    note n = new_product_good [OF p(2), of s env]
    have md: "map_of (product_metadata (new_product s p)) ''symbol'' \<noteq> None"
      using n by (auto simp: map_of_obj_of)
    have tn: "js_truthy (new_product s p)" using n good_productD(1) by blast
    have "metadata_with_symbol s (new_product s p) = Some (map_of (product_metadata (new_product s p)))"
      using good_with_symbol md n by blast
    then have "metadata_with_symbol s (new_product s p) = metadata_with_symbol s p"
      using n t by (simp add: metadata_with_symbol_def)
    moreover have "price_settings_of env (new_product s p) = price_settings_of env p" using n t tn by (simp add: price_settings_of_def)
    moreover have "good_change (s, ch)" using n md by (auto simp: good_change_def c)
    ultimately show ?thesis using views uploaded None by (simp add: c prop_of_def)
  next
    case (Some q)
    then have c: "ch = \<lparr>ch_prev = q, ch_new = p\<rparr>" using ch \<open>map_of uploaded s = Some u\<close> p(1) t by (auto simp: change_of_def split: if_splits)
    have "p \<noteq> JUndefined" using t by auto
    then have "good_change (s, ch)" using existing_lookup [OF ex Some] p(2) by (auto simp: good_change_def c)
    then show ?thesis using views uploaded Some by (simp add: c prop_of_def)
  qed
qed

lemma unchanged_good:
  assumes ex: "good_existing existing" and up: "good_upload uploaded"
    and ch: "change_of s (map_of existing s)
      (case map_of uploaded s of None \<Rightarrow> None | Some u \<Rightarrow> case dedup_product u of Inl _ \<Rightarrow> None | Inr p \<Rightarrow> Some p) = None"
  shows "price_settings_of env (prop_of s existing) = price_settings_of env (prop_of s uploaded) \<and>
    metadata_with_symbol s (prop_of s existing) = metadata_with_symbol s (prop_of s uploaded)"
proof (cases "map_of uploaded s")
  case None
  then show ?thesis using ch by (auto simp: change_of_def prop_of_def split: option.splits)
next
  case (Some u)
  note u = good_lookup [OF up Some]
  obtain p where p: "dedup_product u = Inr p" "good_product p" "settings_of env (price_account_0 p) = settings_of env (price_account_0 u)"
    "product_metadata p = product_metadata u" using dedup_product_good [OF u, of env] by blast
  obtain q where q: "map_of existing s = Some q" "printed q = printed p"
    using ch Some p(1) good_productD(1) [OF p(2)] by (auto simp: change_of_def split: option.splits if_splits)
  have good: "good_product q" using existing_lookup [OF ex q(1)] by blast
  show ?thesis
    using good_product_printed [OF good p(2) q(2), of env] p(3,4) good_productD(1) [OF good] good_productD(1) [OF u]
    by (simp add: prop_of_def Some q(1) price_settings_of_def metadata_with_symbol_def)
qed


lemma upload_effect:
  assumes "validateUploadedConfig existing uploaded cluster = Valid changes"
    and "generateInstructions env changes cluster accounts = Inr ixs"
    and ex: "good_existing existing" and up: "good_upload uploaded" and "keys_ok env"
    and keys: "\<forall>s \<in> fst ` set (existing @ uploaded). (\<exists>k. symbol_price env cluster existing s = Inr k) \<and>
      (\<exists>q. symbol_product env cluster existing s = Inr q)"
    and inj: "inj_on (symbol_price env cluster existing) (fst ` set (existing @ uploaded))"
      "inj_on (symbol_product env cluster existing) (fst ` set (existing @ uploaded))"
  shows "s \<in> fst ` set (existing @ uploaded) \<Longrightarrow> symbol_price env cluster existing s = Inr k \<Longrightarrow>
      symbol_product env cluster existing s = Inr q \<Longrightarrow>
      run_price m0 k ixs (price_settings_of env (prop_of s existing)) = price_settings_of env (prop_of s uploaded) \<and>
      run_product q ixs (metadata_with_symbol s (prop_of s existing)) = metadata_with_symbol s (prop_of s uploaded)"
    and "Inr k \<notin> symbol_price env cluster existing ` fst ` set (existing @ uploaded) \<Longrightarrow> run_price m0 k ixs st = st"
    and "Inr q \<notin> symbol_product env cluster existing ` fst ` set (existing @ uploaded) \<Longrightarrow> run_product q ixs md = md"
proof -
  have dist: "distinct (map fst existing)" "distinct (map fst uploaded)"
    using ex up by (auto simp: good_existing_def good_upload_def)
  note lookup = valid_changes_lookup [OF assms(1) dist]
  have changes: "distinct (map fst changes)" using assms(1) config_changes_keys by (auto simp: validate_Valid)
  have good: "good_change sc \<and> ch_prev (snd sc) = prop_of (fst sc) existing \<and> fst sc \<in> fst ` set (existing @ uploaded) \<and>
      price_settings_of env (ch_new (snd sc)) = price_settings_of env (prop_of (fst sc) uploaded) \<and>
      metadata_with_symbol (fst sc) (ch_new (snd sc)) = metadata_with_symbol (fst sc) (prop_of (fst sc) uploaded)"
    if sc: "sc \<in> set changes" for sc
  proof -
    have c: "map_of changes (fst sc) = Some (snd sc)" using changes sc by simp
    then have "map_of existing (fst sc) \<noteq> None \<or> map_of uploaded (fst sc) \<noteq> None"
      unfolding lookup by (auto simp: change_of_def split: option.splits)
    then have "fst sc \<in> fst ` set (existing @ uploaded)" by (auto simp: map_of_eq_None_iff image_Un)
    then show ?thesis using change_good [OF ex up, of "fst sc" "snd sc" env] c lookup by simp
  qed
  have key: "price_key env cluster sc = symbol_price env cluster existing (fst sc)"
      "product_key env cluster sc = symbol_product env cluster existing (fst sc)" if "sc \<in> set changes" for sc
    using good [OF that] by (simp_all add: symbol_price_def symbol_product_def symbol_change_def price_key_def product_key_def)
  have sub: "set (map fst changes) \<subseteq> fst ` set (existing @ uploaded)" using good by auto
  have maps: "map (price_key env cluster) changes = map (symbol_price env cluster existing) (map fst changes)"
      "map (product_key env cluster) changes = map (symbol_product env cluster existing) (map fst changes)"
    using key by simp_all
  have "distinct (map (price_key env cluster) changes)" "distinct (map (product_key env cluster) changes)"
    unfolding maps using changes inj_on_subset [OF inj(1) sub] inj_on_subset [OF inj(2) sub] by (simp_all only: distinct_map)
  moreover have "\<forall>sc \<in> set changes. good_change sc \<and> (\<exists>k. price_key env cluster sc = Inr k) \<and> (\<exists>q. product_key env cluster sc = Inr q)"
    using good key keys by metis
  ultimately have all: "\<forall>sc \<in> set changes. applied env cluster m0 ixs sc" "untouched env cluster changes m0 ixs"
    using generate_all_applies [OF assms(2) [unfolded generateInstructions_def] assms(5)] by blast+
  show "run_price m0 k ixs (price_settings_of env (prop_of s existing)) = price_settings_of env (prop_of s uploaded) \<and>
      run_product q ixs (metadata_with_symbol s (prop_of s existing)) = metadata_with_symbol s (prop_of s uploaded)"
    if s: "s \<in> fst ` set (existing @ uploaded)" "symbol_price env cluster existing s = Inr k"
      "symbol_product env cluster existing s = Inr q"
  proof (cases "map_of changes s")
    case (Some ch)
    then have sc: "(s, ch) \<in> set changes" by (rule map_of_SomeD)
    show ?thesis using bspec [OF all(1) sc] good [OF sc] key [OF sc] s(2,3) by (simp add: applied_def)
  next
    case None
    have "Inr k \<noteq> price_key env cluster sc \<and> Inr q \<noteq> product_key env cluster sc" if sc: "sc \<in> set changes" for sc
    proof -
      have "fst sc \<noteq> s" using None sc by (auto simp: map_of_eq_None_iff)
      then show ?thesis
        using inj_onD [OF inj(1), of "fst sc" s] inj_onD [OF inj(2), of "fst sc" s] good [OF sc] s unfolding key [OF sc] by auto
    qed
    then have "Inr k \<notin> price_key env cluster ` set changes" "Inr q \<notin> product_key env cluster ` set changes" by blast+
    then show ?thesis using all(2) unchanged_good [OF ex up, of s env] None lookup by (simp add: untouched_def)
  qed
  have changed: "price_key env cluster sc \<in> symbol_price env cluster existing ` fst ` set (existing @ uploaded)"
      "product_key env cluster sc \<in> symbol_product env cluster existing ` fst ` set (existing @ uploaded)"
    if "sc \<in> set changes" for sc using good [OF that] key [OF that] by auto
  show "run_price m0 k ixs st = st"
    if "Inr k \<notin> symbol_price env cluster existing ` fst ` set (existing @ uploaded)"
  proof -
    have "Inr k \<notin> price_key env cluster ` set changes" using changed(1) that by (metis imageE)
    then show ?thesis using all(2) by (simp add: untouched_def)
  qed
  show "run_product q ixs md = md"
    if "Inr q \<notin> symbol_product env cluster existing ` fst ` set (existing @ uploaded)"
  proof -
    have "Inr q \<notin> product_key env cluster ` set changes" using changed(2) that by (metis imageE)
    then show ?thesis using all(2) by (simp add: untouched_def)
  qed
qed

section \<open>The oracle program\<close>

text \<open>
  The oracle program is not part of the repository: it is the argument \<open>exec\<close>, one instruction on the price and
  product accounts of the chain, with \<open>None\<close> for a rejected one.  What is relied on: an instruction that is accepted
  does to the accounts it names what its documentation says (\<open>price_effect\<close>, \<open>product_effect\<close>) and leaves all
  others as they are, and the instructions of the price store and message buffer leave them all.
\<close>

record 'pk oracle_state =
  os_prices :: "'pk \<Rightarrow> 'pk price_settings option"
  os_products :: "'pk \<Rightarrow> (string \<rightharpoonup> json) option"

definition oracle_ok ::
  "('pk core_instruction \<Rightarrow> 'pk oracle_state \<Rightarrow> 'pk oracle_state option) \<Rightarrow> json \<Rightarrow> bool" where
  "oracle_ok exec m0 \<longleftrightarrow>
     (\<forall>c st st'. exec (Call c) st = Some st' \<longrightarrow>
        (\<forall>k. os_prices st' k = (if price_of_call c = Some k then price_effect m0 c (os_prices st k) else os_prices st k)) \<and>
        (\<forall>q. os_products st' q =
           (if product_of_call c = Some q then product_effect c (os_products st q) else os_products st q))) \<and>
     (\<forall>t st st'. exec (Store t) st = Some st' \<longrightarrow> os_prices st' = os_prices st \<and> os_products st' = os_products st)"

fun run_oracle ::
  "('pk core_instruction \<Rightarrow> 'pk oracle_state \<Rightarrow> 'pk oracle_state option) \<Rightarrow> 'pk core_instruction list \<Rightarrow>
   'pk oracle_state \<Rightarrow> 'pk oracle_state option" where
  "run_oracle exec [] st = Some st"
| "run_oracle exec (ix # ixs) st = Option.bind (exec ix st) (run_oracle exec ixs)"

lemma run_oracle_accounts:
  assumes "oracle_ok exec m0" and "run_oracle exec ixs st = Some st'"
  shows "os_prices st' k = run_price m0 k ixs (os_prices st k) \<and> os_products st' q = run_product q ixs (os_products st q)"
  using assms(2)
proof (induction ixs arbitrary: st)
  case (Cons ix ixs)
  then obtain st1 where st1: "exec ix st = Some st1" "run_oracle exec ixs st1 = Some st'"
    by (auto simp: bind_eq_Some_conv)
  then show ?case using assms(1) Cons.IH [OF st1(2)] by (cases ix) (simp_all add: oracle_ok_def)
qed simp

text \<open>
  The chain shows a configuration when, for each of the symbols, the price account of the symbol has exactly the
  settings and its product account exactly the metadata of the configuration, and both are missing for a symbol that is
  not in it.
\<close>

definition shows_config ::
  "'pk core_env \<Rightarrow> string \<Rightarrow> uploaded_config \<Rightarrow> string set \<Rightarrow> uploaded_config \<Rightarrow> 'pk oracle_state \<Rightarrow> bool" where
  "shows_config env cluster existing symbols config chain \<longleftrightarrow>
     (\<forall>s \<in> symbols. \<forall>k q. symbol_price env cluster existing s = Inr k \<longrightarrow> symbol_product env cluster existing s = Inr q \<longrightarrow>
        os_prices chain k = price_settings_of env (prop_of s config) \<and>
        os_products chain q = metadata_with_symbol s (prop_of s config))"

text \<open>Accounts that belong to none of the symbols.\<close>

definition same_elsewhere ::
  "'pk core_env \<Rightarrow> string \<Rightarrow> uploaded_config \<Rightarrow> string set \<Rightarrow> 'pk oracle_state \<Rightarrow> 'pk oracle_state \<Rightarrow> bool" where
  "same_elsewhere env cluster existing symbols chain chain' \<longleftrightarrow>
     (\<forall>k. Inr k \<notin> symbol_price env cluster existing ` symbols \<longrightarrow> os_prices chain' k = os_prices chain k) \<and>
     (\<forall>q. Inr q \<notin> symbol_product env cluster existing ` symbols \<longrightarrow> os_products chain' q = os_products chain q)"

text \<open>
  C6. Take a valid upload whose products have all their fields, over existing products that also have their symbols
  and account addresses, whose symbols (existing or uploaded) all have a price and a product account, different for
  different symbols.  When its instructions can be generated and a chain that shows the existing configuration accepts
  them all, the chain then shows the uploaded one: for every symbol, whether new, kept, changed or removed, the price
  account has exactly the settings and the product account exactly the metadata of the upload, and none if the symbol is
  not in it; the accounts of no symbol are as before.
\<close>

theorem upload_takes_effect:
  assumes "validateUploadedConfig existing uploaded cluster = Valid changes"
    and "generateInstructions env changes cluster accounts = Inr ixs"
    and ex: "good_existing existing" and up: "good_upload uploaded" and "keys_ok env"
    and symbols: "symbols = fst ` set (existing @ uploaded)"
    and keys: "\<forall>s \<in> symbols. (\<exists>k. symbol_price env cluster existing s = Inr k) \<and> (\<exists>q. symbol_product env cluster existing s = Inr q)"
    and inj: "inj_on (symbol_price env cluster existing) symbols" "inj_on (symbol_product env cluster existing) symbols"
    and prog: "oracle_ok exec m0" and run: "run_oracle exec ixs chain = Some chain'"
    and before: "shows_config env cluster existing symbols existing chain"
  shows "shows_config env cluster existing symbols uploaded chain' \<and> same_elsewhere env cluster existing symbols chain chain'"
proof
  note effect = upload_effect [OF assms(1,2) ex up assms(5) keys [unfolded symbols] inj [unfolded symbols]]
  show "shows_config env cluster existing symbols uploaded chain'"
    using before effect(1) unfolding shows_config_def symbols
    by (metis run_oracle_accounts [OF prog run])
  show "same_elsewhere env cluster existing symbols chain chain'"
    using effect(2,3) unfolding same_elsewhere_def symbols
    by (simp add: run_oracle_accounts [OF prog run])
qed

section \<open>Witnesses\<close>

text \<open>Keys are texts; an account derived with a seed is the seed.\<close>

definition demo_env :: "string core_env" where
  "demo_env =
     \<lparr>ce_keys = \<lparr>pse_PublicKey = (\<lambda>s. s), pse_newPublicKey = (\<lambda>bs. ''''), pse_toBuffer = ascii_bytes, pse_toBase58 = (\<lambda>s. s),
        pse_findProgramAddressSync = (\<lambda>seeds p. (p, 255)), pse_createWithSeed = (\<lambda>b s p. s),
        pse_SystemProgram_programId = '''', pse_MAX_SEED_LENGTH = 32\<rparr>,
      ce_newPublicKey = (\<lambda>j. case j of JStr s \<Rightarrow> Inr s | _ \<Rightarrow> Inl TypeError),
      ce_programKey = (\<lambda>_. ''prog''), ce_instruction = (\<lambda>_. Inr 8)\<rparr>"

definition demo_accounts :: "string core_accounts" where
  "demo_accounts = \<lparr>ca_fundingAccount = ''f'', ca_messageBufferClient = False, ca_connection = None,
     ca_mappingAccounts = [\<lparr>rm_next = None, rm_address = ''m'', rm_products = []\<rparr>]\<rparr>"

definition demo_product :: "string \<Rightarrow> string \<Rightarrow> string list \<Rightarrow> product_cfg" where
  "demo_product symbol address publishers =
     \<lparr>dp_address = address, dp_metadata = [(''symbol'', symbol)],
      dp_priceAccounts = [\<lparr>da_address = ''p'' @ address, da_publishers = publishers, da_expo = Fin (- 8), da_minPub = Fin 3,
        da_maxLatency = Fin 0\<rparr>]\<rparr>"

definition demo_existing :: uploaded_config where
  "demo_existing = config_to_json [(''ETH'', demo_product ''ETH'' ''e'' [''x'', ''y''])]"

definition demo_upload :: uploaded_config where
  "demo_upload = config_to_json [(''ETH'', demo_product ''ETH'' ''e'' [''y'', ''z'']), (''BTC'', demo_product ''BTC'' '''' [''z''])]"

lemma good_product_to_json:
  assumes "distinct (map fst (dp_metadata p))" and "dp_priceAccounts p \<noteq> []"
    and "\<forall>pa \<in> set (dp_priceAccounts p). da_expo pa \<in> range Fin \<and> da_minPub pa \<in> range Fin \<and> da_maxLatency pa \<in> range Fin"
  shows "good_product (product_to_json p)"
proof -
  have "good_price (price_account_to_json x)" if "x \<in> set (dp_priceAccounts p)" for x
    using bspec [OF assms(3) that] by (auto simp: good_price_def price_account_to_json_def field_literal)
  then show ?thesis
    using assms(1,2) unfolding good_product_def
    by (intro exI [of _ "spread_entries (product_to_json p)"] exI [of _ "dp_metadata p"]
        exI [of _ "map price_account_to_json (dp_priceAccounts p)"]) (auto simp: product_to_json_def field_literal)
qed

lemma demo_good: "good_existing demo_existing" "good_upload demo_upload" "keys_ok demo_env"
proof -
  have "good_product (product_to_json (demo_product s a ps))" for s a ps
    by (rule good_product_to_json) (auto simp: demo_product_def)
  then show "good_existing demo_existing" "good_upload demo_upload"
    by (simp_all add: good_existing_def good_upload_def demo_existing_def demo_upload_def config_to_json_def product_metadata_def
        js_truthy_def) (simp_all add: demo_product_def product_to_json_def field_literal)
  show "keys_ok demo_env" by (simp add: keys_ok_def demo_env_def)
qed


lemma demo_runs:
  "\<exists>changes ixs. validateUploadedConfig demo_existing demo_upload ''devnet'' = Valid changes \<and>
     generateInstructions demo_env changes ''devnet'' demo_accounts = Inr ixs"
proof -
  have "case validateUploadedConfig demo_existing demo_upload ''devnet'' of
      Valid changes \<Rightarrow> (case generateInstructions demo_env changes ''devnet'' demo_accounts of Inr _ \<Rightarrow> True | Inl _ \<Rightarrow> False)
    | _ \<Rightarrow> False" by code_simp
  then show ?thesis by (auto split: validation_result.splits sum.splits)
qed

lemma demo_keys:
  "symbol_price demo_env ''devnet'' demo_existing ''ETH'' = Inr ''pe''"
  "symbol_product demo_env ''devnet'' demo_existing ''ETH'' = Inr ''e''"
  "symbol_price demo_env ''devnet'' demo_existing ''BTC'' = Inr ''price:BTC''"
  "symbol_product demo_env ''devnet'' demo_existing ''BTC'' = Inr ''product:BTC''"
  by code_simp+

text \<open>An oracle that accepts everything.\<close>

fun sample_oracle :: "json \<Rightarrow> 'pk core_instruction \<Rightarrow> 'pk oracle_state \<Rightarrow> 'pk oracle_state option" where
  "sample_oracle m0 (Call c) st = Some
     \<lparr>os_prices = (\<lambda>k. if price_of_call c = Some k then price_effect m0 c (os_prices st k) else os_prices st k),
      os_products = (\<lambda>q. if product_of_call c = Some q then product_effect c (os_products st q) else os_products st q)\<rparr>"
| "sample_oracle m0 (Store t) st = Some st"

lemma sample_oracle_ok: "oracle_ok (sample_oracle m0) m0"
  by (auto simp: oracle_ok_def)

lemma sample_oracle_runs: "\<exists>st'. run_oracle (sample_oracle m0) ixs st = Some st'"
proof (induction ixs arbitrary: st)
  case (Cons ix ixs)
  then show ?case by (cases ix) auto
qed simp

text \<open>The chain before the upload, with the accounts of ETH only.\<close>

definition demo_chain :: "string oracle_state" where
  "demo_chain = \<lparr>os_prices = Map.empty(''pe'' := price_settings_of demo_env (prop_of ''ETH'' demo_existing)),
     os_products = Map.empty(''e'' := metadata_with_symbol ''ETH'' (prop_of ''ETH'' demo_existing))\<rparr>"

lemma demo_symbols: "fst ` set (demo_existing @ demo_upload) = {''ETH'', ''BTC''}"
  by (auto simp: demo_existing_def demo_upload_def config_to_json_def)

lemma demo_BTC:
  "prop_of ''BTC'' demo_existing = JUndefined"
  "price_settings_of demo_env (prop_of ''BTC'' demo_upload) =
     Some \<lparr>st_expo = JNum (Fin (- 8)), st_minPub = JNum (Fin 3), st_maxLatency = JNum (Fin 0), st_publishers = {''z''}\<rparr>"
proof -
  show "prop_of ''BTC'' demo_existing = JUndefined" by (simp add: demo_existing_def config_to_json_def)
  have "prop_of ''BTC'' demo_upload = product_to_json (demo_product ''BTC'' '''' [''z''])"
    by (simp add: demo_upload_def config_to_json_def)
  moreover have "settings_of demo_env (price_account_0 (product_to_json (demo_product ''BTC'' '''' [''z'']))) =
      \<lparr>st_expo = JNum (Fin (- 8)), st_minPub = JNum (Fin 3), st_maxLatency = JNum (Fin 0), st_publishers = {''z''}\<rparr>"
    by (simp add: settings_of_def demo_product_def) (simp add: price_account_to_json_def field_literal keys_of_def demo_env_def)
  ultimately show "price_settings_of demo_env (prop_of ''BTC'' demo_upload) =
     Some \<lparr>st_expo = JNum (Fin (- 8)), st_minPub = JNum (Fin 3), st_maxLatency = JNum (Fin 0), st_publishers = {''z''}\<rparr>"
    by (simp add: price_settings_of_def js_truthy_def product_to_json_def)
qed

lemma demo_before: "shows_config demo_env ''devnet'' demo_existing {''ETH'', ''BTC''} demo_existing demo_chain"
  by (simp add: shows_config_def demo_keys demo_chain_def demo_BTC(1) price_settings_of_def [of _ JUndefined]
      metadata_with_symbol_def [of _ JUndefined])

theorem upload_takes_effect_witness:
  "\<exists>changes ixs chain'. validateUploadedConfig demo_existing demo_upload ''devnet'' = Valid changes \<and>
     generateInstructions demo_env changes ''devnet'' demo_accounts = Inr ixs \<and>
     run_oracle (sample_oracle (JNum (Fin 5))) ixs demo_chain = Some chain' \<and>
     os_prices chain' ''price:BTC'' =
       Some \<lparr>st_expo = JNum (Fin (- 8)), st_minPub = JNum (Fin 3), st_maxLatency = JNum (Fin 0), st_publishers = {''z''}\<rparr>"
proof -
  obtain changes ixs where runs: "validateUploadedConfig demo_existing demo_upload ''devnet'' = Valid changes"
    "generateInstructions demo_env changes ''devnet'' demo_accounts = Inr ixs" using demo_runs by blast
  obtain chain' where run: "run_oracle (sample_oracle (JNum (Fin 5))) ixs demo_chain = Some chain'"
    using sample_oracle_runs by blast
  have "shows_config demo_env ''devnet'' demo_existing {''ETH'', ''BTC''} demo_upload chain' \<and>
      same_elsewhere demo_env ''devnet'' demo_existing {''ETH'', ''BTC''} demo_chain chain'"
    by (rule upload_takes_effect [OF runs demo_good _ _ _ _ sample_oracle_ok run demo_before])
      (simp_all only: demo_symbols inj_on_def ball_simps demo_keys, simp_all)
  then have "os_prices chain' ''price:BTC'' = price_settings_of demo_env (prop_of ''BTC'' demo_upload)"
    using demo_keys(3,4) by (simp add: shows_config_def)
  then show ?thesis using runs run demo_BTC(2) by auto
qed

end
