(* ===== verification/Multisig.thy ===== *)
theory Multisig
  imports Governance_Codec Solana_Transaction Core_Instructions
begin

text \<open>
  Proposals of the governance multisig
  (\<^verbatim>\<open>governance/xc_admin/packages/xc_admin_common/src/propose.ts\<close>, \<^verbatim>\<open>multisig.ts\<close>, \<^verbatim>\<open>wormhole.ts\<close> and
  \<^verbatim>\<open>remote_executor.ts\<close>): the batches of instructions sent to a remote cluster, the calls to the Squads
  program that make up proposals, sending them, resuming a proposal, and reading proposals back.  A
  call to Squads is a constructor of \<open>squads_call\<close>; the Squads and Wormhole clients that turn calls into
  instructions and derive addresses are the record \<open>squads_env\<close>.  The replies of the RPC node are
  arguments; a request that fails rejects before anything is sent.
\<close>

section \<open>Keys\<close>

definition UPGRADE_MULTISIG :: "(string \<times> string) list" where
  "UPGRADE_MULTISIG =
     [(''mainnet-beta'', ''FVQyHcooAtThJ83XFrNnv74BcinbRH3bRmfFamAHBfuj''),
      (''testnet'', ''FVQyHcooAtThJ83XFrNnv74BcinbRH3bRmfFamAHBfuj''),
      (''devnet'', ''6baWtW1zTUVMSJHJQVxDUXWzqrQeYBr6mu31j3bTKwY3''),
      (''localnet'', ''FVQyHcooAtThJ83XFrNnv74BcinbRH3bRmfFamAHBfuj'')]"

definition PRICE_FEED_MULTISIG :: "(string \<times> string) list" where
  "PRICE_FEED_MULTISIG =
     [(''mainnet-beta'', ''92hQkq8kBgCUcF9yWN8URZB9RTmA4mZpDGtbiAWA74Z8''),
      (''testnet'', ''92hQkq8kBgCUcF9yWN8URZB9RTmA4mZpDGtbiAWA74Z8''),
      (''devnet'', ''92hQkq8kBgCUcF9yWN8URZB9RTmA4mZpDGtbiAWA74Z8''),
      (''localnet'', ''92hQkq8kBgCUcF9yWN8URZB9RTmA4mZpDGtbiAWA74Z8'')]"

definition UPGRADE_OPS_KEY :: "'pk price_store_env \<Rightarrow> 'pk" where
  "UPGRADE_OPS_KEY env = pse_PublicKey env ''opsLibxVY7Vz5eYMmSfX8cLFCFVYTtH6fr6MiifMpA7''"

definition getOpsKey :: "'pk price_store_env \<Rightarrow> 'pk \<Rightarrow> 'pk res" where
  "getOpsKey env vault =
     (if list_ex (\<lambda>(_, k). pse_PublicKey env k = vault) PRICE_FEED_MULTISIG then Inr (PRICE_FEED_OPS_KEY env)
      else if list_ex (\<lambda>(_, k). pse_PublicKey env k = vault) UPGRADE_MULTISIG then Inr (UPGRADE_OPS_KEY env)
      else Inl (Error ''Unrecognized multisig vault''))"

definition WORMHOLE_ADDRESS :: "(string \<times> string option) list" where
  "WORMHOLE_ADDRESS =
     [(''mainnet-beta'', Some ''worm2ZoG2kUd4vFXhvjh93UUH596ayRfgQ2MgjNMTth''),
      (''pythtest-conformance'', Some ''EUrRARh92Cdc54xrDn6qzaqjA77NRrCcfbr8kPwoTL4z''),
      (''pythtest-crosschain'', Some ''EUrRARh92Cdc54xrDn6qzaqjA77NRrCcfbr8kPwoTL4z''),
      (''devnet'', Some ''3u8hJUVTA4jH1wYAyUur7FFZVQ8H635K3tSHHF4ssjQ5''),
      (''pythnet'', Some ''H3fxXJ86ADW2PNuDDmZJg6mzTtPxkYCpNuQUTgmJ7AjU''),
      (''localnet'', Some ''Bridge1p5gheXUvJ6jGWGeCsgPKgnE3YgdGKRVCMY9o''),
      (''testnet'', None)]"

definition wormholeAddress :: "'pk price_store_env \<Rightarrow> string \<Rightarrow> 'pk option" where
  "wormholeAddress env cluster =
     (case map_of WORMHOLE_ADDRESS cluster of
        Some (Some s) \<Rightarrow> Some (pse_PublicKey env s)
      | _ \<Rightarrow> None)"

definition REMOTE_EXECUTOR_ADDRESS :: "'pk price_store_env \<Rightarrow> 'pk" where
  "REMOTE_EXECUTOR_ADDRESS env = pse_PublicKey env ''exe6S3AxPVNmy46L4Nj6HrnnAVQUhwyYzMSNcnRn3qq''"

definition mapKey :: "'pk price_store_env \<Rightarrow> 'pk \<Rightarrow> 'pk" where
  "mapKey env key = fst (pse_findProgramAddressSync env
     [ascii_bytes ''EXECUTOR_KEY'', pse_toBuffer env key] (REMOTE_EXECUTOR_ADDRESS env))"

section \<open>The Squads and Wormhole clients\<close>

text \<open>
  \<open>CreateTransaction multisig authorityIndex transactionIndex\<close>, \<open>AddInstruction multisig transaction
  instruction instructionIndex authorityIndex authorityBump authorityType\<close>, \<open>ActivateTransaction\<close>,
  \<open>ApproveTransaction multisig transaction\<close>, \<open>ExecuteInstruction transaction instruction\<close>, \<open>AddMember\<close>,
  \<open>RemoveMember multisig externalAuthority member\<close>.
\<close>

datatype 'pk squads_call =
    CreateTransaction 'pk nat nat
  | AddInstruction 'pk 'pk "'pk ix" nat "nat option" "nat option" "string option"
  | ActivateTransaction 'pk 'pk
  | ApproveTransaction 'pk 'pk
  | ExecuteInstruction 'pk 'pk
  | AddMember 'pk 'pk 'pk
  | RemoveMember 'pk 'pk 'pk

record 'pk post_message_accounts =
  pma_bridge :: 'pk
  pma_message :: 'pk
  pma_emitter :: 'pk
  pma_sequence :: 'pk
  pma_payer :: 'pk
  pma_feeCollector :: 'pk
  pma_clock :: 'pk
  pma_rent :: 'pk
  pma_systemProgram :: 'pk

record 'pk squads_env =
  sq_keys :: "'pk price_store_env"
  sq_gov :: "'pk gov_env"
  sq_build :: "'pk squads_call \<Rightarrow> 'pk ix"
  sq_getAuthorityPDA :: "'pk \<Rightarrow> nat \<Rightarrow> 'pk"
  sq_getTxPDA :: "'pk \<Rightarrow> nat \<Rightarrow> 'pk \<Rightarrow> 'pk \<times> nat"
  sq_getIxPDA :: "'pk \<Rightarrow> nat \<Rightarrow> 'pk \<Rightarrow> 'pk \<times> nat"
  sq_getIxAuthorityPDA :: "'pk \<Rightarrow> nat \<Rightarrow> 'pk \<Rightarrow> 'pk \<times> nat"
  sq_multisigProgramId :: 'pk
  sq_DEFAULT_MULTISIG_PROGRAM_ID :: 'pk
  sq_postMessage :: "'pk \<Rightarrow> nat \<Rightarrow> bytes \<Rightarrow> nat \<Rightarrow> 'pk post_message_accounts \<Rightarrow> 'pk ix res"
  sq_deriveWormholeBridgeDataKey :: "'pk \<Rightarrow> 'pk"
  sq_deriveEmitterSequenceKey :: "'pk \<Rightarrow> 'pk \<Rightarrow> 'pk"
  sq_deriveFeeCollectorKey :: "'pk \<Rightarrow> 'pk"
  sq_SYSVAR_CLOCK_PUBKEY :: 'pk
  sq_SYSVAR_RENT_PUBKEY :: 'pk

record 'pk squad_instruction =
  si_instruction :: "'pk ix"
  si_authorityIndex :: "nat option"
  si_authorityBump :: "nat option"
  si_authorityType :: "string option"

definition getPostMessageAccounts :: "'pk squads_env \<Rightarrow> 'pk \<Rightarrow> 'pk \<Rightarrow> 'pk \<Rightarrow> 'pk \<Rightarrow> 'pk post_message_accounts" where
  "getPostMessageAccounts env wormhole emitter payer message =
     \<lparr>pma_bridge = sq_deriveWormholeBridgeDataKey env wormhole, pma_message = message, pma_emitter = emitter,
      pma_sequence = sq_deriveEmitterSequenceKey env emitter wormhole, pma_payer = payer,
      pma_feeCollector = sq_deriveFeeCollectorKey env wormhole, pma_clock = sq_SYSVAR_CLOCK_PUBKEY env,
      pma_rent = sq_SYSVAR_RENT_PUBKEY env, pma_systemProgram = pse_SystemProgram_programId (sq_keys env)\<rparr>"

definition getPostMessageInstruction ::
  "'pk squads_env \<Rightarrow> 'pk \<Rightarrow> 'pk \<Rightarrow> nat \<Rightarrow> 'pk \<Rightarrow> bytes \<Rightarrow> 'pk \<Rightarrow> 'pk squad_instruction res" where
  "getPostMessageInstruction env vault proposalAddress instructionIndex wormhole payload messagePayer =
     (let (messagePDA, messagePdaBump) =
            sq_getIxAuthorityPDA env proposalAddress instructionIndex (sq_multisigProgramId env);
          emitter = sq_getAuthorityPDA env vault 1;
          accounts = getPostMessageAccounts env wormhole emitter messagePayer messagePDA in
      res_bind (sq_postMessage env wormhole 0 payload 0 accounts) (\<lambda>ix.
      Inr \<lparr>si_instruction = ix, si_authorityIndex = Some instructionIndex,
        si_authorityBump = Some messagePdaBump, si_authorityType = Some ''custom''\<rparr>))"

definition wrapAsRemoteInstruction ::
  "'pk squads_env \<Rightarrow> 'pk \<Rightarrow> 'pk \<Rightarrow> 'pk ix list \<Rightarrow> nat \<Rightarrow> 'pk \<Rightarrow> 'pk squad_instruction res" where
  "wrapAsRemoteInstruction env vault proposalAddress instructions instructionIndex wormhole =
     res_bind (governance_encode (sq_gov env) (ExecutePostedVaa ''pythnet'' instructions)) (\<lambda>buffer.
     res_bind (getOpsKey (sq_keys env) vault) (\<lambda>opsKey.
     getPostMessageInstruction env vault proposalAddress instructionIndex wormhole buffer opsKey))"

section \<open>Batches for the remote executor\<close>

definition MAX_EXECUTOR_PAYLOAD_SIZE :: nat where
  "MAX_EXECUTOR_PAYLOAD_SIZE = PACKET_DATA_SIZE_WITH_ROOM_FOR_COMPUTE_BUDGET - 687"

definition MAX_INSTRUCTIONS_PER_PROPOSAL :: nat where
  "MAX_INSTRUCTIONS_PER_PROPOSAL = 256 - 1"

definition executor_instruction_size :: "'pk ix \<Rightarrow> nat" where
  "executor_instruction_size ix = 32 + 4 + length (ix_keys ix) * 34 + 4 + length (ix_data ix)"

text \<open>\<^verbatim>\<open>reduce\<close> without an initial value throws on an empty array.\<close>

definition getSizeOfExecutorInstructions :: "'pk ix list \<Rightarrow> nat res" where
  "getSizeOfExecutorInstructions instructions =
     (case map executor_instruction_size instructions of
        [] \<Rightarrow> Inl TypeError
      | n # ns \<Rightarrow> Inr (foldl (+) n ns))"

text \<open>The inner loop: the end \<open>j\<close> of the batch that starts at \<open>i\<close>.\<close>

function batch_end :: "'pk ix list \<Rightarrow> nat \<Rightarrow> nat \<Rightarrow> nat res" where
  "batch_end instructions i j =
     (if j < length instructions then
        res_bind (getSizeOfExecutorInstructions (buf_subarray instructions i j)) (\<lambda>size.
          if size \<le> MAX_EXECUTOR_PAYLOAD_SIZE then batch_end instructions i (j + 1) else Inr j)
      else Inr j)"
  by pat_completeness auto
termination
  by (relation "measure (\<lambda>(ixs, i, j). length ixs - j)") auto

declare batch_end.simps [simp del]

lemma batch_end_ge: "batch_end instructions i j = Inr j' \<Longrightarrow> j \<le> j'"
proof (induction instructions i j rule: batch_end.induct)
  case (1 instructions i j)
  then show ?case by (subst (asm) (2) batch_end.simps) (fastforce simp: res_simps split: if_splits)
qed

text \<open>The outer loop from index \<open>i\<close> on.\<close>

function batches_from :: "'pk ix list \<Rightarrow> nat \<Rightarrow> 'pk ix list list res" where
  "batches_from instructions i =
     (if i < length instructions then
        res_bind (batch_end instructions i (i + 2)) (\<lambda>j.
        res_bind (batches_from instructions (j - 1)) (\<lambda>batches.
        Inr (map (\<lambda>k. instructions ! k) [i..<j - 1] # batches)))
      else Inr [])"
  by pat_completeness auto
termination
  by (relation "measure (\<lambda>(ixs, i). length ixs - i)") (auto dest!: batch_end_ge)

declare batches_from.simps [simp del]

definition batchIntoExecutorPayload :: "'pk ix list \<Rightarrow> 'pk ix list list res" where
  "batchIntoExecutorPayload instructions = batches_from instructions 0"

section \<open>Calls to the multisig\<close>

record 'pk ms_account =
  ms_publicKey :: 'pk
  ms_authorityIndex :: nat
  ms_transactionIndex :: nat

record 'pk multisig_vault =
  mv_cluster :: string
  mv_vault :: 'pk

definition getVaultAuthorityPDA :: "'pk squads_env \<Rightarrow> 'pk multisig_vault \<Rightarrow> 'pk ms_account \<Rightarrow> string option \<Rightarrow> 'pk" where
  "getVaultAuthorityPDA env mv msAccount cluster =
     (let localAuthorityPDA = sq_getAuthorityPDA env (ms_publicKey msAccount) (ms_authorityIndex msAccount) in
      if cluster = None \<or> cluster = Some (mv_cluster mv) then localAuthorityPDA
      else mapKey (sq_keys env) localAuthorityPDA)"

definition getAuthorityPDA :: "'pk squads_env \<Rightarrow> 'pk multisig_vault \<Rightarrow> nat \<Rightarrow> 'pk" where
  "getAuthorityPDA env mv authorityIndex = sq_getAuthorityPDA env (mv_vault mv) authorityIndex"

text \<open>The account is fetched again; its key and authority index do not change.\<close>

definition createProposalIx ::
  "'pk squads_env \<Rightarrow> 'pk multisig_vault \<Rightarrow> 'pk ms_account \<Rightarrow> nat \<Rightarrow> 'pk squads_call \<times> 'pk" where
  "createProposalIx env mv msAccount proposalIndex =
     (CreateTransaction (ms_publicKey msAccount) (ms_authorityIndex msAccount) proposalIndex,
      fst (sq_getTxPDA env (mv_vault mv) proposalIndex (sq_multisigProgramId env)))"

definition activateProposalIx :: "'pk multisig_vault \<Rightarrow> 'pk \<Rightarrow> 'pk squads_call" where
  "activateProposalIx mv proposalAddress = ActivateTransaction (mv_vault mv) proposalAddress"

definition approveProposalIx :: "'pk multisig_vault \<Rightarrow> 'pk \<Rightarrow> 'pk squads_call" where
  "approveProposalIx mv proposalAddress = ApproveTransaction (mv_vault mv) proposalAddress"

definition addMemberIx :: "'pk squads_env \<Rightarrow> 'pk multisig_vault \<Rightarrow> 'pk \<Rightarrow> 'pk \<Rightarrow> 'pk squads_call" where
  "addMemberIx env mv member targetVault = AddMember targetVault (getAuthorityPDA env mv 1) member"

definition removeMemberIx :: "'pk squads_env \<Rightarrow> 'pk multisig_vault \<Rightarrow> 'pk \<Rightarrow> 'pk \<Rightarrow> 'pk squads_call" where
  "removeMemberIx env mv member targetVault = RemoveMember targetVault (getAuthorityPDA env mv 1) member"

definition add_squad_instruction ::
  "'pk multisig_vault \<Rightarrow> 'pk \<Rightarrow> nat \<Rightarrow> 'pk squad_instruction \<Rightarrow> 'pk squads_call" where
  "add_squad_instruction mv proposalAddress i si =
     AddInstruction (mv_vault mv) proposalAddress (si_instruction si) i
       (si_authorityIndex si) (si_authorityBump si) (si_authorityType si)"

section \<open>Proposing instructions\<close>

text \<open>
  The two loops of \<^verbatim>\<open>proposeInstructions\<close> differ in the elements and in how one is added to the proposal,
  which is the argument \<open>add\<close>: one proposal per 255 elements, from index \<open>j\<close> on.
\<close>

function propose_from ::
  "'pk squads_env \<Rightarrow> 'pk multisig_vault \<Rightarrow> 'pk ms_account \<Rightarrow> ('pk \<Rightarrow> nat \<Rightarrow> 'a \<Rightarrow> 'pk squads_call res) \<Rightarrow> 'a list \<Rightarrow> nat \<Rightarrow>
   ('pk squads_call list \<times> 'pk list) res" where
  "propose_from env mv msAccount add items j =
     (if j < length items then
        let proposalIndex = ms_transactionIndex msAccount + 1 + j div MAX_INSTRUCTIONS_PER_PROPOSAL;
            (proposalIx, newProposalAddress) = createProposalIx env mv msAccount proposalIndex in
        res_bind (map_res (\<lambda>(i, x). add newProposalAddress (i + 1) x)
            (List.enumerate 0 (buf_subarray items j (j + MAX_INSTRUCTIONS_PER_PROPOSAL)))) (\<lambda>adds.
        res_bind (propose_from env mv msAccount add items (j + MAX_INSTRUCTIONS_PER_PROPOSAL)) (\<lambda>(ixToSend, newProposals).
        Inr (proposalIx # adds @
             [activateProposalIx mv newProposalAddress, approveProposalIx mv newProposalAddress] @ ixToSend,
           newProposalAddress # newProposals)))
      else Inr ([], []))"
  by pat_completeness auto
termination
  by (relation "measure (\<lambda>(env, mv, ms, add, items, j). length items - j)")
    (auto simp: MAX_INSTRUCTIONS_PER_PROPOSAL_def)

declare propose_from.simps [simp del]

definition remote_add ::
  "'pk squads_env \<Rightarrow> 'pk multisig_vault \<Rightarrow> 'pk \<Rightarrow> 'pk \<Rightarrow> nat \<Rightarrow> 'pk ix list \<Rightarrow> 'pk squads_call res" where
  "remote_add env mv wormhole newProposalAddress i batch =
     res_bind (wrapAsRemoteInstruction env (mv_vault mv) newProposalAddress batch i wormhole) (\<lambda>squadIx.
     Inr (add_squad_instruction mv newProposalAddress i squadIx))"

definition local_add :: "'pk multisig_vault \<Rightarrow> 'pk \<Rightarrow> nat \<Rightarrow> 'pk ix \<Rightarrow> 'pk squads_call res" where
  "local_add mv newProposalAddress i ix =
     Inr (AddInstruction (mv_vault mv) newProposalAddress ix i None None None)"

text \<open>The calls of the proposals and their addresses.\<close>

definition proposal_calls ::
  "'pk squads_env \<Rightarrow> 'pk multisig_vault \<Rightarrow> 'pk ms_account \<Rightarrow> 'pk ix list \<Rightarrow> string \<Rightarrow>
   ('pk squads_call list \<times> 'pk list) res" where
  "proposal_calls env mv msAccount instructions targetCluster =
     (if targetCluster \<noteq> mv_cluster mv then
        case wormholeAddress (sq_keys env) (mv_cluster mv) of
          None \<Rightarrow> Inl (Error ''Need wormhole address'')
        | Some wormhole \<Rightarrow>
            res_bind (batchIntoExecutorPayload instructions) (\<lambda>batches.
            propose_from env mv msAccount (remote_add env mv wormhole) batches 0)
      else propose_from env mv msAccount (local_add mv) instructions 0)"

section \<open>Sending\<close>

definition TIMEOUT :: nat where "TIMEOUT = 10"
definition MAX_RETRY_SEND :: nat where "MAX_RETRY_SEND = 70"

text \<open>
  Whether \<^verbatim>\<open>sendTransactions\<close> resolves for the transaction of an index at its n-th attempt is the
  argument \<open>lands\<close>.  The result lists the transactions it resolved for.
\<close>

function send_retries :: "(nat \<Rightarrow> bool) \<Rightarrow> nat \<Rightarrow> nat" where
  "send_retries lands retries =
     (if retries < TIMEOUT then if lands retries then retries else send_retries lands (retries + 1)
      else retries)"
  by pat_completeness auto
termination
  by (relation "measure (\<lambda>(lands, retries). TIMEOUT - retries)") auto

declare send_retries.simps [simp del]

fun sendAllTransactions :: "(nat \<Rightarrow> nat \<Rightarrow> bool) \<Rightarrow> nat \<Rightarrow> 'tx list \<Rightarrow> 'tx list \<times> unit res" where
  "sendAllTransactions lands index [] = ([], Inr ())"
| "sendAllTransactions lands index (tx # transactions) =
     (if send_retries (lands index) 0 = TIMEOUT then ([], Inl (Error ''Too many retries''))
      else let (sent, r) = sendAllTransactions lands (index + 1) transactions in (tx # sent, r))"

text \<open>What sending depends on: the transaction builder, its random draws and placeholder, and what lands.\<close>

record 'pk send_env =
  sn_tx :: "'pk tx_env"
  sn_random :: "nat \<Rightarrow> nat"
  sn_draw :: "nat \<Rightarrow> nat"
  sn_unique :: 'pk
  sn_lands :: "nat \<Rightarrow> nat \<Rightarrow> bool"

definition transactions_of ::
  "'pk squads_env \<Rightarrow> 'pk send_env \<Rightarrow> priority_fee_config \<Rightarrow> 'pk squads_call list \<Rightarrow> 'pk ix list list res" where
  "transactions_of env sn priorityFeeConfig calls =
     batchIntoLegacyTransactions (sn_tx sn) (sn_random sn) (sn_unique sn)
       (map (\<lambda>(k, c). (sn_draw sn k, sq_build env c)) (List.enumerate 0 calls)) priorityFeeConfig"

definition send_calls ::
  "'pk squads_env \<Rightarrow> 'pk send_env \<Rightarrow> priority_fee_config \<Rightarrow> 'pk squads_call list \<Rightarrow> 'r \<Rightarrow> 'pk ix list list \<times> 'r res" where
  "send_calls env sn priorityFeeConfig calls result =
     (case transactions_of env sn priorityFeeConfig calls of
        Inl e \<Rightarrow> ([], Inl e)
      | Inr txToSend \<Rightarrow>
          let (sent, r) = sendAllTransactions (sn_lands sn) 0 txToSend in
          (sent, res_bind r (\<lambda>_. Inr result)))"

definition proposeInstructions ::
  "'pk squads_env \<Rightarrow> 'pk send_env \<Rightarrow> 'pk multisig_vault \<Rightarrow> 'pk ms_account \<Rightarrow> 'pk ix list \<Rightarrow> string \<Rightarrow>
   priority_fee_config \<Rightarrow> 'pk ix list list \<times> 'pk list res" where
  "proposeInstructions env sn mv msAccount instructions targetCluster priorityFeeConfig =
     (case proposal_calls env mv msAccount instructions targetCluster of
        Inl e \<Rightarrow> ([], Inl e)
      | Inr (ixToSend, newProposals) \<Rightarrow> send_calls env sn priorityFeeConfig ixToSend newProposals)"

section \<open>Proposing Wormhole messages\<close>

text \<open>
  \<open>existing\<close> is the given proposal with the number of instructions it already has.  Without a Wormhole
  address, deriving the accounts of the message throws.
\<close>

definition message_call ::
  "'pk squads_env \<Rightarrow> 'pk multisig_vault \<Rightarrow> 'pk \<Rightarrow> 'pk \<Rightarrow> bytes list \<Rightarrow> nat \<Rightarrow> 'pk squads_call res" where
  "message_call env mv messagePayer proposalAddress payloads i =
     (case wormholeAddress (sq_keys env) (mv_cluster mv) of
        None \<Rightarrow> Inl TypeError
      | Some wormhole \<Rightarrow>
          res_bind (getPostMessageInstruction env (mv_vault mv) proposalAddress (1 + i) wormhole (payloads ! i)
            messagePayer) (\<lambda>si.
          Inr (add_squad_instruction mv proposalAddress (1 + i) si)))"

definition message_calls ::
  "'pk squads_env \<Rightarrow> 'pk multisig_vault \<Rightarrow> 'pk ms_account \<Rightarrow> bytes list \<Rightarrow> 'pk \<Rightarrow> ('pk \<times> nat) option \<Rightarrow>
   ('pk squads_call list \<times> 'pk) res" where
  "message_calls env mv msAccount payloads messagePayer existing =
     (let (create, proposalAddress, startingIndex) =
            (case existing of
               None \<Rightarrow>
                 let (proposalIx, newProposalAddress) =
                   createProposalIx env mv msAccount (ms_transactionIndex msAccount + 1) in
                 ([proposalIx], newProposalAddress, 0)
             | Some (address, instructionIndex) \<Rightarrow> ([], address, instructionIndex)) in
      if MAX_INSTRUCTIONS_PER_PROPOSAL < length payloads
        then Inl (Error ''Too many messages in proposal, multiple proposal not supported yet'')
        else
          res_bind (map_res (message_call env mv messagePayer proposalAddress payloads)
              [startingIndex..<length payloads]) (\<lambda>adds.
          Inr (create @ adds @ [activateProposalIx mv proposalAddress, approveProposalIx mv proposalAddress],
            proposalAddress)))"

definition proposeWormholeMultipleMessagesWithPayer ::
  "'pk squads_env \<Rightarrow> 'pk send_env \<Rightarrow> 'pk multisig_vault \<Rightarrow> 'pk ms_account \<Rightarrow> bytes list \<Rightarrow> 'pk \<Rightarrow>
   ('pk \<times> nat) option \<Rightarrow> priority_fee_config \<Rightarrow> 'pk ix list list \<times> 'pk res" where
  "proposeWormholeMultipleMessagesWithPayer env sn mv msAccount payloads messagePayer existing priorityFeeConfig =
     (case message_calls env mv msAccount payloads messagePayer existing of
        Inl e \<Rightarrow> ([], Inl e)
      | Inr (ixToSend, proposalAddress) \<Rightarrow> send_calls env sn priorityFeeConfig ixToSend proposalAddress)"

definition no_priority_fee :: priority_fee_config where
  "no_priority_fee = \<lparr>pf_computeUnitPriceMicroLamports = None, pf_tightComputeBudget = None, pf_jitoTipLamports = None\<rparr>"

definition proposeWormholeMessageWithPayer ::
  "'pk squads_env \<Rightarrow> 'pk send_env \<Rightarrow> 'pk multisig_vault \<Rightarrow> 'pk ms_account \<Rightarrow> bytes \<Rightarrow> 'pk \<Rightarrow> 'pk ix list list \<times> 'pk res" where
  "proposeWormholeMessageWithPayer env sn mv msAccount payload messagePayer =
     proposeWormholeMultipleMessagesWithPayer env sn mv msAccount [payload] messagePayer None no_priority_fee"

definition proposeWormholeMessage ::
  "'pk squads_env \<Rightarrow> 'pk send_env \<Rightarrow> 'pk multisig_vault \<Rightarrow> 'pk ms_account \<Rightarrow> bytes \<Rightarrow> 'pk ix list list \<times> 'pk res" where
  "proposeWormholeMessage env sn mv msAccount payload =
     (case getOpsKey (sq_keys env) (mv_vault mv) of
        Inl e \<Rightarrow> ([], Inl e)
      | Inr opsKey \<Rightarrow> proposeWormholeMessageWithPayer env sn mv msAccount payload opsKey)"

section \<open>Reading proposals\<close>

record 'pk transaction_account =
  ta_publicKey :: 'pk
  ta_instructionIndex :: nat
  ta_executedIndex :: nat
  ta_status :: string

text \<open>\<^verbatim>\<open>lodash.range\<close> counts down when the start is above the end.\<close>

definition lodash_range :: "nat \<Rightarrow> nat \<Rightarrow> nat list" where
  "lodash_range s e = (if s \<le> e then [s..<e] else rev [e + 1..<s + 1])"

text \<open>\<open>getTransactions\<close> and \<open>getInstructions\<close> are the requests of the Squads client.\<close>

definition getProposals ::
  "'pk squads_env \<Rightarrow> ('pk list \<Rightarrow> 'pk transaction_account option list) \<Rightarrow> 'pk ms_account \<Rightarrow> 'pk \<Rightarrow> nat \<Rightarrow> string \<Rightarrow>
   'pk transaction_account list" where
  "getProposals env getTransactions msAccount vault offset state =
     (let txKeys = map (\<lambda>i. fst (sq_getTxPDA env vault i (sq_DEFAULT_MULTISIG_PROGRAM_ID env)))
            (lodash_range offset (ms_transactionIndex msAccount + 1));
          msTransactions = getTransactions txKeys in
      filter (\<lambda>x. state = ''all'' \<or> ta_status x = state) (map the (filter (\<lambda>x. x \<noteq> None) msTransactions)))"

definition proposal_ix_keys :: "'pk squads_env \<Rightarrow> 'pk transaction_account \<Rightarrow> 'pk list" where
  "proposal_ix_keys env txAccount =
     map (\<lambda>i. fst (sq_getIxPDA env (ta_publicKey txAccount) i (sq_DEFAULT_MULTISIG_PROGRAM_ID env)))
       (lodash_range 1 (ta_instructionIndex txAccount + 1))"

definition getProposalInstructions ::
  "'pk squads_env \<Rightarrow> ('pk list \<Rightarrow> 'ia option list) \<Rightarrow> 'pk transaction_account \<Rightarrow> 'ia list" where
  "getProposalInstructions env getInstructions txAccount =
     map the (filter (\<lambda>x. x \<noteq> None) (getInstructions (proposal_ix_keys env txAccount)))"

text \<open>One pass over the replies: each goes to the proposal its key was asked for.\<close>

fun add_by_owner :: "'ia option list \<Rightarrow> nat list \<Rightarrow> 'ia list list \<Rightarrow> 'ia list list" where
  "add_by_owner (Some toAdd # accounts) (w # owners) byTx =
     add_by_owner accounts owners (if w < length byTx then byTx[w := byTx ! w @ [toAdd]] else byTx)"
| "add_by_owner (None # accounts) (w # owners) byTx = add_by_owner accounts owners byTx"
| "add_by_owner _ _ byTx = byTx"

definition getManyProposalsInstructions ::
  "'pk squads_env \<Rightarrow> ('pk list \<Rightarrow> 'ia option list) \<Rightarrow> 'pk transaction_account list \<Rightarrow> 'ia list list" where
  "getManyProposalsInstructions env getInstructions txAccounts =
     (let keyed = concat (map (\<lambda>(index, txAccount). map (\<lambda>k. (k, index)) (proposal_ix_keys env txAccount))
            (List.enumerate 0 txAccounts));
          allTxIxsAccounts = getInstructions (map fst keyed) in
      add_by_owner allTxIxsAccounts (map snd keyed) (replicate (length txAccounts) []))"

section \<open>The batches partition the instructions\<close>

definition executor_size :: "'pk ix list \<Rightarrow> nat" where
  "executor_size ixs = sum_list (map executor_instruction_size ixs)"

lemma getSizeOfExecutorInstructions_eq:
  "ixs \<noteq> [] \<Longrightarrow> getSizeOfExecutorInstructions ixs = Inr (executor_size ixs)"
proof -
  have "foldl (+) n ns = n + sum_list ns" for n :: nat and ns by (induction ns arbitrary: n) simp_all
  then show "ixs \<noteq> [] \<Longrightarrow> ?thesis"
    by (cases ixs) (simp_all add: getSizeOfExecutorInstructions_def executor_size_def)
qed

lemma batch_end_Inr:
  assumes "i < length ixs" and "i + 2 \<le> j"
    and "j = i + 2 \<or> executor_size (buf_subarray ixs i (j - 1)) \<le> MAX_EXECUTOR_PAYLOAD_SIZE \<and> j \<le> length ixs"
  shows "\<exists>j'. batch_end ixs i j = Inr j' \<and> j \<le> j' \<and>
    (j' = i + 2 \<or> executor_size (buf_subarray ixs i (j' - 1)) \<le> MAX_EXECUTOR_PAYLOAD_SIZE \<and> j' \<le> length ixs)"
  using assms
proof (induction ixs i j rule: batch_end.induct)
  case (1 ixs i j)
  show ?case
  proof (cases "j < length ixs")
    case True
    have "buf_subarray ixs i j \<noteq> []" using 1 True length_buf_subarray [of ixs i j] by force
    note sz = getSizeOfExecutorInstructions_eq [OF this]
    show ?thesis
    proof (cases "executor_size (buf_subarray ixs i j) \<le> MAX_EXECUTOR_PAYLOAD_SIZE")
      case fits: True
      have "\<exists>j'. batch_end ixs i (j + 1) = Inr j' \<and> j + 1 \<le> j' \<and>
        (j' = i + 2 \<or> executor_size (buf_subarray ixs i (j' - 1)) \<le> MAX_EXECUTOR_PAYLOAD_SIZE \<and> j' \<le> length ixs)"
        by (rule "1.IH" [OF True sz]) (use 1 True fits in auto)
      then show ?thesis using True fits sz by (subst batch_end.simps) auto
    next
      case False
      then show ?thesis using 1 True sz by (subst batch_end.simps) simp
    qed
  next
    case False
    then show ?thesis using 1 by (subst batch_end.simps) auto
  qed
qed

lemma buf_subarray_nth: "j \<le> length xs \<Longrightarrow> map (\<lambda>k. xs ! k) [i..<j] = buf_subarray xs i j"
  by (rule nth_equalityI) (auto simp: buf_subarray_def)

lemma drop_buf_subarray: "i \<le> j \<Longrightarrow> buf_subarray xs i j @ drop j xs = drop i xs"
  by (simp add: buf_subarray_def drop_drop)
    (metis add.commute append_take_drop_id drop_drop le_add_diff_inverse2)

definition batch_fits :: "'pk ix list \<Rightarrow> bool" where
  "batch_fits b \<longleftrightarrow> b \<noteq> [] \<and> (length b = 1 \<or> executor_size b \<le> MAX_EXECUTOR_PAYLOAD_SIZE)"

lemma batches_from_partition:
  "\<exists>bs. batches_from ixs i = Inr bs \<and> concat bs = drop i ixs \<and> list_all batch_fits bs \<and>
    (i < length ixs \<longrightarrow> bs \<noteq> [] \<and> length (last bs) = 1)"
proof (induction ixs i rule: batches_from.induct)
  case (1 ixs i)
  show ?case
  proof (cases "i < length ixs")
    case True
    obtain j where j: "batch_end ixs i (i + 2) = Inr j" "i + 2 \<le> j"
        "j = i + 2 \<or> executor_size (buf_subarray ixs i (j - 1)) \<le> MAX_EXECUTOR_PAYLOAD_SIZE \<and> j \<le> length ixs"
      using batch_end_Inr [OF True, of "i + 2"] by auto
    obtain bs where bs: "batches_from ixs (j - 1) = Inr bs" "concat bs = drop (j - 1) ixs" "list_all batch_fits bs"
        "j - 1 < length ixs \<longrightarrow> bs \<noteq> [] \<and> length (last bs) = 1"
      using "1.IH" [OF True j(1)] by auto
    let ?b = "map (\<lambda>k. ixs ! k) [i..<j - 1]"
    have b: "?b = buf_subarray ixs i (j - 1)" using j True by (intro buf_subarray_nth) auto
    have len: "length ?b = j - 1 - i" by simp
    have "?b \<noteq> []" using j(2) by simp
    moreover have "length ?b = 1 \<or> executor_size ?b \<le> MAX_EXECUTOR_PAYLOAD_SIZE"
      using j(3) unfolding len b [symmetric] by auto
    ultimately have fit: "batch_fits ?b" unfolding batch_fits_def by blast
    have "batches_from ixs i = Inr (?b # bs)" using True j(1) bs(1) by (subst batches_from.simps) simp
    moreover have "concat (?b # bs) = drop i ixs"
      using drop_buf_subarray [of i "j - 1" ixs] j(2) bs(2) by (simp only: concat.simps b)
    moreover have "length (last (?b # bs)) = 1"
    proof (cases "j - 1 < length ixs")
      case False
      then have "bs = []" "j = i + 2" using bs(2,3) j(2,3) True by (auto simp: batch_fits_def list_all_iff neq_Nil_conv)
      then show ?thesis by simp
    qed (use bs(4) in simp)
    ultimately show ?thesis using fit bs(3) by auto
  qed (simp add: batches_from.simps)
qed

text \<open>
  The batches for the remote executor contain the instructions in their order, each exactly
  once.  No batch is empty, and a batch of several instructions is no larger than
  \<^verbatim>\<open>MAX_EXECUTOR_PAYLOAD_SIZE\<close>.  The last batch always has a single instruction: the inner loop stops at the
  end of the list before it has looked at the last one.
\<close>

theorem batchIntoExecutorPayload_partition:
  "\<exists>bs. batchIntoExecutorPayload ixs = Inr bs \<and> concat bs = ixs \<and> list_all batch_fits bs \<and>
    (ixs \<noteq> [] \<longrightarrow> length (last bs) = 1)"
  using batches_from_partition [of ixs 0] by (auto simp: batchIntoExecutorPayload_def)

section \<open>What the calls mean\<close>

text \<open>
  The specification of proposals: a proposal is created as a draft with the next index, takes
  instructions with consecutive indices from 1 while it is a draft, is activated once and then approved.  The
  proposals are listed with the newest first, and only the newest may be changed, so the calls depend
  on no property of the derived addresses.
\<close>

datatype proposal_status = Draft | Active | Approved

record 'pk proposal =
  pr_address :: 'pk
  pr_instructions :: "'pk ix list"
  pr_status :: proposal_status

record 'pk ledger =
  lg_index :: nat
  lg_proposals :: "'pk proposal list"

definition change_newest ::
  "'pk \<Rightarrow> proposal_status \<Rightarrow> ('pk proposal \<Rightarrow> bool) \<Rightarrow> ('pk proposal \<Rightarrow> 'pk proposal) \<Rightarrow> 'pk ledger \<Rightarrow> 'pk ledger option" where
  "change_newest a st P f s =
     (case lg_proposals s of
        [] \<Rightarrow> None
      | p # ps \<Rightarrow> if pr_address p = a \<and> pr_status p = st \<and> P p then Some (s\<lparr>lg_proposals := f p # ps\<rparr>) else None)"

fun squads_exec :: "'pk squads_env \<Rightarrow> 'pk multisig_vault \<Rightarrow> 'pk squads_call \<Rightarrow> 'pk ledger \<Rightarrow> 'pk ledger option" where
  "squads_exec env mv (CreateTransaction ms k n) s =
     (if n = Suc (lg_index s) then
        Some (s\<lparr>lg_index := n, lg_proposals := \<lparr>pr_address = fst (sq_getTxPDA env (mv_vault mv) n (sq_multisigProgramId env)),
           pr_instructions = [], pr_status = Draft\<rparr> # lg_proposals s\<rparr>)
      else None)"
| "squads_exec env mv (AddInstruction ms a ix i k b t) s =
     change_newest a Draft (\<lambda>p. i = Suc (length (pr_instructions p)))
       (\<lambda>p. p\<lparr>pr_instructions := pr_instructions p @ [ix]\<rparr>) s"
| "squads_exec env mv (ActivateTransaction ms a) s =
     change_newest a Draft (\<lambda>p. True) (\<lambda>p. p\<lparr>pr_status := Active\<rparr>) s"
| "squads_exec env mv (ApproveTransaction ms a) s =
     change_newest a Active (\<lambda>p. True) (\<lambda>p. p\<lparr>pr_status := Approved\<rparr>) s"
| "squads_exec env mv _ s = None"

fun squads_run :: "'pk squads_env \<Rightarrow> 'pk multisig_vault \<Rightarrow> 'pk squads_call list \<Rightarrow> 'pk ledger \<Rightarrow> 'pk ledger option" where
  "squads_run env mv [] s = Some s"
| "squads_run env mv (c # cs) s = Option.bind (squads_exec env mv c s) (squads_run env mv cs)"

lemma squads_run_append:
  "squads_run env mv (cs @ ds) s = Option.bind (squads_run env mv cs s) (squads_run env mv ds)"
proof (induction cs arbitrary: s)
  case (Cons c cs)
  show ?case by (cases "squads_exec env mv c s") (simp_all add: Cons.IH)
qed simp

text \<open>A call that adds the instruction \<open>ix\<close> to a proposal at an index.\<close>

definition adds_at :: "'pk \<Rightarrow> nat \<Rightarrow> 'pk ix \<Rightarrow> 'pk squads_call \<Rightarrow> bool" where
  "adds_at a i ix c \<longleftrightarrow> (\<exists>ms k b t. c = AddInstruction ms a ix i k b t)"

lemma squads_run_adds:
  assumes "list_all2 (\<lambda>(i, ix) c. adds_at a i ix c) (List.enumerate (Suc (length xs)) ixs) cs"
    and "lg_proposals s = \<lparr>pr_address = a, pr_instructions = xs, pr_status = Draft\<rparr> # ps"
  shows "squads_run env mv cs s =
    Some (s\<lparr>lg_proposals := \<lparr>pr_address = a, pr_instructions = xs @ ixs, pr_status = Draft\<rparr> # ps\<rparr>)"
  using assms
proof (induction ixs arbitrary: cs xs s)
  case Nil
  then show ?case by simp
next
  case (Cons ix ixs)
  obtain c cs' where c: "cs = c # cs'" "adds_at a (Suc (length xs)) ix c"
      "list_all2 (\<lambda>(i, ix) c. adds_at a i ix c) (List.enumerate (Suc (length (xs @ [ix]))) ixs) cs'"
    using Cons.prems(1) by (auto simp: list_all2_Cons1)
  let ?s = "s\<lparr>lg_proposals := \<lparr>pr_address = a, pr_instructions = xs @ [ix], pr_status = Draft\<rparr> # ps\<rparr>"
  have "squads_exec env mv c s = Some ?s"
    using c(2) Cons.prems(2) by (auto simp: adds_at_def change_newest_def)
  then show ?case using Cons.IH [OF c(3), of ?s] c(1) by simp
qed

text \<open>A whole proposal: create, add, activate, approve.\<close>

definition approved :: "'pk \<Rightarrow> 'pk ix list \<Rightarrow> 'pk proposal" where
  "approved a ixs = \<lparr>pr_address = a, pr_instructions = ixs, pr_status = Approved\<rparr>"

lemma squads_run_finish:
  assumes "list_all2 (\<lambda>(i, ix) c. adds_at a i ix c) (List.enumerate (Suc (length xs)) ixs) cs"
    and "lg_proposals s = \<lparr>pr_address = a, pr_instructions = xs, pr_status = Draft\<rparr> # ps"
  shows "squads_run env mv (cs @ [activateProposalIx mv a, approveProposalIx mv a]) s =
    Some (s\<lparr>lg_proposals := approved a (xs @ ixs) # ps\<rparr>)"
  using squads_run_adds [OF assms, of env mv]
  by (simp add: squads_run_append change_newest_def activateProposalIx_def approveProposalIx_def approved_def)

lemma squads_run_proposal:
  assumes "list_all2 (\<lambda>(i, ix) c. adds_at a i ix c) (List.enumerate 1 ixs) cs"
    and "n = Suc (lg_index s)" and "a = snd (createProposalIx env mv ms n)"
  shows "squads_run env mv
      (fst (createProposalIx env mv ms n) # cs @ [activateProposalIx mv a, approveProposalIx mv a]) s =
    Some (s\<lparr>lg_index := n, lg_proposals := approved a ixs # lg_proposals s\<rparr>)"
  using assms squads_run_finish [of a "[]" ixs cs
      "s\<lparr>lg_index := n, lg_proposals := \<lparr>pr_address = a, pr_instructions = [], pr_status = Draft\<rparr> # lg_proposals s\<rparr>"
      "lg_proposals s" env mv]
  by (simp add: createProposalIx_def)

section \<open>Proposing\<close>

text \<open>The proposals for the chunks \<open>cs\<close>, from the index \<open>n\<close> on; \<open>g\<close> is the instruction of an element.\<close>

fun proposals_for ::
  "'pk squads_env \<Rightarrow> 'pk multisig_vault \<Rightarrow> ('pk \<Rightarrow> nat \<Rightarrow> 'a \<Rightarrow> 'pk ix) \<Rightarrow> nat \<Rightarrow> 'a list list \<Rightarrow> 'pk proposal list" where
  "proposals_for env mv g n [] = []"
| "proposals_for env mv g n (c # cs) =
     (let a = fst (sq_getTxPDA env (mv_vault mv) n (sq_multisigProgramId env)) in
      approved a (map (\<lambda>(i, x). g a i x) (List.enumerate 1 c)) # proposals_for env mv g (Suc n) cs)"

definition chunk_ok :: "'a list \<Rightarrow> bool" where
  "chunk_ok c \<longleftrightarrow> c \<noteq> [] \<and> length c \<le> MAX_INSTRUCTIONS_PER_PROPOSAL"

lemma adds_enumerate:
  assumes "\<And>i x. x \<in> set c \<Longrightarrow> \<exists>call. add a i x = Inr call \<and> adds_at a i (g i x) call"
  shows "\<exists>cs. map_res (\<lambda>(i, x). add a (i + 1) x) (List.enumerate k c) = Inr cs \<and>
    list_all2 (\<lambda>(i, ix) call. adds_at a i ix call)
      (List.enumerate (Suc k) (map (\<lambda>(i, x). g i x) (List.enumerate (Suc k) c))) cs"
  using assms
proof (induction c arbitrary: k)
  case (Cons x c)
  obtain cs where "map_res (\<lambda>(i, x). add a (i + 1) x) (List.enumerate (Suc k) c) = Inr cs"
      "list_all2 (\<lambda>(i, ix) call. adds_at a i ix call)
        (List.enumerate (Suc (Suc k)) (map (\<lambda>(i, x). g i x) (List.enumerate (Suc (Suc k)) c))) cs"
    using Cons.IH [of "Suc k"] Cons.prems by auto
  moreover obtain call where "add a (Suc k) x = Inr call" "adds_at a (Suc k) (g (Suc k) x) call"
    using Cons.prems [of x "Suc k"] by auto
  ultimately show ?case by simp
qed simp

lemma propose_from_run:
  assumes "\<And>a i x. x \<in> set items \<Longrightarrow> \<exists>call. add a i x = Inr call \<and> adds_at a i (g a i x) call"
    and "MAX_INSTRUCTIONS_PER_PROPOSAL dvd j"
    and "lg_index s = ms_transactionIndex ms + j div MAX_INSTRUCTIONS_PER_PROPOSAL"
  shows "\<exists>calls cs. concat cs = drop j items \<and> list_all chunk_ok cs \<and>
    propose_from env mv ms add items j =
      Inr (calls, map pr_address (proposals_for env mv g (Suc (lg_index s)) cs)) \<and>
    squads_run env mv calls s = Some (s\<lparr>lg_index := lg_index s + length cs,
      lg_proposals := rev (proposals_for env mv g (Suc (lg_index s)) cs) @ lg_proposals s\<rparr>)"
  using assms
proof (induction env mv ms add items j arbitrary: s rule: propose_from.induct)
  case (1 env mv ms add items j)
  let ?M = MAX_INSTRUCTIONS_PER_PROPOSAL
  show ?case
  proof (cases "j < length items")
    case False
    then show ?thesis by (intro exI [of _ "[]"] exI [of _ "[]"]) (simp add: propose_from.simps)
  next
    case True
    have M: "0 < ?M" by (simp add: MAX_INSTRUCTIONS_PER_PROPOSAL_def)
    define n where "n = ms_transactionIndex ms + 1 + j div ?M"
    define a where "a = snd (createProposalIx env mv ms n)"
    define c where "c = buf_subarray items j (j + ?M)"
    have n: "n = Suc (lg_index s)" and nS: "Suc (ms_transactionIndex ms + j div ?M) = n"
      using "1.prems"(3) by (simp_all add: n_def)
    have c: "chunk_ok c" "set c \<subseteq> set items"
      using True M by (auto simp: chunk_ok_def c_def length_buf_subarray buf_subarray_def dest: in_set_takeD in_set_dropD)
    obtain adds where adds: "map_res (\<lambda>(i, x). add a (i + 1) x) (List.enumerate 0 c) = Inr adds"
        "list_all2 (\<lambda>(i, ix) call. adds_at a i ix call)
          (List.enumerate 1 (map (\<lambda>(i, x). g a i x) (List.enumerate 1 c))) adds"
      using adds_enumerate [of c add a "g a" 0] "1.prems"(1) c(2) by fastforce
    define s' where "s' = s\<lparr>lg_index := n, lg_proposals :=
      approved a (map (\<lambda>(i, x). g a i x) (List.enumerate 1 c)) # lg_proposals s\<rparr>"
    define first where "first = fst (createProposalIx env mv ms n) # adds @
      [activateProposalIx mv a, approveProposalIx mv a]"
    have run: "squads_run env mv first s = Some s'"
      unfolding first_def s'_def by (rule squads_run_proposal [OF adds(2) n a_def])
    have s': "lg_index s' = ms_transactionIndex ms + (j + ?M) div ?M" "?M dvd j + ?M"
      using M "1.prems"(2) by (simp_all add: s'_def n_def)
    have pf: "proposals_for env mv g n (c # cs) =
        approved a (map (\<lambda>(i, x). g a i x) (List.enumerate 1 c)) # proposals_for env mv g (Suc n) cs" for cs
      by (simp add: a_def createProposalIx_def Let_def)
    obtain calls cs where ih: "concat cs = drop (j + ?M) items" "list_all chunk_ok cs"
        "propose_from env mv ms add items (j + ?M) =
          Inr (calls, map pr_address (proposals_for env mv g (Suc (lg_index s')) cs))"
        "squads_run env mv calls s' = Some (s'\<lparr>lg_index := lg_index s' + length cs,
          lg_proposals := rev (proposals_for env mv g (Suc (lg_index s')) cs) @ lg_proposals s'\<rparr>)"
      using "1.IH" [OF True n_def refl _ adds(1) [unfolded a_def c_def] "1.prems"(1) s'(2,1)]
      by (auto simp: prod_eq_iff)
    have "propose_from env mv ms add items j =
        Inr (first @ calls, a # map pr_address (proposals_for env mv g (Suc n) cs))"
      using True adds(1) ih(3)
      by (subst propose_from.simps)
        (simp add: Let_def split_beta nS a_def [symmetric] c_def [symmetric] first_def s'_def)
    moreover have "concat (c # cs) = drop j items"
      using ih(1) drop_buf_subarray [of j "j + ?M" items] by (simp add: c_def)
    moreover have "squads_run env mv (first @ calls) s = Some (s\<lparr>lg_index := lg_index s + length (c # cs),
        lg_proposals := rev (proposals_for env mv g n (c # cs)) @ lg_proposals s\<rparr>)"
      unfolding pf using run ih(4) n by (simp add: squads_run_append s'_def)
    moreover have "a # map pr_address (proposals_for env mv g (Suc n) cs) =
        map pr_address (proposals_for env mv g n (c # cs))"
      unfolding pf by (simp add: approved_def)
    ultimately show ?thesis using c(1) ih(2) unfolding n
      by (intro exI [of _ "first @ calls"] exI [of _ "c # cs"]) auto
  qed
qed

lemma chunk_ok_length: "chunk_ok c \<longleftrightarrow> 1 \<le> length c \<and> length c \<le> MAX_INSTRUCTIONS_PER_PROPOSAL"
  by (cases c) (auto simp: chunk_ok_def)

lemma chunk_ok_lengths:
  assumes "map (\<lambda>p. length (pr_instructions p)) ps = map length cs" and "list_all chunk_ok cs"
  shows "list_all (\<lambda>p. chunk_ok (pr_instructions p)) ps"
proof -
  have "list_all (\<lambda>n. 1 \<le> n \<and> n \<le> MAX_INSTRUCTIONS_PER_PROPOSAL) (map length cs)"
    using assms(2) by (simp add: list_all_iff chunk_ok_length)
  then show ?thesis unfolding assms(1) [symmetric] by (simp add: list_all_iff chunk_ok_length)
qed

lemma enumerate_elements: "map (\<lambda>(i, x). x) (List.enumerate n xs) = xs"
  by (induction xs arbitrary: n) simp_all

text \<open>
  Proposing for the cluster of the multisig: the calls create proposals with the next indices, whose
  instructions together are the given ones in order, at most 255 each; every proposal is activated and
  approved, and the addresses returned are theirs.
\<close>

theorem proposeInstructions_local:
  assumes "targetCluster = mv_cluster mv" and "lg_index s = ms_transactionIndex ms"
  shows "\<exists>calls ps. proposal_calls env mv ms ixs targetCluster = Inr (calls, map pr_address ps) \<and>
    squads_run env mv calls s = Some (s\<lparr>lg_index := lg_index s + length ps, lg_proposals := rev ps @ lg_proposals s\<rparr>) \<and>
    concat (map pr_instructions ps) = ixs \<and>
    list_all (\<lambda>p. pr_status p = Approved \<and> chunk_ok (pr_instructions p)) ps"
proof -
  let ?g = "\<lambda>(a :: 'a) (i :: nat) ix. ix"
  have add: "\<exists>call. local_add mv a i x = Inr call \<and> adds_at a i (?g a i x) call" for a i x
    by (auto simp: local_add_def adds_at_def)
  have ps: "map pr_instructions (proposals_for env mv ?g n cs) = cs"
      "list_all (\<lambda>p. pr_status p = Approved) (proposals_for env mv ?g n cs)" "length (proposals_for env mv ?g n cs) = length cs"
    for n and cs :: "'a ix list list"
    by (induction cs arbitrary: n) (simp_all add: Let_def approved_def enumerate_elements)
  obtain calls cs where run: "concat cs = drop 0 ixs" "list_all chunk_ok cs"
      "propose_from env mv ms (local_add mv) ixs 0 =
        Inr (calls, map pr_address (proposals_for env mv ?g (Suc (lg_index s)) cs))"
      "squads_run env mv calls s = Some (s\<lparr>lg_index := lg_index s + length cs,
        lg_proposals := rev (proposals_for env mv ?g (Suc (lg_index s)) cs) @ lg_proposals s\<rparr>)"
    using propose_from_run [of ixs "local_add mv" ?g 0 s ms env mv] add assms(2) by auto
  let ?ps = "proposals_for env mv ?g (Suc (lg_index s)) cs"
  have "list_all (\<lambda>p. chunk_ok (pr_instructions p)) ?ps"
    using arg_cong [OF ps(1) [of "Suc (lg_index s)" cs], of "map length"]
    by (intro chunk_ok_lengths [OF _ run(2)]) (simp add: comp_def)
  then show ?thesis using run assms(1) ps [of "Suc (lg_index s)" cs]
    by (intro exI [of _ calls] exI [of _ ?ps]) (simp add: proposal_calls_def list_all_iff)
qed

text \<open>
  The remote executor: the instructions that the message posted by a proposed instruction asks for.
  \<open>posted\<close> reads the payload of a Wormhole post instruction.
\<close>

definition remote_instructions ::
  "'pk gov_env \<Rightarrow> ('pk ix \<Rightarrow> bytes option) \<Rightarrow> 'pk ix \<Rightarrow> 'pk ix list option" where
  "remote_instructions gov posted ix =
     (case posted ix of
        None \<Rightarrow> None
      | Some payload \<Rightarrow>
          (case decodeGovernancePayload gov payload of
             Inr (Some (ExecutePostedVaa chain b)) \<Rightarrow> if chain = ''pythnet'' then Some b else None
           | _ \<Rightarrow> None))"

text \<open>What the Wormhole client promises: a payload is posted as it is.\<close>

definition post_client_ok :: "'pk squads_env \<Rightarrow> 'pk \<Rightarrow> ('pk ix \<Rightarrow> bytes option) \<Rightarrow> bool" where
  "post_client_ok env wormhole posted \<longleftrightarrow>
     (\<forall>payload accounts. \<exists>ix. sq_postMessage env wormhole 0 payload 0 accounts = Inr ix \<and> posted ix = Some payload)"

lemma length_instructions_bytes:
  assumes "gov_env_ok env"
  shows "length (instructions_bytes env ixs) = 4 + executor_size ixs"
proof -
  have acc: "length (concat (map (account_bytes env) ks)) = 34 * length ks" for ks
    using assms by (induction ks) (simp_all add: account_bytes_def)
  have "length (instruction_bytes env ix) = executor_instruction_size ix" for ix
    using assms by (simp add: instruction_bytes_def acc executor_instruction_size_def)
  then have "length (concat (map (instruction_bytes env) ixs)) = executor_size ixs"
    by (simp add: length_concat executor_size_def comp_def)
  then show ?thesis by (simp add: instructions_bytes_def)
qed

lemma remote_add_posts:
  assumes gov: "gov_env_ok (sq_gov env)" and post: "post_client_ok env wormhole posted"
    and pythnet: "valid_header (sq_gov env) \<lparr>hdr_targetChainId = ''pythnet'', hdr_action = ''ExecutePostedVaa''\<rparr>"
    and ops: "getOpsKey (sq_keys env) (mv_vault mv) = Inr opsKey" and size: "executor_size b \<le> 1228"
  shows "\<exists>call ix. remote_add env mv wormhole a i b = Inr call \<and> adds_at a i ix call \<and>
    remote_instructions (sq_gov env) posted ix = Some b"
proof -
  have "valid_action (sq_gov env) (ExecutePostedVaa ''pythnet'' b)"
    using pythnet size by (simp add: valid_action_def length_instructions_bytes [OF gov])
  from roundtrip_execute_posted [OF gov this] obtain bs
    where bs: "governance_encode (sq_gov env) (ExecutePostedVaa ''pythnet'' b) = Inr bs"
      "decodeGovernancePayload (sq_gov env) bs = Inr (Some (ExecutePostedVaa ''pythnet'' b))"
    unfolding roundtrips_def by blast
  define pda where "pda = sq_getIxAuthorityPDA env a i (sq_multisigProgramId env)"
  obtain ix where ix: "sq_postMessage env wormhole 0 bs 0
      (getPostMessageAccounts env wormhole (sq_getAuthorityPDA env (mv_vault mv) 1) opsKey (fst pda)) = Inr ix"
      "posted ix = Some bs"
    using post unfolding post_client_ok_def by blast
  have "wrapAsRemoteInstruction env (mv_vault mv) a b i wormhole =
      Inr \<lparr>si_instruction = ix, si_authorityIndex = Some i, si_authorityBump = Some (snd pda),
        si_authorityType = Some ''custom''\<rparr>"
    unfolding wrapAsRemoteInstruction_def bs(1) ops getPostMessageInstruction_def
    using ix(1) by (simp add: Let_def split_beta pda_def [symmetric])
  then show ?thesis
    using ix(2) bs(2)
    by (auto simp: remote_add_def add_squad_instruction_def adds_at_def remote_instructions_def)
qed

lemma proposals_for_view:
  assumes "\<And>a i x. x \<in> set (concat cs) \<Longrightarrow> view (g a i x) = Some x"
  shows "map view (concat (map pr_instructions (proposals_for env mv g n cs))) = map Some (concat cs)"
    and "map (\<lambda>p. length (pr_instructions p)) (proposals_for env mv g n cs) = map length cs"
    and "list_all (\<lambda>p. pr_status p = Approved) (proposals_for env mv g n cs)"
    and "length (proposals_for env mv g n cs) = length cs"
proof -
  have el: "map (\<lambda>p. view (g a (fst p) (snd p))) (List.enumerate k c) = map Some c" if "set c \<subseteq> (\<Union>x\<in>set cs. set x)" for a k c
    using that assms by (induction c arbitrary: k) auto
  have "set (concat ds) \<subseteq> set (concat cs) \<Longrightarrow>
      map view (concat (map pr_instructions (proposals_for env mv g n ds))) = map Some (concat ds)" for ds
    by (induction ds arbitrary: n) (simp_all add: Let_def approved_def comp_def case_prod_unfold el)
  then show "map view (concat (map pr_instructions (proposals_for env mv g n cs))) = map Some (concat cs)" by blast
  show "map (\<lambda>p. length (pr_instructions p)) (proposals_for env mv g n cs) = map length cs"
    "list_all (\<lambda>p. pr_status p = Approved) (proposals_for env mv g n cs)"
    "length (proposals_for env mv g n cs) = length cs"
    by (induction cs arbitrary: n) (simp_all add: Let_def approved_def)
qed

lemma batch_fits_small:
  assumes "batch_fits b" and "\<forall>ix \<in> set b. executor_instruction_size ix \<le> 1228"
  shows "executor_size b \<le> 1228"
proof (cases "length b = 1")
  case True
  then obtain ix where "b = [ix]" by (auto simp: length_Suc_conv)
  then show ?thesis using assms(2) by (simp add: executor_size_def)
next
  case False
  then show ?thesis using assms(1)
    by (simp add: batch_fits_def MAX_EXECUTOR_PAYLOAD_SIZE_def PACKET_DATA_SIZE_WITH_ROOM_FOR_COMPUTE_BUDGET_def
        PACKET_DATA_SIZE_def)
qed

lemma remote_proposals:
  assumes gov: "gov_env_ok (sq_gov env)" and post: "post_client_ok env wormhole posted"
    and pythnet: "valid_header (sq_gov env) \<lparr>hdr_targetChainId = ''pythnet'', hdr_action = ''ExecutePostedVaa''\<rparr>"
    and ops: "getOpsKey (sq_keys env) (mv_vault mv) = Inr opsKey"
    and wormhole: "wormholeAddress (sq_keys env) (mv_cluster mv) = Some wormhole"
    and remote: "targetCluster \<noteq> mv_cluster mv" and index: "lg_index s = ms_transactionIndex ms"
    and sizes: "\<forall>ix \<in> set ixs. executor_instruction_size ix \<le> 1228"
  shows "\<exists>calls ps batches. proposal_calls env mv ms ixs targetCluster = Inr (calls, map pr_address ps) \<and>
    squads_run env mv calls s = Some (s\<lparr>lg_index := lg_index s + length ps, lg_proposals := rev ps @ lg_proposals s\<rparr>) \<and>
    map (remote_instructions (sq_gov env) posted) (concat (map pr_instructions ps)) = map Some batches \<and>
    concat batches = ixs \<and>
    list_all (\<lambda>p. pr_status p = Approved \<and> chunk_ok (pr_instructions p)) ps"
proof -
  obtain bs where bs: "batchIntoExecutorPayload ixs = Inr bs" "concat bs = ixs" "list_all batch_fits bs"
    using batches_from_partition [of ixs 0] by (auto simp: batchIntoExecutorPayload_def)
  have small: "executor_size b \<le> 1228" if "b \<in> set bs" for b
  proof (rule batch_fits_small)
    show "batch_fits b" using that bs(3) by (simp add: list_all_iff)
    show "\<forall>ix \<in> set b. executor_instruction_size ix \<le> 1228" using that bs(2) sizes by auto
  qed
  define good where "good a i b ix \<longleftrightarrow> (\<exists>call. remote_add env mv wormhole a i b = Inr call \<and> adds_at a i ix call) \<and>
    remote_instructions (sq_gov env) posted ix = Some b" for a i b ix
  define g where "g a i b = (SOME ix. good a i b ix)" for a i b
  have "good a i b (g a i b)" if "b \<in> set bs" for a i b
  proof -
    note posts = remote_add_posts [OF gov post pythnet ops small [OF that], of a i]
    obtain call ix where "remote_add env mv wormhole a i b = Inr call" "adds_at a i ix call"
        "remote_instructions (sq_gov env) posted ix = Some b"
      using posts by blast
    then have "good a i b ix" unfolding good_def by blast
    then show ?thesis unfolding g_def by (rule someI)
  qed
  then have g: "\<And>a i b. b \<in> set bs \<Longrightarrow> \<exists>call. remote_add env mv wormhole a i b = Inr call \<and> adds_at a i (g a i b) call"
      "\<And>a i b. b \<in> set bs \<Longrightarrow> remote_instructions (sq_gov env) posted (g a i b) = Some b"
    by (simp_all add: good_def)
  obtain calls cs where run: "concat cs = drop 0 bs" "list_all chunk_ok cs"
      "propose_from env mv ms (remote_add env mv wormhole) bs 0 =
        Inr (calls, map pr_address (proposals_for env mv g (Suc (lg_index s)) cs))"
      "squads_run env mv calls s = Some (s\<lparr>lg_index := lg_index s + length cs,
        lg_proposals := rev (proposals_for env mv g (Suc (lg_index s)) cs) @ lg_proposals s\<rparr>)"
    using propose_from_run [of bs "remote_add env mv wormhole" g 0 s ms env mv] g(1) index by auto
  let ?ps = "proposals_for env mv g (Suc (lg_index s)) cs"
  note view = proposals_for_view [of cs "remote_instructions (sq_gov env) posted" g env mv "Suc (lg_index s)"]
  have "list_all (\<lambda>p. chunk_ok (pr_instructions p)) ?ps"
    by (rule chunk_ok_lengths [OF _ run(2)]) (use view(2) g(2) run(1) in simp)
  then show ?thesis
    using run remote wormhole bs(1,2) view g(2)
    by (intro exI [of _ calls] exI [of _ ?ps] exI [of _ bs]) (simp add: proposal_calls_def list_all_iff)
qed

text \<open>
  Proposing for a remote cluster, when the multisig is one of the known ones, Wormhole is deployed on its
  cluster and each instruction fits in a message: the calls create proposals with the next indices, activated
  and approved, with at most 255 Wormhole messages each; decoded by the governance decoder the messages ask
  the executor on pythnet for batches that together are the given instructions, in order and each once.
\<close>

theorem proposeInstructions_remote:
  assumes gov: "gov_env_ok (sq_gov env)" and post: "post_client_ok env wormhole posted"
    and pythnet: "valid_header (sq_gov env) \<lparr>hdr_targetChainId = ''pythnet'', hdr_action = ''ExecutePostedVaa''\<rparr>"
    and ops: "getOpsKey (sq_keys env) (mv_vault mv) = Inr opsKey"
    and wormhole: "wormholeAddress (sq_keys env) (mv_cluster mv) = Some wormhole"
    and remote: "targetCluster \<noteq> mv_cluster mv" and index: "lg_index s = ms_transactionIndex ms"
    and sizes: "\<forall>ix \<in> set ixs. executor_instruction_size ix \<le> 1228"
  shows "\<exists>calls ps batches. proposal_calls env mv ms ixs targetCluster = Inr (calls, map pr_address ps) \<and>
    squads_run env mv calls s = Some (s\<lparr>lg_index := lg_index s + length ps, lg_proposals := rev ps @ lg_proposals s\<rparr>) \<and>
    map (remote_instructions (sq_gov env) posted) (concat (map pr_instructions ps)) = map Some batches \<and>
    concat batches = ixs \<and>
    list_all (\<lambda>p. pr_status p = Approved \<and> chunk_ok (pr_instructions p)) ps"
  by (rule remote_proposals [OF assms])

section \<open>Wormhole messages\<close>

text \<open>The payloads posted by the instructions of a proposal.\<close>

lemma message_calls_add:
  assumes post: "post_client_ok env wormhole posted" and wormhole: "wormholeAddress (sq_keys env) (mv_cluster mv) = Some wormhole"
  obtains g where "\<And>a i. \<exists>call. message_call env mv payer a payloads i = Inr call \<and> adds_at a (Suc i) (g a i) call"
    "\<And>a i. posted (g a i) = Some (payloads ! i)"
proof -
  define acc where "acc a i = getPostMessageAccounts env wormhole (sq_getAuthorityPDA env (mv_vault mv) 1) payer
    (fst (sq_getIxAuthorityPDA env a (Suc i) (sq_multisigProgramId env)))" for a i
  define g where "g a i = (SOME ix. sq_postMessage env wormhole 0 (payloads ! i) 0 (acc a i) = Inr ix \<and>
    posted ix = Some (payloads ! i))" for a i
  have g: "sq_postMessage env wormhole 0 (payloads ! i) 0 (acc a i) = Inr (g a i) \<and> posted (g a i) = Some (payloads ! i)" for a i
    unfolding g_def by (rule someI_ex) (use post in \<open>simp add: post_client_ok_def\<close>)
  have "\<exists>call. message_call env mv payer a payloads i = Inr call \<and> adds_at a (Suc i) (g a i) call" for a i
    using g [of i a] wormhole
    by (simp add: message_call_def getPostMessageInstruction_def split_beta acc_def add_squad_instruction_def adds_at_def)
  then show thesis using g by (intro that) auto
qed

lemma Suc_diff_eq: "Suc k = n - m \<Longrightarrow> k = n - Suc m"
  by simp

lemma message_calls_range:
  assumes "\<And>i. \<exists>call. f i = Inr call \<and> adds_at a (Suc i) (h i) call"
  shows "\<exists>cs. map_res f [m..<n] = Inr cs \<and> length cs = n - m \<and>
    list_all2 (\<lambda>(i, ix) c. adds_at a i ix c) (List.enumerate (Suc m) (map h [m..<n])) cs"
proof (induction "n - m" arbitrary: m)
  case (Suc k)
  then have mn: "[m..<n] = m # [Suc m..<n]" by (simp add: upt_rec)
  obtain cs where "map_res f [Suc m..<n] = Inr cs" "length cs = n - Suc m"
      "list_all2 (\<lambda>(i, ix) c. adds_at a i ix c) (List.enumerate (Suc (Suc m)) (map h [Suc m..<n])) cs"
    using Suc.hyps(1) [OF Suc_diff_eq [OF Suc.hyps(2)]] by blast
  moreover obtain call where "f m = Inr call" "adds_at a (Suc m) (h m) call" using assms by blast
  ultimately show ?case using Suc.hyps(2) unfolding mn by simp
qed simp

lemma take_enumerate: "take m (List.enumerate n xs) = List.enumerate n (take m xs)"
proof (induction xs arbitrary: m n)
  case (Cons x xs)
  then show ?case by (cases m) simp_all
qed simp

lemma map_res_drop: "map_res f xs = Inr ys \<Longrightarrow> map_res f (drop m xs) = Inr (drop m ys)"
  by (simp add: map_res_Inr_iff list_all2_dropI)

text \<open>
  C11. An interrupted proposal can be resumed.  A proposal of at most 255 Wormhole messages is created, gets one
  instruction per payload that posts it, in order, and is activated and approved.  When only the first calls
  reached the chain, at least the creation and at most all the additions, running it again with the address of the
  proposal and the number of instructions it has makes exactly the remaining calls, whatever the multisig
  account says by then, and the proposal ends up the same.
\<close>

theorem proposeWormholeMessages_resume:
  assumes post: "post_client_ok env wormhole posted" and wormhole: "wormholeAddress (sq_keys env) (mv_cluster mv) = Some wormhole"
    and index: "lg_index s = ms_transactionIndex ms" and size: "length payloads \<le> MAX_INSTRUCTIONS_PER_PROPOSAL"
    and m: "m \<le> length payloads"
  shows "\<exists>calls a ixs s1.
    message_calls env mv ms payloads payer None = Inr (calls, a) \<and>
    squads_run env mv calls s =
      Some (s\<lparr>lg_index := Suc (lg_index s), lg_proposals := approved a ixs # lg_proposals s\<rparr>) \<and>
    map posted ixs = map Some payloads \<and>
    squads_run env mv (take (Suc m) calls) s = Some s1 \<and>
    length (pr_instructions (hd (lg_proposals s1))) = m \<and>
    message_calls env mv ms' payloads payer (Some (a, m)) = Inr (drop (Suc m) calls, a) \<and>
    squads_run env mv (drop (Suc m) calls) s1 = squads_run env mv calls s"
proof -
  obtain g where g: "\<And>a i. \<exists>call. message_call env mv payer a payloads i = Inr call \<and> adds_at a (Suc i) (g a i) call"
      "\<And>a i. posted (g a i) = Some (payloads ! i)"
    using message_calls_add [OF post wormhole] by blast
  define n where "n = Suc (ms_transactionIndex ms)"
  define a where "a = snd (createProposalIx env mv ms n)"
  define ixs where "ixs = map (g a) [0..<length payloads]"
  define finish where "finish = [activateProposalIx mv a, approveProposalIx mv a]"
  obtain cs where cs: "map_res (message_call env mv payer a payloads) [0..<length payloads] = Inr cs"
      "length cs = length payloads"
      "list_all2 (\<lambda>(i, ix) c. adds_at a i ix c) (List.enumerate 1 ixs) cs"
    using message_calls_range [OF g(1), of a 0 "length payloads"] by (auto simp: ixs_def)
  let ?calls = "fst (createProposalIx env mv ms n) # cs @ finish"
  define s1 where "s1 = s\<lparr>lg_index := n, lg_proposals :=
    \<lparr>pr_address = a, pr_instructions = take m ixs, pr_status = Draft\<rparr> # lg_proposals s\<rparr>"
  have mc: "message_calls env mv ms payloads payer None = Inr (?calls, a)"
    using cs(1) size
    by (simp add: message_calls_def split_beta n_def [symmetric] a_def [symmetric] Let_def finish_def)
  have "squads_run env mv ?calls s = Some (s\<lparr>lg_index := n, lg_proposals := approved a ixs # lg_proposals s\<rparr>)"
    unfolding finish_def by (rule squads_run_proposal [OF cs(3) _ a_def]) (simp add: index n_def)
  then have all: "squads_run env mv ?calls s =
      Some (s\<lparr>lg_index := Suc (lg_index s), lg_proposals := approved a ixs # lg_proposals s\<rparr>)"
    by (simp add: index n_def)
  have "list_all2 (\<lambda>(i, ix) c. adds_at a i ix c) (List.enumerate 1 (take m ixs)) (take m cs)"
    using list_all2_takeI [OF cs(3), of m] by (simp add: take_enumerate)
  from squads_run_adds [of a "[]" "take m ixs" "take m cs"
      "s\<lparr>lg_index := n, lg_proposals := \<lparr>pr_address = a, pr_instructions = [], pr_status = Draft\<rparr> # lg_proposals s\<rparr>"
      "lg_proposals s" env mv] this
  have part: "squads_run env mv (take (Suc m) ?calls) s = Some s1"
    using m cs(2) by (simp add: createProposalIx_def index n_def a_def s1_def)
  have "[m..<length payloads] = drop m [0..<length payloads]" by simp
  then have "map_res (message_call env mv payer a payloads) [m..<length payloads] = Inr (drop m cs)"
    using map_res_drop [OF cs(1), of m] by simp
  then have res: "message_calls env mv ms' payloads payer (Some (a, m)) = Inr (drop (Suc m) ?calls, a)"
    using size m cs(2) by (simp add: message_calls_def finish_def)
  have "squads_run env mv (drop (Suc m) ?calls) s1 = squads_run env mv ?calls s"
    using part squads_run_append [of env mv "take (Suc m) ?calls" "drop (Suc m) ?calls" s]
    by (simp only: append_take_drop_id option.simps Option.bind.simps)
  moreover have "map posted ixs = map Some payloads"
    using g(2) by (auto intro!: nth_equalityI simp: ixs_def)
  moreover have "length (pr_instructions (hd (lg_proposals s1))) = m" using m by (simp add: s1_def ixs_def)
  ultimately show ?thesis using mc all part res
    by (intro exI [of _ ?calls] exI [of _ a] exI [of _ ixs] exI [of _ s1]) blast
qed

section \<open>Sending\<close>

lemma send_retries_TIMEOUT: "k \<le> TIMEOUT \<Longrightarrow> send_retries lands k = TIMEOUT \<longleftrightarrow> (\<forall>r. k \<le> r \<and> r < TIMEOUT \<longrightarrow> \<not> lands r)"
proof (induction lands k rule: send_retries.induct)
  case (1 lands k)
  show ?case
  proof (cases "k < TIMEOUT \<and> \<not> lands k")
    case True
    then have "send_retries lands k = send_retries lands (k + 1)" by (subst send_retries.simps) simp
    moreover have "k \<le> r \<and> r < TIMEOUT \<and> lands r \<longleftrightarrow> k + 1 \<le> r \<and> r < TIMEOUT \<and> lands r" for r
      using True by (cases "r = k") auto
    ultimately show ?thesis using 1 True by auto
  next
    case False
    then show ?thesis using "1.prems" by (subst send_retries.simps) auto
  qed
qed

lemma sendAllTransactions_prefix:
  "\<exists>k \<le> length txs. sendAllTransactions lands i txs =
      (take k txs, if k = length txs then Inr () else Inl (Error ''Too many retries'')) \<and>
    (\<forall>n < k. \<exists>r < TIMEOUT. lands (i + n) r) \<and> (k < length txs \<longrightarrow> (\<forall>r < TIMEOUT. \<not> lands (i + k) r))"
proof (induction txs arbitrary: i)
  case (Cons tx txs)
  note t = send_retries_TIMEOUT [of 0 "lands i"]
  show ?case
  proof (cases "send_retries (lands i) 0 = TIMEOUT")
    case True
    then show ?thesis using t by (intro exI [of _ 0]) auto
  next
    case False
    obtain k where k: "k \<le> length txs" "sendAllTransactions lands (i + 1) txs =
        (take k txs, if k = length txs then Inr () else Inl (Error ''Too many retries''))"
        "\<forall>n < k. \<exists>r < TIMEOUT. lands (i + 1 + n) r" "k < length txs \<longrightarrow> (\<forall>r < TIMEOUT. \<not> lands (i + 1 + k) r)"
      using Cons.IH [of "i + 1"] by auto
    have "\<exists>r < TIMEOUT. lands (i + n) r" if "n < Suc k" for n
      using that False t k(3) by (cases n) auto
    then show ?thesis using k False by (intro exI [of _ "Suc k"]) auto
  qed
qed simp

lemma enumerate_pairs: "map snd (map (\<lambda>(k, c). (d k, f c)) (List.enumerate n cs)) = map f cs"
  by (induction cs arbitrary: n) simp_all

lemma concat_take_prefix: "\<exists>j. concat (take k xss) = take j (concat xss)"
  by (metis append_eq_conv_conj append_take_drop_id concat_append)

text \<open>
  C22. Sending a proposal: when each call fits in a transaction by itself, the transactions carry the calls
  in their order in consecutive non-empty runs and none is larger than a packet by \<^verbatim>\<open>getSizeOfTransaction\<close>.  They are sent in order: the first \<open>k\<close> of them each
  landed in one of ten attempts, and either these are all of them and the function returns, or all ten attempts of the next one
  failed and the function throws without sending the rest.  What has reached the chain is an initial part of the calls.  When some call
  does not fit, nothing is sent.
\<close>

theorem send_calls_in_order:
  "if \<forall>c \<in> set calls. getSizeOfTransaction [sq_build env c] False None \<le> PACKET_DATA_SIZE
   then \<exists>txs runs k j. send_calls env sn cfg calls result =
       (take k txs, if k = length txs then Inr result else Inl (Error ''Too many retries'')) \<and>
     list_all2 (\<lambda>run tx. run \<noteq> [] \<and> (\<exists>added. tx = run @ added) \<and>
       getSizeOfTransaction tx False None \<le> PACKET_DATA_SIZE) runs txs \<and>
     concat runs = map (sq_build env) calls \<and> concat (take k runs) = map (sq_build env) (take j calls) \<and>
     k \<le> length txs \<and> (\<forall>n < k. \<exists>r < 10. sn_lands sn n r) \<and>
     (k < length txs \<longrightarrow> (\<forall>r < 10. \<not> sn_lands sn k r))
   else \<exists>e. send_calls env sn cfg calls result = ([], Inl e)"
proof -
  let ?xs = "map (\<lambda>(k, c). (sn_draw sn k, sq_build env c)) (List.enumerate 0 calls)"
  have xs: "map snd ?xs = map (sq_build env) calls"
    by (rule enumerate_pairs)
  have "(\<forall>x \<in> set ?xs. getSizeOfTransaction [snd x] False None \<le> PACKET_DATA_SIZE) \<longleftrightarrow>
      (\<forall>ix \<in> set (map snd ?xs). getSizeOfTransaction [ix] False None \<le> PACKET_DATA_SIZE)" by auto
  then have fits: "(\<forall>x \<in> set ?xs. getSizeOfTransaction [snd x] False None \<le> PACKET_DATA_SIZE) \<longleftrightarrow>
      (\<forall>c \<in> set calls. getSizeOfTransaction [sq_build env c] False None \<le> PACKET_DATA_SIZE)"
    unfolding xs by simp
  note exact = batchIntoLegacyTransactions_exact [of ?xs "sn_tx sn" "sn_random sn" "sn_unique sn" cfg,
      unfolded fits xs, folded transactions_of_def]
  show ?thesis
  proof (cases "\<forall>c \<in> set calls. getSizeOfTransaction [sq_build env c] False None \<le> PACKET_DATA_SIZE")
    case True
    obtain txs runs where txs: "transactions_of env sn cfg calls = Inr txs" "concat runs = map (sq_build env) calls"
        "list_all2 (\<lambda>run tx. run \<noteq> [] \<and> (\<exists>added. tx = run @ added) \<and>
          getSizeOfTransaction tx False None \<le> PACKET_DATA_SIZE) runs txs"
      using exact unfolding if_P [OF True] by blast
    obtain k where k: "k \<le> length txs" "sendAllTransactions (sn_lands sn) 0 txs =
        (take k txs, if k = length txs then Inr () else Inl (Error ''Too many retries''))"
        "\<forall>n < k. \<exists>r < 10. sn_lands sn n r" "k < length txs \<longrightarrow> (\<forall>r < 10. \<not> sn_lands sn k r)"
      using sendAllTransactions_prefix [of txs "sn_lands sn" 0, unfolded TIMEOUT_def] by auto
    obtain j where j: "concat (take k runs) = map (sq_build env) (take j calls)"
      using concat_take_prefix [of k runs] txs(2) by (metis take_map)
    have "send_calls env sn cfg calls result =
        (take k txs, if k = length txs then Inr result else Inl (Error ''Too many retries''))"
      using txs(1) k(2) by (simp add: send_calls_def)
    then show ?thesis unfolding if_P [OF True] using txs(2,3) k(1,3,4) j by blast
  next
    case False
    then show ?thesis using exact unfolding if_not_P [OF False] by (auto simp: send_calls_def)
  qed
qed

section \<open>Reading proposals back\<close>

lemma add_by_owner_block:
  assumes "w < length byTx" and "length accounts = n"
  shows "add_by_owner (accounts @ rest) (replicate n w @ owners) byTx =
    add_by_owner rest owners (byTx[w := byTx ! w @ map the (filter (\<lambda>x. x \<noteq> None) accounts)])"
  using assms
proof (induction accounts arbitrary: byTx n)
  case (Cons x xs)
  then show ?case by (cases x; cases n) simp_all
qed simp

lemma add_by_owner_blocks:
  assumes "length done = k" and "length accs = length todo" and "list_all (\<lambda>a. a = []) todo"
  shows "add_by_owner (concat accs) (concat (map (\<lambda>(i, as). replicate (length as) i) (List.enumerate k accs))) (done @ todo) =
    done @ map (\<lambda>as. map the (filter (\<lambda>x. x \<noteq> None) as)) accs"
  using assms
proof (induction accs arbitrary: "done" k todo)
  case (Cons as accs)
  obtain todo' where t: "todo = [] # todo'" using Cons.prems by (cases todo) auto
  have "k < length (done @ todo)" using Cons.prems(1) t by simp
  from add_by_owner_block [OF this refl, of as "concat accs"
      "concat (map (\<lambda>(i, as). replicate (length as) i) (List.enumerate (Suc k) accs))"]
  show ?case
    using Cons.IH [of "done @ [map the (filter (\<lambda>x. x \<noteq> None) as)]" "Suc k" todo'] Cons.prems t
    by (simp add: nth_append list_update_append)
qed simp

text \<open>
  Fetching the instructions of many proposals in one request gives for each proposal what fetching its
  instructions alone gives, when the node answers each key by itself.
\<close>

theorem getManyProposalsInstructions_each:
  assumes "\<forall>ks. getInstructions ks = map lookup ks"
  shows "getManyProposalsInstructions env getInstructions txAccounts =
    map (getProposalInstructions env getInstructions) txAccounts"
proof -
  let ?keys = "map (proposal_ix_keys env) txAccounts"
  let ?keyed = "concat (map (\<lambda>(index, txAccount). map (\<lambda>k. (k, index)) (proposal_ix_keys env txAccount))
    (List.enumerate 0 txAccounts))"
  have 1: "map fst (concat (map (\<lambda>(index, txAccount). map (\<lambda>k. (k, index)) (proposal_ix_keys env txAccount))
      (List.enumerate n xs))) = concat (map (proposal_ix_keys env) xs)" for n xs
    by (induction xs arbitrary: n) (simp_all add: comp_def)
  have 2: "map snd (concat (map (\<lambda>(index, txAccount). map (\<lambda>k. (k, index)) (proposal_ix_keys env txAccount))
      (List.enumerate n xs))) =
    concat (map (\<lambda>(i, as). replicate (length as) i) (List.enumerate n (map (\<lambda>x. map lookup (proposal_ix_keys env x)) xs)))" for n xs
    by (induction xs arbitrary: n) (simp_all add: comp_def map_replicate_const)
  have "add_by_owner (concat (map (\<lambda>x. map lookup (proposal_ix_keys env x)) txAccounts))
      (concat (map (\<lambda>(i, as). replicate (length as) i)
        (List.enumerate 0 (map (\<lambda>x. map lookup (proposal_ix_keys env x)) txAccounts))))
      ([] @ replicate (length txAccounts) []) =
    [] @ map (\<lambda>as. map the (filter (\<lambda>x. x \<noteq> None) as)) (map (\<lambda>x. map lookup (proposal_ix_keys env x)) txAccounts)"
    by (rule add_by_owner_blocks) (simp_all add: list_all_iff)
  then show ?thesis
    using assms unfolding getManyProposalsInstructions_def Let_def 1 2
    by (simp add: getProposalInstructions_def map_concat comp_def)
qed

section \<open>Witnesses\<close>

definition key_env :: "256 word price_store_env" where
  "key_env = \<lparr>pse_PublicKey = (\<lambda>s. word_of_nat (sum_list (map of_char s))), pse_newPublicKey = (\<lambda>bs. word_of_nat (be_nat bs)),
     pse_toBuffer = (\<lambda>pk. be_bytes 32 (unat pk)), pse_toBase58 = (\<lambda>pk. bytes_to_hex (be_bytes 32 (unat pk))),
     pse_findProgramAddressSync = (\<lambda>seeds p. (p + word_of_nat (be_nat (concat seeds)), 255)),
     pse_createWithSeed = (\<lambda>b s p. b + p), pse_SystemProgram_programId = 0, pse_MAX_SEED_LENGTH = 32\<rparr>"

definition demo_squads :: "256 word squads_env" where
  "demo_squads = \<lparr>sq_keys = key_env, sq_gov = ref_gov_env\<lparr>env_wormhole := [(''pythnet'', 26)]\<rparr>,
     sq_build = (\<lambda>c. \<lparr>ix_data = [1], ix_keys = [], ix_programId = 7\<rparr>),
     sq_getAuthorityPDA = (\<lambda>v n. v + of_nat n), sq_getTxPDA = (\<lambda>v n p. (v + of_nat n, 255)),
     sq_getIxPDA = (\<lambda>v n p. (v + of_nat n, 255)), sq_getIxAuthorityPDA = (\<lambda>v n p. (v + of_nat n, 254)),
     sq_multisigProgramId = 7, sq_DEFAULT_MULTISIG_PROGRAM_ID = 7,
     sq_postMessage = (\<lambda>w n payload k accounts. Inr \<lparr>ix_data = payload, ix_keys = [], ix_programId = w\<rparr>),
     sq_deriveWormholeBridgeDataKey = (\<lambda>w. w + 1), sq_deriveEmitterSequenceKey = (\<lambda>e w. e + w),
     sq_deriveFeeCollectorKey = (\<lambda>w. w + 2), sq_SYSVAR_CLOCK_PUBKEY = 1, sq_SYSVAR_RENT_PUBKEY = 2\<rparr>"

definition demo_vault :: "256 word multisig_vault" where
  "demo_vault = \<lparr>mv_cluster = ''mainnet-beta'', mv_vault = pse_PublicKey key_env (snd (hd PRICE_FEED_MULTISIG))\<rparr>"

definition demo_account :: "256 word ms_account" where
  "demo_account = \<lparr>ms_publicKey = 5, ms_authorityIndex = 1, ms_transactionIndex = 3\<rparr>"

definition demo_ledger :: "256 word ledger" where
  "demo_ledger = \<lparr>lg_index = 3, lg_proposals = []\<rparr>"

definition demo_instruction :: "nat \<Rightarrow> 256 word ix" where
  "demo_instruction n = \<lparr>ix_data = replicate n 1,
     ix_keys = [\<lparr>am_isSigner = True, am_isWritable = False, am_pubkey = 9\<rparr>], ix_programId = 8\<rparr>"

lemma demo_gov_ok: "gov_env_ok (sq_gov demo_squads)"
  using ref_gov_env_ok by (simp add: gov_env_ok_def demo_squads_def ref_gov_env_def)

lemma spread_single:
  assumes "distinct (map fst ys)" and "k \<notin> fst ` set ys"
  shows "spread [(k, v)] ys = (k, v) # ys"
  using assms
proof (induction ys rule: rev_induct)
  case (snoc y ys)
  then show ?case by (cases y) (simp add: spread_def update_fresh)
qed (simp add: spread_def)

lemma demo_receivers: "list_all (\<lambda>(n, i). n \<noteq> ''pythnet'' \<and> i \<noteq> 26) RECEIVER_CHAINS"
  by (simp add: RECEIVER_CHAINS_def)

lemma demo_pythnet: "valid_header (sq_gov demo_squads) \<lparr>hdr_targetChainId = ''pythnet'', hdr_action = ''ExecutePostedVaa''\<rparr>"
proof -
  have new: "''pythnet'' \<notin> fst ` set RECEIVER_CHAINS" "26 \<notin> snd ` set RECEIVER_CHAINS"
    using demo_receivers by (auto simp: list_all_iff)
  have ch: "CHAINS [(''pythnet'', 26)] = (''pythnet'', 26) # RECEIVER_CHAINS"
    unfolding CHAINS_def by (rule spread_single [OF RECEIVER_CHAINS_distinct_names new(1)])
  have "map_of (rev (map (\<lambda>x. (snd x, fst x)) RECEIVER_CHAINS)) 26 = None"
    using new(2) by (auto simp: map_of_eq_None_iff image_image)
  then have "toChainId [(''pythnet'', 26)] ''pythnet'' = Some 26" "toChainName [(''pythnet'', 26)] 26 = Some ''pythnet''"
    by (simp_all add: toChainId_def toChainName_map_of ch map_add_def)
  then show ?thesis by (simp add: valid_header_def demo_squads_def ref_gov_env_def ACTIONS_eq)
qed

lemma demo_index: "lg_index demo_ledger = ms_transactionIndex demo_account"
  and demo_cluster: "mv_cluster demo_vault = ''mainnet-beta''"
  by (simp_all add: demo_ledger_def demo_account_def demo_vault_def)

lemma demo_posts: "post_client_ok demo_squads wormhole (\<lambda>ix. Some (ix_data ix))"
  by (simp add: post_client_ok_def demo_squads_def)

lemma demo_vault_known:
  "getOpsKey (sq_keys demo_squads) (mv_vault demo_vault) = Inr (PRICE_FEED_OPS_KEY key_env)"
  by (simp add: getOpsKey_def demo_squads_def demo_vault_def PRICE_FEED_MULTISIG_def)

lemma demo_wormhole: "wormholeAddress (sq_keys demo_squads) (mv_cluster demo_vault) =
    Some (pse_PublicKey key_env ''worm2ZoG2kUd4vFXhvjh93UUH596ayRfgQ2MgjNMTth'')"
  by (simp add: wormholeAddress_def WORMHOLE_ADDRESS_def demo_vault_def demo_squads_def)

theorem proposeInstructions_remote_witness:
  "\<exists>calls ps batches. proposal_calls demo_squads demo_vault demo_account [demo_instruction 400, demo_instruction 500] ''pythnet'' =
      Inr (calls, map pr_address ps) \<and>
    squads_run demo_squads demo_vault calls demo_ledger = Some (demo_ledger\<lparr>lg_index := lg_index demo_ledger + length ps,
      lg_proposals := rev ps @ lg_proposals demo_ledger\<rparr>) \<and>
    map (remote_instructions (sq_gov demo_squads) (\<lambda>ix. Some (ix_data ix))) (concat (map pr_instructions ps)) = map Some batches \<and>
    concat batches = [demo_instruction 400, demo_instruction 500]"
proof -
  have "''pythnet'' \<noteq> mv_cluster demo_vault" by (simp add: demo_cluster)
  moreover have "\<forall>ix \<in> set [demo_instruction 400, demo_instruction 500]. executor_instruction_size ix \<le> 1228"
    by (simp add: demo_instruction_def executor_instruction_size_def)
  ultimately show ?thesis
    using proposeInstructions_remote [OF demo_gov_ok demo_posts demo_pythnet demo_vault_known demo_wormhole _ demo_index,
        of "''pythnet''" "[demo_instruction 400, demo_instruction 500]"] by blast
qed

theorem proposeInstructions_local_witness:
  "\<exists>calls ps. proposal_calls demo_squads demo_vault demo_account [demo_instruction 1] ''mainnet-beta'' = Inr (calls, map pr_address ps) \<and>
    squads_run demo_squads demo_vault calls demo_ledger = Some (demo_ledger\<lparr>lg_index := lg_index demo_ledger + length ps,
      lg_proposals := rev ps @ lg_proposals demo_ledger\<rparr>) \<and>
    concat (map pr_instructions ps) = [demo_instruction 1]"
  using proposeInstructions_local [OF demo_cluster [symmetric] demo_index, of demo_squads "[demo_instruction 1]"] by blast

theorem proposeWormholeMessages_resume_witness:
  "\<exists>calls a. message_calls demo_squads demo_vault demo_account [[1], [2]] 3 None = Inr (calls, a) \<and>
    message_calls demo_squads demo_vault demo_account [[1], [2]] 3 (Some (a, 1)) = Inr (drop 2 calls, a)"
proof -
  have "length [[1], [2 :: byte]] \<le> MAX_INSTRUCTIONS_PER_PROPOSAL" "1 \<le> length [[1], [2 :: byte]]"
    by (simp_all add: MAX_INSTRUCTIONS_PER_PROPOSAL_def)
  then show ?thesis
    using proposeWormholeMessages_resume [OF demo_posts demo_wormhole demo_index, of "[[1], [2]]" 1 3 demo_account]
    unfolding Suc_1 by blast
qed

definition demo_sender :: "256 word send_env" where
  "demo_sender = \<lparr>sn_tx = \<lparr>te_PublicKey = (\<lambda>_. 1), te_transfer = (\<lambda>a b n. demo_instruction 1),
     te_setComputeUnitPrice = (\<lambda>n. demo_instruction 1), te_setComputeUnitLimit = (\<lambda>n. demo_instruction 1)\<rparr>,
     sn_random = (\<lambda>_. 0), sn_draw = (\<lambda>_. 0), sn_unique = 4, sn_lands = (\<lambda>k r. r = 9)\<rparr>"

theorem send_calls_in_order_witness:
  "\<exists>txs runs. send_calls demo_squads demo_sender no_priority_fee [ActivateTransaction 1 2] () = (txs, Inr ()) \<and>
     list_all2 (\<lambda>run tx. \<exists>added. tx = run @ added) runs txs \<and>
     concat runs = [sq_build demo_squads (ActivateTransaction 1 2)]"
proof -
  have one: "\<forall>c \<in> set [ActivateTransaction 1 2]. getSizeOfTransaction [sq_build demo_squads c] False None \<le> PACKET_DATA_SIZE"
    by (simp add: demo_squads_def size_simps)
  have lands: "\<exists>r < 10. sn_lands demo_sender n r" for n
    by (auto simp: demo_sender_def intro: exI [of _ 9])
  obtain txs runs k where run: "send_calls demo_squads demo_sender no_priority_fee [ActivateTransaction 1 2] () =
        (take k txs, if k = length txs then Inr () else Inl (Error ''Too many retries''))"
      "list_all2 (\<lambda>run tx. run \<noteq> [] \<and> (\<exists>added. tx = run @ added) \<and>
         getSizeOfTransaction tx False None \<le> PACKET_DATA_SIZE) runs txs"
      "concat runs = map (sq_build demo_squads) [ActivateTransaction 1 2]" "k \<le> length txs"
      "k < length txs \<longrightarrow> (\<forall>r < 10. \<not> sn_lands demo_sender k r)"
    using send_calls_in_order [of "[ActivateTransaction 1 2]" demo_squads demo_sender no_priority_fee "()"]
    unfolding if_P [OF one] by blast
  have "k = length txs" using run(4,5) lands [of k] by (meson le_neq_implies_less)
  with run(1-3)
  show ?thesis by (intro exI [of _ txs] exI [of _ runs]) (auto elim: list_all2_mono)
qed

theorem getManyProposalsInstructions_each_witness:
  "getManyProposalsInstructions demo_squads (map (\<lambda>k. if k = 6 then None else Some k))
     [\<lparr>ta_publicKey = 4, ta_instructionIndex = 3, ta_executedIndex = 0, ta_status = ''active''\<rparr>,
      \<lparr>ta_publicKey = 9, ta_instructionIndex = 1, ta_executedIndex = 0, ta_status = ''active''\<rparr>] = [[5, 7], [10]]"
  by (subst getManyProposalsInstructions_each [of _ "\<lambda>k. if k = 6 then None else Some k"])
    (simp_all add: getProposalInstructions_def proposal_ix_keys_def lodash_range_def demo_squads_def upt_rec)

end
