(* ===== verification/Multisig_Parser.thy ===== *)
theory Multisig_Parser
  imports Multisig
begin

text \<open>
  What the multisig tools show of a proposed instruction
  (\<^verbatim>\<open>governance/xc_admin/packages/xc_admin_common/src/multisig_transaction\<close>): the parser of each program and
  the dispatch of \<^verbatim>\<open>MultisigParser.parseInstruction\<close>.  The decoders of \<^verbatim>\<open>@coral-xyz/anchor\<close>, the Wormhole SDK and
  \<^verbatim>\<open>@solana/web3.js\<close>, the interface descriptions (IDL) they use and the program ids taken from other packages are the
  record \<open>parser_env\<close>; a decoder may throw, and its decoded arguments are the type parameter \<open>'v\<close>.
\<close>

section \<open>Parsed instructions\<close>

datatype multisig_program =
  PythOracle | WormholeBridge | MessageBuffer | StakingProgram | IntegrityPoolProgram | Mesh | SystemProgram
  | BpfUpgradableLoader | SolanaStakingProgram | SolanaReceiver | UnrecognizedProgram | PythPriceStore | Lazer

fun getProgramName :: "multisig_program \<Rightarrow> string" where
  "getProgramName PythOracle = ''Pyth Oracle''"
| "getProgramName WormholeBridge = ''Wormhole''"
| "getProgramName MessageBuffer = ''Message Buffer''"
| "getProgramName SystemProgram = ''System Program''"
| "getProgramName BpfUpgradableLoader = ''BPF Upgradable Loader''"
| "getProgramName SolanaStakingProgram = ''Solana Staking Program''"
| "getProgramName Mesh = ''Mesh Multisig Program''"
| "getProgramName StakingProgram = ''Pyth Staking Program''"
| "getProgramName IntegrityPoolProgram = ''Integrity Pool''"
| "getProgramName SolanaReceiver = ''Pyth Solana Receiver''"
| "getProgramName PythPriceStore = ''Pyth Price Store''"
| "getProgramName UnrecognizedProgram = ''Unknown''"
| "getProgramName Lazer = ''Lazer''"

text \<open>A named account is \<open>None\<close> where the source reads past the end of the keys.\<close>

record 'pk anchor_accounts =
  aa_named :: "(string \<times> 'pk account_meta option) list"
  aa_remaining :: "'pk account_meta list"

text \<open>
  The arguments shown: none, what the decoder returned, the raw data, the data of a price store
  instruction, or the two values of a stake initialization.
\<close>

datatype ('pk, 'v) parsed_args =
    NoArgs
  | Decoded 'v
  | RawData bytes
  | PriceStoreData "'pk multisig_args"
  | StakeInitialize 'v 'v

record ('pk, 'v) multisig_instruction =
  mi_program :: multisig_program
  mi_name :: string
  mi_args :: "('pk, 'v) parsed_args"
  mi_accounts :: "'pk anchor_accounts"
  mi_governanceAction :: "'pk governance_action option"

datatype idl = PythIdl | WormholeIdl | MessageBufferIdl | MeshIdl | StakingIdl | IntegrityPoolIdl | ReceiverIdl | LazerIdl

record ('pk, 'v) parser_env =
  pe_keys :: "'pk price_store_env"
  pe_gov :: "'pk gov_env"
  pe_programKey :: "string \<Rightarrow> 'pk"
  pe_StakeProgram_programId :: 'pk
  pe_SOLANA_LAZER_PROGRAM_ID :: string
  pe_idl :: "idl \<Rightarrow> (string \<times> string list) list"
  pe_decode :: "idl \<Rightarrow> bytes \<Rightarrow> (string \<times> 'v) option res"
  pe_payload :: "'v \<Rightarrow> bytes"
  pe_system_type :: "'pk ix \<Rightarrow> string res"
  pe_system_decode :: "string \<Rightarrow> 'pk ix \<Rightarrow> 'v res"
  pe_stake_type :: "'pk ix \<Rightarrow> string res"
  pe_decodeDeactivate :: "'pk ix \<Rightarrow> ('pk \<times> 'pk) res"
  pe_decodeDelegate :: "'pk ix \<Rightarrow> ('pk \<times> 'pk \<times> 'pk) res"
  pe_decodeInitialize :: "'pk ix \<Rightarrow> ('v \<times> 'v \<times> 'pk) res"

text \<open>The value shown for an instruction that a parser does not recognize.\<close>

definition unrecognized :: "multisig_program \<Rightarrow> 'pk ix \<Rightarrow> ('pk, 'v) multisig_instruction" where
  "unrecognized program ix =
     \<lparr>mi_program = program, mi_name = UNRECOGNIZED_INSTRUCTION, mi_args = RawData (ix_data ix),
      mi_accounts = \<lparr>aa_named = [], aa_remaining = ix_keys ix\<rparr>, mi_governanceAction = None\<rparr>"

section \<open>Names of accounts\<close>

definition resolveAccountNames :: "(string \<times> string list) list \<Rightarrow> string \<Rightarrow> 'pk ix \<Rightarrow> 'pk anchor_accounts" where
  "resolveAccountNames idl name ix =
     (case map_of idl name of
        None \<Rightarrow> \<lparr>aa_named = [], aa_remaining = ix_keys ix\<rparr>
      | Some accounts \<Rightarrow>
          foldl (\<lambda>acc (idx, account).
              if idx < length accounts
                then acc\<lparr>aa_named := obj_set (accounts ! idx) (Some account) (aa_named acc)\<rparr>
                else acc\<lparr>aa_remaining := aa_remaining acc @ [account]\<rparr>)
            \<lparr>aa_named = [], aa_remaining = []\<rparr> (List.enumerate 0 (ix_keys ix)))"

definition IDL_SET_BUFFER_DISCRIMINATOR :: bytes where
  "IDL_SET_BUFFER_DISCRIMINATOR = hex_to_bytes ''40f4bc78a7e9690a03''"

definition getIdlAddress :: "'pk price_store_env \<Rightarrow> 'pk \<Rightarrow> 'pk" where
  "getIdlAddress env programId =
     (let programSigner = fst (pse_findProgramAddressSync env [] programId) in
      pse_createWithSeed env programSigner ''anchor:idl'' programId)"

definition idlSetBuffer :: "'pk price_store_env \<Rightarrow> 'pk \<Rightarrow> 'pk \<Rightarrow> 'pk \<Rightarrow> 'pk ix" where
  "idlSetBuffer env programId buffer idlAuthority =
     \<lparr>ix_data = IDL_SET_BUFFER_DISCRIMINATOR,
      ix_keys = [\<lparr>am_isSigner = False, am_isWritable = True, am_pubkey = buffer\<rparr>,
                 \<lparr>am_isSigner = False, am_isWritable = True, am_pubkey = getIdlAddress env programId\<rparr>,
                 \<lparr>am_isSigner = True, am_isWritable = True, am_pubkey = idlAuthority\<rparr>],
      ix_programId = programId\<rparr>"

section \<open>The parsers\<close>

text \<open>The common shape of the Anchor parsers: decode the data and name the accounts.\<close>

definition decoded_instruction ::
  "('pk, 'v) parser_env \<Rightarrow> multisig_program \<Rightarrow> idl \<Rightarrow> 'pk ix \<Rightarrow> ('pk, 'v) multisig_instruction res" where
  "decoded_instruction env program idl ix =
     res_bind (pe_decode env idl (ix_data ix)) (\<lambda>deserializedData.
     case deserializedData of
       None \<Rightarrow> Inr (unrecognized program ix)
     | Some (name, v) \<Rightarrow>
         Inr \<lparr>mi_program = program, mi_name = name, mi_args = Decoded v,
           mi_accounts = resolveAccountNames (pe_idl env idl) name ix, mi_governanceAction = None\<rparr>)"

definition Pyth_fromTransactionInstruction ::
  "('pk, 'v) parser_env \<Rightarrow> 'pk ix \<Rightarrow> ('pk, 'v) multisig_instruction res" where
  "Pyth_fromTransactionInstruction env ix = decoded_instruction env PythOracle PythIdl ix"

definition Lazer_fromInstruction ::
  "('pk, 'v) parser_env \<Rightarrow> 'pk ix \<Rightarrow> ('pk, 'v) multisig_instruction res" where
  "Lazer_fromInstruction env ix = decoded_instruction env Lazer LazerIdl ix"

definition Wormhole_fromTransactionInstruction ::
  "('pk, 'v) parser_env \<Rightarrow> 'pk ix \<Rightarrow> ('pk, 'v) multisig_instruction res" where
  "Wormhole_fromTransactionInstruction env ix =
     res_bind (pe_decode env WormholeIdl (ix_data ix)) (\<lambda>deserializedData.
     case deserializedData of
       None \<Rightarrow> Inr (unrecognized WormholeBridge ix)
     | Some (name, v) \<Rightarrow>
         res_bind (if name = ''postMessage'' then decodeGovernancePayload (pe_gov env) (pe_payload env v)
                   else Inr None) (\<lambda>decodedGovernanceAction.
         Inr \<lparr>mi_program = WormholeBridge, mi_name = name, mi_args = Decoded v,
           mi_accounts = resolveAccountNames (pe_idl env WormholeIdl) name ix,
           mi_governanceAction = decodedGovernanceAction\<rparr>))"

definition MESH_PROGRAM_ID :: "'pk price_store_env \<Rightarrow> 'pk" where
  "MESH_PROGRAM_ID env = pse_PublicKey env ''SMPLVC8MxZ5Bf5EfF7PaMiTCxoBAcmkbM2vkrvMK8ho''"
definition STAKING_PROGRAM_ID :: "'pk price_store_env \<Rightarrow> 'pk" where
  "STAKING_PROGRAM_ID env = pse_PublicKey env ''pytS9TjG1qyAZypk7n8rw8gfW9sUaqqYyMhJQ4E7JCQ''"
definition INTEGRITY_POOL_PROGRAM_ID :: "'pk price_store_env \<Rightarrow> 'pk" where
  "INTEGRITY_POOL_PROGRAM_ID env = pse_PublicKey env ''pyti8TM4zRVBjmarcgAPmTNNAXYKJv7WVHrkrm6woLN''"
definition DEFAULT_RECEIVER_PROGRAM_ID :: "'pk price_store_env \<Rightarrow> 'pk" where
  "DEFAULT_RECEIVER_PROGRAM_ID env = pse_PublicKey env ''rec5EKMGg6MxZYaMdyBfgwp4d5rB9T1VQH5pJv5LtFJ''"
definition MESSAGE_BUFFER_KEY :: "'pk price_store_env \<Rightarrow> 'pk" where
  "MESSAGE_BUFFER_KEY env = pse_PublicKey env ''7Vbmv1jt4vyuqBZcpYPpnVhrqVe5e6ZPb6JxDcffRHUM''"
definition BPF_UPGRADABLE_LOADER :: "'pk price_store_env \<Rightarrow> 'pk" where
  "BPF_UPGRADABLE_LOADER env = pse_PublicKey env ''BPFLoaderUpgradeab1e11111111111111111111111''"

definition key_at :: "'pk ix \<Rightarrow> nat \<Rightarrow> 'pk account_meta option" where
  "key_at ix i = buf_at (ix_keys ix) i"

text \<open>The switch compares the base58 forms of the program ids.\<close>

definition Anchor_fromTransactionInstruction ::
  "('pk, 'v) parser_env \<Rightarrow> 'pk ix \<Rightarrow> ('pk, 'v) multisig_instruction res" where
  "Anchor_fromTransactionInstruction env ix =
     (let same = (\<lambda>k. pse_toBase58 (pe_keys env) (ix_programId ix) = pse_toBase58 (pe_keys env) (k (pe_keys env)));
          selected =
            (if same MESSAGE_BUFFER_KEY then Some (MessageBufferIdl, MessageBuffer)
             else if same MESH_PROGRAM_ID then Some (MeshIdl, Mesh)
             else if same STAKING_PROGRAM_ID then Some (StakingIdl, StakingProgram)
             else if same INTEGRITY_POOL_PROGRAM_ID then Some (IntegrityPoolIdl, IntegrityPoolProgram)
             else if same DEFAULT_RECEIVER_PROGRAM_ID then Some (ReceiverIdl, SolanaReceiver)
             else None) in
      case selected of
        None \<Rightarrow> Inr (unrecognized UnrecognizedProgram ix)
      | Some (idl, program) \<Rightarrow>
          if ix_data ix = IDL_SET_BUFFER_DISCRIMINATOR
            then Inr \<lparr>mi_program = program, mi_name = ''IdlSetBuffer'', mi_args = NoArgs,
              mi_accounts = \<lparr>aa_named = [(''buffer'', key_at ix 0), (''idlAccount'', key_at ix 1),
                  (''idlAuthority'', key_at ix 2)], aa_remaining = drop 3 (ix_keys ix)\<rparr>,
              mi_governanceAction = None\<rparr>
            else decoded_instruction env program idl ix)"

definition PriceStore_fromTransactionInstruction ::
  "('pk, 'v) parser_env \<Rightarrow> 'pk ix \<Rightarrow> ('pk, 'v) multisig_instruction" where
  "PriceStore_fromTransactionInstruction env ix =
     (let p = fromTransactionInstruction (pe_keys env) ix in
      \<lparr>mi_program = PythPriceStore, mi_name = pmi_name p, mi_args = PriceStoreData (pmi_args p),
       mi_accounts = \<lparr>aa_named = [], aa_remaining = pmi_remaining p\<rparr>, mi_governanceAction = None\<rparr>)"

text \<open>The types that have a decoder; \<^verbatim>\<open>UpgradeNonceAccount\<close> throws.\<close>

definition SYSTEM_TYPES :: "string list" where
  "SYSTEM_TYPES = [''AdvanceNonceAccount'', ''Allocate'', ''AllocateWithSeed'', ''Assign'', ''AssignWithSeed'',
     ''AuthorizeNonceAccount'', ''Create'', ''CreateWithSeed'', ''InitializeNonceAccount'', ''Transfer'',
     ''TransferWithSeed'', ''WithdrawNonceAccount'']"

text \<open>A type without a case leaves the data undefined.\<close>

definition system_data :: "('pk, 'v) parser_env \<Rightarrow> string \<Rightarrow> 'pk ix \<Rightarrow> ('pk, 'v) parsed_args res" where
  "system_data env instructionType ix =
     (if instructionType \<in> set SYSTEM_TYPES
        then res_bind (pe_system_decode env instructionType ix) (\<lambda>v. Inr (Decoded v))
      else if instructionType = ''UpgradeNonceAccount'' then Inl (Error ''UpgradeNonceAccount not implemented'')
      else Inr NoArgs)"

definition System_fromTransactionInstruction ::
  "('pk, 'v) parser_env \<Rightarrow> 'pk ix \<Rightarrow> ('pk, 'v) multisig_instruction" where
  "System_fromTransactionInstruction env ix =
     (case res_bind (pe_system_type env ix) (\<lambda>instructionType.
           res_bind (system_data env instructionType ix) (\<lambda>data. Inr (instructionType, data))) of
        Inl _ \<Rightarrow> unrecognized SystemProgram ix
      | Inr (instructionType, data) \<Rightarrow>
          \<lparr>mi_program = SystemProgram, mi_name = instructionType, mi_args = data,
           mi_accounts = \<lparr>aa_named = [], aa_remaining = []\<rparr>, mi_governanceAction = None\<rparr>)"

text \<open>The loader: the type is a 32-bit number at the start of the data.\<close>

definition bpf_accounts :: "nat \<Rightarrow> 'pk ix \<Rightarrow> (string \<times> 'pk anchor_accounts) option" where
  "bpf_accounts typeIndex ix =
     (if typeIndex = 3 then
        Some (''Upgrade'', \<lparr>aa_named = [(''buffer'', key_at ix 2), (''clock'', key_at ix 5), (''program'', key_at ix 1),
          (''programData'', key_at ix 0), (''rent'', key_at ix 4), (''spill'', key_at ix 3),
          (''upgradeAuthority'', key_at ix 6)], aa_remaining = drop 7 (ix_keys ix)\<rparr>)
      else if typeIndex = 4 then
        Some (''SetAuthority'', \<lparr>aa_named = [(''currentAuthority'', key_at ix 1), (''newAuthority'', key_at ix 2),
          (''programData'', key_at ix 0)], aa_remaining = drop 3 (ix_keys ix)\<rparr>)
      else if typeIndex = 5 then
        Some (''Close'',
          if 4 \<le> length (ix_keys ix)
            then \<lparr>aa_named = [(''program'', key_at ix 3), (''programData'', key_at ix 0), (''spill'', key_at ix 1),
              (''upgradeAuthority'', key_at ix 2)], aa_remaining = drop 4 (ix_keys ix)\<rparr>
            else \<lparr>aa_named = [(''buffer'', key_at ix 0), (''spill'', key_at ix 1), (''upgradeAuthority'', key_at ix 2)],
              aa_remaining = drop 3 (ix_keys ix)\<rparr>)
      else None)"

definition Bpf_fromTransactionInstruction ::
  "('pk, 'v) parser_env \<Rightarrow> 'pk ix \<Rightarrow> ('pk, 'v) multisig_instruction" where
  "Bpf_fromTransactionInstruction env ix =
     (case lay_decode (bl_u32 (env_bl (pe_gov env)) ''instruction'') (ix_data ix) 0 of
        Inl _ \<Rightarrow> unrecognized BpfUpgradableLoader ix
      | Inr typeIndex \<Rightarrow>
          (case bpf_accounts (js_nat (Some typeIndex)) ix of
             None \<Rightarrow> unrecognized BpfUpgradableLoader ix
           | Some (name, accounts) \<Rightarrow>
               \<lparr>mi_program = BpfUpgradableLoader, mi_name = name, mi_args = NoArgs, mi_accounts = accounts,
                mi_governanceAction = None\<rparr>))"

text \<open>
  The stake program: the decoded keys are given the flags of the instruction's layout.  The other types
  throw, or, without a case, return \<^verbatim>\<open>undefined\<close>, which only happens for types the decoder does not return.
\<close>

definition stake_meta :: "bool \<Rightarrow> bool \<Rightarrow> 'pk \<Rightarrow> 'pk account_meta option" where
  "stake_meta isSigner isWritable pubkey = Some \<lparr>am_isSigner = isSigner, am_isWritable = isWritable, am_pubkey = pubkey\<rparr>"

definition stake_view ::
  "('pk, 'v) parser_env \<Rightarrow> 'pk ix \<Rightarrow> (string \<times> ('pk, 'v) parsed_args \<times> (string \<times> 'pk account_meta option) list) res" where
  "stake_view env ix =
     res_bind (pe_stake_type env ix) (\<lambda>type.
     if type = ''Deactivate'' then
       res_bind (pe_decodeDeactivate env ix) (\<lambda>(authorizedPubkey, stakePubkey).
       Inr (type, NoArgs, [(''authorizedPubkey'', stake_meta True False authorizedPubkey),
         (''stakePubkey'', stake_meta False True stakePubkey)]))
     else if type = ''Delegate'' then
       res_bind (pe_decodeDelegate env ix) (\<lambda>(authorizedPubkey, stakePubkey, votePubkey).
       Inr (type, NoArgs, [(''authorizedPubkey'', stake_meta True False authorizedPubkey),
         (''stakePubkey'', stake_meta False True stakePubkey), (''votePubkey'', stake_meta False False votePubkey)]))
     else if type = ''Initialize'' then
       res_bind (pe_decodeInitialize env ix) (\<lambda>(authorized, lockup, stakePubkey).
       Inr (type, StakeInitialize authorized lockup, [(''stakePubkey'', stake_meta False True stakePubkey)]))
     else Inl (Error ''Unsupported instruction type''))"

definition Stake_fromTransactionInstruction ::
  "('pk, 'v) parser_env \<Rightarrow> 'pk ix \<Rightarrow> ('pk, 'v) multisig_instruction" where
  "Stake_fromTransactionInstruction env ix =
     (case stake_view env ix of
        Inl _ \<Rightarrow> unrecognized SolanaStakingProgram ix
      | Inr (name, args, named) \<Rightarrow>
          \<lparr>mi_program = SolanaStakingProgram, mi_name = name, mi_args = args,
           mi_accounts = \<lparr>aa_named = named, aa_remaining = []\<rparr>, mi_governanceAction = None\<rparr>)"

section \<open>The dispatch\<close>

record 'pk multisig_parser =
  mp_pythOracleAddress :: 'pk
  mp_wormholeBridgeAddress :: "'pk option"
  mp_pythPriceStoreAddress :: "'pk option"

definition fromCluster :: "('pk, 'v) parser_env \<Rightarrow> string \<Rightarrow> 'pk multisig_parser" where
  "fromCluster env cluster =
     \<lparr>mp_pythOracleAddress = pe_programKey env cluster,
      mp_wormholeBridgeAddress = wormholeAddress (pe_keys env) cluster,
      mp_pythPriceStoreAddress = Some (PRICE_STORE_PROGRAM_ID (pe_keys env))\<rparr>"

definition parseInstruction ::
  "('pk, 'v) parser_env \<Rightarrow> 'pk multisig_parser \<Rightarrow> 'pk ix \<Rightarrow> ('pk, 'v) multisig_instruction res" where
  "parseInstruction env parser ix =
     (let p = ix_programId ix; keys = pe_keys env in
      if mp_wormholeBridgeAddress parser = Some p then Wormhole_fromTransactionInstruction env ix
      else if p = mp_pythOracleAddress parser then Pyth_fromTransactionInstruction env ix
      else if mp_pythPriceStoreAddress parser = Some p then Inr (PriceStore_fromTransactionInstruction env ix)
      else if p = MESSAGE_BUFFER_KEY keys \<or> p = MESH_PROGRAM_ID keys \<or> p = STAKING_PROGRAM_ID keys \<or>
              p = DEFAULT_RECEIVER_PROGRAM_ID keys \<or> p = INTEGRITY_POOL_PROGRAM_ID keys
        then Anchor_fromTransactionInstruction env ix
      else if p = pse_SystemProgram_programId keys then Inr (System_fromTransactionInstruction env ix)
      else if p = BPF_UPGRADABLE_LOADER keys then Inr (Bpf_fromTransactionInstruction env ix)
      else if p = pe_StakeProgram_programId env then Inr (Stake_fromTransactionInstruction env ix)
      else if p = pse_PublicKey keys (pe_SOLANA_LAZER_PROGRAM_ID env) then Lazer_fromInstruction env ix
      else Inr (unrecognized UnrecognizedProgram ix))"

definition findDetermisticStakeAccountAddress :: "('pk, 'v) parser_env \<Rightarrow> 'pk \<Rightarrow> 'pk \<Rightarrow> 'pk \<times> string" where
  "findDetermisticStakeAccountAddress env basePubkey votePubkey =
     (let seed = take 32 (bytes_to_hex (pse_toBuffer (pe_keys env) votePubkey)) in
      (pse_createWithSeed (pe_keys env) basePubkey seed (pe_StakeProgram_programId env), seed))"

section \<open>No account is left out\<close>

definition shown_accounts :: "'pk anchor_accounts \<Rightarrow> 'pk account_meta list" where
  "shown_accounts a = map the (filter (\<lambda>x. x \<noteq> None) (map snd (aa_named a))) @ aa_remaining a"

lemma resolve_loop:
  fixes acc :: "'pk anchor_accounts"
  assumes "distinct names" and "map fst (aa_named acc) = take n names"
    and "aa_remaining acc = []" and "n \<le> length names"
  shows "foldl (\<lambda>acc (idx, account).
        if idx < length names then acc\<lparr>aa_named := obj_set (names ! idx) (Some account) (aa_named acc)\<rparr>
        else acc\<lparr>aa_remaining := aa_remaining acc @ [account]\<rparr>) acc (List.enumerate n keys) =
    acc\<lparr>aa_named := aa_named acc @ zip (drop n names) (map Some keys), aa_remaining := drop (length names - n) keys\<rparr>"
  using assms
proof (induction keys arbitrary: acc n)
  case Nil
  then show ?case by (cases acc) simp
next
  case (Cons k keys)
  show ?case
  proof (cases "n < length names")
    case True
    have "names ! n \<notin> set (take n names)"
      using distinct_take [OF Cons.prems(1), of "Suc n"] True by (simp add: take_Suc_conv_app_nth)
    then have new: "obj_set (names ! n) (Some k) (aa_named acc) = aa_named acc @ [(names ! n, Some k)]"
      using Cons.prems(2) by (intro obj_set_new) (metis list.set_map)
    let ?acc = "acc\<lparr>aa_named := aa_named acc @ [(names ! n, Some k)]\<rparr>"
    have dr: "drop n names = names ! n # drop (Suc n) names" using True by (simp add: Cons_nth_drop_Suc)
    have ln: "length names - n = Suc (length names - Suc n)" using True by simp
    show ?thesis
      using Cons.IH [of ?acc "Suc n"] Cons.prems True
      by (simp add: new dr ln take_Suc_conv_app_nth)
  next
    case False
    then have n: "n = length names" using Cons.prems(4) by simp
    have tail: "foldl (\<lambda>acc (idx, account).
        if idx < length names then acc\<lparr>aa_named := obj_set (names ! idx) (Some account) (aa_named acc)\<rparr>
        else acc\<lparr>aa_remaining := aa_remaining acc @ [account]\<rparr>) acc' (List.enumerate m ks) =
      acc'\<lparr>aa_remaining := aa_remaining acc' @ ks\<rparr>" if "length names \<le> m" for acc' :: "'pk anchor_accounts" and m ks
      using that by (induction ks arbitrary: acc' m) simp_all
    show ?thesis using tail [of n acc "k # keys"] n Cons.prems(3) by simp
  qed
qed

definition idl_ok :: "(string \<times> string list) list \<Rightarrow> bool" where
  "idl_ok idl \<longleftrightarrow> list_all (\<lambda>(name, accounts). distinct accounts) idl"

lemma resolveAccountNames_split:
  assumes "idl_ok idl"
  shows "resolveAccountNames idl name ix =
    (case map_of idl name of
       None \<Rightarrow> \<lparr>aa_named = [], aa_remaining = ix_keys ix\<rparr>
     | Some names \<Rightarrow> \<lparr>aa_named = zip names (map Some (ix_keys ix)), aa_remaining = drop (length names) (ix_keys ix)\<rparr>)"
proof (cases "map_of idl name")
  case (Some names)
  have "distinct names" using assms map_of_SomeD [OF Some] by (auto simp: idl_ok_def list_all_iff)
  from resolve_loop [OF this, of "\<lparr>aa_named = [], aa_remaining = []\<rparr>" 0] show ?thesis
    by (simp add: resolveAccountNames_def Some)
qed (simp add: resolveAccountNames_def)

lemma shown_zip: "map the (filter (\<lambda>x. x \<noteq> None) (map snd (zip names (map Some keys)))) = take (length names) keys"
proof (induction keys arbitrary: names)
  case (Cons k keys)
  then show ?case by (cases names) simp_all
qed simp

lemma shown_resolved:
  assumes "idl_ok idl"
  shows "shown_accounts (resolveAccountNames idl name ix) = ix_keys ix"
  by (simp add: resolveAccountNames_split [OF assms] shown_accounts_def shown_zip [simplified] split: option.split)

lemma shown_unrecognized [simp]: "shown_accounts (mi_accounts (unrecognized program ix)) = ix_keys ix"
  by (simp add: unrecognized_def shown_accounts_def)

lemma decoded_instruction_shows:
  "idl_ok (pe_idl env idl) \<Longrightarrow> decoded_instruction env program idl ix = Inr mi \<Longrightarrow> shown_accounts (mi_accounts mi) = ix_keys ix"
  by (auto simp: decoded_instruction_def res_simps shown_resolved split: option.splits)

lemma wormhole_shows:
  "idl_ok (pe_idl env WormholeIdl) \<Longrightarrow> Wormhole_fromTransactionInstruction env ix = Inr mi \<Longrightarrow>
   shown_accounts (mi_accounts mi) = ix_keys ix"
  by (auto simp: Wormhole_fromTransactionInstruction_def res_simps shown_resolved split: option.splits)

text \<open>The accounts at the positions \<open>is\<close>, each once, and the rest from \<open>n\<close> on are all the accounts.\<close>

lemma shown_positions:
  assumes "mset is = mset [0..<n]" and len: "length names = length is"
  shows "mset (shown_accounts \<lparr>aa_named = map2 (\<lambda>name i. (name, key_at ix i)) names is, aa_remaining = drop n (ix_keys ix)\<rparr>) =
    mset (ix_keys ix)"
proof -
  let ?k = "ix_keys ix"
  let ?get = "\<lambda>i. if i < length ?k then {#?k ! i#} else {#}"
  have named: "mset (map the (filter (\<lambda>x. x \<noteq> None) (map snd (map2 (\<lambda>name i. (name, key_at ix i)) ns js)))) =
      (\<Sum>i\<in>#mset js. ?get i)" if "length ns = length js" for ns :: "string list" and js
    using that by (induction ns js rule: list_induct2) (auto simp: key_at_def buf_at_def)
  have "(\<Sum>i\<in>#mset [0..<m]. ?get i) = mset (take m ?k)" for m
    by (induction m) (auto simp: take_Suc_conv_app_nth)
  then have "mset (map the (filter (\<lambda>x. x \<noteq> None) (map snd (map2 (\<lambda>name i. (name, key_at ix i)) names is)))) =
      mset (take n ?k)"
    unfolding named [OF len] assms(1) by simp
  then show ?thesis
    unfolding shown_accounts_def by (simp only: anchor_accounts.simps mset_append) (metis append_take_drop_id mset_append)
qed

lemma key_positions:
  "mset [2, 5, 1, 0, 4, 3, 6] = mset [0..<7]" "mset [1, 2, 0] = mset [0..<3]" "mset [3, 0, 1, 2] = mset [0..<4]"
  "mset [0, 1, 2] = mset [0..<3]"
  by (simp_all add: upt_rec eval_nat_numeral)

lemma bpf_accounts_shows:
  assumes "bpf_accounts typeIndex ix = Some (name, accounts)"
  shows "mset (shown_accounts accounts) = mset (ix_keys ix)"
  using assms
    shown_positions [OF key_positions(1), of "[''buffer'', ''clock'', ''program'', ''programData'', ''rent'', ''spill'', ''upgradeAuthority'']" ix]
    shown_positions [OF key_positions(2), of "[''currentAuthority'', ''newAuthority'', ''programData'']" ix]
    shown_positions [OF key_positions(3), of "[''program'', ''programData'', ''spill'', ''upgradeAuthority'']" ix]
    shown_positions [OF key_positions(4), of "[''buffer'', ''spill'', ''upgradeAuthority'']" ix]
  by (auto simp: bpf_accounts_def split: if_splits)

lemma bpf_shows: "mset (shown_accounts (mi_accounts (Bpf_fromTransactionInstruction env ix))) = mset (ix_keys ix)"
  by (auto simp: Bpf_fromTransactionInstruction_def bpf_accounts_shows split: sum.split option.split)

lemma anchor_shows:
  assumes idl: "\<And>i. idl_ok (pe_idl env i)" and mi: "Anchor_fromTransactionInstruction env ix = Inr mi"
  shows "mset (shown_accounts (mi_accounts mi)) = mset (ix_keys ix)"
proof -
  obtain sel where "(case sel of None \<Rightarrow> Inr (unrecognized UnrecognizedProgram ix)
      | Some (idl, program) \<Rightarrow>
          if ix_data ix = IDL_SET_BUFFER_DISCRIMINATOR
            then Inr \<lparr>mi_program = program, mi_name = ''IdlSetBuffer'', mi_args = NoArgs,
              mi_accounts = \<lparr>aa_named = [(''buffer'', key_at ix 0), (''idlAccount'', key_at ix 1),
                  (''idlAuthority'', key_at ix 2)], aa_remaining = drop 3 (ix_keys ix)\<rparr>,
              mi_governanceAction = None\<rparr>
            else decoded_instruction env program idl ix) = Inr mi"
    using mi unfolding Anchor_fromTransactionInstruction_def Let_def by blast
  then show ?thesis
    using shown_positions [OF key_positions(4), of "[''buffer'', ''idlAccount'', ''idlAuthority'']" ix]
      decoded_instruction_shows [OF idl]
    by (cases sel) (auto split: if_splits)
qed

lemma parseInstruction_cases:
  "parseInstruction env parser ix \<in> {Wormhole_fromTransactionInstruction env ix, Pyth_fromTransactionInstruction env ix,
     Inr (PriceStore_fromTransactionInstruction env ix), Anchor_fromTransactionInstruction env ix,
     Inr (System_fromTransactionInstruction env ix), Inr (Bpf_fromTransactionInstruction env ix),
     Inr (Stake_fromTransactionInstruction env ix), Lazer_fromInstruction env ix, Inr (unrecognized UnrecognizedProgram ix)}"
  by (simp add: parseInstruction_def Let_def)

text \<open>
  C12. Approvers see every account of a proposed instruction.  Whatever the instruction, when it can be shown
  at all and it is not of the system or the stake program, the accounts shown, by name or in the
  remaining list, are the accounts of the instruction with their flags, each as often as it occurs, for interface
  descriptions that name the accounts of an instruction differently.
\<close>

theorem parseInstruction_shows_accounts:
  assumes idl: "\<And>i. idl_ok (pe_idl env i)" and mi: "parseInstruction env parser ix = Inr mi"
    and program: "mi_program mi \<noteq> SystemProgram" "mi_program mi \<noteq> SolanaStakingProgram"
  shows "mset (shown_accounts (mi_accounts mi)) = mset (ix_keys ix)"
proof -
  have system: "mi_program (System_fromTransactionInstruction env ix) = SystemProgram"
    by (simp add: System_fromTransactionInstruction_def unrecognized_def split: sum.split)
  have stake: "mi_program (Stake_fromTransactionInstruction env ix) = SolanaStakingProgram"
    by (simp add: Stake_fromTransactionInstruction_def unrecognized_def split: sum.split)
  have store: "shown_accounts (mi_accounts (PriceStore_fromTransactionInstruction env ix)) = ix_keys ix"
    by (simp add: PriceStore_fromTransactionInstruction_def fromTransactionInstruction_def shown_accounts_def Let_def split: sum.split)
  consider "Wormhole_fromTransactionInstruction env ix = Inr mi" | "Pyth_fromTransactionInstruction env ix = Inr mi"
    | "mi = PriceStore_fromTransactionInstruction env ix" | "Anchor_fromTransactionInstruction env ix = Inr mi"
    | "mi = Bpf_fromTransactionInstruction env ix" | "Lazer_fromInstruction env ix = Inr mi"
    | "mi = unrecognized UnrecognizedProgram ix"
    using parseInstruction_cases [of env parser ix] program system stake unfolding mi insert_iff empty_iff
    by (metis sum.inject(2))
  then show ?thesis
  proof cases
    case 1
    then show ?thesis by (simp add: wormhole_shows [OF idl])
  next
    case 2
    then show ?thesis by (simp add: Pyth_fromTransactionInstruction_def decoded_instruction_shows [OF idl])
  next
    case 4
    then show ?thesis by (rule anchor_shows [OF idl])
  next
    case 6
    then show ?thesis by (simp add: Lazer_fromInstruction_def decoded_instruction_shows [OF idl])
  qed (simp_all add: store bpf_shows)
qed

section \<open>Remote proposals are shown as proposed\<close>

text \<open>The payload of a Wormhole post instruction, as the decoder of the parser reads it.\<close>

definition posted_message :: "('pk, 'v) parser_env \<Rightarrow> 'pk \<Rightarrow> 'pk ix \<Rightarrow> bytes option" where
  "posted_message env wormhole ix =
     (if ix_programId ix = wormhole then
        case pe_decode env WormholeIdl (ix_data ix) of
          Inr (Some (name, v)) \<Rightarrow> if name = ''postMessage'' then Some (pe_payload env v) else None
        | _ \<Rightarrow> None
      else None)"

lemma remote_instructions_shown:
  assumes "remote_instructions (pe_gov env) (posted_message env wormhole) ix = Some b"
    and "mp_wormholeBridgeAddress parser = Some wormhole"
  shows "\<exists>mi. parseInstruction env parser ix = Inr mi \<and> mi_governanceAction mi = Some (ExecutePostedVaa ''pythnet'' b)"
proof -
  obtain payload where p: "posted_message env wormhole ix = Some payload"
      "decodeGovernancePayload (pe_gov env) payload = Inr (Some (ExecutePostedVaa ''pythnet'' b))"
    using assms(1) by (auto simp: remote_instructions_def split: option.splits sum.splits governance_action.splits if_splits)
  obtain v where v: "pe_decode env WormholeIdl (ix_data ix) = Inr (Some (''postMessage'', v))" "payload = pe_payload env v"
      "ix_programId ix = wormhole"
    using p(1) by (auto simp: posted_message_def split: option.splits sum.splits if_splits)
  have "parseInstruction env parser ix = Wormhole_fromTransactionInstruction env ix"
    using assms(2) v(3) by (simp add: parseInstruction_def)
  then show ?thesis using p(2) v by (simp add: Wormhole_fromTransactionInstruction_def)
qed

lemma map_eq_map_Some: "map f xs = map Some ys \<longleftrightarrow> list_all2 (\<lambda>x y. f x = Some y) xs ys"
  by (simp add: list_all2_conv_all_nth list_eq_iff_nth_eq) (metis nth_map)

text \<open>
  C10. What is proposed for a remote cluster is what the approvers are shown: when the decoder of the Wormhole
  client reads back the payload that its builder posts, every instruction of the proposals made by
  \<^verbatim>\<open>proposeInstructions\<close> parses to a governance action that asks the executor on pythnet for a batch, and the batches
  together are the proposed instructions, in order and each once.
\<close>

theorem remote_proposals_shown:
  assumes gov: "gov_env_ok (pe_gov penv)" "sq_gov env = pe_gov penv"
    and client: "post_client_ok env wormhole (posted_message penv wormhole)"
    and pythnet: "valid_header (pe_gov penv) \<lparr>hdr_targetChainId = ''pythnet'', hdr_action = ''ExecutePostedVaa''\<rparr>"
    and ops: "getOpsKey (sq_keys env) (mv_vault mv) = Inr opsKey"
    and wormhole: "wormholeAddress (sq_keys env) (mv_cluster mv) = Some wormhole" "sq_keys env = pe_keys penv"
    and remote: "targetCluster \<noteq> mv_cluster mv"
    and sizes: "\<forall>ix \<in> set ixs. executor_instruction_size ix \<le> 1228"
  shows "\<exists>calls ps batches. proposal_calls env mv ms ixs targetCluster = Inr (calls, map pr_address ps) \<and>
    squads_run env mv calls \<lparr>lg_index = ms_transactionIndex ms, lg_proposals = []\<rparr> =
      Some \<lparr>lg_index = ms_transactionIndex ms + length ps, lg_proposals = rev ps\<rparr> \<and>
    list_all2 (\<lambda>ix b. \<exists>mi. parseInstruction penv (fromCluster penv (mv_cluster mv)) ix = Inr mi \<and>
        mi_governanceAction mi = Some (ExecutePostedVaa ''pythnet'' b))
      (concat (map pr_instructions ps)) batches \<and>
    concat batches = ixs"
proof -
  let ?s = "\<lparr>lg_index = ms_transactionIndex ms, lg_proposals = []\<rparr>"
  obtain calls ps batches where ps: "proposal_calls env mv ms ixs targetCluster = Inr (calls, map pr_address ps)"
      "squads_run env mv calls ?s = Some (?s\<lparr>lg_index := lg_index ?s + length ps, lg_proposals := rev ps @ lg_proposals ?s\<rparr>)"
      "map (remote_instructions (pe_gov penv) (posted_message penv wormhole)) (concat (map pr_instructions ps)) = map Some batches"
      "concat batches = ixs"
    using remote_proposals [of env wormhole "posted_message penv wormhole" mv opsKey targetCluster ?s ms ixs]
      gov client pythnet ops wormhole(1) remote sizes by auto
  have parser: "mp_wormholeBridgeAddress (fromCluster penv (mv_cluster mv)) = Some wormhole"
    using wormhole by (simp add: fromCluster_def)
  have "list_all2 (\<lambda>ix b. remote_instructions (pe_gov penv) (posted_message penv wormhole) ix = Some b)
      (concat (map pr_instructions ps)) batches"
    using ps(3) unfolding map_eq_map_Some .
  then have "list_all2 (\<lambda>ix b. \<exists>mi. parseInstruction penv (fromCluster penv (mv_cluster mv)) ix = Inr mi \<and>
        mi_governanceAction mi = Some (ExecutePostedVaa ''pythnet'' b)) (concat (map pr_instructions ps)) batches"
    by (rule list_all2_mono) (rule remote_instructions_shown [OF _ parser])
  then show ?thesis using ps(1,2,4) by auto
qed

section \<open>Witnesses\<close>

definition demo_parser_env :: "(256 word, bytes) parser_env" where
  "demo_parser_env = \<lparr>pe_keys = key_env, pe_gov = sq_gov demo_squads, pe_programKey = (\<lambda>_. 77),
     pe_StakeProgram_programId = 78, pe_SOLANA_LAZER_PROGRAM_ID = ''lazer'',
     pe_idl = (\<lambda>i. if i = PythIdl then [(''addProduct'', [''fundingAccount'', ''tailMappingAccount''])] else []),
     pe_decode = (\<lambda>i d. Inr (if i = PythIdl then Some (''addProduct'', d) else if i = WormholeIdl then Some (''postMessage'', d) else None)),
     pe_payload = (\<lambda>d. d), pe_system_type = (\<lambda>_. Inl TypeError), pe_system_decode = (\<lambda>_ _. Inl TypeError),
     pe_stake_type = (\<lambda>_. Inl TypeError), pe_decodeDeactivate = (\<lambda>_. Inl TypeError), pe_decodeDelegate = (\<lambda>_. Inl TypeError),
     pe_decodeInitialize = (\<lambda>_. Inl TypeError)\<rparr>"

definition demo_oracle_ix :: "256 word ix" where
  "demo_oracle_ix = \<lparr>ix_data = [1, 2], ix_keys = map (\<lambda>k. \<lparr>am_isSigner = True, am_isWritable = False, am_pubkey = k\<rparr>) [4, 5, 6],
     ix_programId = 77\<rparr>"

definition demo_parser :: "256 word multisig_parser" where
  "demo_parser = \<lparr>mp_pythOracleAddress = 77, mp_wormholeBridgeAddress = None, mp_pythPriceStoreAddress = None\<rparr>"

lemma demo_idl_ok: "idl_ok (pe_idl demo_parser_env i)"
  by (simp add: demo_parser_env_def idl_ok_def)

theorem parseInstruction_shows_accounts_witness:
  "\<exists>mi. parseInstruction demo_parser_env demo_parser demo_oracle_ix = Inr mi \<and> mi_name mi = ''addProduct'' \<and>
     mset (shown_accounts (mi_accounts mi)) = mset (ix_keys demo_oracle_ix)"
proof -
  obtain mi where mi: "parseInstruction demo_parser_env demo_parser demo_oracle_ix = Inr mi" "mi_name mi = ''addProduct''"
      "mi_program mi = PythOracle"
    by (simp add: parseInstruction_def demo_parser_def demo_oracle_ix_def Pyth_fromTransactionInstruction_def
        decoded_instruction_def demo_parser_env_def Let_def)
  show ?thesis using mi parseInstruction_shows_accounts [OF demo_idl_ok mi(1)] by auto
qed

theorem remote_proposals_shown_witness:
  "\<exists>calls ps batches. proposal_calls demo_squads demo_vault demo_account [demo_instruction 400, demo_instruction 500] ''pythnet'' =
      Inr (calls, map pr_address ps) \<and>
    squads_run demo_squads demo_vault calls \<lparr>lg_index = ms_transactionIndex demo_account, lg_proposals = []\<rparr> =
      Some \<lparr>lg_index = ms_transactionIndex demo_account + length ps, lg_proposals = rev ps\<rparr> \<and>
    list_all2 (\<lambda>ix b. \<exists>mi. parseInstruction demo_parser_env (fromCluster demo_parser_env (mv_cluster demo_vault)) ix = Inr mi \<and>
        mi_governanceAction mi = Some (ExecutePostedVaa ''pythnet'' b))
      (concat (map pr_instructions ps)) batches \<and>
    concat batches = [demo_instruction 400, demo_instruction 500]"
proof (rule remote_proposals_shown [OF _ _ _ _ demo_vault_known demo_wormhole])
  show "gov_env_ok (pe_gov demo_parser_env)" "sq_gov demo_squads = pe_gov demo_parser_env"
    using demo_gov_ok by (simp_all add: demo_parser_env_def)
  show "valid_header (pe_gov demo_parser_env) \<lparr>hdr_targetChainId = ''pythnet'', hdr_action = ''ExecutePostedVaa''\<rparr>"
    using demo_pythnet by (simp add: demo_parser_env_def)
  show "sq_keys demo_squads = pe_keys demo_parser_env" "''pythnet'' \<noteq> mv_cluster demo_vault"
    by (simp_all add: demo_squads_def demo_parser_env_def demo_cluster)
  show "\<forall>ix \<in> set [demo_instruction 400, demo_instruction 500]. executor_instruction_size ix \<le> 1228"
    by (simp add: demo_instruction_def executor_instruction_size_def)
  show "post_client_ok demo_squads (pse_PublicKey key_env ''worm2ZoG2kUd4vFXhvjh93UUH596ayRfgQ2MgjNMTth'')
      (posted_message demo_parser_env (pse_PublicKey key_env ''worm2ZoG2kUd4vFXhvjh93UUH596ayRfgQ2MgjNMTth''))"
    by (simp add: post_client_ok_def demo_squads_def posted_message_def demo_parser_env_def)
qed

end
