(* ===== verification/Multisig_Execution.thy ===== *)
theory Multisig_Execution
  imports Multisig_Parser
begin

text \<open>
  Executing an approved proposal
  (\<^verbatim>\<open>governance/xc_admin/packages/xc_admin_common/src/executor.ts\<close>): one transaction per instruction that has not
  been executed yet, with what the instruction needs beforehand: the Wormhole fee for a message, the account
  for a new product or price.  The requests to the node and the builders of other packages are the record
  \<open>exec_env\<close>; a request that fails is an error.
\<close>

record ('pk, 'v) exec_env =
  ee_parser :: "('pk, 'v) parser_env"
  ee_squads :: "'pk squads_env"
  ee_core :: "'pk core_env"
  ee_tx :: "'pk tx_env"
  ee_wallet :: 'pk
  ee_getInstruction :: "'pk \<Rightarrow> 'pk ix res"
  ee_wormholeFee :: "'pk \<Rightarrow> nat res"
  ee_getAccountInfo :: "'pk \<Rightarrow> bytes option res"
  ee_productSymbol :: "bytes \<Rightarrow> string res"
  ee_symbol :: "'v \<Rightarrow> string"
  ee_createAccountWithSeed :: "'pk create_with_seed_params \<Rightarrow> 'pk ix"
  ee_getMinimumBalanceForRentExemption :: "nat \<Rightarrow> nat"
  ee_send :: "'pk ix list \<Rightarrow> string list res"

text \<open>Without a bridge address the fee is 0, but deriving the fee collector throws.\<close>

definition getPostMessageFeeInstruction :: "('pk, 'v) exec_env \<Rightarrow> 'pk option \<Rightarrow> 'pk ix res" where
  "getPostMessageFeeInstruction env wormholeBridgeAddress =
     (case wormholeBridgeAddress of
        None \<Rightarrow> Inl TypeError
      | Some wormhole \<Rightarrow>
          res_bind (ee_wormholeFee env wormhole) (\<lambda>wormholeFee.
          Inr (te_transfer (ee_tx env) (ee_wallet env) (sq_deriveFeeCollectorKey (ee_squads env) wormhole) wormholeFee)))"

definition create_account ::
  "('pk, 'v) exec_env \<Rightarrow> string \<Rightarrow> string \<Rightarrow> account_type \<Rightarrow> 'pk ix res" where
  "create_account env cluster symbol accountType =
     getCreateAccountWithSeedInstruction (ee_core env) (ee_createAccountWithSeed env)
       (ee_getMinimumBalanceForRentExemption env) cluster (ee_wallet env) symbol accountType"

text \<open>What goes into the transaction before the instruction is executed.\<close>

definition preparation ::
  "('pk, 'v) exec_env \<Rightarrow> string \<Rightarrow> 'pk multisig_parser \<Rightarrow> ('pk, 'v) multisig_instruction \<Rightarrow> 'pk ix list res" where
  "preparation env cluster parser parsed =
     (if mi_program parsed = WormholeBridge \<and> mi_name parsed = ''postMessage'' then
        res_bind (getPostMessageFeeInstruction env (mp_wormholeBridgeAddress parser)) (\<lambda>ix. Inr [ix])
      else if mi_program parsed = PythOracle \<and> mi_name parsed = ''addProduct'' then
        (case mi_args parsed of
           Decoded v \<Rightarrow> res_bind (create_account env cluster (ee_symbol env v) ProductAccount) (\<lambda>ix. Inr [ix])
         | _ \<Rightarrow> Inl TypeError)
      else if mi_program parsed = PythOracle \<and> mi_name parsed = ''addPrice'' then
        (case map_of (aa_named (mi_accounts parsed)) ''productAccount'' of
           Some (Some account) \<Rightarrow>
             res_bind (ee_getAccountInfo env (am_pubkey account)) (\<lambda>productAccount.
             case productAccount of
               None \<Rightarrow> Inl (Error ''Product account not found'')
             | Some data \<Rightarrow>
                 res_bind (ee_productSymbol env data) (\<lambda>symbol.
                 res_bind (create_account env cluster symbol PriceAccount) (\<lambda>ix. Inr [ix])))
         | _ \<Rightarrow> Inl TypeError)
      else Inr [])"

definition execution_transaction ::
  "('pk, 'v) exec_env \<Rightarrow> string \<Rightarrow> priority_fee_config \<Rightarrow> 'pk transaction_account \<Rightarrow> nat \<Rightarrow> 'pk ix list res" where
  "execution_transaction env cluster priorityFeeConfig proposal i =
     (let multisigParser = fromCluster (ee_parser env) cluster;
          instructionPda = fst (sq_getIxPDA (ee_squads env) (ta_publicKey proposal) i (sq_multisigProgramId (ee_squads env))) in
      res_bind (ee_getInstruction env instructionPda) (\<lambda>instruction.
      res_bind (parseInstruction (ee_parser env) multisigParser instruction) (\<lambda>parsedInstruction.
      res_bind (preparation env cluster multisigParser parsedInstruction) (\<lambda>transaction.
      Inr (addPriorityFee (ee_tx env) transaction priorityFeeConfig @
        [sq_build (ee_squads env) (ExecuteInstruction (ta_publicKey proposal) instructionPda)])))))"

text \<open>The loop: the transactions that were confirmed and the signatures.\<close>

fun execute_instructions ::
  "('pk, 'v) exec_env \<Rightarrow> string \<Rightarrow> priority_fee_config \<Rightarrow> 'pk transaction_account \<Rightarrow> nat list \<Rightarrow>
   'pk ix list list \<times> string list res" where
  "execute_instructions env cluster cfg proposal [] = ([], Inr [])"
| "execute_instructions env cluster cfg proposal (i # is) =
     (case res_bind (execution_transaction env cluster cfg proposal i) (\<lambda>tx.
           res_bind (ee_send env tx) (\<lambda>signatures. Inr (tx, signatures))) of
        Inl e \<Rightarrow> ([], Inl e)
      | Inr (tx, signatures) \<Rightarrow>
          let (sent, rest) = execute_instructions env cluster cfg proposal is in
          (tx # sent, res_bind rest (\<lambda>more. Inr (signatures @ more))))"

definition executeProposal ::
  "('pk, 'v) exec_env \<Rightarrow> 'pk transaction_account \<Rightarrow> string \<Rightarrow> priority_fee_config \<Rightarrow> 'pk ix list list \<times> string list res" where
  "executeProposal env proposal cluster priorityFeeConfig =
     execute_instructions env cluster priorityFeeConfig proposal
       [ta_executedIndex proposal + 1..<ta_instructionIndex proposal + 1]"

section \<open>Properties\<close>

text \<open>The call that executes the i-th instruction of a proposal.\<close>

definition execute_call :: "('pk, 'v) exec_env \<Rightarrow> 'pk transaction_account \<Rightarrow> nat \<Rightarrow> 'pk ix" where
  "execute_call env proposal i = sq_build (ee_squads env) (ExecuteInstruction (ta_publicKey proposal)
     (fst (sq_getIxPDA (ee_squads env) (ta_publicKey proposal) i (sq_multisigProgramId (ee_squads env)))))"

lemma execution_transaction_last:
  "execution_transaction env cluster cfg proposal i = Inr tx \<Longrightarrow>
   tx \<noteq> [] \<and> last tx = execute_call env proposal i"
  by (auto simp: execution_transaction_def res_simps Let_def execute_call_def)

lemma execute_instructions_prefix:
  "\<exists>k \<le> length is. \<exists>sigs. list_all2 (\<lambda>p tx. execution_transaction env cluster cfg proposal (fst p) = Inr tx \<and> ee_send env tx = Inr (snd p))
      (zip (take k is) sigs) (fst (execute_instructions env cluster cfg proposal is)) \<and> length sigs = k \<and>
    (if k = length is then snd (execute_instructions env cluster cfg proposal is) = Inr (concat sigs)
     else \<exists>e. snd (execute_instructions env cluster cfg proposal is) = Inl e \<and>
       res_bind (execution_transaction env cluster cfg proposal (is ! k)) (ee_send env) = Inl e)"
proof (induction "is")
  case (Cons i "is")
  show ?case
  proof (cases "res_bind (execution_transaction env cluster cfg proposal i) (ee_send env)")
    case (Inl e)
    then have "execute_instructions env cluster cfg proposal (i # is) = ([], Inl e)"
      by (cases "execution_transaction env cluster cfg proposal i") (auto simp: res_bind_def split: sum.splits)
    then show ?thesis using Inl by (intro exI [of _ 0]) simp
  next
    case (Inr s)
    then obtain tx where tx: "execution_transaction env cluster cfg proposal i = Inr tx" "ee_send env tx = Inr s"
      by (auto simp: res_simps)
    obtain k sigs where k: "k \<le> length is" "length sigs = k"
        "list_all2 (\<lambda>p tx. execution_transaction env cluster cfg proposal (fst p) = Inr tx \<and> ee_send env tx = Inr (snd p))
          (zip (take k is) sigs) (fst (execute_instructions env cluster cfg proposal is))"
        "if k = length is then snd (execute_instructions env cluster cfg proposal is) = Inr (concat sigs)
         else \<exists>e. snd (execute_instructions env cluster cfg proposal is) = Inl e \<and>
           res_bind (execution_transaction env cluster cfg proposal (is ! k)) (ee_send env) = Inl e"
      using Cons.IH by blast
    then show ?thesis using tx
      by (intro exI [of _ "Suc k"] exI [of _ "s # sigs"] conjI) (auto simp: split_beta Let_def split: if_splits)
  qed
qed simp

text \<open>
  C23. Executing a proposal: the instructions after the last executed one are executed in order, each in a
  transaction of its own that ends with its execution, until one cannot be prepared or sent; the signatures are
  those of the transactions in order, and the function throws exactly when some instruction was not executed.
\<close>

theorem executeProposal_in_order:
  assumes "ta_executedIndex proposal \<le> ta_instructionIndex proposal"
  shows "\<exists>k sent r. executeProposal env proposal cluster cfg = (sent, r) \<and>
    ta_executedIndex proposal + k \<le> ta_instructionIndex proposal \<and>
    map last sent = map (execute_call env proposal) [ta_executedIndex proposal + 1..<ta_executedIndex proposal + 1 + k] \<and>
    (if ta_executedIndex proposal + k = ta_instructionIndex proposal
     then \<exists>sigs. r = Inr (concat sigs) \<and> map (ee_send env) sent = map Inr sigs
     else \<exists>e. r = Inl e \<and>
       res_bind (execution_transaction env cluster cfg proposal (ta_executedIndex proposal + 1 + k)) (ee_send env) = Inl e)"
proof -
  let ?e = "ta_executedIndex proposal" and ?n = "ta_instructionIndex proposal"
  let ?is = "[?e + 1..<?n + 1]"
  obtain k sigs where k: "k \<le> length ?is" "length sigs = k"
      "list_all2 (\<lambda>p tx. execution_transaction env cluster cfg proposal (fst p) = Inr tx \<and> ee_send env tx = Inr (snd p))
        (zip (take k ?is) sigs) (fst (executeProposal env proposal cluster cfg))"
      "if k = length ?is then snd (executeProposal env proposal cluster cfg) = Inr (concat sigs)
       else \<exists>e. snd (executeProposal env proposal cluster cfg) = Inl e \<and>
         res_bind (execution_transaction env cluster cfg proposal (?is ! k)) (ee_send env) = Inl e"
    using execute_instructions_prefix [of ?is env cluster cfg proposal] unfolding executeProposal_def by blast
  have len: "length ?is = ?n - ?e" unfolding length_upt by arith
  define sent where "sent = fst (executeProposal env proposal cluster cfg)"
  have ln: "length sent = k" using list_all2_lengthD [OF k(3)] k(1,2) by (simp add: sent_def del: length_upt)
  have tk: "take k ?is = [?e + 1..<?e + 1 + k]" by (rule take_upt) (use k(1) len assms in linarith)
  have nth: "execution_transaction env cluster cfg proposal (?e + 1 + j) = Inr (sent ! j) \<and> ee_send env (sent ! j) = Inr (sigs ! j)"
    if "j < k" for j
    using list_all2_nthD2 [OF k(3), of j] that ln k(2) unfolding tk sent_def [symmetric]
    by (simp del: upt_Suc)
  have "map last sent = map (execute_call env proposal) [?e + 1..<?e + 1 + k]"
    using nth execution_transaction_last ln by (intro nth_equalityI) (fastforce simp del: upt_Suc)+
  moreover have "map (ee_send env) sent = map Inr sigs"
    using nth ln k(2) by (intro nth_equalityI) auto
  moreover have "k = length ?is \<longleftrightarrow> ?e + k = ?n" using assms len by auto
  moreover have "?is ! k = ?e + 1 + k" if "?e + k \<noteq> ?n" using that k(1) assms len by (subst nth_upt) linarith+
  moreover have "?e + k \<le> ?n" using k(1) assms len by linarith
  ultimately show ?thesis
    using k(4) by (intro exI [of _ k] exI [of _ sent] exI [of _ "snd (executeProposal env proposal cluster cfg)"])
      (auto simp: sent_def split: if_splits)
qed

section \<open>Witnesses\<close>

definition demo_exec_env :: "(256 word, bytes) exec_env" where
  "demo_exec_env = \<lparr>ee_parser = demo_parser_env, ee_squads = demo_squads,
     ee_core = \<lparr>ce_keys = key_env, ce_newPublicKey = (\<lambda>_. Inr 0), ce_programKey = (\<lambda>_. 77), ce_instruction = (\<lambda>_. Inr 0)\<rparr>,
     ee_tx = sn_tx demo_sender, ee_wallet = 3,
     ee_getInstruction = (\<lambda>k. if k = 12 then Inl (Error ''timeout'') else Inr demo_oracle_ix), ee_wormholeFee = (\<lambda>_. Inr 100),
     ee_getAccountInfo = (\<lambda>_. Inr None), ee_productSymbol = (\<lambda>_. Inr ''X''), ee_symbol = (\<lambda>_. ''Crypto.BTC/USD''),
     ee_createAccountWithSeed = (\<lambda>c. demo_instruction (cws_space c)), ee_getMinimumBalanceForRentExemption = (\<lambda>n. n),
     ee_send = (\<lambda>_. Inr [''sig''])\<rparr>"

theorem executeProposal_in_order_witness:
  "\<exists>k sent r. executeProposal demo_exec_env \<lparr>ta_publicKey = 9, ta_instructionIndex = 3, ta_executedIndex = 1, ta_status = ''x''\<rparr>
      ''devnet'' no_priority_fee = (sent, r) \<and> 1 + k \<le> 3 \<and> length sent = k"
proof -
  define p where "p = \<lparr>ta_publicKey = 9 :: 256 word, ta_instructionIndex = 3, ta_executedIndex = 1, ta_status = ''x''\<rparr>"
  have "ta_executedIndex p \<le> ta_instructionIndex p" by (simp add: p_def)
  from executeProposal_in_order [OF this, of demo_exec_env "''devnet''" no_priority_fee]
  obtain k sent r where "executeProposal demo_exec_env p ''devnet'' no_priority_fee = (sent, r)"
      "ta_executedIndex p + k \<le> ta_instructionIndex p"
      "map last sent = map (execute_call demo_exec_env p) [ta_executedIndex p + 1..<ta_executedIndex p + 1 + k]"
    by blast
  moreover from this(3) have "length sent = k" by (metis add_diff_cancel_left' length_map length_upt)
  ultimately show ?thesis unfolding p_def by auto
qed

end
