(* ===== verification/Sui_Pusher.thy ===== *)
theory Sui_Pusher
  imports Evm_Pusher "HOL-Library.Signed_Division" "HOL-Library.Multiset"
begin

text \<open>
  The Sui back end of the price pusher (\<^verbatim>\<open>apps/price_pusher/src/sui/sui.ts\<close>): the listener, the
  pool of gas coins from which every transaction takes one, filling the pool by merging and splitting the
  coins of the wallet, and the chunks of an update.  What runs between two \<^verbatim>\<open>await\<close>s of a transaction is an event of a step
  relation, since transactions are sent in parallel.  The replies of the node and the price service are arguments.
\<close>

section \<open>Listener\<close>

record sui_price_object =
  so_dataType :: string
  so_magnitude :: string
  so_negative :: bool
  so_conf :: string
  so_timestamp :: string

text \<open>\<open>getObject\<close> gives the content of the object, \<open>None\<close> when it has none.\<close>

definition sui_getOnChainPriceInfo ::
  "(string \<Rightarrow> string option res) \<Rightarrow> (string \<Rightarrow> sui_price_object option res) \<Rightarrow> string \<Rightarrow> price_info option" where
  "sui_getOnChainPriceInfo getPriceFeedObjectId getObject priceId =
     (case res_bind (getPriceFeedObjectId priceId) (\<lambda>objectId.
           case objectId of
             None \<Rightarrow> Inl (Error (''Price not found on chain for price id '' @ priceId))
           | Some i \<Rightarrow>
               res_bind (getObject i) (\<lambda>content.
               case content of
                 None \<Rightarrow> Inl (Error (''Price not found on chain for price id '' @ priceId))
               | Some c \<Rightarrow>
                   if so_dataType c \<noteq> ''moveObject'' then Inl (Error ''fetched object datatype should be moveObject'')
                   else Inr \<lparr>pi_price = (if so_negative c then ''-'' @ so_magnitude c else so_magnitude c),
                     pi_conf = so_conf c, pi_publishTime = js_Number (so_timestamp c)\<rparr>)) of
        Inl _ \<Rightarrow> None
      | Inr p \<Rightarrow> Some p)"

text \<open>The content of the state object: its data type and, where it has an upgrade capability, the package of it.\<close>

definition getPackageId :: "(string \<Rightarrow> (string \<times> string option) option res) \<Rightarrow> string \<Rightarrow> string res" where
  "getPackageId getObject objectId =
     res_bind (getObject objectId) (\<lambda>content.
     case content of
       None \<Rightarrow> Inl (Error ''not move object'')
     | Some (dataType, upgrade_cap) \<Rightarrow>
         if dataType \<noteq> ''moveObject'' then Inl (Error ''not move object'')
         else case upgrade_cap of None \<Rightarrow> Inl (Error ''upgrade_cap not found'') | Some package \<Rightarrow> Inr package)"

section \<open>Chunks\<close>

text \<open>With a chunk size of 0 the loop does not end on a non-empty array.\<close>

partial_function (option) chunk_from :: "'a list \<Rightarrow> nat \<Rightarrow> nat \<Rightarrow> 'a list list option" where
  "chunk_from xs sz index =
     (if index < length xs
      then Option.bind (chunk_from xs sz (index + sz)) (\<lambda>rest. Some (buf_subarray xs index (sz + index) # rest))
      else Some [])"

definition chunkArray :: "'a list \<Rightarrow> nat \<Rightarrow> 'a list list option" where
  "chunkArray xs sz = chunk_from xs sz 0"

lemma chunk_from_total:
  assumes "0 < sz"
  shows "\<exists>cs. chunk_from xs sz index = Some cs \<and> concat cs = drop index xs \<and>
    list_all (\<lambda>c. c \<noteq> [] \<and> length c \<le> sz) cs \<and>
    (index < length xs \<longrightarrow> list_all (\<lambda>c. length c = sz) (butlast cs))"
proof (induction "length xs - index" arbitrary: index rule: less_induct)
  case less
  show ?case
  proof (cases "index < length xs")
    case True
    define c where "c = buf_subarray xs index (sz + index)"
    have len: "length c = min sz (length xs - index)" by (simp add: c_def length_buf_subarray)
    have dec: "length xs - (index + sz) < length xs - index" using True assms by arith
    obtain cs where cs: "chunk_from xs sz (index + sz) = Some cs" "concat cs = drop (index + sz) xs"
        "list_all (\<lambda>c. c \<noteq> [] \<and> length c \<le> sz) cs"
        "index + sz < length xs \<longrightarrow> list_all (\<lambda>c. length c = sz) (butlast cs)"
      using less [OF dec] by blast
    have "c @ drop (index + sz) xs = drop index xs"
      unfolding c_def buf_subarray_def by (metis add.commute add_diff_cancel_right' append_take_drop_id drop_drop)
    then have "concat (c # cs) = drop index xs" using cs(2) by simp
    moreover have "chunk_from xs sz index = Some (c # cs)"
      using True cs(1) by (subst chunk_from.simps) (simp add: c_def)
    moreover have "c \<noteq> [] \<and> length c \<le> sz" using True assms len by auto
    moreover have "list_all (\<lambda>c. length c = sz) (butlast (c # cs))"
    proof (cases "index + sz < length xs")
      case True
      then show ?thesis using cs(4) len by simp
    next
      case False
      then have "cs = []" using cs(2,3) by (auto simp: list_all_iff)
      then show ?thesis by simp
    qed
    ultimately show ?thesis using cs(3) by auto
  qed (simp add: chunk_from.simps)
qed

text \<open>Chunks of a positive size: consecutive, none empty, all but the last full.\<close>

lemma chunkArray_total:
  assumes "0 < sz"
  shows "\<exists>cs. chunkArray xs sz = Some cs \<and> concat cs = xs \<and> list_all (\<lambda>c. c \<noteq> [] \<and> length c \<le> sz) cs \<and>
    list_all (\<lambda>c. length c = sz) (butlast cs)"
  using chunk_from_total [OF assms, of xs 0] unfolding chunkArray_def
  by (cases xs) (auto simp: chunk_from.simps)

section \<open>The gas pool\<close>

record sui_ref =
  sr_digest :: string
  sr_objectId :: string
  sr_version :: string

text \<open>
  \<open>sp_executing\<close> are the coins of the transactions that are being executed, \<open>sp_refreshing\<close> those whose reference is
  fetched again after an error.
\<close>

record sui_pool =
  sp_gasPool :: "sui_ref list"
  sp_executing :: "sui_ref list"
  sp_refreshing :: "sui_ref list"

definition insufficient_gas :: "string \<Rightarrow> bool" where
  "insufficient_gas msg \<longleftrightarrow> js_includes msg ''Balance of gas object'' \<or> js_includes msg ''GasBalanceTooLow''"

text \<open>\<^verbatim>\<open>result.effects?.mutated\<close>: \<open>None\<close> when it is missing.\<close>

definition next_gas_object :: "sui_ref list option \<Rightarrow> sui_ref \<Rightarrow> sui_ref option" where
  "next_gas_object mutated gasObject =
     (case mutated of
        None \<Rightarrow> None
      | Some refs \<Rightarrow> List.find (\<lambda>ref. sr_objectId ref = sr_objectId gasObject) refs)"

text \<open>The answer to \<^verbatim>\<open>getObject\<close>: the current reference of the object, \<open>None\<close> when it has no data.\<close>

definition tryRefreshObjectReference :: "sui_ref option res \<Rightarrow> sui_ref res" where
  "tryRefreshObjectReference response =
     res_bind response (\<lambda>data. case data of None \<Rightarrow> Inl (Error ''Failed to refresh object reference'') | Some ref \<Rightarrow> Inr ref)"

definition res_option :: "'a res \<Rightarrow> 'a option" where
  "res_option r = (case r of Inl _ \<Rightarrow> None | Inr x \<Rightarrow> Some x)"

definition give_back :: "sui_ref option \<Rightarrow> sui_pool \<Rightarrow> sui_pool" where
  "give_back nextGasObject s =
     (case nextGasObject of None \<Rightarrow> s | Some ref \<Rightarrow> s\<lparr>sp_gasPool := sp_gasPool s @ [ref]\<rparr>)"

text \<open>
  The events of \<^verbatim>\<open>sendTransactionBlock\<close>: a call takes the first coin or skips the push; the execution returns
  its effects, or fails, which either loses the coin or fetches its reference again; fetching it returns a reference or throws.
\<close>

datatype sui_event =
    SendBlock
  | Executed sui_ref "sui_ref list option"
  | ExecutionFailed sui_ref string
  | Refreshed sui_ref "sui_ref option res"

inductive sui_step :: "sui_pool \<Rightarrow> sui_event \<Rightarrow> sui_pool \<Rightarrow> bool" where
  skip: "sp_gasPool s = [] \<Longrightarrow> sui_step s SendBlock s"
| take_coin: "sp_gasPool s = coin # rest \<Longrightarrow>
    sui_step s SendBlock (s\<lparr>sp_gasPool := rest, sp_executing := sp_executing s @ [coin]\<rparr>)"
| executed: "coin \<in> set (sp_executing s) \<Longrightarrow>
    sui_step s (Executed coin mutated)
      (give_back (next_gas_object mutated coin) (s\<lparr>sp_executing := remove1 coin (sp_executing s)\<rparr>))"
| no_gas: "coin \<in> set (sp_executing s) \<Longrightarrow> insufficient_gas msg \<Longrightarrow>
    sui_step s (ExecutionFailed coin msg) (s\<lparr>sp_executing := remove1 coin (sp_executing s)\<rparr>)"
| refresh: "coin \<in> set (sp_executing s) \<Longrightarrow> \<not> insufficient_gas msg \<Longrightarrow>
    sui_step s (ExecutionFailed coin msg)
      (s\<lparr>sp_executing := remove1 coin (sp_executing s), sp_refreshing := sp_refreshing s @ [coin]\<rparr>)"
| refreshed: "coin \<in> set (sp_refreshing s) \<Longrightarrow>
    sui_step s (Refreshed coin reply)
      (give_back (res_option (tryRefreshObjectReference reply)) (s\<lparr>sp_refreshing := remove1 coin (sp_refreshing s)\<rparr>))"

text \<open>
  \<^verbatim>\<open>sendTransactionBlocks\<close> starts the transactions one after the other, each up to its first \<^verbatim>\<open>await\<close>: the ones that
  are executed, with the coin that pays, and the pool after it.
\<close>

fun sendTransactionBlocks :: "'t list \<Rightarrow> sui_pool \<Rightarrow> ('t \<times> sui_ref) list \<times> sui_pool" where
  "sendTransactionBlocks [] s = ([], s)"
| "sendTransactionBlocks (tx # txs) s =
     (case sp_gasPool s of
        [] \<Rightarrow> sendTransactionBlocks txs s
      | coin # rest \<Rightarrow>
          let (sent, s') = sendTransactionBlocks txs (s\<lparr>sp_gasPool := rest, sp_executing := sp_executing s @ [coin]\<rparr>)
          in ((tx, coin) # sent, s'))"

text \<open>
  The transaction for a chunk: \<open>getLatestPriceUpdates\<close> gives \<^verbatim>\<open>response.binary.data\<close>, \<open>build\<close> stands for the client of the
  Pyth contract.  An array prints as its elements with commas between them.
\<close>

fun print_array :: "string list \<Rightarrow> string" where
  "print_array [] = []"
| "print_array [x] = x"
| "print_array (x # y # xs) = x @ '','' @ print_array (y # xs)"

definition chunk_block :: "(string list \<Rightarrow> string list res) \<Rightarrow> (string \<Rightarrow> string list \<Rightarrow> 't res) \<Rightarrow> string list \<Rightarrow> 't res" where
  "chunk_block getLatestPriceUpdates build priceIdChunk =
     res_bind (getLatestPriceUpdates priceIdChunk) (\<lambda>data.
     if length data \<noteq> 1
     then Inl (Error (''Expected a single VAA for all priceIds '' @ print_array priceIdChunk @ '' but received '' @
       show_nat (length data) @ '' VAAs: '' @ print_array data))
     else build (hd data) priceIdChunk)"

text \<open>
  The transactions of \<^verbatim>\<open>updatePriceFeed\<close> for the pool at the time of the call: the tasks of the chunks run
  in parallel and push their transaction when they are done, in the order \<open>order\<close> of their indices; the first that fails
  rejects the update.
\<close>

definition sui_updatePriceFeed ::
  "(string list \<Rightarrow> string list res) \<Rightarrow> (string \<Rightarrow> string list \<Rightarrow> 't res) \<Rightarrow> nat list \<Rightarrow> sui_pool \<Rightarrow>
   string list \<Rightarrow> jsnum list \<Rightarrow> 't list res option" where
  "sui_updatePriceFeed getLatestPriceUpdates build order s priceIds pubTimesToPush =
     (if priceIds = [] then Some (Inr [])
      else if length priceIds \<noteq> length pubTimesToPush then Some (Inl (Error ''Invalid arguments''))
      else if sp_gasPool s = [] then Some (Inr [])
      else Option.bind (chunkArray priceIds 3) (\<lambda>priceIdChunks.
        Some (map_res (\<lambda>i. chunk_block getLatestPriceUpdates build (priceIdChunks ! i)) order)))"

definition new_sui_pool :: "sui_ref list \<Rightarrow> sui_pool" where
  "new_sui_pool gasPool = \<lparr>sp_gasPool = gasPool, sp_executing = [], sp_refreshing = []\<rparr>"

section \<open>Filling the pool\<close>

text \<open>\<^verbatim>\<open>GAS_FEE_FOR_SPLIT\<close>, \<^verbatim>\<open>MAX_NUM_GAS_OBJECTS_IN_PTB\<close> and \<^verbatim>\<open>MAX_NUM_OBJECTS_IN_ARGUMENT\<close>.\<close>

definition GAS_FEE_FOR_SPLIT :: int where
  "GAS_FEE_FOR_SPLIT = 2000000000"

definition MAX_NUM_GAS_OBJECTS_IN_PTB :: nat where
  "MAX_NUM_GAS_OBJECTS_IN_PTB = 256"

definition MAX_NUM_OBJECTS_IN_ARGUMENT :: nat where
  "MAX_NUM_OBJECTS_IN_ARGUMENT = 510"

record coin_page =
  cp_data :: "sui_ref list"
  cp_hasNextPage :: bool
  cp_nextCursor :: "string option"

text \<open>
  The coins are kept as their JSON text in a \<^verbatim>\<open>Set\<close>; a reference is its three strings, so that the text and the reference
  determine each other.  \<open>None\<close> is a node that always has another page.
\<close>

partial_function (option) gas_coins_loop ::
  "(string option \<Rightarrow> coin_page res) \<Rightarrow> string option \<Rightarrow> sui_ref list \<Rightarrow> nat \<Rightarrow> sui_ref list res option" where
  "gas_coins_loop getCoins cursor coins numCoins =
     (case getCoins cursor of
        Inl e \<Rightarrow> Some (Inl e)
      | Inr paginatedCoins \<Rightarrow>
          (let numCoins = numCoins + length (cp_data paginatedCoins);
               coins = foldl (\<lambda>s c. set_add c s) coins (cp_data paginatedCoins)
           in if cp_hasNextPage paginatedCoins
              then gas_coins_loop getCoins (cp_nextCursor paginatedCoins) coins numCoins
              else Some (if numCoins \<noteq> length coins
                then Inl (Error ''Unexpected getCoins result: duplicate coins found'') else Inr coins)))"

definition getAllGasCoins :: "(string option \<Rightarrow> coin_page res) \<Rightarrow> sui_ref list res option" where
  "getAllGasCoins getCoins = gas_coins_loop getCoins None [] 0"

text \<open>
  The answer to an executed transaction: its effects (\<open>None\<close> when they are missing), or a failure with the error, its
  print, and the ids of the objects in its \<^verbatim>\<open>data\<close> (\<open>None\<close> when it has none).
\<close>

record sui_effects =
  se_error :: "string option"
  se_mutated :: "sui_ref list option"
  se_created :: "sui_ref list option"

record sui_failure =
  sf_error :: js_error
  sf_text :: string
  sf_data :: "string list option"

type_synonym sui_reply = "sui_failure + sui_effects option"

definition locked_objects :: "sui_failure \<Rightarrow> bool" where
  "locked_objects failure \<longleftrightarrow>
     js_includes (sf_text failure) ''quorum of validators because of locked objects. Retried a conflicting transaction''"

definition falsy_error :: "string option \<Rightarrow> bool" where
  "falsy_error e \<longleftrightarrow> e = None \<or> e = Some ''''"

definition effects_error :: "sui_effects option \<Rightarrow> string option" where
  "effects_error effects = Option.bind effects se_error"

definition merged_coin :: "sui_effects option \<Rightarrow> sui_ref option res" where
  "merged_coin effects =
     (if \<not> falsy_error (effects_error effects)
      then Inl (Error (''Failed to merge coins when initializing gas pool: '' @ the (effects_error effects) @ ''. Try re-running the script''))
      else case Option.bind effects se_mutated of
        None \<Rightarrow> Inl TypeError
      | Some refs \<Rightarrow> Inr (case refs of [] \<Rightarrow> None | ref # _ \<Rightarrow> Some ref))"

definition merge_payment :: "string list \<Rightarrow> sui_ref option \<Rightarrow> sui_ref list \<Rightarrow> sui_ref list" where
  "merge_payment lockedAddresses finalCoin coins =
     (case finalCoin of None \<Rightarrow> [] | Some c \<Rightarrow> [c]) @ filter (\<lambda>coin. sr_objectId coin \<notin> set lockedAddresses) coins"

text \<open>
  The loop over the chunks: the answer of the node depends on the payments sent so far, the last of which is the one it
  answers.  The result has the payments that were sent; \<open>None\<close> is a loop that retries for ever.
\<close>

partial_function (option) merge_loop ::
  "(sui_ref list list \<Rightarrow> sui_reply) \<Rightarrow> sui_ref list list \<Rightarrow> string list \<Rightarrow> sui_ref option \<Rightarrow> sui_ref list list \<Rightarrow>
   (sui_ref option res \<times> sui_ref list list) option" where
  "merge_loop execute chunks lockedAddresses finalCoin payments =
     (case chunks of
        [] \<Rightarrow> Some (Inr finalCoin, payments)
      | coins # rest \<Rightarrow>
          (let sent = payments @ [merge_payment lockedAddresses finalCoin coins]
           in case execute sent of
                Inl failure \<Rightarrow>
                  (if locked_objects failure
                   then case sf_data failure of
                          None \<Rightarrow> Some (Inl TypeError, sent)
                        | Some ids \<Rightarrow> merge_loop execute chunks (foldl (\<lambda>s x. set_add x s) lockedAddresses ids) finalCoin sent
                   else Some (Inl (sf_error failure), sent))
              | Inr effects \<Rightarrow>
                  (case merged_coin effects of
                     Inl e \<Rightarrow> Some (Inl e, sent)
                   | Inr ref \<Rightarrow> merge_loop execute rest lockedAddresses ref sent)))"

definition mergeGasCoinsIntoOne ::
  "(string option \<Rightarrow> coin_page res) \<Rightarrow> (sui_ref list list \<Rightarrow> sui_reply) \<Rightarrow> string list \<Rightarrow>
   (sui_ref option res \<times> sui_ref list list) option" where
  "mergeGasCoinsIntoOne getCoins execute initialLockedAddresses =
     Option.bind (getAllGasCoins getCoins) (\<lambda>r.
     case r of
       Inl e \<Rightarrow> Some (Inl e, [])
     | Inr gasCoins \<Rightarrow>
         if length gasCoins = 1 then Some (Inr (Some (hd gasCoins)), [])
         else Option.bind (chunkArray gasCoins (MAX_NUM_GAS_OBJECTS_IN_PTB - 2)) (\<lambda>gasCoinsChunks.
           merge_loop execute gasCoinsChunks (js_Set initialLockedAddresses) None []))"

text \<open>
  \<open>pure_u64\<close> encodes an amount, \<open>execute\<close> answers the transaction that splits the coin into these amounts, \<open>json\<close> is the JSON text of the
  references in the node's answer.
\<close>

definition splitGasCoinEqually ::
  "(jsnum \<Rightarrow> 'v res) \<Rightarrow> ('v list \<Rightarrow> sui_ref \<Rightarrow> sui_reply) \<Rightarrow> (sui_ref list \<Rightarrow> string) \<Rightarrow> jsnum \<Rightarrow> nat \<Rightarrow> sui_ref \<Rightarrow>
   sui_ref list res" where
  "splitGasCoinEqually pure_u64 execute json splitAmount numGasObjects gasCoin =
     res_bind (map_res pure_u64 (replicate numGasObjects splitAmount)) (\<lambda>amounts.
     case execute amounts gasCoin of
       Inl failure \<Rightarrow> Inl (sf_error failure)
     | Inr effects \<Rightarrow>
         if \<not> falsy_error (effects_error effects)
         then Inl (Error (''Failed to initialize gas pool: '' @ the (effects_error effects) @ ''. Try re-running the script''))
         else case Option.bind effects se_created of
           None \<Rightarrow> Inl TypeError
         | Some newCoins \<Rightarrow>
             if length newCoins \<noteq> numGasObjects
             then Inl (Error (''Failed to initialize gas pool. Expected '' @ show_nat numGasObjects @ '', got: '' @ json newCoins))
             else Inr newCoins)"

text \<open>\<^verbatim>\<open>BigInt(s)\<close> of a string.\<close>

definition BigInt_string :: "string \<Rightarrow> int res" where
  "BigInt_string str =
     (let s = js_trim str;
          invalid = Inl (Error (''Cannot convert '' @ str @ '' to a BigInt''));
          digits = (\<lambda>b ds. if ds = [] then None else map_option int (radix_value b 0 ds));
          value =
            (if s = [] then Some 0
             else if take 2 s = ''0x'' \<or> take 2 s = ''0X'' then digits 16 (drop 2 s)
             else if take 2 s = ''0o'' \<or> take 2 s = ''0O'' then digits 8 (drop 2 s)
             else if take 2 s = ''0b'' \<or> take 2 s = ''0B'' then digits 2 (drop 2 s)
             else if hd s = CHR ''-'' then map_option uminus (digits 10 (tl s))
             else if hd s = CHR ''+'' then digits 10 (tl s)
             else digits 10 s)
      in case value of None \<Rightarrow> invalid | Some n \<Rightarrow> Inr n)"

text \<open>Division of \<^verbatim>\<open>bigint\<close>s truncates towards zero and throws for the divisor 0.\<close>

definition split_amount :: "string \<Rightarrow> nat \<Rightarrow> int res" where
  "split_amount balance numGasObjects =
     res_bind (BigInt_string balance) (\<lambda>b.
     if numGasObjects = 0 then Inl RangeError else Inr ((b - GAS_FEE_FOR_SPLIT) sdiv int numGasObjects))"

text \<open>The content of an object: its data type and, of a coin, its balance.\<close>

record sui_wallet =
  sw_getCoins :: "string option \<Rightarrow> coin_page res"
  sw_merge :: "sui_ref list list \<Rightarrow> sui_reply"
  sw_getObject :: "string \<Rightarrow> (string \<times> string) option res"
  sw_json :: "sui_ref list \<Rightarrow> string"

definition initializeGasPool ::
  "sui_wallet \<Rightarrow> (jsnum \<Rightarrow> 'v res) \<Rightarrow> ('v list \<Rightarrow> sui_ref \<Rightarrow> sui_reply) \<Rightarrow> nat \<Rightarrow> string list \<Rightarrow> sui_ref list res option" where
  "initializeGasPool w pure_u64 execute numGasObjects ignoreGasObjects =
     Option.bind (mergeGasCoinsIntoOne (sw_getCoins w) (sw_merge w) ignoreGasObjects) (\<lambda>(merged, _). Some (
       res_bind merged (\<lambda>coin.
       case coin of
         None \<Rightarrow> Inl TypeError
       | Some consolidatedCoin \<Rightarrow>
           res_bind (sw_getObject w (sr_objectId consolidatedCoin)) (\<lambda>content.
           case content of
             None \<Rightarrow> Inl (Error ''Bad coin object'')
           | Some (dataType, balance) \<Rightarrow>
               if dataType \<noteq> ''moveObject'' then Inl (Error ''Bad coin object'')
               else res_bind (split_amount balance numGasObjects) (\<lambda>splitAmount.
                 splitGasCoinEqually pure_u64 execute (sw_json w) (of_integer splitAmount) numGasObjects consolidatedCoin)))))"

definition createWithAutomaticGasPool ::
  "sui_wallet \<Rightarrow> (jsnum \<Rightarrow> 'v res) \<Rightarrow> ('v list \<Rightarrow> sui_ref \<Rightarrow> sui_reply) \<Rightarrow> nat \<Rightarrow> string list \<Rightarrow> sui_pool res option" where
  "createWithAutomaticGasPool w pure_u64 execute numGasObjects ignoreGasObjects =
     (if MAX_NUM_OBJECTS_IN_ARGUMENT < numGasObjects
      then Some (Inl (Error (''numGasObjects cannot be greater than '' @ show_nat MAX_NUM_OBJECTS_IN_ARGUMENT @
        '' until we implement split chunking'')))
      else map_option (\<lambda>r. res_bind r (\<lambda>gasPool. Inr (new_sui_pool gasPool)))
        (initializeGasPool w pure_u64 execute numGasObjects ignoreGasObjects))"

section \<open>Properties of the gas pool\<close>

text \<open>A node that answers a request for an object answers with that object.\<close>

definition same_object :: "sui_event \<Rightarrow> bool" where
  "same_object e \<longleftrightarrow> (case e of Refreshed coin (Inr (Some ref)) \<Rightarrow> sr_objectId ref = sr_objectId coin | _ \<Rightarrow> True)"

definition all_coins :: "sui_pool \<Rightarrow> sui_ref multiset" where
  "all_coins s = mset (sp_gasPool s) + mset (sp_executing s) + mset (sp_refreshing s)"

text \<open>The object ids of the coins: each is one of the initial ones and none occurs twice.\<close>

definition exclusive :: "string multiset \<Rightarrow> sui_pool \<Rightarrow> bool" where
  "exclusive ids s \<longleftrightarrow> image_mset sr_objectId (all_coins s) \<subseteq># ids"

lemma distinct_submset:
  assumes "mset xs \<subseteq># mset ys" and "distinct ys"
  shows "distinct xs"
proof -
  obtain zs where "mset ys = mset (xs @ zs)" using assms(1) by (metis ex_mset mset_append mset_subset_eq_exists_conv)
  then have "distinct (xs @ zs)" using assms(2) mset_eq_imp_distinct_iff by blast
  then show ?thesis by simp
qed

lemma next_gas_object_id: "next_gas_object mutated coin = Some ref \<Longrightarrow> sr_objectId ref = sr_objectId coin"
  by (auto simp: next_gas_object_def find_Some_iff split: option.splits)

lemma all_coins_give_back:
  "all_coins (give_back r s) = all_coins s + (case r of None \<Rightarrow> {#} | Some ref \<Rightarrow> {#ref#})"
  by (simp add: give_back_def all_coins_def split: option.split)

lemma exclusive_replace:
  assumes "exclusive ids s" and "all_coins s = add_mset coin (all_coins s')"
    and "\<And>ref. r = Some ref \<Longrightarrow> sr_objectId ref = sr_objectId coin"
  shows "exclusive ids (give_back r s')"
proof (cases r)
  case None
  have "image_mset sr_objectId (all_coins s') \<subseteq># image_mset sr_objectId (all_coins s)" using assms(2) by simp
  then show ?thesis using assms(1) None by (auto simp: exclusive_def all_coins_give_back intro: subset_mset.order_trans)
next
  case (Some ref)
  then show ?thesis using assms by (simp add: exclusive_def all_coins_give_back)
qed

lemma all_coins_remove:
  "coin \<in> set (sp_executing s) \<Longrightarrow> all_coins s = add_mset coin (all_coins (s\<lparr>sp_executing := remove1 coin (sp_executing s)\<rparr>))"
  "coin \<in> set (sp_refreshing s) \<Longrightarrow> all_coins s = add_mset coin (all_coins (s\<lparr>sp_refreshing := remove1 coin (sp_refreshing s)\<rparr>))"
  by (simp_all add: all_coins_def insert_DiffM)

lemma sui_step_exclusive:
  assumes "sui_step s e s'" and "same_object e" and ex: "exclusive ids s"
  shows "exclusive ids s'"
  using assms(1)
proof (cases rule: sui_step.cases)
  case skip
  then show ?thesis using ex by simp
next
  case (take_coin coin rest)
  then show ?thesis using ex by (simp add: exclusive_def all_coins_def)
next
  case (executed coin mutated)
  then show ?thesis using exclusive_replace [OF ex all_coins_remove(1)] next_gas_object_id by blast
next
  case (no_gas coin msg)
  then show ?thesis using exclusive_replace [OF ex all_coins_remove(1), of coin None] by (simp add: give_back_def)
next
  case (refresh coin msg)
  then have "all_coins s' = all_coins s" by (simp add: all_coins_def insert_DiffM)
  then show ?thesis using ex by (simp add: exclusive_def)
next
  case (refreshed coin reply)
  have "sr_objectId ref = sr_objectId coin" if "res_option (tryRefreshObjectReference reply) = Some ref" for ref
    using that assms(2) refreshed(1)
    by (auto simp: same_object_def tryRefreshObjectReference_def res_option_def split: sum.splits option.splits)
  then show ?thesis unfolding refreshed(2) using exclusive_replace [OF ex all_coins_remove(2) [OF refreshed(3)]] by blast
qed

interpretation gas_pool: step_invariant sui_step same_object "exclusive ids" for ids
  by unfold_locales (rule sui_step_exclusive)

lemma sendTransactionBlocks_zip:
  "fst (sendTransactionBlocks txs s) = zip txs (sp_gasPool s) \<and>
   snd (sendTransactionBlocks txs s) = s\<lparr>sp_gasPool := drop (length txs) (sp_gasPool s),
     sp_executing := sp_executing s @ take (length txs) (sp_gasPool s)\<rparr>"
proof (induction txs arbitrary: s)
  case (Cons tx txs)
  show ?case
  proof (cases "sp_gasPool s")
    case Nil
    then show ?thesis using Cons.IH [of s] by simp
  next
    case (Cons coin rest)
    then show ?thesis
      using Cons.IH [of "s\<lparr>sp_gasPool := rest, sp_executing := sp_executing s @ [coin]\<rparr>"] by (simp add: case_prod_beta)
  qed
qed simp

text \<open>Starting the transactions is a run of the step relation.\<close>

lemma sendTransactionBlocks_run:
  "step_run sui_step s (replicate (length txs) SendBlock) (snd (sendTransactionBlocks txs s))"
proof (induction txs arbitrary: s)
  case (Cons tx txs)
  show ?case
  proof (cases "sp_gasPool s")
    case Nil
    then show ?thesis using Cons.IH [of s] sui_step.skip by auto
  next
    case (Cons coin rest)
    then show ?thesis
      using Cons.IH [of "s\<lparr>sp_gasPool := rest, sp_executing := sp_executing s @ [coin]\<rparr>"] sui_step.take_coin [OF Cons]
      by (auto simp: case_prod_beta)
  qed
qed simp

text \<open>
  C25. No two transactions that are under way at the same time pay with the same coin, and no coin that one of them uses is in the
  pool: whatever is sent in parallel, succeeds, fails or is refreshed in whatever order, the coins in use and in the pool
  have pairwise different object ids, all among those the pool was filled with, for a node that answers a
  request for an object with that object.
\<close>

theorem sui_gas_coins_exclusive:
  assumes "step_run sui_step (new_sui_pool gasPool) es s" and "\<forall>e \<in> set es. same_object e"
    and "distinct (map sr_objectId gasPool)"
  shows "distinct (map sr_objectId (sp_gasPool s @ sp_executing s @ sp_refreshing s)) \<and>
    set (map sr_objectId (sp_gasPool s @ sp_executing s @ sp_refreshing s)) \<subseteq> set (map sr_objectId gasPool)"
proof -
  let ?ids = "mset (map sr_objectId gasPool)" and ?now = "map sr_objectId (sp_gasPool s @ sp_executing s @ sp_refreshing s)"
  have "exclusive ?ids (new_sui_pool gasPool)" by (simp add: exclusive_def all_coins_def new_sui_pool_def)
  from gas_pool.run_keeps [OF assms(1,2) this] have sub: "mset ?now \<subseteq># ?ids"
    by (simp add: exclusive_def all_coins_def ac_simps)
  from sub have "distinct ?now" by (rule distinct_submset [OF _ assms(3)])
  moreover have "set ?now \<subseteq> set (map sr_objectId gasPool)" using set_mset_mono [OF sub] by simp
  ultimately show ?thesis by blast
qed

section \<open>Properties of merging and splitting\<close>

text \<open>The coins of accepted payments, and the ids the node has reported as locked.\<close>

fun merged_coins :: "(sui_ref list list \<Rightarrow> sui_reply) \<Rightarrow> sui_ref list list \<Rightarrow> sui_ref list list \<Rightarrow> sui_ref list" where
  "merged_coins execute earlier [] = []"
| "merged_coins execute earlier (p # ps) =
     (case execute (earlier @ [p]) of Inl _ \<Rightarrow> [] | Inr _ \<Rightarrow> p) @ merged_coins execute (earlier @ [p]) ps"

fun reported_locked :: "(sui_ref list list \<Rightarrow> sui_reply) \<Rightarrow> sui_ref list list \<Rightarrow> sui_ref list list \<Rightarrow> string list" where
  "reported_locked execute earlier [] = []"
| "reported_locked execute earlier (p # ps) =
     (case execute (earlier @ [p]) of Inl f \<Rightarrow> (case sf_data f of None \<Rightarrow> [] | Some ids \<Rightarrow> ids) | Inr _ \<Rightarrow> []) @
     reported_locked execute (earlier @ [p]) ps"

text \<open>
  A payment is rejected for locked objects.  \<open>returned_by\<close>: the coin is the first one that one of the payments, which was accepted, has changed.
  \<open>wallet_payment\<close>: at most one such coin, then at most 254 coins of the wallet, none of them one to ignore.
\<close>

definition rejected_locked :: "(sui_ref list list \<Rightarrow> sui_reply) \<Rightarrow> sui_ref list list \<Rightarrow> bool" where
  "rejected_locked execute payments \<longleftrightarrow> (case execute payments of Inl f \<Rightarrow> locked_objects f | Inr _ \<Rightarrow> False)"

definition returned_by :: "(sui_ref list list \<Rightarrow> sui_reply) \<Rightarrow> sui_ref list list \<Rightarrow> sui_ref \<Rightarrow> bool" where
  "returned_by execute payments c \<longleftrightarrow> (\<exists>n eff refs. n \<le> length payments \<and> execute (take n payments) = Inr (Some eff) \<and>
     se_mutated eff = Some (c # refs))"

definition wallet_payment ::
  "(sui_ref list list \<Rightarrow> sui_reply) \<Rightarrow> sui_ref list \<Rightarrow> string list \<Rightarrow> sui_ref list list \<Rightarrow> sui_ref list \<Rightarrow> bool" where
  "wallet_payment execute gasCoins ignored payments p \<longleftrightarrow> (\<exists>merged coins. p = merged @ coins \<and> length merged \<le> 1 \<and> length coins \<le> 254 \<and>
     (\<forall>c \<in> set merged. returned_by execute payments c) \<and>
     (\<forall>c \<in> set coins. c \<in> set gasCoins \<and> sr_objectId c \<notin> set ignored))"

lemma returned_by_append: "returned_by execute earlier c \<Longrightarrow> returned_by execute (earlier @ ps) c"
proof -
  assume "returned_by execute earlier c"
  then obtain n eff refs where "n \<le> length earlier" "execute (take n earlier) = Inr (Some eff)" "se_mutated eff = Some (c # refs)"
    unfolding returned_by_def by blast
  then show ?thesis unfolding returned_by_def by (intro exI [of _ n] exI [of _ eff] exI [of _ refs]) simp
qed

lemma wallet_payment_append: "wallet_payment execute gasCoins ignored earlier p \<Longrightarrow> wallet_payment execute gasCoins ignored (earlier @ ps) p"
  using returned_by_append unfolding wallet_payment_def by blast

lemma wallet_payment_mono:
  "wallet_payment execute gasCoins ignored payments p \<Longrightarrow> set ignored' \<subseteq> set ignored \<Longrightarrow> wallet_payment execute gasCoins ignored' payments p"
  unfolding wallet_payment_def by blast

lemma returned_by_last:
  assumes "execute payments = Inr effects" and "merged_coin effects = Inr (Some c)"
  shows "returned_by execute payments c"
proof -
  obtain refs eff where "effects = Some eff" "se_mutated eff = Some (c # refs)"
    using assms(2) by (auto simp: merged_coin_def bind_eq_Some_conv split: if_splits option.splits list.splits)
  then show ?thesis using assms(1) unfolding returned_by_def by (intro exI [of _ "length payments"]) auto
qed

lemma set_foldl_set_add [simp]: "set (foldl (\<lambda>s x. set_add x s) xs ys) = set xs \<union> set ys"
  by (induction ys arbitrary: xs) auto

lemma length_foldl_set_add:
  "length (foldl (\<lambda>s x. set_add x s) xs ys) \<le> length xs + length ys \<and>
   (length (foldl (\<lambda>s x. set_add x s) xs ys) = length xs + length ys \<longrightarrow>
     foldl (\<lambda>s x. set_add x s) xs ys = xs @ ys)"
proof (induction ys arbitrary: xs)
  case (Cons y ys)
  show ?case using Cons [of "set_add y xs"] by (auto simp: set_add_def split: if_splits)
qed simp

lemma distinct_foldl_set_add [simp]: "distinct xs \<Longrightarrow> distinct (foldl (\<lambda>s x. set_add x s) xs ys)"
  by (induction ys arbitrary: xs) (auto simp: set_add_def)

text \<open>What the loop does with the chunks it has left, after the payments \<open>earlier\<close>.\<close>

definition merge_outcome ::
  "(sui_ref list list \<Rightarrow> sui_reply) \<Rightarrow> sui_ref list \<Rightarrow> sui_ref list list \<Rightarrow> string list \<Rightarrow> sui_ref option \<Rightarrow> sui_ref list list \<Rightarrow>
   sui_ref option res \<times> sui_ref list list \<Rightarrow> bool" where
  "merge_outcome execute gasCoins chunks ignored finalCoin earlier out \<longleftrightarrow>
     (\<exists>ps. snd out = earlier @ ps \<and> (\<forall>p \<in> set ps. wallet_payment execute gasCoins ignored (earlier @ ps) p) \<and>
        (\<forall>coin. fst out = Inr coin \<longrightarrow>
           (if chunks = [] then ps = [] \<and> coin = finalCoin else \<exists>eff. execute (earlier @ ps) = Inr eff \<and> merged_coin eff = Inr coin) \<and>
           (\<forall>c \<in> set (concat chunks). c \<in> set (merged_coins execute earlier ps) \<or>
              sr_objectId c \<in> set ignored \<union> set (reported_locked execute earlier ps))))"

lemma merge_payment_wallet:
  assumes "length coins \<le> 254" and "set coins \<subseteq> set gasCoins" and "\<And>c. finalCoin = Some c \<Longrightarrow> returned_by execute earlier c"
  shows "wallet_payment execute gasCoins locked earlier (merge_payment locked finalCoin coins)"
proof -
  let ?m = "case finalCoin of None \<Rightarrow> [] | Some c \<Rightarrow> [c]" and ?cs = "filter (\<lambda>coin. sr_objectId coin \<notin> set locked) coins"
  have "length ?cs \<le> 254" by (rule order_trans [OF length_filter_le assms(1)])
  moreover have "length ?m \<le> 1" "\<forall>c \<in> set ?m. returned_by execute earlier c" using assms(3) by (auto split: option.split)
  ultimately show ?thesis
    using assms(2) unfolding wallet_payment_def merge_payment_def by (intro exI [of _ ?m] exI [of _ ?cs]) auto
qed

lemma merge_outcome_stop:
  assumes "wallet_payment execute gasCoins ignored earlier p"
  shows "merge_outcome execute gasCoins chunks ignored finalCoin earlier (Inl e, earlier @ [p])"
  using wallet_payment_append [OF assms, of "[p]"] unfolding merge_outcome_def by (intro exI [of _ "[p]"]) auto

lemma merge_outcome_retry:
  assumes "wallet_payment execute gasCoins ignored earlier p" and "chunks \<noteq> []"
    and "execute (earlier @ [p]) = Inl f" "sf_data f = Some ids"
    and "merge_outcome execute gasCoins chunks (foldl (\<lambda>s x. set_add x s) ignored ids) finalCoin (earlier @ [p]) out"
  shows "merge_outcome execute gasCoins chunks ignored finalCoin earlier out"
proof -
  obtain ps where ps: "snd out = (earlier @ [p]) @ ps"
      "\<forall>q \<in> set ps. wallet_payment execute gasCoins (foldl (\<lambda>s x. set_add x s) ignored ids) ((earlier @ [p]) @ ps) q"
      "\<forall>coin. fst out = Inr coin \<longrightarrow> (\<exists>eff. execute ((earlier @ [p]) @ ps) = Inr eff \<and> merged_coin eff = Inr coin) \<and>
         (\<forall>c \<in> set (concat chunks). c \<in> set (merged_coins execute (earlier @ [p]) ps) \<or>
           sr_objectId c \<in> (set ignored \<union> set ids) \<union> set (reported_locked execute (earlier @ [p]) ps))"
    using assms(2,5) unfolding merge_outcome_def by auto
  have "\<forall>q \<in> set (p # ps). wallet_payment execute gasCoins ignored (earlier @ p # ps) q"
    using ps(2) wallet_payment_mono [of execute gasCoins "foldl (\<lambda>s x. set_add x s) ignored ids" _ _ ignored]
      wallet_payment_append [OF assms(1), of "p # ps"] by auto
  then show ?thesis using ps(1,3) assms(2-4) unfolding merge_outcome_def by (intro exI [of _ "p # ps"]) auto
qed

lemma merge_outcome_next:
  assumes "wallet_payment execute gasCoins ignored earlier (merge_payment ignored finalCoin coins)"
    and "execute (earlier @ [merge_payment ignored finalCoin coins]) = Inr effects" and "merged_coin effects = Inr ref"
    and "merge_outcome execute gasCoins rest ignored ref (earlier @ [merge_payment ignored finalCoin coins]) out"
  shows "merge_outcome execute gasCoins (coins # rest) ignored finalCoin earlier out"
proof -
  let ?p = "merge_payment ignored finalCoin coins"
  obtain ps where ps: "snd out = (earlier @ [?p]) @ ps" "\<forall>q \<in> set ps. wallet_payment execute gasCoins ignored ((earlier @ [?p]) @ ps) q"
      "\<forall>coin. fst out = Inr coin \<longrightarrow>
         (if rest = [] then ps = [] \<and> coin = ref else \<exists>eff. execute ((earlier @ [?p]) @ ps) = Inr eff \<and> merged_coin eff = Inr coin) \<and>
         (\<forall>c \<in> set (concat rest). c \<in> set (merged_coins execute (earlier @ [?p]) ps) \<or>
           sr_objectId c \<in> set ignored \<union> set (reported_locked execute (earlier @ [?p]) ps))"
    using assms(4) unfolding merge_outcome_def by auto
  have pay: "\<forall>q \<in> set (?p # ps). wallet_payment execute gasCoins ignored (earlier @ ?p # ps) q"
    using ps(2) wallet_payment_append [OF assms(1), of "?p # ps"] by auto
  have "c \<in> set ?p \<or> sr_objectId c \<in> set ignored" if "c \<in> set coins" for c
    using that by (auto simp: merge_payment_def)
  moreover have "\<exists>eff. execute (earlier @ ?p # ps) = Inr eff \<and> merged_coin eff = Inr coin" if "fst out = Inr coin" for coin
    using ps(3) that assms(2,3) by (cases "rest = []") auto
  moreover have "set (merged_coins execute earlier (?p # ps)) = set ?p \<union> set (merged_coins execute (earlier @ [?p]) ps)"
      "reported_locked execute earlier (?p # ps) = reported_locked execute (earlier @ [?p]) ps" using assms(2) by simp_all
  ultimately show ?thesis using ps(1,3) pay unfolding merge_outcome_def
    by (intro exI [of _ "?p # ps"] conjI allI impI) (simp, blast, simp, fastforce)
qed

definition merge_measure :: "string list \<Rightarrow> sui_ref list list \<Rightarrow> nat" where
  "merge_measure locked chunks = length chunks + length (filter (\<lambda>c. sr_objectId c \<notin> set locked) (concat chunks))"

text \<open>A retry has fewer coins left, or makes the same payment again.\<close>

lemma merge_measure_retry:
  fixes locked ids :: "string list"
  defines "locked' \<equiv> foldl (\<lambda>s x. set_add x s) locked ids"
  shows "merge_measure locked' (coins # rest) < merge_measure locked (coins # rest) \<or>
    merge_measure locked' (coins # rest) = merge_measure locked (coins # rest) \<and>
    merge_payment locked' finalCoin coins = merge_payment locked finalCoin coins"
proof -
  let ?F = "filter (\<lambda>c. sr_objectId c \<notin> set locked) (concat (coins # rest))"
  have F: "filter (\<lambda>c. sr_objectId c \<notin> set locked') (concat (coins # rest)) = filter (\<lambda>c. sr_objectId c \<notin> set ids) ?F"
    unfolding filter_filter locked'_def by (rule filter_cong) auto
  show ?thesis
  proof (cases "\<exists>c \<in> set ?F. sr_objectId c \<in> set ids")
    case True
    then obtain c where "c \<in> set ?F" "sr_objectId c \<in> set ids" by blast
    then have "length (filter (\<lambda>c. sr_objectId c \<notin> set ids) ?F) < length ?F" by (intro length_filter_less [of c]) auto
    then show ?thesis using F by (simp add: merge_measure_def)
  next
    case False
    then have same: "filter (\<lambda>c. sr_objectId c \<notin> set ids) ?F = ?F" by (intro filter_True) blast
    have "filter (\<lambda>c. sr_objectId c \<notin> set locked') coins = filter (\<lambda>c. sr_objectId c \<notin> set locked) coins"
      using False by (intro filter_cong) (auto simp: locked'_def)
    then show ?thesis using F same by (simp add: merge_measure_def merge_payment_def)
  qed
qed

lemma merge_loop_accepted:
  assumes "\<not> rejected_locked execute (earlier @ [merge_payment locked finalCoin coins])"
    and "wallet_payment execute gasCoins locked earlier (merge_payment locked finalCoin coins)"
    and "\<And>effects ref. execute (earlier @ [merge_payment locked finalCoin coins]) = Inr effects \<Longrightarrow> merged_coin effects = Inr ref \<Longrightarrow>
      \<exists>out. merge_loop execute rest locked ref (earlier @ [merge_payment locked finalCoin coins]) = Some out \<and>
        merge_outcome execute gasCoins rest locked ref (earlier @ [merge_payment locked finalCoin coins]) out"
  shows "\<exists>out. merge_loop execute (coins # rest) locked finalCoin earlier = Some out \<and>
    merge_outcome execute gasCoins (coins # rest) locked finalCoin earlier out"
proof (cases "execute (earlier @ [merge_payment locked finalCoin coins])")
  case (Inl f)
  then show ?thesis using assms(1) merge_outcome_stop [OF assms(2)] by (subst merge_loop.simps) (simp add: rejected_locked_def)
next
  case (Inr effects)
  show ?thesis
  proof (cases "merged_coin effects")
    case (Inl e)
    then show ?thesis using Inr merge_outcome_stop [OF assms(2)] by (subst merge_loop.simps) simp
  next
    case (Inr ref)
    note ok = \<open>execute (earlier @ [merge_payment locked finalCoin coins]) = Inr effects\<close>
    obtain out where "merge_loop execute rest locked ref (earlier @ [merge_payment locked finalCoin coins]) = Some out"
        "merge_outcome execute gasCoins rest locked ref (earlier @ [merge_payment locked finalCoin coins]) out"
      using assms(3) [OF ok Inr] by blast
    then show ?thesis using ok Inr merge_outcome_next [OF assms(2) ok Inr] by (subst merge_loop.simps) simp
  qed
qed

lemma merge_loop_rejected:
  assumes "rejected_locked execute (earlier @ [merge_payment locked finalCoin coins])"
    and "wallet_payment execute gasCoins locked earlier (merge_payment locked finalCoin coins)"
    and "\<And>ids. \<exists>out. merge_loop execute (coins # rest) (foldl (\<lambda>s x. set_add x s) locked ids) finalCoin
          (earlier @ [merge_payment locked finalCoin coins]) = Some out \<and>
        merge_outcome execute gasCoins (coins # rest) (foldl (\<lambda>s x. set_add x s) locked ids) finalCoin
          (earlier @ [merge_payment locked finalCoin coins]) out"
  shows "\<exists>out. merge_loop execute (coins # rest) locked finalCoin earlier = Some out \<and>
    merge_outcome execute gasCoins (coins # rest) locked finalCoin earlier out"
proof -
  obtain f where f: "execute (earlier @ [merge_payment locked finalCoin coins]) = Inl f" "locked_objects f"
    using assms(1) by (auto simp: rejected_locked_def split: sum.splits)
  show ?thesis
  proof (cases "sf_data f")
    case None
    then show ?thesis using f merge_outcome_stop [OF assms(2)] by (subst merge_loop.simps) simp
  next
    case (Some ids)
    obtain out where "merge_loop execute (coins # rest) (foldl (\<lambda>s x. set_add x s) locked ids) finalCoin
          (earlier @ [merge_payment locked finalCoin coins]) = Some out"
        "merge_outcome execute gasCoins (coins # rest) (foldl (\<lambda>s x. set_add x s) locked ids) finalCoin
          (earlier @ [merge_payment locked finalCoin coins]) out"
      using assms(3) [of ids] by blast
    then show ?thesis using f Some merge_outcome_retry [OF assms(2) _ f(1) Some] by (subst merge_loop.simps) simp
  qed
qed

lemma merge_loop_outcome:
  assumes "\<forall>payments p. \<exists>k. \<not> rejected_locked execute (payments @ replicate (Suc k) p)"
    and "set (concat chunks) \<subseteq> set gasCoins" and "list_all (\<lambda>c. length c \<le> 254) chunks"
    and "\<And>c. finalCoin = Some c \<Longrightarrow> returned_by execute earlier c"
  shows "\<exists>out. merge_loop execute chunks locked finalCoin earlier = Some out \<and>
    merge_outcome execute gasCoins chunks locked finalCoin earlier out"
  using assms(2-)
proof (induction "merge_measure locked chunks" arbitrary: chunks locked finalCoin earlier rule: less_induct)
  case less
  show ?case
  proof (cases chunks)
    case Nil
    then show ?thesis by (subst merge_loop.simps) (simp add: merge_outcome_def)
  next
    case (Cons coins rest)
    let ?p = "merge_payment locked finalCoin coins"
    have coins: "length coins \<le> 254" "set coins \<subseteq> set gasCoins" using less.prems(1,2) Cons by auto
    have accepted: "\<exists>out. merge_loop execute chunks lk finalCoin es = Some out \<and> merge_outcome execute gasCoins chunks lk finalCoin es out"
      if lk: "merge_payment lk finalCoin coins = ?p" "merge_measure lk chunks = merge_measure locked chunks"
        and es: "\<And>c. finalCoin = Some c \<Longrightarrow> returned_by execute es c" and ok: "\<not> rejected_locked execute (es @ [?p])" for lk es
      unfolding Cons
    proof (rule merge_loop_accepted)
      show "\<not> rejected_locked execute (es @ [merge_payment lk finalCoin coins])" using ok lk(1) by simp
      show "wallet_payment execute gasCoins lk es (merge_payment lk finalCoin coins)" by (rule merge_payment_wallet [OF coins es])
      fix effects ref
      assume e: "execute (es @ [merge_payment lk finalCoin coins]) = Inr effects" "merged_coin effects = Inr ref"
      have "merge_measure lk rest < merge_measure locked chunks" using lk(2) by (simp add: Cons merge_measure_def)
      moreover have "returned_by execute (es @ [merge_payment lk finalCoin coins]) c" if "ref = Some c" for c
        using returned_by_last [where execute = execute and payments = "es @ [merge_payment lk finalCoin coins]", OF e(1)] e(2) that by simp
      ultimately show "\<exists>out. merge_loop execute rest lk ref (es @ [merge_payment lk finalCoin coins]) = Some out \<and>
          merge_outcome execute gasCoins rest lk ref (es @ [merge_payment lk finalCoin coins]) out"
        using less.hyps [of lk rest ref "es @ [merge_payment lk finalCoin coins]"] less.prems(1,2) Cons by auto
    qed
    have tries: "\<exists>out. merge_loop execute chunks lk finalCoin es = Some out \<and> merge_outcome execute gasCoins chunks lk finalCoin es out"
      if "\<not> rejected_locked execute (es @ replicate (Suc k) ?p)" "merge_payment lk finalCoin coins = ?p"
        "merge_measure lk chunks = merge_measure locked chunks" "\<And>c. finalCoin = Some c \<Longrightarrow> returned_by execute es c" for k lk es
      using that
    proof (induction k arbitrary: lk es)
      case (Suc k)
      have wallet: "wallet_payment execute gasCoins lk es (merge_payment lk finalCoin coins)" by (rule merge_payment_wallet [OF coins Suc.prems(4)])
      have held: "\<And>c. finalCoin = Some c \<Longrightarrow> returned_by execute (es @ [?p]) c" using Suc.prems(4) returned_by_append by blast
      show ?case
      proof (cases "rejected_locked execute (es @ [?p])")
        case True
        have "\<exists>out. merge_loop execute chunks (foldl (\<lambda>s x. set_add x s) lk ids) finalCoin (es @ [?p]) = Some out \<and>
            merge_outcome execute gasCoins chunks (foldl (\<lambda>s x. set_add x s) lk ids) finalCoin (es @ [?p]) out" for ids
          using merge_measure_retry [of lk ids coins rest finalCoin]
        proof
          assume "merge_measure (foldl (\<lambda>s x. set_add x s) lk ids) (coins # rest) < merge_measure lk (coins # rest)"
          then show ?thesis using less.hyps [OF _ less.prems(1,2) held] Suc.prems(3) Cons by simp
        next
          assume "merge_measure (foldl (\<lambda>s x. set_add x s) lk ids) (coins # rest) = merge_measure lk (coins # rest) \<and>
            merge_payment (foldl (\<lambda>s x. set_add x s) lk ids) finalCoin coins = merge_payment lk finalCoin coins"
          then show ?thesis using Suc.IH [OF _ _ _ held, of "foldl (\<lambda>s x. set_add x s) lk ids"] Suc.prems(1-3) Cons by simp
        qed
        then show ?thesis
          using merge_loop_rejected [of execute es lk finalCoin coins gasCoins rest] True wallet Suc.prems(2) Cons by simp
      next
        case False
        then show ?thesis using accepted [OF Suc.prems(2,3,4)] by simp
      qed
    qed (use accepted in simp)
    obtain k where "\<not> rejected_locked execute (earlier @ replicate (Suc k) ?p)" using assms(1) by blast
    then show ?thesis using tries less.prems(3) by blast
  qed
qed

text \<open>
  C26. Merging the coins of the wallet ends, unless the node rejects one and the same payment for locked objects again and again without end, and it uses
  up every coin it may use.  A wallet of one coin is not merged: that coin is returned, even if it is one to ignore.  For any other wallet
  every payment consists of at most one coin merged before and at most 254 coins of the wallet, none of them one to ignore, which is below the limit of 256.
  When the loop returns a coin rather than an error, that is the first coin changed by the last payment (none for an empty wallet), and each coin of the wallet is
  in a payment that was accepted, or is one to ignore, or was reported as locked.
\<close>

theorem mergeGasCoinsIntoOne_ends:
  assumes "getAllGasCoins getCoins = Some (Inr gasCoins)"
    and "\<forall>payments p. \<exists>k. \<not> rejected_locked execute (payments @ replicate (Suc k) p)"
  shows "if length gasCoins = 1 then mergeGasCoinsIntoOne getCoins execute ignored = Some (Inr (Some (hd gasCoins)), [])
    else \<exists>r payments. mergeGasCoinsIntoOne getCoins execute ignored = Some (r, payments) \<and>
      (\<forall>p \<in> set payments. length p < 256 \<and> wallet_payment execute gasCoins ignored payments p) \<and>
      (\<forall>coin. r = Inr coin \<longrightarrow>
        (if gasCoins = [] then coin = None
         else \<exists>eff. execute payments = Inr (Some eff) \<and> falsy_error (se_error eff) \<and>
           (case coin of None \<Rightarrow> se_mutated eff = Some [] | Some c \<Rightarrow> \<exists>refs. se_mutated eff = Some (c # refs))) \<and>
        (\<forall>c \<in> set gasCoins. c \<in> set (merged_coins execute [] payments) \<or>
           sr_objectId c \<in> set ignored \<union> set (reported_locked execute [] payments)))"
proof (cases "length gasCoins = 1")
  case True
  then show ?thesis using assms(1) by (simp add: mergeGasCoinsIntoOne_def)
next
  case False
  obtain cs where cs: "chunkArray gasCoins 254 = Some cs" "concat cs = gasCoins"
      "list_all (\<lambda>c. c \<noteq> [] \<and> length c \<le> 254) cs"
    using chunkArray_total [of 254 gasCoins] by auto
  have empty: "cs = [] \<longleftrightarrow> gasCoins = []" using cs(2,3) by (cases cs) auto
  have "list_all (\<lambda>c. length c \<le> 254) cs" using cs(3) by (auto simp: list_all_iff)
  then obtain out where out: "merge_loop execute cs (js_Set ignored) None [] = Some out"
      "merge_outcome execute gasCoins cs (js_Set ignored) None [] out"
    using merge_loop_outcome [OF assms(2), of cs gasCoins None "[]" "js_Set ignored"] cs(2) by auto
  have run: "mergeGasCoinsIntoOne getCoins execute ignored = Some (fst out, snd out)"
    using assms(1) False cs(1) out(1) by (simp add: mergeGasCoinsIntoOne_def MAX_NUM_GAS_OBJECTS_IN_PTB_def)
  have pay: "length p < 256 \<and> wallet_payment execute gasCoins ignored (snd out) p" if "p \<in> set (snd out)" for p
  proof -
    have "wallet_payment execute gasCoins (js_Set ignored) (snd out) p" using that out(2) unfolding merge_outcome_def by auto
    then show ?thesis unfolding wallet_payment_def by auto
  qed
  have res: "(if gasCoins = [] then coin = None
         else \<exists>eff. execute (snd out) = Inr (Some eff) \<and> falsy_error (se_error eff) \<and>
           (case coin of None \<Rightarrow> se_mutated eff = Some [] | Some c \<Rightarrow> \<exists>refs. se_mutated eff = Some (c # refs))) \<and>
      (\<forall>c \<in> set gasCoins. c \<in> set (merged_coins execute [] (snd out)) \<or>
           sr_objectId c \<in> set ignored \<union> set (reported_locked execute [] (snd out)))" if coin: "fst out = Inr coin" for coin
  proof -
    have o: "if cs = [] then coin = None else \<exists>eff. execute (snd out) = Inr eff \<and> merged_coin eff = Inr coin"
        "\<forall>c \<in> set gasCoins. c \<in> set (merged_coins execute [] (snd out)) \<or>
           sr_objectId c \<in> set ignored \<union> set (reported_locked execute [] (snd out))"
      using out(2) coin cs(2) unfolding merge_outcome_def by (auto split: if_splits)
    have "\<exists>e. eff = Some e \<and> falsy_error (se_error e) \<and>
        (case coin of None \<Rightarrow> se_mutated e = Some [] | Some c \<Rightarrow> \<exists>refs. se_mutated e = Some (c # refs))" if "merged_coin eff = Inr coin" for eff
      using that by (cases eff) (auto simp: merged_coin_def effects_error_def split: if_splits option.splits list.splits)
    then show ?thesis using o empty by (auto split: if_splits)
  qed
  show ?thesis unfolding if_not_P [OF False]
    by (intro exI [of _ "fst out"] exI [of _ "snd out"] conjI run ballI allI impI) (use pay res in blast)+
qed

text \<open>The pages a node serves from a cursor on.\<close>

fun serves :: "(string option \<Rightarrow> coin_page res) \<Rightarrow> string option \<Rightarrow> sui_ref list list \<Rightarrow> bool" where
  "serves getCoins cursor [] = False"
| "serves getCoins cursor (p # ps) =
     (case getCoins cursor of
        Inl _ \<Rightarrow> False
      | Inr page \<Rightarrow> cp_data page = p \<and> cp_hasNextPage page = (ps \<noteq> []) \<and>
          (ps \<noteq> [] \<longrightarrow> serves getCoins (cp_nextCursor page) ps))"

lemma gas_coins_loop_pages:
  assumes "serves getCoins cursor pages"
  shows "gas_coins_loop getCoins cursor coins n =
    (let all = foldl (\<lambda>s c. set_add c s) coins (concat pages) in
     Some (if n + length (concat pages) \<noteq> length all
       then Inl (Error ''Unexpected getCoins result: duplicate coins found'') else Inr all))"
  using assms
proof (induction pages arbitrary: cursor coins n)
  case (Cons p ps)
  then show ?case
    by (cases "ps = []") (subst gas_coins_loop.simps; auto simp: Let_def ac_simps split: sum.splits)+
qed simp

text \<open>All coins of all pages, or an error when one occurs twice.\<close>

lemma getAllGasCoins_pages:
  assumes "serves getCoins None pages"
  shows "getAllGasCoins getCoins = Some (if distinct (concat pages) then Inr (concat pages)
    else Inl (Error ''Unexpected getCoins result: duplicate coins found''))"
proof -
  let ?all = "foldl (\<lambda>s c. set_add c s) [] (concat pages)"
  have "length (concat pages) = length ?all \<longleftrightarrow> ?all = concat pages" using length_foldl_set_add [of "[]" "concat pages"] by auto
  moreover have "?all = concat pages \<longleftrightarrow> distinct (concat pages)"
  proof
    assume "?all = concat pages"
    then show "distinct (concat pages)" using distinct_foldl_set_add [of "[]" "concat pages"] by simp
  next
    assume "distinct (concat pages)"
    moreover have "card (set ?all) = length ?all" by (rule distinct_card) simp
    ultimately have "length ?all = length (concat pages)" by (metis distinct_card set_foldl_set_add set_empty2 sup_bot_left)
    then show "?all = concat pages" using length_foldl_set_add [of "[]" "concat pages"] by simp
  qed
  ultimately show ?thesis by (simp add: getAllGasCoins_def gas_coins_loop_pages [OF assms] Let_def)
qed

text \<open>
  C27. An update is delivered in transactions of at most three feeds, as far as the pool has coins.  When the
  price service and the contract's client answer for every chunk, the transactions are those of consecutive, non-empty
  chunks that together are the given ids, one for each chunk, in whatever order the chunks are done; they are paid with
  the first coins of the pool at the time they are sent, a different place of the pool for each, and the
  ones for which there is no coin are not sent.  In particular all are sent when the pool has as many coins as
  there are chunks.
\<close>

theorem sui_update_blocks:
  assumes "priceIds \<noteq> []" and "length priceIds = length pubTimes" and "sp_gasPool s \<noteq> []"
    and "chunkArray priceIds 3 = Some chunks" and "mset order = mset [0..<length chunks]"
    and "\<forall>c \<in> set chunks. chunk_block getLatestPriceUpdates build c = Inr (block c)"
  shows "concat chunks = priceIds \<and> list_all (\<lambda>c. c \<noteq> [] \<and> length c \<le> 3) chunks \<and>
    (\<exists>txs. sui_updatePriceFeed getLatestPriceUpdates build order s priceIds pubTimes = Some (Inr txs) \<and>
      mset txs = mset (map block chunks) \<and>
      sendTransactionBlocks txs later = (zip txs (sp_gasPool later),
        later\<lparr>sp_gasPool := drop (length chunks) (sp_gasPool later),
          sp_executing := sp_executing later @ take (length chunks) (sp_gasPool later)\<rparr>))"
proof -
  let ?txs = "map (\<lambda>i. block (chunks ! i)) order"
  have order: "set order = {..<length chunks}" using arg_cong [OF assms(5), of set_mset] by (simp add: atLeast0LessThan)
  have "map_res (\<lambda>i. chunk_block getLatestPriceUpdates build (chunks ! i)) order = Inr ?txs"
    by (rule map_res_Inr_map) (use assms(6) order in auto)
  then have "sui_updatePriceFeed getLatestPriceUpdates build order s priceIds pubTimes = Some (Inr ?txs)"
    using assms(1-4) by (simp add: sui_updatePriceFeed_def)
  moreover have "mset ?txs = mset (map block chunks)"
  proof -
    have "mset ?txs = image_mset (\<lambda>i. block (chunks ! i)) (mset [0..<length chunks])" using assms(5) by simp
    also have "\<dots> = mset (map block (map ((!) chunks) [0..<length chunks]))" by (simp add: comp_def)
    finally show ?thesis by (simp only: map_nth)
  qed
  moreover have "length ?txs = length chunks" using arg_cong [OF assms(5), of size] by simp
  moreover have "concat chunks = priceIds \<and> list_all (\<lambda>c. c \<noteq> [] \<and> length c \<le> 3) chunks"
    using chunkArray_total [of 3 priceIds] assms(4) by auto
  ultimately show ?thesis using sendTransactionBlocks_zip [of ?txs later]
    by (intro conjI exI [of _ ?txs]) (auto simp: prod_eq_iff)
qed

lemma radix_value_append: "radix_value b acc (xs @ ys) = Option.bind (radix_value b acc xs) (\<lambda>n. radix_value b n ys)"
  by (induction b acc xs rule: radix_value.induct) (auto split: option.splits)

text \<open>
  The coin that earlier chunks were merged into is in every payment, locked or not: with a node that
  rejects every payment for locked objects from some point on, the loop never returns.
\<close>

definition always_locked :: "(sui_ref list list \<Rightarrow> sui_reply) \<Rightarrow> bool" where
  "always_locked execute \<longleftrightarrow> (\<forall>sent. \<exists>f ids. execute sent = Inl f \<and> locked_objects f \<and> sf_data f = Some ids)"

lemma merge_loop_stuck:
  assumes "always_locked execute"
  shows "merge_loop execute (coins # rest) locked finalCoin payments = None"
proof (rule ccontr)
  assume "merge_loop execute (coins # rest) locked finalCoin payments \<noteq> None"
  then obtain out where ret: "merge_loop execute (coins # rest) locked finalCoin payments = Some out" by blast
  have "always_locked execute \<longrightarrow> coins # rest = []"
  proof (rule merge_loop.raw_induct [where P = "\<lambda>execute chunks _ _ _ _. always_locked execute \<longrightarrow> chunks = []", OF _ ret], goal_cases)
    case (1 f execute chunks locked finalCoin payments out)
    show ?case
    proof (cases chunks)
      case (Cons coins rest)
      show ?thesis
      proof
        assume locked: "always_locked execute"
        let ?sent = "payments @ [merge_payment locked finalCoin coins]"
        obtain failure ids where "execute ?sent = Inl failure" "locked_objects failure" "sf_data failure = Some ids"
          using locked unfolding always_locked_def by blast
        then have "f execute chunks (foldl (\<lambda>s x. set_add x s) locked ids) finalCoin ?sent = Some out"
          using 1(2) Cons by simp
        from 1(1) [OF this] locked show "chunks = []" by blast
      qed
    qed simp
  qed
  then show False using assms by simp
qed

lemma radix_digit_decimal: "n < 10 \<Longrightarrow> radix_digit (decimal_digit n) = Some n"
  by (simp add: radix_digit_def decimal_digit_def)

lemma radix_value_show_nat: "radix_value 10 0 (show_nat n) = Some n"
proof (induction n rule: show_nat.induct)
  case (1 n)
  show ?case
  proof (cases "n < 10")
    case True
    then show ?thesis by (subst show_nat.simps) (simp add: radix_digit_decimal)
  next
    case False
    then show ?thesis using 1 by (subst show_nat.simps) (simp add: radix_value_append radix_digit_decimal)
  qed
qed

lemma BigInt_string_show_nat: "BigInt_string (show_nat n) = Inr (int n)"
proof -
  have dec: "\<And>c. c \<in> set (show_nat n) \<Longrightarrow> is_decimal c" using show_nat_decimal by blast
  obtain c r where d: "show_nat n = c # r" using show_nat_not_Nil by (cases "show_nat n") auto
  have c: "is_decimal c" using dec d by simp
  have last: "\<not> js_whitespace (last (show_nat n))" using dec decimal_not_special(1) last_in_set show_nat_not_Nil by metis
  have trim: "js_trim (show_nat n) = show_nat n"
    by (rule js_trim_id) (use d c last decimal_not_special(1) in auto)
  have prefix: "take 2 (show_nat n) \<notin> {''0x'', ''0X'', ''0o'', ''0O'', ''0b'', ''0B''}"
  proof (cases r)
    case (Cons e r')
    then show ?thesis using d decimal_not_special [of e] dec by auto
  qed (simp add: d)
  have "hd (show_nat n) \<noteq> CHR ''-''" "hd (show_nat n) \<noteq> CHR ''+''" using d c decimal_not_special [of c] by simp_all
  then show ?thesis using prefix by (simp add: BigInt_string_def trim Let_def radix_value_show_nat)
qed

text \<open>
  What the pool is split into: the equal shares of a balance above the reserve together leave the
  reserve of 2 SUI for the fee and less than one unit per share beyond it; up to \<open>2\<^sup>5\<^sup>3\<close> the amount is exact as a number.
\<close>

lemma split_amount_bounds:
  assumes "GAS_FEE_FOR_SPLIT \<le> int balance" and "0 < n"
  shows "\<exists>a. split_amount (show_nat balance) n = Inr a \<and> 0 \<le> a \<and>
    int n * a \<le> int balance - GAS_FEE_FOR_SPLIT \<and> int balance - GAS_FEE_FOR_SPLIT < int n * a + int n \<and>
    (balance \<le> 2 ^ 53 \<longrightarrow> of_integer a = Fin (of_int a))"
proof -
  define d where "d = int balance - GAS_FEE_FOR_SPLIT"
  define a where "a = d div int n"
  have d: "0 \<le> d" using assms(1) by (simp add: d_def)
  have "d sdiv int n = a" using d assms(2) by (cases "d = 0") (simp_all add: signed_divide_int_def a_def)
  then have split: "split_amount (show_nat balance) n = Inr a"
    using assms(2) by (simp add: split_amount_def BigInt_string_show_nat d_def)
  have eq: "int n * a + d mod int n = d" by (simp add: a_def)
  have rem: "0 \<le> d mod int n" "d mod int n < int n" using assms(2) by simp_all
  have a: "0 \<le> a" using d by (simp add: a_def div_int_pos_iff)
  have "1 * a \<le> int n * a" by (rule mult_right_mono) (use assms(2) a in simp_all)
  then have "a \<le> d" using eq rem(1) by linarith
  then have "a \<le> int balance" by (simp add: d_def GAS_FEE_FOR_SPLIT_def)
  then have "of_integer a = Fin (of_int a)" if "balance \<le> 2 ^ 53"
  proof -
    have "int balance \<le> int (2 ^ 53)" using that by (simp only: of_nat_le_iff)
    then have "\<bar>a\<bar> \<le> 2 ^ 53" using a \<open>a \<le> int balance\<close> by simp
    then show ?thesis by (rule of_integer_exact)
  qed
  then show ?thesis using split a eq rem unfolding d_def by (intro exI [of _ a]) linarith
qed

text \<open>A pool that was filled has exactly the number of coins asked for, between 1 and 510.\<close>

lemma split_pool_size:
  "splitGasCoinEqually pure_u64 execute json amount n coin = Inr pool \<Longrightarrow> length pool = n"
  unfolding splitGasCoinEqually_def res_bind_eq_Inr
  by (elim exE conjE) (auto split: sum.split_asm option.split_asm if_split_asm)

lemma createWithAutomaticGasPool_size:
  assumes "createWithAutomaticGasPool w pure_u64 execute n ignored = Some (Inr s)"
  shows "0 < n \<and> n \<le> MAX_NUM_OBJECTS_IN_ARGUMENT \<and> length (sp_gasPool s) = n \<and> sp_executing s = [] \<and> sp_refreshing s = []"
proof -
  obtain pool where pool: "initializeGasPool w pure_u64 execute n ignored = Some (Inr pool)" "s = new_sui_pool pool"
      "n \<le> MAX_NUM_OBJECTS_IN_ARGUMENT"
    using assms by (auto simp: createWithAutomaticGasPool_def res_bind_eq_Inr split: if_splits)
  obtain coin amount balance where "split_amount balance n = Inr amount"
      "splitGasCoinEqually pure_u64 execute (sw_json w) (of_integer amount) n coin = Inr pool"
    using pool(1) by (auto simp: initializeGasPool_def bind_eq_Some_conv res_bind_eq_Inr case_prod_beta
      split: option.split_asm if_split_asm) blast
  moreover from this(1) have "0 < n" by (auto simp: split_amount_def res_bind_eq_Inr split: if_splits)
  ultimately show ?thesis using pool split_pool_size by (fastforce simp: new_sui_pool_def)
qed

section \<open>Examples\<close>

definition sample_ref :: "string \<Rightarrow> string \<Rightarrow> sui_ref" where
  "sample_ref i v = \<lparr>sr_digest = ''d'', sr_objectId = i, sr_version = v\<rparr>"

definition sample_pool :: sui_pool where
  "sample_pool = new_sui_pool [sample_ref ''a'' ''1'', sample_ref ''b'' ''1'']"

definition sample_events :: "sui_event list" where
  "sample_events = [SendBlock, SendBlock, SendBlock, ExecutionFailed (sample_ref ''b'' ''1'') ''timeout'',
     Executed (sample_ref ''a'' ''1'') (Some [sample_ref ''x'' ''7'', sample_ref ''a'' ''2'']),
     Refreshed (sample_ref ''b'' ''1'') (Inr (Some (sample_ref ''b'' ''2'')))]"

lemma sample_sui_run:
  "step_run sui_step sample_pool sample_events (new_sui_pool [sample_ref ''a'' ''2'', sample_ref ''b'' ''2''])"
  unfolding sample_events_def
proof (intro step_run.intros)
  let ?a = "sample_ref ''a'' ''1''" and ?b = "sample_ref ''b'' ''1''"
  let ?pool = "\<lambda>g e r. \<lparr>sp_gasPool = g, sp_executing = e, sp_refreshing = r\<rparr>"
  show "sui_step sample_pool SendBlock (?pool [?b] [?a] [])"
    using take_coin [of sample_pool ?a "[?b]"] by (simp add: sample_pool_def new_sui_pool_def)
  show "sui_step (?pool [?b] [?a] []) SendBlock (?pool [] [?a, ?b] [])"
    using take_coin [of "?pool [?b] [?a] []" ?b "[]"] by simp
  show "sui_step (?pool [] [?a, ?b] []) SendBlock (?pool [] [?a, ?b] [])"
    by (rule skip) simp
  show "sui_step (?pool [] [?a, ?b] []) (ExecutionFailed ?b ''timeout'') (?pool [] [?a] [?b])"
    using refresh [of ?b "?pool [] [?a, ?b] []" "''timeout''"]
    by (simp add: sample_ref_def insufficient_gas_def js_includes_def)
  show "sui_step (?pool [] [?a] [?b]) (Executed ?a (Some [sample_ref ''x'' ''7'', sample_ref ''a'' ''2'']))
      (?pool [sample_ref ''a'' ''2''] [] [?b])"
    using executed [of ?a "?pool [] [?a] [?b]" "Some [sample_ref ''x'' ''7'', sample_ref ''a'' ''2'']"]
    by (simp add: sample_ref_def next_gas_object_def give_back_def)
  show "sui_step (?pool [sample_ref ''a'' ''2''] [] [?b]) (Refreshed ?b (Inr (Some (sample_ref ''b'' ''2''))))
      (new_sui_pool [sample_ref ''a'' ''2'', sample_ref ''b'' ''2''])"
    using refreshed [of ?b "?pool [sample_ref ''a'' ''2''] [] [?b]" "Inr (Some (sample_ref ''b'' ''2''))"]
    by (simp add: tryRefreshObjectReference_def res_option_def give_back_def new_sui_pool_def)
qed simp

theorem sui_gas_coins_exclusive_witness:
  "distinct (map sr_objectId [sample_ref ''a'' ''2'', sample_ref ''b'' ''2'']) \<and>
   set (map sr_objectId [sample_ref ''a'' ''2'', sample_ref ''b'' ''2'']) \<subseteq> {''a'', ''b''}"
  using sui_gas_coins_exclusive [OF sample_sui_run [unfolded sample_pool_def]]
  by (simp add: sample_events_def same_object_def sample_ref_def new_sui_pool_def)

definition sample_getCoins :: "string option \<Rightarrow> coin_page res" where
  "sample_getCoins cursor =
     (if cursor = None then Inr \<lparr>cp_data = [sample_ref ''a'' ''1''], cp_hasNextPage = True, cp_nextCursor = Some ''a''\<rparr>
      else Inr \<lparr>cp_data = [sample_ref ''b'' ''1''], cp_hasNextPage = False, cp_nextCursor = None\<rparr>)"

text \<open>A node that has locked the coin \<^verbatim>\<open>b\<close> for the first two payments.\<close>

definition sample_execute :: "sui_ref list list \<Rightarrow> sui_reply" where
  "sample_execute sent =
     (if sent \<noteq> [] \<and> length sent < 3 \<and> sample_ref ''b'' ''1'' \<in> set (last sent)
      then Inl \<lparr>sf_error = Error ''locked'',
        sf_text = ''quorum of validators because of locked objects. Retried a conflicting transaction'', sf_data = Some [''b'']\<rparr>
      else Inr (Some \<lparr>se_error = None, se_mutated = Some [sample_ref ''a'' ''2''], se_created = None\<rparr>))"

lemma sample_wallet:
  "getAllGasCoins sample_getCoins = Some (Inr [sample_ref ''a'' ''1'', sample_ref ''b'' ''1''])"
  "\<forall>payments p. \<exists>k. \<not> rejected_locked sample_execute (payments @ replicate (Suc k) p)"
proof -
  have "serves sample_getCoins None [[sample_ref ''a'' ''1''], [sample_ref ''b'' ''1'']]" by (simp add: sample_getCoins_def)
  from getAllGasCoins_pages [OF this]
  show "getAllGasCoins sample_getCoins = Some (Inr [sample_ref ''a'' ''1'', sample_ref ''b'' ''1''])"
    by (simp add: sample_ref_def)
  have "\<not> rejected_locked sample_execute (payments @ replicate (Suc 2) p)" for payments p
    by (simp add: rejected_locked_def sample_execute_def del: replicate.simps)
  then show "\<forall>payments p. \<exists>k. \<not> rejected_locked sample_execute (payments @ replicate (Suc k) p)" by blast
qed

theorem mergeGasCoinsIntoOne_ends_witness:
  "\<exists>r payments. mergeGasCoinsIntoOne sample_getCoins sample_execute [] = Some (r, payments) \<and>
    (\<forall>p \<in> set payments. length p < 256) \<and>
    (\<forall>coin. r = Inr coin \<longrightarrow> sample_ref ''a'' ''1'' \<in> set (merged_coins sample_execute [] payments) \<or>
       ''a'' \<in> set (reported_locked sample_execute [] payments))"
  using mergeGasCoinsIntoOne_ends [OF sample_wallet, of "[]"] by (fastforce simp: sample_ref_def)

lemma sample_chunks: "chunkArray [''p'', ''q'', ''r'', ''s''] 3 = Some [[''p'', ''q'', ''r''], [''s'']]"
  by (simp add: chunkArray_def chunk_from.simps buf_subarray_def)

theorem sui_update_blocks_witness:
  "\<exists>txs. sui_updatePriceFeed (\<lambda>_. Inr [''vaa'']) (\<lambda>vaa ids. Inr (vaa, ids)) [1, 0] sample_pool
      [''p'', ''q'', ''r'', ''s''] [Fin 1, Fin 2, Fin 3, Fin 4] = Some (Inr txs) \<and>
    mset txs = {#(''vaa'', [''p'', ''q'', ''r'']), (''vaa'', [''s''])#} \<and>
    fst (sendTransactionBlocks txs sample_pool) = zip txs [sample_ref ''a'' ''1'', sample_ref ''b'' ''1'']"
proof -
  have block: "\<forall>c \<in> set [[''p'', ''q'', ''r''], [''s'']].
      chunk_block (\<lambda>_. Inr [''vaa'']) (\<lambda>vaa ids. Inr (vaa, ids)) c = Inr ((\<lambda>c. (''vaa'', c)) c)"
    by (simp add: chunk_block_def)
  show ?thesis
    using sui_update_blocks [OF _ _ _ sample_chunks _ block, of "[Fin 1, Fin 2, Fin 3, Fin 4]" sample_pool "[1, 0]" sample_pool]
    by (auto simp: sample_pool_def new_sui_pool_def)
qed

end
