(* ===== verification/Js_Print.thy ===== *)
theory Js_Print
  imports Js_Number
begin

text \<open>
  How JavaScript prints a number: \<^verbatim>\<open>toString\<close> takes the shortest decimal digits that round to the number,
  \<^verbatim>\<open>toFixed(0)\<close> the nearest integer.  Integers up to \<open>2\<^sup>5\<^sup>3\<close> print as their decimal digits.
\<close>

section \<open>Digits\<close>

definition pow10 :: "int \<Rightarrow> rat" where
  "pow10 e = (if 0 \<le> e then 10 ^ nat e else 1 / 10 ^ nat (- e))"

text \<open>\<open>dec_exponent q\<close> is the \<open>n\<close> with \<open>10\<^sup>n\<^sup>-\<^sup>1 \<le> q < 10\<^sup>n\<close>; the smallest positive double is above \<open>10\<^sup>-\<^sup>3\<^sup>2\<^sup>4\<close>.\<close>

definition dec_exponent :: "rat \<Rightarrow> int" where
  "dec_exponent q =
     (if 1 \<le> q then int (length (show_nat (nat \<lfloor>q\<rfloor>)))
      else case List.find (\<lambda>m. 1 \<le> q * 10 ^ m) [1..<325] of None \<Rightarrow> 0 | Some m \<Rightarrow> 1 - int m)"

text \<open>The best \<open>k\<close> digits for \<open>q\<close>, when some \<open>k\<close> digits round to it.\<close>

definition digits_for :: "rat \<Rightarrow> int \<Rightarrow> nat \<Rightarrow> int option" where
  "digits_for q n k =
     (let u = pow10 (n - int k); f = \<lfloor>q / u\<rfloor>; r = q / u - of_int f;
          ok = (\<lambda>s. round_double (of_int s * u) = Fin q)
      in if ok f \<and> (\<not> ok (f + 1) \<or> r < 1 / 2 \<or> (r = 1 / 2 \<and> even f)) then Some f
         else if ok (f + 1) then Some (f + 1)
         else None)"

text \<open>The digits, their number and the exponent; \<open>10\<^sup>k\<close> is the one digit 1 with the next exponent.\<close>

definition shortest :: "rat \<Rightarrow> nat \<times> nat \<times> int" where
  "shortest q =
     (let n = dec_exponent q in
      case List.find (\<lambda>k. digits_for q n k \<noteq> None) [1..<18] of
        None \<Rightarrow> (0, 0, 0)
      | Some k \<Rightarrow>
          let s = nat (the (digits_for q n k)) in if s = 10 ^ k then (1, 1, n + 1) else (s, k, n))"

section \<open>Printing\<close>

definition print_exponent :: "int \<Rightarrow> string" where
  "print_exponent e = ''e'' @ (if e < 0 then ''-'' else ''+'') @ show_nat (nat \<bar>e\<bar>)"

definition print_positive :: "rat \<Rightarrow> string" where
  "print_positive q =
     (case shortest q of (s, k, n) \<Rightarrow>
        let d = show_nat s in
        if int k \<le> n \<and> n \<le> 21 then d @ replicate (nat (n - int k)) (CHR ''0'')
        else if 0 < n \<and> n \<le> 21 then take (nat n) d @ ''.'' @ drop (nat n) d
        else if - 6 < n \<and> n \<le> 0 then ''0.'' @ replicate (nat (- n)) (CHR ''0'') @ d
        else if k = 1 then d @ print_exponent (n - 1)
        else take 1 d @ ''.'' @ drop 1 d @ print_exponent (n - 1))"

fun js_toString :: "jsnum \<Rightarrow> string" where
  "js_toString NaN = ''NaN''"
| "js_toString PosInf = ''Infinity''"
| "js_toString NegInf = ''-Infinity''"
| "js_toString NegZero = ''0''"
| "js_toString (Fin q) =
     (if q = 0 then ''0'' else if q < 0 then CHR ''-'' # print_positive (- q) else print_positive q)"

text \<open>\<^verbatim>\<open>toFixed(0)\<close>: of two nearest integers the larger one in magnitude; a number from \<open>10\<^sup>2\<^sup>1\<close> on is printed by \<^verbatim>\<open>toString\<close>.\<close>

fun js_toFixed0 :: "jsnum \<Rightarrow> string" where
  "js_toFixed0 (Fin q) =
     (if \<bar>q\<bar> < 10 ^ 21
      then (if q < 0 then CHR ''-'' # show_nat (nat \<lfloor>- q + 1 / 2\<rfloor>) else show_nat (nat \<lfloor>q + 1 / 2\<rfloor>))
      else js_toString (Fin q))"
| "js_toFixed0 x = js_toString x"

section \<open>Integers\<close>

lemma length_show_nat:
  "0 < n \<Longrightarrow> 10 ^ (length (show_nat n) - 1) \<le> n \<and> n < 10 ^ length (show_nat n)"
proof (induction n rule: show_nat.induct)
  case (1 n)
  show ?case
  proof (cases "n < 10")
    case True
    then show ?thesis using 1(2) by (subst show_nat.simps, subst (2) show_nat.simps) simp
  next
    case False
    let ?l = "length (show_nat (n div 10))"
    have ih: "10 ^ (?l - 1) \<le> n div 10" "n div 10 < 10 ^ ?l" using 1(1) False by simp_all
    have len: "length (show_nat n) = Suc ?l" using False by (subst show_nat.simps) simp
    obtain p where p: "?l = Suc p" using show_nat_not_Nil by (cases ?l) simp_all
    have "10 * 10 ^ p \<le> 10 * (n div 10)" using ih(1) p by simp
    also have "\<dots> \<le> n" by simp
    finally have "10 ^ ?l \<le> n" by (simp add: p)
    moreover have "n < 10 ^ Suc ?l" using ih(2) by (simp add: div_less_iff_less_mult)
    ultimately show ?thesis by (simp add: len)
  qed
qed

lemma show_nat_shift: "0 < s \<Longrightarrow> show_nat (s * 10 ^ j) = show_nat s @ replicate j (CHR ''0'')"
proof (induction j)
  case (Suc j)
  have "show_nat (s * 10 ^ Suc j) = show_nat (s * 10 ^ j) @ [decimal_digit 0]"
    using Suc.prems by (subst show_nat.simps) (simp add: ac_simps)
  moreover have "decimal_digit 0 = CHR ''0''" by code_simp
  ultimately show ?case using Suc by (simp add: replicate_append_same)
qed simp

text \<open>Below \<open>2\<^sup>5\<^sup>3\<close> no other integer rounds to an integer.\<close>

lemma round_double_int_inj:
  assumes "round_double (of_int m) = Fin (of_int n)" and "0 < m" and "m \<le> 10 ^ 20" and "n < 2 ^ 53"
  shows "m = n"
proof (cases "m \<le> 2 ^ 53")
  case True
  then have "of_integer m = Fin (of_int m)" using assms(2) by (intro of_integer_exact) simp
  then show ?thesis using assms(1) by (simp add: of_integer_def)
next
  case False
  let ?q = "of_int m :: rat"
  have m: "2 ^ 53 + 1 \<le> ?q"
  proof -
    have "(of_int (2 ^ 53 + 1) :: rat) \<le> of_int m" using False by (simp only: of_int_le_iff)
    then show ?thesis by simp
  qed
  have low: "pow2 (- 1022) \<le> ?q"
  proof -
    have "pow2 (- 1022) \<le> pow2 0" by (rule pow2_mono) simp
    also have "\<dots> \<le> ?q" using m by (simp add: pow2_def)
    finally show ?thesis .
  qed
  have high: "?q \<le> 2 ^ 1000"
  proof -
    have "?q \<le> of_int (10 ^ 20)" using assms(3) by (simp only: of_int_le_iff)
    also have "\<dots> \<le> 2 ^ 1000" by simp
    finally show ?thesis .
  qed
  obtain r where r: "round_double ?q = Fin r" "\<bar>r - ?q\<bar> \<le> ?q * pow2 (- 53)"
    using round_double_normal [OF low high] by blast
  have "?q - ?q * pow2 (- 53) \<le> r" using r(2) by linarith
  moreover have "(2 ^ 53 + 1) * (1 - pow2 (- 53)) \<le> ?q * (1 - pow2 (- 53))"
    by (rule mult_right_mono [OF m]) (simp add: pow2_def)
  moreover have "2 ^ 53 - 1 < (2 ^ 53 + 1) * (1 - pow2 (- 53))" by (simp add: pow2_def)
  ultimately have "2 ^ 53 - 1 < r" by (simp add: algebra_simps)
  moreover have "r = of_int n" using assms(1) r(1) by simp
  ultimately have "(of_int (2 ^ 53 - 1) :: rat) < of_int n" by simp
  then have "2 ^ 53 - 1 < n" by (simp only: of_int_less_iff)
  then show ?thesis using assms(4) by linarith
qed

lemma pow10_nat: "k \<le> l \<Longrightarrow> pow10 (int l - int k) = 10 ^ (l - k)"
  by (simp add: pow10_def of_nat_diff [symmetric] del: of_nat_diff)

text \<open>The digits found for an integer below \<open>2\<^sup>5\<^sup>3\<close> stand for exactly that integer.\<close>

lemma digits_for_int:
  fixes n :: nat
  defines "l \<equiv> length (show_nat n)"
  assumes "0 < n" and "n < 2 ^ 53" and "1 \<le> k" and "k \<le> l" and "digits_for (of_nat n) (int l) k = Some s"
  shows "s * 10 ^ (l - k) = int n"
proof -
  let ?u = "10 ^ (l - k) :: rat" and ?q = "of_nat n :: rat"
  define f where "f = \<lfloor>?q / ?u\<rfloor>"
  have u: "pow10 (int l - int k) = ?u" by (rule pow10_nat [OF assms(5)])
  have ok: "round_double (of_int s * ?u) = Fin ?q" and s: "s = f \<or> s = f + 1"
    using assms(6) unfolding digits_for_def u f_def by (auto simp: Let_def split: if_splits)
  have "10 ^ (l - 1) \<le> n" and n10: "n < 10 ^ l" using length_show_nat [OF assms(2)] by (simp_all add: l_def)
  have "10 ^ (l - k) \<le> n" using \<open>10 ^ (l - 1) \<le> n\<close> assms(4) by (meson diff_le_mono2 le_trans one_le_numeral power_increasing)
  then have uq: "?u \<le> ?q" by (metis of_nat_le_iff of_nat_numeral of_nat_power)
  then have f1: "1 \<le> f" unfolding f_def by (simp add: le_floor_iff)
  have "of_int f \<le> ?q / ?u" by (simp add: f_def)
  then have "of_int f * ?u \<le> ?q" by (simp add: field_simps)
  then have "(of_int (f * 10 ^ (l - k)) :: rat) \<le> of_int (int n)" by simp
  then have "f * 10 ^ (l - k) \<le> int n" by (simp only: of_int_le_iff)
  moreover have "(10::int) ^ (l - k) \<le> int n" using \<open>10 ^ (l - k) \<le> n\<close> by (metis of_nat_le_iff of_nat_numeral of_nat_power)
  moreover have "s * 10 ^ (l - k) = f * 10 ^ (l - k) \<or> s * 10 ^ (l - k) = f * 10 ^ (l - k) + 10 ^ (l - k)"
    using s by (auto simp: distrib_right)
  ultimately have "s * 10 ^ (l - k) \<le> 2 * int n" by linarith
  moreover have "2 * int n \<le> 10 ^ 20" using assms(3) by simp
  ultimately have high: "s * 10 ^ (l - k) \<le> 10 ^ 20" by linarith
  have pos: "0 < s * 10 ^ (l - k)" using s f1 by auto
  have "round_double (of_int (s * 10 ^ (l - k))) = Fin (of_int (int n))" using ok by simp
  then show ?thesis by (rule round_double_int_inj [OF _ pos high]) (use assms(3) in simp)
qed

lemma digits_for_all:
  fixes n :: nat
  assumes "0 < n" and "n < 2 ^ 53"
  shows "digits_for (of_nat n) (int l) l \<noteq> None"
proof -
  have "round_double (of_int (int n)) = Fin (of_int (int n))"
    using of_integer_exact [of "int n"] assms by (simp add: of_integer_def)
  then show ?thesis by (simp add: digits_for_def pow10_def Let_def)
qed

lemma print_positive_int:
  fixes n :: nat
  assumes "0 < n" and "n < 2 ^ 53"
  shows "print_positive (of_nat n) = show_nat n"
proof -
  define l where "l = length (show_nat n)"
  have n: "10 ^ (l - 1) \<le> n" "n < 10 ^ l" using length_show_nat [OF assms(1)] by (simp_all add: l_def)
  have "(10::nat) ^ (l - 1) < 10 ^ 17" using n(1) assms(2) by simp
  then have "l - 1 < 17" by (rule power_less_imp_less_exp [rotated]) simp
  then have l: "1 \<le> l" "l < 18" by (simp_all add: l_def Suc_le_eq)
  have e: "dec_exponent (of_nat n) = int l" using assms(1) by (simp add: dec_exponent_def l_def)
  obtain k where k: "List.find (\<lambda>k. digits_for (of_nat n) (int l) k \<noteq> None) [1..<18] = Some k"
    using digits_for_all [OF assms, of l] l by (fastforce simp: find_None_iff)
  obtain i where i: "i < 17" "k = Suc i" "digits_for (of_nat n) (int l) k \<noteq> None"
      "\<And>j. j < i \<Longrightarrow> digits_for (of_nat n) (int l) (Suc j) = None"
    using k by (auto simp: find_Some_iff simp del: upt_Suc)
  have kl: "k \<le> l"
  proof (rule ccontr)
    assume "\<not> k \<le> l"
    then have "l - 1 < i" using i(2) l(1) by simp
    from i(4) [OF this] digits_for_all [OF assms, of l] l(1) show False by simp
  qed
  obtain s where s: "digits_for (of_nat n) (int l) k = Some s" using i(3) by blast
  have eq: "s * 10 ^ (l - k) = int n"
    using digits_for_int [OF assms, of k s] i(2) kl s by (simp add: l_def)
  then have pos: "0 < s" using assms(1) by (smt (verit) mult_nonpos_nonneg of_nat_0_less_iff zero_le_power)
  have nat_eq: "nat s * 10 ^ (l - k) = n" using eq pos by (metis nat_int nat_mult_distrib nat_numeral nat_power_eq less_imp_le zero_le_numeral)
  have "nat s \<noteq> 10 ^ k"
  proof
    assume "nat s = 10 ^ k"
    with nat_eq have "n = 10 ^ (k + (l - k))" by (simp only: power_add)
    then have "n = 10 ^ l" using kl by simp
    then show False using n(2) by simp
  qed
  then have "shortest (of_nat n) = (nat s, k, int l)"
    unfolding shortest_def Let_def e k option.case s option.sel by (rule if_not_P)
  moreover have "show_nat (nat s) @ replicate (l - k) (CHR ''0'') = show_nat n"
    using show_nat_shift [of "nat s" "l - k"] nat_eq pos by simp
  ultimately show ?thesis using kl l(2) by (simp add: print_positive_def Let_def nat_diff_distrib)
qed

text \<open>Integers below \<open>2\<^sup>5\<^sup>3\<close> in magnitude print as their decimal digits.\<close>

lemma js_toString_int:
  assumes "\<bar>n\<bar> < 2 ^ 53"
  shows "js_toString (Fin (of_int n)) = show_int n"
proof -
  define m where "m = nat \<bar>n\<bar>"
  have m: "m < 2 ^ 53" using assms by (simp add: m_def)
  consider "n = 0" | "0 < n" | "n < 0" by linarith
  then show ?thesis
  proof cases
    case 1
    then show ?thesis by (simp add: show_int_def) code_simp
  next
    case 2
    then have "(of_int n :: rat) = of_nat m" by (simp add: m_def)
    then show ?thesis using 2 print_positive_int [of m] m by (simp add: show_int_def m_def)
  next
    case 3
    then have "- (of_int n :: rat) = of_nat m" by (simp add: m_def)
    then show ?thesis using 3 print_positive_int [of m] m by (simp add: show_int_def m_def)
  qed
qed

lemma js_toFixed0_int: "\<bar>n\<bar> < 10 ^ 21 \<Longrightarrow> js_toFixed0 (Fin (of_int n)) = show_int n"
proof -
  assume n: "\<bar>n\<bar> < 10 ^ 21"
  have fl: "\<lfloor>of_int m + 1 / 2 :: rat\<rfloor> = m" for m by linarith
  have "(of_int \<bar>n\<bar> :: rat) < of_int (10 ^ 21)" using n by (simp only: of_int_less_iff)
  then have "\<bar>of_int n :: rat\<bar> < 10 ^ 21" by simp
  then show ?thesis using fl [of n] fl [of "- n"] by (simp add: show_int_def)
qed

end
