(* ===== verification/Aptos_Pusher.thy ===== *)
theory Aptos_Pusher
  imports Evm_Pusher Js_Print
begin

text \<open>
  The Aptos back end of the price pusher (\<^verbatim>\<open>apps/price_pusher/src/aptos/aptos.ts\<close>): the listener, and the pusher with its
  local cache of the sequence number.  Updates are not awaited by the controller, so that several are under way at
  the same time; what happens between two \<^verbatim>\<open>await\<close>s is an event.  The answers of the node and the price service are arguments.
\<close>

section \<open>Listener\<close>

record aptos_price =
  ap_magnitude :: string
  ap_negative :: bool
  ap_conf :: string
  ap_timestamp :: string

definition aptos_price_info :: "aptos_price \<Rightarrow> price_info" where
  "aptos_price_info item =
     (let multiplier = (if ap_negative item then Fin (- 1) else Fin 1);
          price = js_mul multiplier (js_Number (ap_magnitude item))
      in \<lparr>pi_price = js_toString price, pi_conf = ap_conf item, pi_publishTime = js_Number (ap_timestamp item)\<rparr>)"

text \<open>The request for the resource is outside the \<^verbatim>\<open>try\<close>; \<open>None\<close> is a resource without a handle.\<close>

definition aptos_getOnChainPriceInfo ::
  "string option res \<Rightarrow> (string \<Rightarrow> string \<Rightarrow> aptos_price res) \<Rightarrow> string \<Rightarrow> price_info option res" where
  "aptos_getOnChainPriceInfo resource getTableItem priceId =
     res_bind resource (\<lambda>handle. Inr (
       case res_bind (case handle of None \<Rightarrow> Inl TypeError | Some h \<Rightarrow> getTableItem h priceId) (\<lambda>item. Inr (aptos_price_info item)) of
         Inl _ \<Rightarrow> None
       | Inr p \<Rightarrow> Some p))"

section \<open>Sequence numbers\<close>

text \<open>\<open>aq_fetching\<close> counts the requests for the account that are under way.\<close>

record aptos_pusher =
  aq_lastSequenceNumber :: "jsnum option"
  aq_sequenceNumberLocked :: bool
  aq_fetching :: nat

definition new_aptos :: aptos_pusher where
  "new_aptos = \<lparr>aq_lastSequenceNumber = None, aq_sequenceNumberLocked = False, aq_fetching = 0\<rparr>"

text \<open>\<^verbatim>\<open>tryGetNextSequenceNumber\<close> up to its \<^verbatim>\<open>await\<close>: it throws, starts a request, or returns a number.\<close>

datatype sequence_answer = SequenceThrows js_error | SequenceFetch | SequenceNumber jsnum

definition tryGetNextSequenceNumber :: "aptos_pusher \<Rightarrow> sequence_answer \<times> aptos_pusher" where
  "tryGetNextSequenceNumber s =
     (case aq_lastSequenceNumber s of
        None \<Rightarrow>
          if aq_sequenceNumberLocked s then (SequenceThrows (Error ''Waiting for sequence number in another thread.''), s)
          else (SequenceFetch, s\<lparr>aq_sequenceNumberLocked := True, aq_fetching := aq_fetching s + 1\<rparr>)
      | Some n \<Rightarrow>
          let n' = js_add n (Fin 1) in (SequenceNumber n', s\<lparr>aq_lastSequenceNumber := Some n'\<rparr>))"

text \<open>The answer to the request: the sequence number of the account as text, or an error by its print.\<close>

definition sequence_fetched :: "string + string \<Rightarrow> aptos_pusher \<Rightarrow> jsnum res \<times> aptos_pusher" where
  "sequence_fetched reply s =
     (let done = s\<lparr>aq_sequenceNumberLocked := False, aq_fetching := aq_fetching s - 1\<rparr>
      in case reply of
           Inl e \<Rightarrow> (Inl (Error (''Failed to retrieve sequence number '' @ e)), done)
         | Inr sequence_number \<Rightarrow>
             let n = js_Number sequence_number in (Inr n, done\<lparr>aq_lastSequenceNumber := Some n\<rparr>))"

section \<open>Updates\<close>

text \<open>An update before it asks for a number: it returns, throws, or has the data to push.\<close>

datatype 'd aptos_start = AptosReturns | AptosThrows js_error | AptosPush 'd

definition aptos_updatePriceFeed :: "(string list \<Rightarrow> 'd res) \<Rightarrow> string list \<Rightarrow> jsnum list \<Rightarrow> 'd aptos_start" where
  "aptos_updatePriceFeed getPriceFeedsUpdateData priceIds pubTimesToPush =
     (if priceIds = [] then AptosReturns
      else if length priceIds \<noteq> length pubTimesToPush then AptosThrows (Error ''Invalid arguments'')
      else case getPriceFeedsUpdateData priceIds of Inl _ \<Rightarrow> AptosReturns | Inr data \<Rightarrow> AptosPush data)"

record 'd aptos_transaction =
  at_function :: string
  at_arguments :: 'd
  at_sequence_number :: string

definition aptos_transaction_of :: "string \<Rightarrow> 'd \<Rightarrow> jsnum \<Rightarrow> 'd aptos_transaction" where
  "aptos_transaction_of pythContractAddress priceFeedUpdateData sequenceNumber =
     \<lparr>at_function = pythContractAddress @ ''::pyth::update_price_feeds_with_funder'',
      at_arguments = priceFeedUpdateData, at_sequence_number = js_toFixed0 sequenceNumber\<rparr>"

text \<open>Signing and submitting the transaction, and waiting for its confirmation: an error of either resets the number.\<close>

definition aptos_submitted :: "'h res \<Rightarrow> aptos_pusher \<Rightarrow> aptos_pusher" where
  "aptos_submitted pendingTx s = (case pendingTx of Inl _ \<Rightarrow> s\<lparr>aq_lastSequenceNumber := None\<rparr> | Inr _ \<Rightarrow> s)"

definition waitForTransactionConfirmation :: "unit res \<Rightarrow> aptos_pusher \<Rightarrow> aptos_pusher" where
  "waitForTransactionConfirmation confirmed s = (case confirmed of Inl _ \<Rightarrow> s\<lparr>aq_lastSequenceNumber := None\<rparr> | Inr _ \<Rightarrow> s)"

text \<open>
  The events: an update asks for a number, the node answers the request for the account, a transaction could not be
  generated (which leaves the cache as it is), was submitted or not, and was confirmed or not.
\<close>

datatype aptos_event =
    Asked sequence_answer
  | FetchDone "string + string"
  | GenerateFailed
  | Submission "string res"
  | Confirmation "unit res"

inductive aptos_step :: "aptos_pusher \<Rightarrow> aptos_event \<Rightarrow> aptos_pusher \<Rightarrow> bool" where
  ask: "tryGetNextSequenceNumber s = (answer, s') \<Longrightarrow> aptos_step s (Asked answer) s'"
| fetch_done: "0 < aq_fetching s \<Longrightarrow> aptos_step s (FetchDone reply) (snd (sequence_fetched reply s))"
| generate_failed: "aptos_step s GenerateFailed s"
| submission: "aptos_step s (Submission pendingTx) (aptos_submitted pendingTx s)"
| confirmation: "aptos_step s (Confirmation confirmed) (waitForTransactionConfirmation confirmed s)"

text \<open>The numbers that updates get from an event, and the events that reset the number.\<close>

fun handed_out :: "aptos_event \<Rightarrow> jsnum list" where
  "handed_out (Asked (SequenceNumber n)) = [n]"
| "handed_out (FetchDone (Inr sequence_number)) = [js_Number sequence_number]"
| "handed_out _ = []"

fun resets :: "aptos_event \<Rightarrow> bool" where
  "resets (Submission (Inl _)) = True"
| "resets (Confirmation (Inl _)) = True"
| "resets _ = False"

section \<open>Properties\<close>

text \<open>The lock: at most one request for the account is under way, and only while no number is known.\<close>

definition fetch_locked :: "aptos_pusher \<Rightarrow> bool" where
  "fetch_locked s \<longleftrightarrow> aq_fetching s = (if aq_sequenceNumberLocked s then 1 else 0) \<and>
     (aq_sequenceNumberLocked s \<longrightarrow> aq_lastSequenceNumber s = None)"

lemma aptos_step_locked: "aptos_step s e s' \<Longrightarrow> fetch_locked s \<Longrightarrow> fetch_locked s'"
  by (induction rule: aptos_step.induct)
    (auto simp: fetch_locked_def tryGetNextSequenceNumber_def sequence_fetched_def aptos_submitted_def
      waitForTransactionConfirmation_def Let_def split: option.splits if_splits sum.splits)

interpretation aptos_lock: step_invariant aptos_step "\<lambda>_. True" fetch_locked
  by unfold_locales (rule aptos_step_locked)

lemma js_add_one: "n < 2 ^ 53 \<Longrightarrow> js_add (Fin (of_nat n)) (Fin 1) = Fin (of_nat (Suc n))"
proof -
  assume n: "n < 2 ^ 53"
  have "round_double (of_int (int n + 1)) = Fin (of_int (int n + 1))"
    using of_integer_exact [of "int n + 1"] n by (simp add: of_integer_def)
  then show ?thesis by (simp add: add.commute)
qed

definition asks :: "aptos_event list \<Rightarrow> nat" where
  "asks es = length (filter (\<lambda>e. case e of Asked _ \<Rightarrow> True | _ \<Rightarrow> False) es)"

text \<open>A step that does not reset a known number: only an update that asks changes it.\<close>

lemma aptos_step_known:
  assumes "aptos_step s e s'" and "\<not> resets e" and "aq_lastSequenceNumber s = Some (Fin (of_nat n))" and "aq_fetching s = 0"
    and "n < 2 ^ 53"
  shows "aq_fetching s' = 0 \<and> aq_lastSequenceNumber s' = Some (Fin (of_nat (n + asks [e]))) \<and>
    handed_out e = map (\<lambda>k. Fin (of_nat k)) [Suc n..<Suc (n + asks [e])] \<and> e \<noteq> Asked SequenceFetch"
  using assms(1)
proof cases
  case (ask answer)
  then show ?thesis using assms js_add_one [OF assms(5)]
    by (auto simp: tryGetNextSequenceNumber_def asks_def Let_def)
next
  case (submission pendingTx)
  then show ?thesis using assms by (cases pendingTx) (auto simp: aptos_submitted_def asks_def)
next
  case (confirmation confirmed)
  then show ?thesis using assms by (cases confirmed) (auto simp: waitForTransactionConfirmation_def asks_def)
qed (use assms in \<open>auto simp: asks_def\<close>)

lemma aptos_run_known:
  assumes "step_run aptos_step s es s'" and "list_all (\<lambda>e. \<not> resets e) es"
    and "aq_lastSequenceNumber s = Some (Fin (of_nat n))" and "aq_fetching s = 0" and "n + length es \<le> 2 ^ 53"
  shows "aq_lastSequenceNumber s' = Some (Fin (of_nat (n + asks es))) \<and>
    concat (map handed_out es) = map (\<lambda>k. Fin (of_nat k)) [Suc n..<Suc (n + asks es)] \<and> Asked SequenceFetch \<notin> set es"
  using assms
proof (induction arbitrary: n rule: step_run.induct)
  case (run_Nil s)
  then show ?case by (simp add: asks_def)
next
  case (run_Cons s e s' es s'')
  have n: "n < 2 ^ 53" using run_Cons.prems(4) by simp
  have step: "aq_fetching s' = 0" "aq_lastSequenceNumber s' = Some (Fin (of_nat (n + asks [e])))"
      "handed_out e = map (\<lambda>k. Fin (of_nat k)) [Suc n..<Suc (n + asks [e])]" "e \<noteq> Asked SequenceFetch"
    using aptos_step_known [OF run_Cons.hyps(1) _ run_Cons.prems(2,3) n] run_Cons.prems(1) by auto
  have one: "asks [e] \<le> 1" by (simp add: asks_def)
  have all: "asks (e # es) = asks [e] + asks es" by (simp add: asks_def)
  have ih: "aq_lastSequenceNumber s'' = Some (Fin (of_nat (n + asks [e] + asks es)))"
      "concat (map handed_out es) = map (\<lambda>k. Fin (of_nat k)) [Suc (n + asks [e])..<Suc (n + asks [e] + asks es)]"
      "Asked SequenceFetch \<notin> set es"
    using run_Cons.IH [OF _ step(2,1)] run_Cons.prems(1,4) one by auto
  have "[Suc n..<Suc (n + asks [e])] @ [Suc (n + asks [e])..<Suc (n + asks [e] + asks es)] = [Suc n..<Suc (n + asks [e] + asks es)]"
    using upt_add_eq_append [of "Suc n" "Suc (n + asks [e])" "asks es"] by (simp del: upt_Suc)
  then have "map (\<lambda>k. Fin (of_nat k)) [Suc n..<Suc (n + asks [e])] @
      map (\<lambda>k. Fin (of_nat k)) [Suc (n + asks [e])..<Suc (n + asks [e] + asks es)] =
      map (\<lambda>k. Fin (of_nat k)) [Suc n..<Suc (n + asks [e] + asks es)]" by (metis map_append)
  then show ?case using step ih by (simp add: all add.assoc del: upt_Suc)
qed

text \<open>
  C28. Updates that run at the same time get consecutive sequence numbers.  In every run of the pusher at most one
  request for the account is under way; and from the answer \<open>n\<close> of such a request until the first transaction that is not
  submitted or not confirmed, the updates get exactly \<open>n\<close>, \<open>n + 1\<close>, \<open>n + 2\<close> and so on, one number each, without another
  request, for numbers up to \<open>2\<^sup>5\<^sup>3\<close>.
\<close>

theorem aptos_sequence_numbers:
  assumes "step_run aptos_step new_aptos (before @ FetchDone (Inr text) # after) s"
    and "list_all (\<lambda>e. \<not> resets e) after" and "js_Number text = Fin (of_nat n)" and "n + length after \<le> 2 ^ 53"
  shows "aq_fetching s \<le> 1 \<and>
    concat (map handed_out (FetchDone (Inr text) # after)) = map (\<lambda>k. Fin (of_nat k)) [n..<Suc (n + asks after)] \<and>
    Asked SequenceFetch \<notin> set after"
proof -
  have init: "fetch_locked new_aptos" by (simp add: fetch_locked_def new_aptos_def)
  obtain m m' where m: "step_run aptos_step new_aptos before m" "aptos_step m (FetchDone (Inr text)) m'" "step_run aptos_step m' after s"
    using assms(1) by (auto simp: step_run_append)
  have "fetch_locked m" by (rule aptos_lock.run_keeps [OF m(1) _ init]) simp
  moreover have m': "m' = snd (sequence_fetched (Inr text) m)" "0 < aq_fetching m"
    using m(2) by (auto elim: aptos_step.cases)
  ultimately have "aq_lastSequenceNumber m' = Some (Fin (of_nat n))" "aq_fetching m' = 0"
    using assms(3) by (auto simp: sequence_fetched_def fetch_locked_def Let_def split: if_splits)
  note run = aptos_run_known [OF m(3) assms(2) this assms(4)]
  have "fetch_locked s" by (rule aptos_lock.run_keeps [OF assms(1) _ init]) simp
  moreover have "[n..<Suc (n + asks after)] = n # [Suc n..<Suc (n + asks after)]" by (rule upt_conv_Cons) simp
  ultimately show ?thesis using run assms(3) by (auto simp: fetch_locked_def simp del: upt_Suc)
qed

text \<open>Below \<open>2\<^sup>5\<^sup>3\<close> the listener reports the price on chain exactly.\<close>

lemma aptos_price_exact:
  assumes "magnitude < 2 ^ 53"
  shows "pi_price (aptos_price_info \<lparr>ap_magnitude = show_nat magnitude, ap_negative = negative, ap_conf = c, ap_timestamp = t\<rparr>) =
    (if magnitude = 0 then ''0'' else show_int (if negative then - int magnitude else int magnitude))"
proof -
  have num: "js_Number (show_nat magnitude) = Fin (of_nat magnitude)"
    using js_Number_show_int [of "int magnitude"] of_integer_exact [of "int magnitude"] assms by (simp add: show_int_def)
  have rd: "round_double (of_nat magnitude) = Fin (of_nat magnitude)"
    using of_integer_exact [of "int magnitude"] assms by (simp add: of_integer_def)
  have "js_toString (Fin (of_int (int magnitude))) = show_int (int magnitude)"
    "js_toString (Fin (of_int (- int magnitude))) = show_int (- int magnitude)"
    using js_toString_int [of "int magnitude"] js_toString_int [of "- int magnitude"] assms by simp_all
  then show ?thesis using num rd
    by (auto simp: aptos_price_info_def js_mul_def signed_def Let_def)
qed

section \<open>Example\<close>

lemma sample_number: "js_Number ''7'' = Fin 7"
proof -
  have "show_int 7 = ''7''" by code_simp
  then show ?thesis using js_Number_show_int [of 7] of_integer_exact [of 7] by simp
qed

lemma sample_aptos_run:
  "step_run aptos_step new_aptos ([Asked SequenceFetch, Asked (SequenceThrows (Error ''Waiting for sequence number in another thread.''))] @
     FetchDone (Inr ''7'') # [Asked (SequenceNumber (Fin 8)), Submission (Inr ''hash''), Asked (SequenceNumber (Fin 9))])
     \<lparr>aq_lastSequenceNumber = Some (Fin 9), aq_sequenceNumberLocked = False, aq_fetching = 0\<rparr>"
proof -
  let ?s = "\<lambda>l k f. \<lparr>aq_lastSequenceNumber = l, aq_sequenceNumberLocked = k, aq_fetching = f\<rparr>"
  have seven: "js_Number ''7'' = Fin 7" by (simp add: sample_number)
  have add: "js_add (Fin 7) (Fin 1) = Fin 8" "js_add (Fin 8) (Fin 1) = Fin 9"
    using js_add_one [of 7] js_add_one [of 8] by simp_all
  have "aptos_step new_aptos (Asked SequenceFetch) (?s None True 1)"
    "aptos_step (?s None True 1) (Asked (SequenceThrows (Error ''Waiting for sequence number in another thread.''))) (?s None True 1)"
    "aptos_step (?s (Some (Fin 7)) False 0) (Asked (SequenceNumber (Fin 8))) (?s (Some (Fin 8)) False 0)"
    "aptos_step (?s (Some (Fin 8)) False 0) (Asked (SequenceNumber (Fin 9))) (?s (Some (Fin 9)) False 0)"
    by (rule ask, simp add: tryGetNextSequenceNumber_def new_aptos_def add Let_def del: js_add.simps)+
  moreover have "aptos_step (?s None True 1) (FetchDone (Inr ''7'')) (?s (Some (Fin 7)) False 0)"
    using fetch_done [of "?s None True 1" "Inr ''7''"] by (simp add: sequence_fetched_def seven Let_def)
  moreover have "aptos_step (?s (Some (Fin 8)) False 0) (Submission (Inr ''hash'')) (?s (Some (Fin 8)) False 0)"
    using submission [of "?s (Some (Fin 8)) False 0" "Inr ''hash''"] by (simp add: aptos_submitted_def)
  ultimately show ?thesis unfolding append.simps by (intro run_Cons) simp_all
qed

theorem aptos_sequence_numbers_witness:
  "concat (map handed_out [FetchDone (Inr ''7''), Asked (SequenceNumber (Fin 8)), Submission (Inr ''hash''), Asked (SequenceNumber (Fin 9))]) =
   map (\<lambda>k. Fin (of_nat k)) [7..<10]"
proof -
  have seven: "js_Number ''7'' = Fin (of_nat 7)" by (simp add: sample_number)
  have "7 + length [Asked (SequenceNumber (Fin 8)), Submission (Inr ''hash''), Asked (SequenceNumber (Fin 9))] \<le> 2 ^ 53"
    by simp
  from aptos_sequence_numbers [OF sample_aptos_run _ seven this]
  show ?thesis by (simp add: asks_def del: upt_Suc)
qed

end
