(* ===== verification/Solana_Pusher.thy ===== *)
theory Solana_Pusher
  imports Accumulator Evm_Pusher Price_Feed "HOL-Library.Multiset"
begin

text \<open>
  The Solana back ends of the price pusher (\<^verbatim>\<open>apps/price_pusher/src/solana/solana.ts\<close>) and the submission of Jito
  bundles (\<^verbatim>\<open>target_chains/solana/sdk/js/solana_utils/src/jito.ts\<close>).  The listener, the shuffled push, the tip of a bundle, the
  bundles of an update, and the loop that offers a bundle to the block engines until the time is over.  Hermes, the
  transaction builder of the receiver, the wallet and the block engines are arguments.
\<close>

section \<open>Listener\<close>

record 'bn solana_price =
  sa_conf :: 'bn
  sa_price :: 'bn
  sa_publishTime :: 'bn

text \<open>\<open>bn_toString\<close> and \<open>bn_toNumber\<close> are the methods of \<^verbatim>\<open>BN\<close>; the account is \<open>None\<close> when it does not exist.\<close>

definition solana_getOnChainPriceInfo ::
  "('bn \<Rightarrow> string) \<Rightarrow> ('bn \<Rightarrow> jsnum res) \<Rightarrow> (string \<Rightarrow> 'bn solana_price option res) \<Rightarrow> string \<Rightarrow> price_info option" where
  "solana_getOnChainPriceInfo bn_toString bn_toNumber fetchPriceFeedAccount priceId =
     (case res_bind (fetchPriceFeedAccount priceId) (\<lambda>account.
           case account of
             None \<Rightarrow> Inr None
           | Some a \<Rightarrow> res_bind (bn_toNumber (sa_publishTime a)) (\<lambda>t.
               Inr (Some \<lparr>pi_price = bn_toString (sa_price a), pi_conf = bn_toString (sa_conf a), pi_publishTime = t\<rparr>))) of
        Inl _ \<Rightarrow> None
      | Inr p \<Rightarrow> p)"

section \<open>Updates without Jito\<close>

text \<open>\<open>keys\<close> are the random numbers; \<^verbatim>\<open>sort\<close> is stable.\<close>

definition shuffled :: "rat list \<Rightarrow> string list \<Rightarrow> string list" where
  "shuffled keys priceIds = map snd (sort_key fst (zip keys priceIds))"

text \<open>
  \<open>build\<close> makes the transactions for the data, or throws, which rejects the update; whether they are sent or not the
  update returns.  \<open>None\<close> is an update for which nothing is sent.
\<close>

definition solana_updatePriceFeed ::
  "rat list \<Rightarrow> (string list \<Rightarrow> string list res) \<Rightarrow> (string list \<Rightarrow> 't list res) \<Rightarrow> string list \<Rightarrow> 't list option res" where
  "solana_updatePriceFeed keys getLatestPriceUpdates build priceIds =
     (if priceIds = [] then Inr None
      else case getLatestPriceUpdates (shuffled keys priceIds) of
        Inl _ \<Rightarrow> Inr None
      | Inr priceFeedUpdateData \<Rightarrow> res_bind (build priceFeedUpdateData) (\<lambda>transactions. Inr (Some transactions)))"

section \<open>The tip\<close>

definition js_max :: "jsnum \<Rightarrow> jsnum \<Rightarrow> jsnum" where
  "js_max x y = (if x = NaN \<or> y = NaN then NaN else if js_lt x y then y else x)"

definition LAMPORTS_PER_SOL :: jsnum where
  "LAMPORTS_PER_SOL = Fin 1000000000"

text \<open>The answer of the tip service: the median tip of the first entry as a number, \<open>NaN\<close> when it has none.\<close>

definition getRecentJitoTipLamports :: "jsnum res \<Rightarrow> jsnum option" where
  "getRecentJitoTipLamports response =
     (case response of Inl _ \<Rightarrow> None | Inr tip \<Rightarrow> Some (js_floor (js_mul tip LAMPORTS_PER_SOL)))"

record jito_pusher =
  jp_defaultJitoTipLamports :: jsnum
  jp_dynamicJitoTips :: bool
  jp_maxJitoTipLamports :: jsnum
  jp_updatesPerJitoBundle :: nat

definition cappedJitoTip :: "jito_pusher \<Rightarrow> jsnum option \<Rightarrow> jsnum" where
  "cappedJitoTip p recentJitoTip =
     (let jitoTip = (case recentJitoTip of
            None \<Rightarrow> jp_defaultJitoTipLamports p
          | Some tip \<Rightarrow> if jp_dynamicJitoTips p then js_max (jp_defaultJitoTipLamports p) tip else jp_defaultJitoTipLamports p)
      in js_min jitoTip (jp_maxJitoTipLamports p))"

section \<open>Bundles\<close>

text \<open>
  The loop over the bundles from index \<open>i\<close> on: the data of each bundle are the slices of all update data;
  \<open>send\<close> builds and submits the transactions of a bundle and may throw.  The result has the bundles that were
  submitted; \<open>None\<close> is the loop that never ends because a bundle has no updates.
\<close>

partial_function (option) bundle_loop ::
  "(bytes list \<Rightarrow> unit res) \<Rightarrow> bytes list \<Rightarrow> nat \<Rightarrow> nat \<Rightarrow> nat \<Rightarrow> (bytes list list \<times> unit res) option" where
  "bundle_loop send data n k i =
     (if i < n
      then case map_res (\<lambda>x. sliceAccumulatorUpdateData x (Some (int i)) (Some (int (i + k)))) data of
             Inl e \<Rightarrow> Some ([], Inl e)
           | Inr slices \<Rightarrow>
               (case send slices of
                  Inl e \<Rightarrow> Some ([], Inl e)
                | Inr _ \<Rightarrow>
                    Option.bind (bundle_loop send data n k (i + k)) (\<lambda>(bundles, r). Some (slices # bundles, r)))
      else Some ([], Inr ()))"

text \<open>\<open>decode\<close> is the decoding of base 64; the encoded slices are decoded again by the receiver's client.\<close>

definition jito_updatePriceFeed ::
  "(string \<Rightarrow> bytes) \<Rightarrow> (string list \<Rightarrow> string list res) \<Rightarrow> (jsnum \<Rightarrow> bytes list \<Rightarrow> unit res) \<Rightarrow> jsnum res \<Rightarrow>
   jito_pusher \<Rightarrow> string list \<Rightarrow> (bytes list list \<times> unit res) option" where
  "jito_updatePriceFeed decode getLatestPriceUpdates send tips p priceIds =
     (let tip = cappedJitoTip p (getRecentJitoTipLamports tips)
      in case getLatestPriceUpdates priceIds of
           Inl _ \<Rightarrow> Some ([], Inr ())
         | Inr priceFeedUpdateData \<Rightarrow>
             bundle_loop (send tip) (map decode priceFeedUpdateData) (length priceIds) (jp_updatesPerJitoBundle p) 0)"

section \<open>Submitting a bundle\<close>

text \<open>
  \<open>now k\<close> is the \<open>k\<close>-th value of \<^verbatim>\<open>Date.now()\<close> after the start; \<open>sendBundle c a\<close> is the error of offering the bundle to
  client \<open>c\<close> as the attempt \<open>a\<close>, \<open>None\<close> when it is accepted.  \<open>jito_clients\<close> is the loop over the clients,
  from client \<open>c\<close> to the last one.
\<close>

datatype 'e jito_progress = Sent nat | Tried nat nat "'e option"

function jito_clients ::
  "(nat \<Rightarrow> int) \<Rightarrow> (nat \<Rightarrow> nat \<Rightarrow> 'e option) \<Rightarrow> int \<Rightarrow> int \<Rightarrow> nat \<Rightarrow> nat \<Rightarrow> nat \<Rightarrow> nat \<Rightarrow> 'e option \<Rightarrow> 'e jito_progress" where
  "jito_clients now sendBundle startTime maxRetryTimeMs clients c t totalAttempts lastError =
     (if c < clients
      then case sendBundle c (totalAttempts + 1) of
             None \<Rightarrow> Sent (totalAttempts + 1)
           | Some e \<Rightarrow>
               if now t - startTime \<ge> maxRetryTimeMs then Tried (t + 1) (totalAttempts + 1) (Some e)
               else jito_clients now sendBundle startTime maxRetryTimeMs clients (c + 1) (t + 1) (totalAttempts + 1) (Some e)
      else Tried t totalAttempts lastError)"
  by pat_completeness auto
termination
  by (relation "measure (\<lambda>(_, _, _, _, clients, c, _). clients - c)") auto

declare jito_clients.simps [simp del]

text \<open>The cycles; the reading after a cycle decides whether to wait, which only changes the later readings.\<close>

partial_function (option) jito_cycles ::
  "(nat \<Rightarrow> int) \<Rightarrow> (nat \<Rightarrow> nat \<Rightarrow> 'e option) \<Rightarrow> int \<Rightarrow> int \<Rightarrow> nat \<Rightarrow> nat \<Rightarrow> nat \<Rightarrow> 'e option \<Rightarrow> 'e jito_progress option" where
  "jito_cycles now sendBundle startTime maxRetryTimeMs clients t totalAttempts lastError =
     (if now t - startTime < maxRetryTimeMs
      then case jito_clients now sendBundle startTime maxRetryTimeMs clients 0 (t + 1) totalAttempts lastError of
             Sent a \<Rightarrow> Some (Sent a)
           | Tried t' a e \<Rightarrow> jito_cycles now sendBundle startTime maxRetryTimeMs clients (t' + 1) a e
      else Some (Tried t totalAttempts lastError))"

text \<open>The result: the signature of the first transaction, the last error, or an error of its own when nothing was tried.\<close>

definition jito_result :: "(nat \<Rightarrow> int) \<Rightarrow> int \<Rightarrow> int \<Rightarrow> string \<Rightarrow> js_error jito_progress \<Rightarrow> string res" where
  "jito_result now startTime maxRetryTimeMs firstTransactionSignature progress =
     (case progress of
        Sent _ \<Rightarrow> Inr firstTransactionSignature
      | Tried t totalAttempts lastError \<Rightarrow>
          (case lastError of
             Some e \<Rightarrow> Inl e
           | None \<Rightarrow> Inl (Error (''Failed to send transactions via JITO after '' @ show_nat totalAttempts @ '' attempts over '' @
               show_int (now (t + 1) - startTime) @ ''ms (max: '' @ show_int maxRetryTimeMs @ ''ms)''))))"

text \<open>\<open>signature\<close> is the first signature of the signed transactions; an option of 0 is replaced by the default.\<close>

definition sendTransactionsJito ::
  "(nat \<Rightarrow> int) \<Rightarrow> (nat \<Rightarrow> nat \<Rightarrow> js_error option) \<Rightarrow> nat \<Rightarrow> string res \<Rightarrow> int option \<Rightarrow> string res option" where
  "sendTransactionsJito now sendBundle clients signature maxRetry =
     (if clients = 0 then Some (Inl (Error ''No searcher clients provided''))
      else
        let maxRetryTimeMs = (case maxRetry of None \<Rightarrow> 60000 | Some m \<Rightarrow> if m = 0 then 60000 else m);
            startTime = now 0
        in case signature of
             Inl e \<Rightarrow> Some (Inl e)
           | Inr firstTransactionSignature \<Rightarrow>
               map_option (jito_result now startTime maxRetryTimeMs firstTransactionSignature)
                 (jito_cycles now sendBundle startTime maxRetryTimeMs clients 1 0 None))"

section \<open>Properties of updates\<close>

text \<open>The shuffled ids are the ids.\<close>

lemma mset_shuffled: "length keys = length priceIds \<Longrightarrow> mset (shuffled keys priceIds) = mset priceIds"
proof -
  assume "length keys = length priceIds"
  then have "mset (map snd (zip keys priceIds)) = mset priceIds" by simp
  then show ?thesis unfolding shuffled_def mset_map mset_sort .
qed

text \<open>The tip is the larger of the default and the recent one, up to the maximum, unless the recent one is not a number.\<close>

lemma cappedJitoTip_value:
  "cappedJitoTip \<lparr>jp_defaultJitoTipLamports = Fin d, jp_dynamicJitoTips = True, jp_maxJitoTipLamports = Fin m, jp_updatesPerJitoBundle = k\<rparr>
     (Some (Fin r)) = Fin (min (max d r) m)"
  by (auto simp: cappedJitoTip_def js_max_def js_min_def Let_def min_def max_def)

lemma cappedJitoTip_NaN: "jp_dynamicJitoTips p \<Longrightarrow> cappedJitoTip p (Some NaN) = NaN"
  by (simp add: cappedJitoTip_def js_max_def js_min_def)

lemma js_slice_window: "js_slice (Some (int i)) (Some (int (i + k))) us = take k (drop i us)"
proof -
  have "slice_index (length us) (int n) = min (length us) n" for n by (simp add: slice_index_def)
  then show ?thesis by (cases "i \<le> length us") (auto simp: js_slice_def Let_def min_def simp del: of_nat_add)
qed

text \<open>What \<open>parseAccumulatorUpdateData\<close> reads from a slice.\<close>

lemma slice_window:
  assumes "parseAccumulatorUpdateData x = Inr a"
  shows "\<exists>d. sliceAccumulatorUpdateData x (Some (int i)) (Some (int (i + k))) = Inr d \<and>
    parseAccumulatorUpdateData d = Inr (a\<lparr>aud_updates := take k (drop i (aud_updates a))\<rparr>)"
proof -
  obtain tr pt where acc: "length tr < 256" "wf_accumulator a"
      "\<And>s e. sliceAccumulatorUpdateData x s e = Inr (encode_accumulator tr pt (a\<lparr>aud_updates := js_slice s e (aud_updates a)\<rparr>))"
    using parse_accumulator_sound [OF assms] by metis
  let ?us = "take k (drop i (aud_updates a))"
  have "wf_accumulator (a\<lparr>aud_updates := ?us\<rparr>)"
    using wf_accumulator_slice [OF acc(2), of "Some (int i)" "Some (int (i + k))"] unfolding js_slice_window .
  then have "parseAccumulatorUpdateData (encode_accumulator tr pt (a\<lparr>aud_updates := ?us\<rparr>)) = Inr (a\<lparr>aud_updates := ?us\<rparr>)"
    by (intro parse_encode_accumulator) (use acc in auto)
  then show ?thesis using acc(3) unfolding js_slice_window [symmetric] by blast
qed

text \<open>The bundles for the update data \<open>x\<close>, the \<open>j\<close>-th of each bundle: consecutive pieces of its updates under the same VAA.\<close>

definition pieces :: "nat \<Rightarrow> bytes list list \<Rightarrow> nat \<Rightarrow> accumulator_update_data \<Rightarrow> bool" where
  "pieces k bundles j a \<longleftrightarrow>
     (\<exists>uss. list_all2 (\<lambda>b us. parseAccumulatorUpdateData (b ! j) = Inr (a\<lparr>aud_updates := us\<rparr>) \<and> length us \<le> k) bundles uss \<and>
       concat uss = aud_updates a)"

lemma pieces_Cons:
  assumes "parseAccumulatorUpdateData (b ! j) = Inr (a\<lparr>aud_updates := take k us\<rparr>)"
    and "pieces k bundles j (a\<lparr>aud_updates := drop k us\<rparr>)"
  shows "pieces k (b # bundles) j (a\<lparr>aud_updates := us\<rparr>)"
proof -
  obtain uss where "list_all2 (\<lambda>b us. parseAccumulatorUpdateData (b ! j) = Inr (a\<lparr>aud_updates := us\<rparr>) \<and> length us \<le> k) bundles uss"
      "concat uss = drop k us"
    using assms(2) by (auto simp: pieces_def)
  then show ?thesis using assms(1) unfolding pieces_def by (intro exI [of _ "take k us # uss"]) simp
qed

lemma bundle_loop_pieces:
  assumes "0 < k" and "list_all2 (\<lambda>x a. parseAccumulatorUpdateData x = Inr a \<and> length (aud_updates a) \<le> n) data as"
    and "\<And>b. send b = Inr ()"
  shows "\<exists>bundles. bundle_loop send data n k i = Some (bundles, Inr ()) \<and> (\<forall>b \<in> set bundles. length b = length data) \<and>
    (\<forall>j < length data. pieces k bundles j ((as ! j)\<lparr>aud_updates := drop i (aud_updates (as ! j))\<rparr>))"
proof (induction "n - i" arbitrary: i rule: less_induct)
  case less
  show ?case
  proof (cases "i < n")
    case True
    define slice where "slice = (\<lambda>x. projr (sliceAccumulatorUpdateData x (Some (int i)) (Some (int (i + k)))))"
    have slice: "sliceAccumulatorUpdateData x (Some (int i)) (Some (int (i + k))) = Inr (slice x)" if "x \<in> set data" for x
    proof -
      obtain a where "parseAccumulatorUpdateData x = Inr a" using assms(2) \<open>x \<in> set data\<close>
        by (auto simp: list_all2_conv_all_nth in_set_conv_nth)
      from slice_window [OF this, of i k] show ?thesis by (auto simp: slice_def)
    qed
    have slices: "map_res (\<lambda>x. sliceAccumulatorUpdateData x (Some (int i)) (Some (int (i + k)))) data = Inr (map slice data)"
      by (rule map_res_Inr_map) (rule slice)
    have "n - (i + k) < n - i" using True assms(1) by arith
    from less [OF this] obtain bundles where rest: "bundle_loop send data n k (i + k) = Some (bundles, Inr ())"
        "\<forall>b \<in> set bundles. length b = length data"
        "\<forall>j < length data. pieces k bundles j ((as ! j)\<lparr>aud_updates := drop (i + k) (aud_updates (as ! j))\<rparr>)"
      by blast
    have "bundle_loop send data n k i = Some (map slice data # bundles, Inr ())"
      using True slices assms(3) rest(1) by (subst bundle_loop.simps) simp
    moreover have "pieces k (map slice data # bundles) j ((as ! j)\<lparr>aud_updates := drop i (aud_updates (as ! j))\<rparr>)"
      if j: "j < length data" for j
    proof -
      have "parseAccumulatorUpdateData (data ! j) = Inr (as ! j)" using assms(2) j by (auto simp: list_all2_conv_all_nth)
      from slice_window [OF this, of i k] slice [of "data ! j"] j
      have "parseAccumulatorUpdateData (map slice data ! j) = Inr ((as ! j)\<lparr>aud_updates := take k (drop i (aud_updates (as ! j)))\<rparr>)"
        by simp
      moreover have "pieces k bundles j ((as ! j)\<lparr>aud_updates := drop k (drop i (aud_updates (as ! j)))\<rparr>)"
        using rest(3) j by (simp add: add.commute)
      ultimately show ?thesis by (rule pieces_Cons)
    qed
    ultimately show ?thesis using rest(2) by (intro exI [of _ "map slice data # bundles"]) auto
  next
    case False
    have "pieces k [] j ((as ! j)\<lparr>aud_updates := drop i (aud_updates (as ! j))\<rparr>)" if "j < length data" for j
      using assms(2) False that by (auto simp: pieces_def list_all2_conv_all_nth)
    then show ?thesis using False by (subst bundle_loop.simps) auto
  qed
qed

text \<open>
  C29. Jito bundles deliver every update.  For accumulator updates with no more updates than feeds asked for and block engines that take
  every bundle, the push ends, and for each of the update data the bundles contain, under its VAA and as far as
  \<^verbatim>\<open>parseAccumulatorUpdateData\<close> reads them, consecutive pieces of at most \<^verbatim>\<open>updatesPerJitoBundle\<close> updates, which together
  are all its updates, each once and in order.
\<close>

theorem jito_bundles_complete:
  assumes "0 < jp_updatesPerJitoBundle p" and "getLatestPriceUpdates priceIds = Inr strs"
    and "list_all2 (\<lambda>x a. parseAccumulatorUpdateData (decode x) = Inr a \<and> length (aud_updates a) \<le> length priceIds) strs as"
    and "\<forall>tip b. send tip b = Inr ()"
  shows "\<exists>bundles. jito_updatePriceFeed decode getLatestPriceUpdates send tips p priceIds = Some (bundles, Inr ()) \<and>
    (\<forall>b \<in> set bundles. length b = length strs) \<and>
    (\<forall>j < length strs. pieces (jp_updatesPerJitoBundle p) bundles j (as ! j))"
proof -
  have "list_all2 (\<lambda>x a. parseAccumulatorUpdateData x = Inr a \<and> length (aud_updates a) \<le> length priceIds) (map decode strs) as"
    using assms(3) by (simp add: list_all2_map1)
  from bundle_loop_pieces [OF assms(1) this, of "send (cappedJitoTip p (getRecentJitoTipLamports tips))" 0]
  show ?thesis using assms(2,4) by (auto simp: jito_updatePriceFeed_def Let_def)
qed

section \<open>Properties of submitting a bundle\<close>

text \<open>
  Attempt \<open>a\<close>, counted from 0, goes to client \<open>a mod clients\<close>.  \<open>check_reading\<close> is the number of the clock reading that
  is taken last before it: a cycle reads the clock once at its start, after each of its attempts, and once at its end.
\<close>

definition check_reading :: "nat \<Rightarrow> nat \<Rightarrow> nat" where
  "check_reading clients a = 1 + (a div clients) * (clients + 2) + a mod clients"

definition in_time :: "(nat \<Rightarrow> int) \<Rightarrow> int \<Rightarrow> int \<Rightarrow> nat \<Rightarrow> nat \<Rightarrow> bool" where
  "in_time now startTime maxTime clients a \<longleftrightarrow> now (check_reading clients a) - startTime < maxTime"

text \<open>The first \<open>n\<close> attempts were made in time and failed, the last of them with the error \<open>e\<close>.\<close>

definition failed :: "(nat \<Rightarrow> int) \<Rightarrow> (nat \<Rightarrow> nat \<Rightarrow> 'e option) \<Rightarrow> int \<Rightarrow> int \<Rightarrow> nat \<Rightarrow> nat \<Rightarrow> 'e option \<Rightarrow> bool" where
  "failed now sendBundle startTime maxTime clients n e \<longleftrightarrow>
     (\<forall>a < n. in_time now startTime maxTime clients a \<and> sendBundle (a mod clients) (a + 1) \<noteq> None) \<and>
     e = (if n = 0 then None else sendBundle ((n - 1) mod clients) n)"

lemma check_reading_cycle:
  assumes "c < clients"
  shows "check_reading clients (q * clients + c) = 1 + q * (clients + 2) + c"
  using assms by (simp add: check_reading_def)

lemma check_reading_next: "0 < clients \<Longrightarrow> check_reading clients (q * clients + clients) = 1 + q * (clients + 2) + clients + 2"
  using check_reading_cycle [of 0 clients "q + 1"] by (simp add: algebra_simps)

lemma failed_Suc:
  assumes "failed now sendBundle startTime maxTime clients n e" and "in_time now startTime maxTime clients n"
    and "sendBundle (n mod clients) (n + 1) = Some e'"
  shows "failed now sendBundle startTime maxTime clients (n + 1) (Some e')"
  using assms by (auto simp: failed_def less_Suc_eq)

text \<open>The loop over the clients in cycle \<open>q\<close>: it is accepted, or reaches the end of the cycle, or stops because the time is over.\<close>

lemma jito_clients_outcome:
  assumes "0 < clients" and "c \<le> clients" and "failed now sendBundle startTime maxTime clients (q * clients + c) e"
    and "c < clients \<Longrightarrow> in_time now startTime maxTime clients (q * clients + c)"
  shows "case jito_clients now sendBundle startTime maxTime clients c (2 + q * (clients + 2) + c) (q * clients + c) e of
      Sent a \<Rightarrow> (\<exists>n e. a = n + 1 \<and> failed now sendBundle startTime maxTime clients n e \<and>
        in_time now startTime maxTime clients n \<and> sendBundle (n mod clients) (n + 1) = None)
    | Tried t n e \<Rightarrow> failed now sendBundle startTime maxTime clients n e \<and> 2 + q * (clients + 2) \<le> t \<and>
        (n = (q + 1) * clients \<and> t = 2 + q * (clients + 2) + clients \<or>
         0 < n \<and> \<not> in_time now startTime maxTime clients n \<and> check_reading clients n < t)"
  using assms(2-4)
proof (induction "clients - c" arbitrary: c e)
  case 0
  then show ?case using assms(1) by (subst jito_clients.simps) simp
next
  case (Suc m)
  let ?n = "q * clients + c" and ?t = "2 + q * (clients + 2) + c"
  have c: "c < clients" using Suc.hyps(2) by simp
  have idx: "?n mod clients = c" using c by simp
  show ?case
  proof (cases "sendBundle c (?n + 1)")
    case None
    then show ?thesis using c Suc.prems(2,3) idx by (subst jito_clients.simps) auto
  next
    case (Some e')
    have fail: "failed now sendBundle startTime maxTime clients (?n + 1) (Some e')"
      using failed_Suc [OF Suc.prems(2) Suc.prems(3) [OF c]] Some idx by simp
    have next_check: "check_reading clients (?n + 1) = ?t" if "c + 1 < clients"
      using check_reading_cycle [OF that, of q] by simp
    show ?thesis
    proof (cases "maxTime \<le> now ?t - startTime")
      case True
      have "\<not> in_time now startTime maxTime clients (?n + 1)" if "c + 1 < clients"
        using True next_check [OF that] by (simp add: in_time_def)
      moreover have "?n + 1 = (q + 1) * clients \<and> ?t + 1 = 2 + q * (clients + 2) + clients" if "\<not> c + 1 < clients"
        using that c by simp
      ultimately have "?n + 1 = (q + 1) * clients \<and> ?t + 1 = 2 + q * (clients + 2) + clients \<or>
          \<not> in_time now startTime maxTime clients (?n + 1) \<and> check_reading clients (?n + 1) < ?t + 1"
        using next_check by (cases "c + 1 < clients") simp_all
      then show ?thesis using True c Some fail by (subst jito_clients.simps) simp
    next
      case False
      have m: "m = clients - (c + 1)" using Suc.hyps(2) by simp
      have "in_time now startTime maxTime clients (q * clients + (c + 1))" if "c + 1 < clients"
        using False next_check [OF that] by (simp add: in_time_def add.assoc)
      with Suc.hyps(1) [OF m _ _ this] fail c
      show ?thesis using Some False by (subst jito_clients.simps) (simp add: add.assoc)
    qed
  qed
qed

lemma jito_cycles_outcome:
  assumes "mono now" and "0 < clients" and "maxTime \<le> now T - startTime"
    and "failed now sendBundle startTime maxTime clients n e"
    and "n = q * clients \<and> t = 1 + q * (clients + 2) \<or>
      0 < n \<and> \<not> in_time now startTime maxTime clients n \<and> check_reading clients n \<le> t"
  shows "\<exists>n' p. jito_cycles now sendBundle startTime maxTime clients t n e = Some p \<and>
    (case p of
       Sent a \<Rightarrow> a = n' + 1 \<and> (\<exists>e. failed now sendBundle startTime maxTime clients n' e) \<and>
         in_time now startTime maxTime clients n' \<and> sendBundle (n' mod clients) (n' + 1) = None
     | Tried t' a e' \<Rightarrow> a = n' \<and> failed now sendBundle startTime maxTime clients n' e' \<and>
         \<not> in_time now startTime maxTime clients n' \<and> (n = 0 \<or> 0 < n') \<and> (n' = 0 \<longrightarrow> t' = t))"
  using assms(4,5)
proof (induction "T - t" arbitrary: t n e q rule: less_induct)
  case less
  show ?case
  proof (cases "now t - startTime < maxTime")
    case True
    have "\<not> T \<le> t" using monoD [OF assms(1), of T t] assms(3) True by auto
    have q: "n = q * clients" "t = 1 + q * (clients + 2)"
      using less.prems(2) True monoD [OF assms(1), of "check_reading clients n" t] by (auto simp: in_time_def)
    have "in_time now startTime maxTime clients (q * clients + 0)"
      using True check_reading_cycle [OF assms(2), of q] by (simp add: in_time_def q(2))
    note round = jito_clients_outcome [OF assms(2) le0, of now sendBundle startTime maxTime q e, simplified, OF _ this [simplified]]
    show ?thesis
    proof (cases "jito_clients now sendBundle startTime maxTime clients 0 (t + 1) n e")
      case (Sent a)
      then show ?thesis using round less.prems(1) True q by (subst jito_cycles.simps) auto
    next
      case (Tried t' n' e')
      have t': "failed now sendBundle startTime maxTime clients n' e'"
          "2 + q * (clients + 2) \<le> t'" "n' = (q + 1) * clients \<and> t' = 2 + q * (clients + 2) + clients \<or>
           0 < n' \<and> \<not> in_time now startTime maxTime clients n' \<and> check_reading clients n' < t'"
        using round less.prems(1) Tried q by simp_all
      have n': "0 < n'" using t'(3) assms(2) by auto
      have inv: "n' = (q + 1) * clients \<and> t' + 1 = 1 + (q + 1) * (clients + 2) \<or>
          0 < n' \<and> \<not> in_time now startTime maxTime clients n' \<and> check_reading clients n' \<le> t' + 1"
        using t'(3) by auto
      have dec: "T - (t' + 1) < T - t" using t'(2) q(2) \<open>\<not> T \<le> t\<close> by arith
      from less.hyps [OF dec t'(1) inv] show ?thesis using Tried True n'
        by (subst jito_cycles.simps) (fastforce split: jito_progress.splits)
    qed
  next
    case False
    have "\<not> in_time now startTime maxTime clients n"
      using less.prems(2) False check_reading_cycle [OF assms(2), of q] by (auto simp: in_time_def)
    then show ?thesis using less.prems(1) False by (subst jito_cycles.simps) auto
  qed
qed

text \<open>
  C30. Submitting a bundle ends once the clock passes the time limit, with this result.  Attempt after attempt goes to the
  next client in turn, starting again after the last one, as long as each one fails and the clock, read before the attempt, is
  below the limit.  If the attempt after \<open>n\<close> failures is accepted, the signature is returned; if the time is over instead, the error of the last attempt is
  thrown, or, when there was none, an error that says so.
\<close>

theorem sendTransactionsJito_ends:
  assumes "mono now" and "0 < clients" and "0 < m" and "m \<le> now T - now 0"
  shows "\<exists>r n. sendTransactionsJito now sendBundle clients (Inr signature) (Some m) = Some r \<and>
    (\<forall>a < n. now (check_reading clients a) - now 0 < m \<and> sendBundle (a mod clients) (a + 1) \<noteq> None) \<and>
    (if now (check_reading clients n) - now 0 < m
     then sendBundle (n mod clients) (n + 1) = None \<and> r = Inr signature
     else r = (if n = 0 then Inl (Error (''Failed to send transactions via JITO after 0 attempts over '' @
                 show_int (now 2 - now 0) @ ''ms (max: '' @ show_int m @ ''ms)''))
               else Inl (the (sendBundle ((n - 1) mod clients) n))))"
proof -
  have "failed now sendBundle (now 0) m clients 0 None" by (simp add: failed_def)
  then obtain n p where p: "jito_cycles now sendBundle (now 0) m clients 1 0 None = Some p"
    "case p of
       Sent a \<Rightarrow> a = n + 1 \<and> (\<exists>e. failed now sendBundle (now 0) m clients n e) \<and>
         in_time now (now 0) m clients n \<and> sendBundle (n mod clients) (n + 1) = None
     | Tried t a e \<Rightarrow> a = n \<and> failed now sendBundle (now 0) m clients n e \<and>
         \<not> in_time now (now 0) m clients n \<and> (0 = (0 :: nat) \<or> 0 < n) \<and> (n = 0 \<longrightarrow> t = 1)"
    using jito_cycles_outcome [OF assms(1,2,4), of sendBundle 0 None 0 1] unfolding mult_0 add_0_right by blast
  have r: "sendTransactionsJito now sendBundle clients (Inr signature) (Some m) = Some (jito_result now (now 0) m signature p)"
    using assms(2,3) p(1) by (simp add: sendTransactionsJito_def Let_def)
  show ?thesis
  proof (cases p)
    case (Sent a)
    then show ?thesis using p(2) by (intro exI [of _ "jito_result now (now 0) m signature p"] exI [of _ n] conjI r)
      (auto simp: jito_result_def failed_def in_time_def)
  next
    case (Tried t a e)
    then have n: "a = n" "failed now sendBundle (now 0) m clients n e" "\<not> in_time now (now 0) m clients n" "n = 0 \<longrightarrow> t = 1"
      using p(2) by simp_all
    have zero: "show_nat 0 = ''0''" by code_simp
    have e: "e = (if n = 0 then None else Some (the (sendBundle ((n - 1) mod clients) n)))"
      using n(2) by (auto simp: failed_def dest: spec [of _ "n - 1"])
    have "jito_result now (now 0) m signature p = (if n = 0 then Inl (Error (''Failed to send transactions via JITO after 0 attempts over '' @
                 show_int (now 2 - now 0) @ ''ms (max: '' @ show_int m @ ''ms)''))
               else Inl (the (sendBundle ((n - 1) mod clients) n)))"
      using n(1,4) zero by (auto simp: Tried e jito_result_def numeral_2_eq_2)
    then show ?thesis using n(2,3) by (intro exI [of _ "jito_result now (now 0) m signature p"] exI [of _ n] conjI r)
      (simp_all add: failed_def in_time_def)
  qed
qed

section \<open>Examples\<close>

definition sample_data :: accumulator_update_data where
  "sample_data = \<lparr>aud_vaa = [1, 2, 3], aud_updates = map (\<lambda>m. \<lparr>upd_message = [m], upd_proof = [replicate 20 m]\<rparr>) [7, 8, 9]\<rparr>"

definition sample_jito :: jito_pusher where
  "sample_jito = \<lparr>jp_defaultJitoTipLamports = Fin 1000, jp_dynamicJitoTips = True, jp_maxJitoTipLamports = Fin 5000,
     jp_updatesPerJitoBundle = 2\<rparr>"

lemma sample_data_parses: "parseAccumulatorUpdateData (encode_accumulator [] 0 sample_data) = Inr sample_data"
  by (rule parse_encode_accumulator) (simp_all add: wf_accumulator_def wf_update_def sample_data_def KECCAK160_HASH_SIZE_def)

theorem jito_bundles_complete_witness:
  "\<exists>bundles. jito_updatePriceFeed (\<lambda>_. encode_accumulator [] 0 sample_data) (\<lambda>_. Inr [''update'']) (\<lambda>_ _. Inr ()) (Inl TypeError)
     sample_jito [''a'', ''b'', ''c''] = Some (bundles, Inr ()) \<and> pieces 2 bundles 0 sample_data"
proof -
  have k: "jp_updatesPerJitoBundle sample_jito = 2" by (simp add: sample_jito_def)
  have "length (aud_updates sample_data) = 3" by (simp add: sample_data_def)
  then show ?thesis
    using jito_bundles_complete [of sample_jito "\<lambda>_. Inr [''update'']" "[''a'', ''b'', ''c'']" "[''update'']"
        "\<lambda>_. encode_accumulator [] 0 sample_data" "[sample_data]" "\<lambda>_ _. Inr ()" "Inl TypeError"]
    by (auto simp: sample_data_parses k)
qed

theorem sendTransactionsJito_ends_witness:
  "\<exists>r n. sendTransactionsJito (\<lambda>k. 1000 * int k) (\<lambda>c a. if a = 3 then None else Some (Error ''busy'')) 2 (Inr ''signature'') (Some 8000) = Some r \<and>
    (\<forall>a < n. 1000 * int (check_reading 2 a) < 8000 \<and> a + 1 \<noteq> 3) \<and>
    (if 1000 * int (check_reading 2 n) < 8000 then n + 1 = 3 \<and> r = Inr ''signature'' else n \<noteq> 0 \<and> r = Inl (Error ''busy''))"
proof -
  obtain r n where rn: "sendTransactionsJito (\<lambda>k. 1000 * int k) (\<lambda>c a. if a = 3 then None else Some (Error ''busy'')) 2 (Inr ''signature'') (Some 8000) = Some r"
    "\<forall>a < n. 1000 * int (check_reading 2 a) - 1000 * int 0 < 8000 \<and> (if a + 1 = 3 then None else Some (Error ''busy'')) \<noteq> None"
    "if 1000 * int (check_reading 2 n) - 1000 * int 0 < 8000
     then (if n + 1 = 3 then None else Some (Error ''busy'')) = None \<and> r = Inr ''signature''
     else r = (if n = 0 then Inl (Error (''Failed to send transactions via JITO after 0 attempts over '' @
                 show_int (1000 * int 2 - 1000 * int 0) @ ''ms (max: '' @ show_int 8000 @ ''ms)''))
               else Inl (the (if n = 3 then None else Some (Error ''busy''))))"
    using sendTransactionsJito_ends [of "\<lambda>k. 1000 * int k" 2 8000 8 "\<lambda>c a. if a = 3 then None else Some (Error ''busy'')" "''signature''"]
    by (fastforce simp: mono_def)
  have "n \<noteq> 3" using rn(2) [rule_format, of 2] by auto
  moreover have "n \<noteq> 0" if "\<not> 1000 * int (check_reading 2 n) < 8000" using that by (auto simp: check_reading_def)
  ultimately show ?thesis using rn by (intro exI [of _ r] exI [of _ n]) (auto split: if_splits)
qed

end
