(* ===== verification/Other_Pushers.thy ===== *)
theory Other_Pushers
  imports Evm_Pusher Js_Print
begin

text \<open>
  The NEAR, TON and Fuel back ends of the price pusher (\<^verbatim>\<open>near/near.ts\<close>, \<^verbatim>\<open>ton/ton.ts\<close> and \<^verbatim>\<open>fuel/fuel.ts\<close> under
  \<^verbatim>\<open>apps/price_pusher/src\<close>) and the part of the TON SDK (\<^verbatim>\<open>target_chains/ton/sdk/js/src/index.ts\<close>) that
  packs an update into cells.  The clients of the chains, Hermes and the cell library are arguments.
\<close>

section \<open>Fetching an update\<close>

text \<open>The pushers return when there is nothing to push or when Hermes cannot be reached: \<open>None\<close>.\<close>

definition latest_updates :: "(string list \<Rightarrow> string list res) \<Rightarrow> string list \<Rightarrow> string list option" where
  "latest_updates getLatestPriceUpdates priceIds =
     (if priceIds = [] then None
      else case getLatestPriceUpdates priceIds of Inl _ \<Rightarrow> None | Inr data \<Rightarrow> Some data)"

section \<open>NEAR\<close>

record near_price =
  np_conf :: string
  np_price :: string
  np_publish_time :: jsnum

definition near_getOnChainPriceInfo :: "(string \<Rightarrow> near_price option res) \<Rightarrow> string \<Rightarrow> price_info option" where
  "near_getOnChainPriceInfo getPriceUnsafe priceId =
     (case getPriceUnsafe priceId of
        Inl _ \<Rightarrow> None
      | Inr None \<Rightarrow> None
      | Inr (Some p) \<Rightarrow> Some \<lparr>pi_price = np_price p, pi_conf = np_conf p, pi_publishTime = np_publish_time p\<rparr>)"

text \<open>The receipts of a transaction, each whether its status is a failure.\<close>

definition near_is_success :: "bool list \<Rightarrow> bool" where
  "near_is_success receipts = foldl (\<lambda>is_success failure. if failure then False else is_success) True receipts"

datatype 'f near_outcome = FeeFailed | CallFailed 'f | CallDone 'f bool

definition near_push_data :: "(string \<Rightarrow> 'f res) \<Rightarrow> (string \<Rightarrow> 'f \<Rightarrow> bool list res) \<Rightarrow> string \<Rightarrow> 'f near_outcome" where
  "near_push_data getUpdateFeeEstimate updatePriceFeeds data =
     (case getUpdateFeeEstimate data of
        Inl _ \<Rightarrow> FeeFailed
      | Inr updateFee \<Rightarrow>
          (case updatePriceFeeds data updateFee of
             Inl _ \<Rightarrow> CallFailed updateFee
           | Inr receipts \<Rightarrow> CallDone updateFee (near_is_success receipts)))"

text \<open>What happened to each of the update data, in order.\<close>

definition near_updatePriceFeed ::
  "(string list \<Rightarrow> string list res) \<Rightarrow> (string \<Rightarrow> 'f res) \<Rightarrow> (string \<Rightarrow> 'f \<Rightarrow> bool list res) \<Rightarrow> string list \<Rightarrow> jsnum list \<Rightarrow>
   (string \<times> 'f near_outcome) list res" where
  "near_updatePriceFeed getLatestPriceUpdates getUpdateFeeEstimate updatePriceFeeds priceIds pubTimesToPush =
     (if priceIds \<noteq> [] \<and> length priceIds \<noteq> length pubTimesToPush then Inl (Error ''Invalid arguments'')
      else case latest_updates getLatestPriceUpdates priceIds of
        None \<Rightarrow> Inr []
      | Some data \<Rightarrow> Inr (map (\<lambda>d. (d, near_push_data getUpdateFeeEstimate updatePriceFeeds d)) data))"

text \<open>The key file: its path, and the account and key in it; a missing and an empty text are the same.\<close>

definition near_key_path :: "(string list \<Rightarrow> string) \<Rightarrow> string \<Rightarrow> string \<Rightarrow> string \<Rightarrow> string option \<Rightarrow> string" where
  "near_key_path join homedir network accountId privateKeyPath =
     (case privateKeyPath of
        Some path \<Rightarrow> if path \<noteq> '''' then path else join [homedir, ''.near-credentials'', network, accountId @ ''.json'']
      | None \<Rightarrow> join [homedir, ''.near-credentials'', network, accountId @ ''.json''])"

record near_account_info =
  ai_account_id :: string
  ai_private_key :: string
  ai_secret_key :: string

definition near_key :: "near_account_info \<Rightarrow> (string \<times> string) res" where
  "near_key accountInfo =
     (let privateKey = (if ai_private_key accountInfo = '''' \<and> ai_secret_key accountInfo \<noteq> '''' then ai_secret_key accountInfo
            else ai_private_key accountInfo)
      in if ai_account_id accountInfo \<noteq> '''' \<and> privateKey \<noteq> '''' then Inr (ai_account_id accountInfo, privateKey)
         else Inl (Error ''Invalid key file!''))"

lemma near_is_success_iff: "near_is_success receipts \<longleftrightarrow> True \<notin> set receipts"
proof -
  have "foldl (\<lambda>is_success failure. if failure then False else is_success) b rs \<longleftrightarrow> b \<and> True \<notin> set rs" for b rs
    by (induction rs arbitrary: b) auto
  then show ?thesis by (simp add: near_is_success_def)
qed

text \<open>A failure of one of the update data does not keep the others from being pushed.\<close>

lemma near_pushes_independent:
  assumes "near_updatePriceFeed getLatestPriceUpdates getUpdateFeeEstimate updatePriceFeeds priceIds pubTimes = Inr outcomes"
    and "priceIds \<noteq> []" and "getLatestPriceUpdates priceIds = Inr data" and "d \<in> set data"
    and "getUpdateFeeEstimate d = Inr fee" and "updatePriceFeeds d fee = Inr receipts"
  shows "(d, CallDone fee (True \<notin> set receipts)) \<in> set outcomes"
proof -
  have "outcomes = map (\<lambda>d. (d, near_push_data getUpdateFeeEstimate updatePriceFeeds d)) data"
    using assms(1-3) by (simp add: near_updatePriceFeed_def latest_updates_def split: if_splits)
  moreover have "near_push_data getUpdateFeeEstimate updatePriceFeeds d = CallDone fee (True \<notin> set receipts)"
    using assms(5,6) by (simp add: near_push_data_def near_is_success_iff)
  ultimately show ?thesis using assms(4) by force
qed

section \<open>TON\<close>

definition UPDATE_PRICE_FEEDS_BASE_GAS :: int where "UPDATE_PRICE_FEEDS_BASE_GAS = 300000"
definition UPDATE_PRICE_FEEDS_PER_UPDATE_GAS :: int where "UPDATE_PRICE_FEEDS_PER_UPDATE_GAS = 90000"
definition GAS_PRICE_FACTOR :: int where "GAS_PRICE_FACTOR = 400"

definition calculateUpdatePriceFeedsFee :: "int \<Rightarrow> int" where
  "calculateUpdatePriceFeedsFee numUpdates =
     (UPDATE_PRICE_FEEDS_BASE_GAS + UPDATE_PRICE_FEEDS_PER_UPDATE_GAS * numUpdates) * GAS_PRICE_FACTOR"

text \<open>The contract returns the price, the confidence and the time as numbers.\<close>

definition ton_getOnChainPriceInfo :: "(string \<Rightarrow> (jsnum \<times> jsnum \<times> jsnum) res) \<Rightarrow> string \<Rightarrow> price_info option" where
  "ton_getOnChainPriceInfo getPriceUnsafe priceId =
     (case getPriceUnsafe (addLeading0x priceId) of
        Inl _ \<Rightarrow> None
      | Inr (price, conf, publishTime) \<Rightarrow> Some \<lparr>pi_price = js_toString price, pi_conf = js_toString conf, pi_publishTime = publishTime\<rparr>)"

text \<open>The messages that were sent, with their value; the loop ends with the first error, which is logged.\<close>

fun ton_push :: "('d \<Rightarrow> jsnum res) \<Rightarrow> ('d \<Rightarrow> int \<Rightarrow> unit res) \<Rightarrow> nat \<Rightarrow> 'd list \<Rightarrow> ('d \<times> int) list \<times> js_error option" where
  "ton_push getUpdateFee sendUpdatePriceFeeds n [] = ([], None)"
| "ton_push getUpdateFee sendUpdatePriceFeeds n (d # ds) =
     (case res_bind (getUpdateFee d) BigInt of
        Inl e \<Rightarrow> ([], Some e)
      | Inr updateFee \<Rightarrow>
          let totalFee = calculateUpdatePriceFeedsFee (int n) + updateFee
          in case sendUpdatePriceFeeds d totalFee of
               Inl e \<Rightarrow> ([], Some e)
             | Inr _ \<Rightarrow> let (sent, e) = ton_push getUpdateFee sendUpdatePriceFeeds n ds in ((d, totalFee) # sent, e))"

definition ton_updatePriceFeed ::
  "(string list \<Rightarrow> string list res) \<Rightarrow> (string \<Rightarrow> 'd) \<Rightarrow> ('d \<Rightarrow> jsnum res) \<Rightarrow> ('d \<Rightarrow> int \<Rightarrow> unit res) \<Rightarrow> string list \<Rightarrow> ('d \<times> int) list" where
  "ton_updatePriceFeed getLatestPriceUpdates decode getUpdateFee sendUpdatePriceFeeds priceIds =
     (case latest_updates getLatestPriceUpdates priceIds of
        None \<Rightarrow> []
      | Some data \<Rightarrow> fst (ton_push getUpdateFee sendUpdatePriceFeeds (length priceIds) (map decode data)))"

text \<open>The sent messages are the first of the data, all of them exactly when there was no error, and each pays its fee and the gas.\<close>

lemma ton_push_prefix:
  "ton_push getUpdateFee send n ds = (sent, e) \<Longrightarrow>
    map fst sent = take (length sent) ds \<and> (e = None \<longleftrightarrow> length sent = length ds) \<and>
    (\<forall>(d, v) \<in> set sent. \<exists>fee. res_bind (getUpdateFee d) BigInt = Inr fee \<and> v = calculateUpdatePriceFeedsFee (int n) + fee)"
  by (induction ds arbitrary: sent e) (auto simp: Let_def split: sum.splits prod.splits)

subsection \<open>Cells\<close>

text \<open>
  \<^verbatim>\<open>bufferToChunks\<close> with its chunk size, and the chain of cells, built from the last chunk to the first.  \<open>endCell b r\<close> is the
  cell with the bytes \<open>b\<close> and the reference \<open>r\<close>, which fails when they do not fit.
\<close>

definition chunkSizeBytes :: nat where "chunkSizeBytes = 127"

function chunks_from :: "bytes \<Rightarrow> nat \<Rightarrow> bytes list" where
  "chunks_from buff offset =
     (if offset < length buff
      then let remainingBytes = min chunkSizeBytes (length buff - offset)
           in buf_subarray buff offset (offset + remainingBytes) # chunks_from buff (offset + chunkSizeBytes)
      else [])"
  by pat_completeness auto
termination
  by (relation "measure (\<lambda>(buff, offset). length buff - offset)") (auto simp: chunkSizeBytes_def)

declare chunks_from.simps [simp del]

definition bufferToChunks :: "bytes \<Rightarrow> bytes list" where
  "bufferToChunks buff = chunks_from buff 0"

fun cell_chain :: "(bytes \<Rightarrow> 'c option \<Rightarrow> 'c res) \<Rightarrow> bytes list \<Rightarrow> 'c option \<Rightarrow> 'c option res" where
  "cell_chain endCell [] lastCell = Inr lastCell"
| "cell_chain endCell (chunk # earlier) lastCell =
     res_bind (endCell chunk lastCell) (\<lambda>cell. cell_chain endCell earlier (Some cell))"

definition createCellChain :: "(bytes \<Rightarrow> 'c option \<Rightarrow> 'c res) \<Rightarrow> bytes \<Rightarrow> 'c res" where
  "createCellChain endCell buffer =
     res_bind (cell_chain endCell (rev (bufferToChunks buffer)) None) (\<lambda>lastCell.
     case lastCell of None \<Rightarrow> Inl (Error ''Failed to create cell chain'') | Some cell \<Rightarrow> Inr cell)"

text \<open>
  What the code needs of the cell library: a cell holds 1023 bits, hence 127 bytes, and a reference, and gives them
  back.  A reader of a chain follows the references.
\<close>

definition cells_hold :: "(bytes \<Rightarrow> 'c option \<Rightarrow> 'c res) \<Rightarrow> ('c \<Rightarrow> bytes \<times> 'c option) \<Rightarrow> bool" where
  "cells_hold endCell beginParse \<longleftrightarrow> (\<forall>b r. 8 * length b \<le> 1023 \<longrightarrow> (\<exists>c. endCell b r = Inr c \<and> beginParse c = (b, r)))"

fun read_chain :: "('c \<Rightarrow> bytes \<times> 'c option) \<Rightarrow> nat \<Rightarrow> 'c \<Rightarrow> bytes" where
  "read_chain beginParse 0 c = fst (beginParse c)"
| "read_chain beginParse (Suc n) c =
     (case beginParse c of (b, None) \<Rightarrow> b | (b, Some c') \<Rightarrow> b @ read_chain beginParse n c')"

lemma chunks_from_parts:
  "concat (chunks_from buff offset) = drop offset buff \<and> list_all (\<lambda>c. 8 * length c \<le> 1023) (chunks_from buff offset) \<and>
   length (chunks_from buff offset) \<le> length buff - offset"
proof (induction buff offset rule: chunks_from.induct)
  case (1 buff offset)
  show ?case
  proof (cases "offset < length buff")
    case True
    define c where "c = buf_subarray buff offset (offset + min chunkSizeBytes (length buff - offset))"
    have step: "chunks_from buff offset = c # chunks_from buff (offset + chunkSizeBytes)"
      using True by (subst chunks_from.simps) (simp add: c_def Let_def)
    have "c = take chunkSizeBytes (drop offset buff)" by (simp add: c_def buf_subarray_def min_def)
    moreover have "take chunkSizeBytes (drop offset buff) @ drop (offset + chunkSizeBytes) buff = drop offset buff"
      by (metis add.commute append_take_drop_id drop_drop)
    moreover have "8 * length c \<le> 1023" using calculation(1) by (simp add: chunkSizeBytes_def)
    moreover have "Suc (length buff - (offset + chunkSizeBytes)) \<le> length buff - offset"
      using True by (simp add: chunkSizeBytes_def)
    ultimately show ?thesis using 1 [OF True refl] by (simp add: step)
  next
    case False
    then show ?thesis by (subst (1 2 3) chunks_from.simps) simp
  qed
qed

lemma cell_chain_append:
  "cell_chain endCell (xs @ ys) r = res_bind (cell_chain endCell xs r) (cell_chain endCell ys)"
  by (induction xs arbitrary: r) (simp_all add: res_bind_assoc)

lemma cell_chain_reads:
  assumes "cells_hold endCell beginParse" and "chunks \<noteq> []" and "list_all (\<lambda>c. 8 * length c \<le> 1023) chunks"
  shows "\<exists>c. cell_chain endCell (rev chunks) None = Inr (Some c) \<and>
    (\<forall>n \<ge> length chunks - 1. read_chain beginParse n c = concat chunks)"
  using assms(2,3)
proof (induction chunks rule: list_nonempty_induct)
  case (single b)
  obtain c where c: "endCell b None = Inr c" "beginParse c = (b, None)"
    using assms(1) single unfolding cells_hold_def by auto
  have "read_chain beginParse n c = b" for n by (cases n) (simp_all add: c(2))
  then show ?case using c(1) by auto
next
  case (cons b bs)
  then obtain c where c: "cell_chain endCell (rev bs) None = Inr (Some c)"
      "\<forall>n \<ge> length bs - 1. read_chain beginParse n c = concat bs" by auto
  obtain c' where c': "endCell b (Some c) = Inr c'" "beginParse c' = (b, Some c)"
    using assms(1) cons.prems unfolding cells_hold_def by (metis list.pred_inject(2))
  have "read_chain beginParse n c' = concat (b # bs)" if n: "length (b # bs) - 1 \<le> n" for n
  proof -
    obtain n' where "n = Suc n'" "length bs - 1 \<le> n'" using n cons.hyps by (cases n) auto
    then show ?thesis using c(2) by (simp add: c'(2))
  qed
  then show ?case using c(1) c'(1) by (auto simp: cell_chain_append)
qed

text \<open>
  C31. An update packed into cells is read back as it was.  For a cell library whose cells hold 1023 bits and a
  reference, every buffer but the empty one becomes a chain, no cell of which is too big, and following its references gives the
  bytes of the buffer in order; for the empty buffer there is an error.
\<close>

theorem createCellChain_roundtrip:
  assumes "cells_hold endCell beginParse"
  shows "if buffer = [] then createCellChain endCell buffer = Inl (Error ''Failed to create cell chain'')
    else \<exists>c. createCellChain endCell buffer = Inr c \<and> (\<forall>n \<ge> length buffer. read_chain beginParse n c = buffer)"
proof (cases "buffer = []")
  case True
  have "bufferToChunks [] = []" unfolding bufferToChunks_def by (subst chunks_from.simps) simp
  then show ?thesis using True by (simp add: createCellChain_def)
next
  case False
  note parts = chunks_from_parts [of buffer 0]
  then have "bufferToChunks buffer \<noteq> []" using False by (auto simp: bufferToChunks_def)
  then obtain c where "cell_chain endCell (rev (bufferToChunks buffer)) None = Inr (Some c)"
      "\<forall>n \<ge> length (bufferToChunks buffer) - 1. read_chain beginParse n c = concat (bufferToChunks buffer)"
    using cell_chain_reads [OF assms, of "bufferToChunks buffer"] parts by (auto simp: bufferToChunks_def)
  then show ?thesis using False parts by (auto simp: createCellChain_def bufferToChunks_def)
qed

datatype sample_cell = SampleCell bytes "sample_cell option"

theorem createCellChain_roundtrip_witness:
  "\<exists>c. createCellChain (\<lambda>b r. if 8 * length b \<le> 1023 then Inr (SampleCell b r) else Inl RangeError) (replicate 300 7) = Inr c \<and>
    (\<forall>n \<ge> 300. read_chain (\<lambda>c. case c of SampleCell b r \<Rightarrow> (b, r)) n c = replicate 300 7)"
proof -
  have "cells_hold (\<lambda>b r. if 8 * length b \<le> 1023 then Inr (SampleCell b r) else Inl RangeError) (\<lambda>c. case c of SampleCell b r \<Rightarrow> (b, r))"
    by (simp add: cells_hold_def)
  from createCellChain_roundtrip [OF this, of "replicate 300 7"] show ?thesis by simp
qed

section \<open>Fuel\<close>

definition tai64ToUnix :: "int \<Rightarrow> jsnum" where
  "tai64ToUnix tai64 = of_integer (tai64 - 2 ^ 62 - 10)"

text \<open>A TAI64 label of a time up to \<open>2\<^sup>5\<^sup>3\<close> seconds is converted exactly.\<close>

lemma tai64ToUnix_exact: "\<bar>t\<bar> \<le> 2 ^ 53 \<Longrightarrow> tai64ToUnix (2 ^ 62 + t + 10) = Fin (of_int t)"
  using of_integer_exact [of t] by (simp add: tai64ToUnix_def)

record fuel_price =
  fp_confidence :: string
  fp_price :: string
  fp_publish_time :: int

text \<open>Without a result the time is read from \<^verbatim>\<open>undefined\<close>, which throws.\<close>

definition fuel_getOnChainPriceInfo :: "(string \<Rightarrow> fuel_price option res) \<Rightarrow> string \<Rightarrow> price_info option" where
  "fuel_getOnChainPriceInfo price_unsafe priceId =
     (case price_unsafe (addLeading0x priceId) of
        Inr (Some p) \<Rightarrow> Some \<lparr>pi_price = fp_price p, pi_conf = fp_confidence p, pi_publishTime = tai64ToUnix (fp_publish_time p)\<rparr>
      | _ \<Rightarrow> None)"

text \<open>The data are converted outside the \<^verbatim>\<open>try\<close>.  The result is the call with its fee, \<open>None\<close> when there was none.\<close>

definition fuel_updatePriceFeed ::
  "(string list \<Rightarrow> string list res) \<Rightarrow> (string \<Rightarrow> bytes res) \<Rightarrow> (bytes list \<Rightarrow> 'f res) \<Rightarrow> string list \<Rightarrow> (bytes list \<times> 'f) option res" where
  "fuel_updatePriceFeed getLatestPriceUpdates arrayify getFee priceIds =
     (case latest_updates getLatestPriceUpdates priceIds of
        None \<Rightarrow> Inr None
      | Some priceFeedUpdateData \<Rightarrow>
          res_bind (map_res arrayify priceFeedUpdateData) (\<lambda>updateData.
          Inr (case getFee updateData of Inl _ \<Rightarrow> None | Inr updateFee \<Rightarrow> Some (updateData, updateFee))))"

text \<open>
  Hermes is asked for base 64, and \<^verbatim>\<open>arrayify\<close> of the Fuel library takes hexadecimal text: with data that it rejects
  every update throws.
\<close>

lemma fuel_rejected_data:
  assumes "priceIds \<noteq> []" and "getLatestPriceUpdates priceIds = Inr data" and "d \<in> set data" and "arrayify d = Inl e"
  shows "\<exists>e'. fuel_updatePriceFeed getLatestPriceUpdates arrayify getFee priceIds = Inl e'"
  using assms map_res_Inl [where f = arrayify, OF assms(3,4)] by (auto simp: fuel_updatePriceFeed_def latest_updates_def)

end
