(* ===== verification/Injective_Pusher.thy ===== *)
theory Injective_Pusher
  imports Evm_Pusher Js_Print
begin

text \<open>
  The Injective back end of the price pusher (\<^verbatim>\<open>apps/price_pusher/src/injective/injective.ts\<close>): the listener, the wallets of
  the chunks, the cache of accounts with their sequence numbers, the fee, and the errors that end an
  update.  A task is run without interruption.  The clients of the chain and Hermes are arguments.
\<close>

section \<open>Configuration and wallets\<close>

record injective_config =
  ic_chainId :: string
  ic_gasMultiplier :: jsnum
  ic_gasPrice :: jsnum
  ic_priceIdsProcessChunkSize :: int

record partial_injective_config =
  pic_chainId :: "string option"
  pic_gasMultiplier :: "jsnum option"
  pic_gasPrice :: "jsnum option"
  pic_priceIdsProcessChunkSize :: "int option"

definition or_default :: "'a option \<Rightarrow> 'a \<Rightarrow> 'a" where
  "or_default x d = (case x of None \<Rightarrow> d | Some y \<Rightarrow> y)"

text \<open>The double nearest to 1.05.\<close>

definition DEFAULT_GAS_MULTIPLIER :: jsnum where
  "DEFAULT_GAS_MULTIPLIER = round_double (105 / 100)"

definition new_injective_config :: "partial_injective_config \<Rightarrow> injective_config" where
  "new_injective_config chainConfig =
     \<lparr>ic_chainId = or_default (pic_chainId chainConfig) ''injective-888'',
      ic_gasMultiplier = or_default (pic_gasMultiplier chainConfig) DEFAULT_GAS_MULTIPLIER,
      ic_gasPrice = or_default (pic_gasPrice chainConfig) (Fin 160000000),
      ic_priceIdsProcessChunkSize = or_default (pic_priceIdsProcessChunkSize chainConfig) (- 1)\<rparr>"

text \<open>The derivation path of the wallet of a chunk, \<open>None\<close> for the default one.\<close>

definition getWallet :: "injective_config \<Rightarrow> nat \<Rightarrow> string option" where
  "getWallet cfg index =
     (if ic_priceIdsProcessChunkSize cfg = - 1 then None else Some (''m/44'' @ [CHR 0x27] @ ''/60'' @ [CHR 0x27] @ ''/0'' @ [CHR 0x27] @ ''/0/'' @ show_nat index))"

section \<open>Listener\<close>

record injective_price =
  jp_price :: string
  jp_conf :: string
  jp_publish_time :: jsnum

definition injective_getOnChainPriceInfo :: "(string \<Rightarrow> injective_price res) \<Rightarrow> string \<Rightarrow> price_info option" where
  "injective_getOnChainPriceInfo query priceId =
     (case query priceId of
        Inl _ \<Rightarrow> None
      | Inr p \<Rightarrow> Some \<lparr>pi_price = jp_price p, pi_conf = jp_conf p, pi_publishTime = jp_publish_time p\<rparr>)"

section \<open>Accounts and fees\<close>

text \<open>An error of a client: its message and its JSON text.\<close>

record injective_error =
  ie_message :: string
  ie_json :: string

type_synonym 'a ires = "injective_error + 'a"

record injective_account =
  ia_sequence :: int
  ia_accountNumber :: int

record std_fee =
  sf_amount :: string
  sf_gas :: string

record 'm injective_tx =
  it_sequence :: int
  it_accountNumber :: int
  it_message :: 'm
  it_chainId :: string
  it_fee :: "std_fee option"

type_synonym accounts = "string \<rightharpoonup> injective_account"

definition std_fee_of :: "injective_config \<Rightarrow> jsnum \<Rightarrow> std_fee" where
  "std_fee_of cfg gasUsed =
     (let gas = js_toFixed0 (js_mul gasUsed (ic_gasMultiplier cfg))
      in \<lparr>sf_amount = js_toFixed0 (js_mul (js_Number gas) (ic_gasPrice cfg)), sf_gas = gas\<rparr>)"

text \<open>\<open>simulate\<close> gives the gas used.\<close>

definition getStdFee ::
  "injective_config \<Rightarrow> ('m injective_tx \<Rightarrow> jsnum ires) \<Rightarrow> accounts \<Rightarrow> string \<Rightarrow> 'm \<Rightarrow> std_fee ires" where
  "getStdFee cfg simulate accounts injectiveAddress msg =
     (case accounts injectiveAddress of
        None \<Rightarrow> Inl \<lparr>ie_message = ''Account not found'', ie_json = ''{}''\<rparr>
      | Some account \<Rightarrow>
          res_bind (simulate \<lparr>it_sequence = ia_sequence account, it_accountNumber = ia_accountNumber account, it_message = msg,
            it_chainId = ic_chainId cfg, it_fee = None\<rparr>) (\<lambda>gasUsed. Inr (std_fee_of cfg gasUsed)))"

definition sequence_mismatch :: "injective_error \<Rightarrow> bool" where
  "sequence_mismatch e \<longleftrightarrow> js_includes (ie_json e) ''account sequence mismatch''"

text \<open>The node: the account of an address, the simulation and the broadcast of a transaction, which gives its hash.\<close>

record 'm injective_node =
  in_fetchAccount :: "string \<Rightarrow> injective_account ires"
  in_simulate :: "'m injective_tx \<Rightarrow> jsnum ires"
  in_broadcast :: "'m injective_tx \<Rightarrow> string ires"

definition signAndBroadcastMsg ::
  "injective_config \<Rightarrow> 'm injective_node \<Rightarrow> accounts \<Rightarrow> string \<Rightarrow> 'm \<Rightarrow> accounts \<times> string ires" where
  "signAndBroadcastMsg cfg node accounts injectiveAddress msg =
     (case (case accounts injectiveAddress of Some a \<Rightarrow> Inr a | None \<Rightarrow> in_fetchAccount node injectiveAddress) of
        Inl e \<Rightarrow> (accounts, Inl e)
      | Inr account \<Rightarrow>
          let accounts = accounts(injectiveAddress \<mapsto> account) in
          case res_bind (getStdFee cfg (in_simulate node) accounts injectiveAddress msg) (\<lambda>fee.
                 in_broadcast node \<lparr>it_sequence = ia_sequence account, it_accountNumber = ia_accountNumber account, it_message = msg,
                   it_chainId = ic_chainId cfg, it_fee = Some fee\<rparr>) of
            Inr txResponse \<Rightarrow> (accounts(injectiveAddress \<mapsto> account\<lparr>ia_sequence := ia_sequence account + 1\<rparr>), Inr txResponse)
          | Inl e \<Rightarrow> (if sequence_mismatch e then accounts(injectiveAddress := None) else accounts, Inl e))"

section \<open>Updates\<close>

text \<open>\<^verbatim>\<open>/account inj[a-zA-Z0-9]+ not found/\<close>: the name ends at the first character that is not a letter or digit.\<close>

definition alphanumeric :: "char \<Rightarrow> bool" where
  "alphanumeric c \<longleftrightarrow> (let n = of_char c :: nat in (48 \<le> n \<and> n \<le> 57) \<or> (65 \<le> n \<and> n \<le> 90) \<or> (97 \<le> n \<and> n \<le> 122))"

definition account_not_found :: "string \<Rightarrow> bool" where
  "account_not_found msg = list_ex (\<lambda>k.
     let rest = drop k msg; name = drop 11 rest
     in take 11 rest = ''account inj'' \<and> takeWhile alphanumeric name \<noteq> [] \<and>
        take 10 (dropWhile alphanumeric name) = '' not found'') [0..<Suc (length msg)]"

text \<open>What an error of a chunk does: it ends the update with another error, or is only logged.\<close>

definition chunk_error :: "injective_error \<Rightarrow> js_error option" where
  "chunk_error e =
     (if account_not_found (ie_message e) then Some (Error ''Please check the mnemonic'')
      else if js_includes (ie_message e) ''insufficient'' \<and> js_includes (ie_message e) ''funds'' then Some (Error ''Insufficient funds'')
      else None)"

text \<open>\<open>address\<close> is the address of the wallet with a derivation path; the message has the sender, the update data and the fee.\<close>

definition updatePriceFeedChunk ::
  "injective_config \<Rightarrow> (string option \<Rightarrow> string) \<Rightarrow> (string list \<Rightarrow> string list ires) \<Rightarrow> (string list \<Rightarrow> 'f ires) \<Rightarrow>
   (string \<times> string list \<times> 'f) injective_node \<Rightarrow> accounts \<Rightarrow> string list \<Rightarrow> nat \<Rightarrow> accounts \<times> unit res" where
  "updatePriceFeedChunk cfg address getLatestPriceUpdates getUpdateFee node accounts priceIds chunkIndex =
     (let sender = address (getWallet cfg chunkIndex);
          (accounts', result) =
            (case res_bind (getLatestPriceUpdates priceIds) (\<lambda>vaas. res_bind (getUpdateFee vaas) (\<lambda>fee. Inr (vaas, fee))) of
               Inl e \<Rightarrow> (accounts, Inl e)
             | Inr (vaas, fee) \<Rightarrow> signAndBroadcastMsg cfg node accounts sender (sender, vaas, fee))
      in (accounts', case result of
            Inr _ \<Rightarrow> Inr ()
          | Inl e \<Rightarrow> (case chunk_error e of None \<Rightarrow> Inr () | Some e' \<Rightarrow> Inl e')))"

text \<open>
  The chunks of an update; \<open>split\<close> is \<^verbatim>\<open>splitArrayToChunks\<close>.  The result of all chunks is the first
  error in the order in which they end.
\<close>

definition injective_chunks :: "injective_config \<Rightarrow> (string list \<Rightarrow> int \<Rightarrow> string list list) \<Rightarrow> string list \<Rightarrow> jsnum list \<Rightarrow> string list list res" where
  "injective_chunks cfg split priceIds pubTimesToPush =
     (if priceIds = [] then Inr []
      else if length priceIds \<noteq> length pubTimesToPush then Inl (Error ''Invalid arguments'')
      else Inr (if ic_priceIdsProcessChunkSize cfg = - 1 then [priceIds] else split priceIds (ic_priceIdsProcessChunkSize cfg)))"

definition injective_settle :: "nat list \<Rightarrow> unit res list \<Rightarrow> unit res" where
  "injective_settle order results = res_bind (map_res (\<lambda>i. results ! i) order) (\<lambda>_. Inr ())"

section \<open>Properties\<close>

text \<open>
  A chain whose account has the sequence number \<open>n\<close>: it reports it, accepts a transaction with exactly this number and rejects
  every other one for its number.
\<close>

definition at_sequence :: "'m injective_node \<Rightarrow> string \<Rightarrow> int \<Rightarrow> bool" where
  "at_sequence node addr n \<longleftrightarrow>
     (\<exists>a. in_fetchAccount node addr = Inr a \<and> ia_sequence a = n) \<and>
     (\<forall>tx. \<exists>g. in_simulate node tx = Inr g) \<and>
     (\<forall>tx. if it_sequence tx = n then (\<exists>h. in_broadcast node tx = Inr h)
       else (\<exists>e. in_broadcast node tx = Inl e \<and> sequence_mismatch e))"

text \<open>A push with a current or no cached number lands and leaves the next number; one with a stale number clears the cache.\<close>

lemma push_current:
  assumes "at_sequence node addr n" and "\<And>a. accounts addr = Some a \<Longrightarrow> ia_sequence a = n"
  shows "\<exists>a h. signAndBroadcastMsg cfg node accounts addr msg = (accounts(addr \<mapsto> a), Inr h) \<and> ia_sequence a = n + 1"
proof -
  obtain a where a: "(case accounts addr of Some a \<Rightarrow> Inr a | None \<Rightarrow> in_fetchAccount node addr) = Inr a" "ia_sequence a = n"
    using assms unfolding at_sequence_def by (cases "accounts addr") auto
  obtain g where g: "in_simulate node \<lparr>it_sequence = n, it_accountNumber = ia_accountNumber a, it_message = msg,
      it_chainId = ic_chainId cfg, it_fee = None\<rparr> = Inr g"
    using assms(1) unfolding at_sequence_def by blast
  obtain h where h: "in_broadcast node \<lparr>it_sequence = n, it_accountNumber = ia_accountNumber a, it_message = msg,
      it_chainId = ic_chainId cfg, it_fee = Some (std_fee_of cfg g)\<rparr> = Inr h"
    using assms(1) unfolding at_sequence_def by (metis injective_tx.select_convs(1))
  show ?thesis using a g h
    by (intro exI [of _ "a\<lparr>ia_sequence := n + 1\<rparr>"] exI [of _ h]) (simp add: signAndBroadcastMsg_def getStdFee_def)
qed

lemma push_stale:
  assumes "at_sequence node addr n" and "accounts addr = Some a" and "ia_sequence a \<noteq> n"
  shows "\<exists>e. signAndBroadcastMsg cfg node accounts addr msg = (accounts(addr := None), Inl e)"
proof -
  obtain g where g: "in_simulate node \<lparr>it_sequence = ia_sequence a, it_accountNumber = ia_accountNumber a, it_message = msg,
      it_chainId = ic_chainId cfg, it_fee = None\<rparr> = Inr g"
    using assms(1) unfolding at_sequence_def by blast
  obtain e where e: "in_broadcast node \<lparr>it_sequence = ia_sequence a, it_accountNumber = ia_accountNumber a, it_message = msg,
      it_chainId = ic_chainId cfg, it_fee = Some (std_fee_of cfg g)\<rparr> = Inl e" "sequence_mismatch e"
    using assms(1,3) unfolding at_sequence_def by (metis injective_tx.select_convs(1))
  show ?thesis using assms(2) g e by (simp add: signAndBroadcastMsg_def getStdFee_def)
qed

text \<open>
  The Injective pusher recovers from a stale sequence number with one lost push: whatever number is cached, one of
  two pushes in a row lands, the first when the cached number is current or missing and the second otherwise, and
  afterwards the cached number is the next one of the chain.
\<close>

theorem injective_recovers:
  assumes "at_sequence node addr n"
  shows "\<exists>accounts' r a. signAndBroadcastMsg cfg node accounts addr msg = (accounts', r) \<and>
    (if \<forall>b. accounts addr = Some b \<longrightarrow> ia_sequence b = n
     then (\<exists>h. r = Inr h) \<and> accounts' = accounts(addr \<mapsto> a) \<and> ia_sequence a = n + 1
     else (\<exists>e. r = Inl e) \<and> (\<exists>h. signAndBroadcastMsg cfg node accounts' addr msg' = (accounts(addr \<mapsto> a), Inr h)) \<and>
       ia_sequence a = n + 1)"
proof (cases "\<forall>b. accounts addr = Some b \<longrightarrow> ia_sequence b = n")
  case True
  then obtain a h where "signAndBroadcastMsg cfg node accounts addr msg = (accounts(addr \<mapsto> a), Inr h)" "ia_sequence a = n + 1"
    using push_current [OF assms, of accounts cfg msg] by auto
  then show ?thesis using True by auto
next
  case False
  then obtain b where "accounts addr = Some b" "ia_sequence b \<noteq> n" by blast
  then obtain e where first: "signAndBroadcastMsg cfg node accounts addr msg = (accounts(addr := None), Inl e)"
    using push_stale [OF assms] by blast
  obtain a h where "signAndBroadcastMsg cfg node (accounts(addr := None)) addr msg' = ((accounts(addr := None))(addr \<mapsto> a), Inr h)"
      "ia_sequence a = n + 1"
    using push_current [OF assms, of "accounts(addr := None)" cfg msg'] by auto
  then show ?thesis using first False by (intro exI [of _ "accounts(addr := None)"] exI [of _ "Inl e"] exI [of _ a]) auto
qed

definition sample_node :: "unit injective_node" where
  "sample_node = \<lparr>in_fetchAccount = (\<lambda>_. Inr \<lparr>ia_sequence = 5, ia_accountNumber = 1\<rparr>), in_simulate = (\<lambda>_. Inr (Fin 100000)),
     in_broadcast = (\<lambda>tx. if it_sequence tx = 5 then Inr ''hash''
       else Inl \<lparr>ie_message = ''failed'', ie_json = ''account sequence mismatch''\<rparr>)\<rparr>"

definition sample_config :: injective_config where
  "sample_config = new_injective_config \<lparr>pic_chainId = None, pic_gasMultiplier = None, pic_gasPrice = None, pic_priceIdsProcessChunkSize = None\<rparr>"

theorem injective_recovers_witness:
  "\<exists>e h a. signAndBroadcastMsg sample_config sample_node [''inj1'' \<mapsto> \<lparr>ia_sequence = 3, ia_accountNumber = 1\<rparr>] ''inj1'' () =
      (Map.empty, Inl e) \<and>
    signAndBroadcastMsg sample_config sample_node Map.empty ''inj1'' () = ([''inj1'' \<mapsto> a], Inr h) \<and> ia_sequence a = 6"
proof -
  let ?accounts = "[''inj1'' \<mapsto> \<lparr>ia_sequence = 3, ia_accountNumber = 1\<rparr>]"
  have mismatch: "js_includes ''account sequence mismatch'' ''account sequence mismatch''" by code_simp
  then have at: "at_sequence sample_node ''inj1'' 5" by (simp add: at_sequence_def sample_node_def sequence_mismatch_def)
  have stale: "\<not> (\<forall>b. ?accounts ''inj1'' = Some b \<longrightarrow> ia_sequence b = 5)" by simp
  have first: "fst (signAndBroadcastMsg sample_config sample_node ?accounts ''inj1'' ()) = Map.empty"
    using mismatch by (simp add: signAndBroadcastMsg_def getStdFee_def sample_node_def sequence_mismatch_def Let_def fun_eq_iff)
  from injective_recovers [OF at, of sample_config ?accounts "()" "()"] stale first show ?thesis by auto
qed

end
