(* ===== verification/Solana_Receiver.thy ===== *)
theory Solana_Receiver
  imports Accumulator Solana_Vaa
begin

text \<open>
  The client of the Solana receiver (\<^verbatim>\<open>PythSolanaReceiver.ts\<close> of
  \<^verbatim>\<open>target_chains/solana/sdk/js/pyth_solana_receiver/src\<close>): the instructions that post price updates, fully or partially verified,
  or update price feed accounts, the instructions that close the accounts again, and the transaction builder that
  collects them.  An instruction is the call with its arguments and accounts; the Anchor client that serializes it is the
  argument \<open>client\<close>.  The keypairs the code creates are \<open>keys 0\<close>, \<open>keys 1\<close> and so on, in the order in which it creates them.
\<close>

section \<open>Addresses\<close>

definition POST_UPDATE_ATOMIC_COMPUTE_BUDGET :: nat where "POST_UPDATE_ATOMIC_COMPUTE_BUDGET = 170000"
definition POST_UPDATE_COMPUTE_BUDGET :: nat where "POST_UPDATE_COMPUTE_BUDGET = 35000"
definition UPDATE_PRICE_FEED_COMPUTE_BUDGET :: nat where "UPDATE_PRICE_FEED_COMPUTE_BUDGET = 55000"

record 'pk receiver =
  rc_findAddr :: "bytes list \<Rightarrow> 'pk \<Rightarrow> 'pk \<times> nat"
  rc_receiverId :: 'pk
  rc_wormholeId :: 'pk
  rc_pushOracleId :: 'pk
  rc_treasuryId :: "nat option"

text \<open>The constructor: a treasury id that is given must be a byte.\<close>

definition new_receiver ::
  "(bytes list \<Rightarrow> 'pk \<Rightarrow> 'pk \<times> nat) \<Rightarrow> 'pk \<Rightarrow> 'pk \<Rightarrow> 'pk \<Rightarrow> int option \<Rightarrow> 'pk receiver res" where
  "new_receiver findAddr receiverId wormholeId pushOracleId treasuryId =
     (case treasuryId of
        Some t \<Rightarrow>
          if t < 0 \<or> 255 < t then Inl (Error ''treasuryId must be between 0 and 255'')
          else Inr \<lparr>rc_findAddr = findAddr, rc_receiverId = receiverId, rc_wormholeId = wormholeId, rc_pushOracleId = pushOracleId,
            rc_treasuryId = Some (nat t)\<rparr>
      | None \<Rightarrow> Inr \<lparr>rc_findAddr = findAddr, rc_receiverId = receiverId, rc_wormholeId = wormholeId, rc_pushOracleId = pushOracleId,
            rc_treasuryId = None\<rparr>)"

datatype feed_id = FeedBytes bytes | FeedHex string

definition feed_id_bytes :: "feed_id \<Rightarrow> bytes" where
  "feed_id_bytes f =
     (case f of FeedBytes b \<Rightarrow> b | FeedHex s \<Rightarrow> if startsWith s ''0x'' then hex_to_bytes (drop 2 s) else hex_to_bytes s)"

definition getPriceFeedAccountForProgram :: "(bytes list \<Rightarrow> 'pk \<Rightarrow> 'pk \<times> nat) \<Rightarrow> nat \<Rightarrow> feed_id \<Rightarrow> 'pk \<Rightarrow> 'pk res" where
  "getPriceFeedAccountForProgram findAddr shardId priceFeedId pushOracleProgramId =
     (let b = feed_id_bytes priceFeedId in
      if length b \<noteq> 32 then Inl (Error ''Feed ID should be 32 bytes long'')
      else if 65536 \<le> shardId then Inl RangeError
      else Inr (fst (findAddr [le_bytes 2 shardId, b] pushOracleProgramId)))"

definition getPriceFeedAccountAddress :: "'pk receiver \<Rightarrow> nat \<Rightarrow> feed_id \<Rightarrow> 'pk res" where
  "getPriceFeedAccountAddress R shardId priceFeedId =
     getPriceFeedAccountForProgram (rc_findAddr R) shardId priceFeedId (rc_pushOracleId R)"

section \<open>Instructions\<close>

datatype 'pk receiver_call =
    WormholeCall "'pk wormhole_call"
  | PostUpdateAtomic bytes accumulator_update nat 'pk 'pk 'pk 'pk
  | PostUpdate accumulator_update nat 'pk 'pk 'pk 'pk
  | UpdatePriceFeed accumulator_update nat nat bytes 'pk 'pk 'pk 'pk 'pk
  | ReclaimRent 'pk

record 'pk receiver_instruction =
  ri_call :: "'pk receiver_call"
  ri_signers :: "'pk list"
  ri_computeUnits :: "nat option"

definition of_vaa_instruction :: "'pk vaa_instruction \<Rightarrow> 'pk receiver_instruction" where
  "of_vaa_instruction i = \<lparr>ri_call = WormholeCall (vi_call i), ri_signers = vi_signers i, ri_computeUnits = vi_computeUnits i\<rparr>"

definition buildClosePriceUpdateInstruction :: "'pk \<Rightarrow> 'pk receiver_instruction" where
  "buildClosePriceUpdateInstruction priceUpdateAccount =
     \<lparr>ri_call = ReclaimRent priceUpdateAccount, ri_signers = [], ri_computeUnits = None\<rparr>"

text \<open>What the three builders return, and the number of keypairs they have created.\<close>

record 'pk post_result =
  po_postInstructions :: "'pk receiver_instruction list"
  po_priceUpdateAccount :: "string \<rightharpoonup> 'pk"
  po_closeInstructions :: "'pk receiver_instruction list"
  po_keypairs :: nat

definition no_instructions :: "'pk post_result" where
  "no_instructions = \<lparr>po_postInstructions = [], po_priceUpdateAccount = Map.empty, po_closeInstructions = [], po_keypairs = 0\<rparr>"

fun res_fold :: "('a \<Rightarrow> 's \<Rightarrow> 's res) \<Rightarrow> 'a list \<Rightarrow> 's \<Rightarrow> 's res" where
  "res_fold f [] s = Inr s"
| "res_fold f (x # xs) s = res_bind (f x s) (res_fold f xs)"

text \<open>The key of a feed in the table of accounts.\<close>

definition feed_key :: "bytes \<Rightarrow> string" where
  "feed_key feedId = ''0x'' @ bytes_to_hex feedId"

subsection \<open>Partially verified updates\<close>

definition post_atomic ::
  "'pk receiver \<Rightarrow> (bytes \<Rightarrow> 'bn) \<Rightarrow> (nat \<Rightarrow> 'pk) \<Rightarrow> nat \<Rightarrow> nat \<Rightarrow> bytes \<Rightarrow> accumulator_update \<Rightarrow> 'pk post_result \<Rightarrow> 'pk post_result res" where
  "post_atomic R newBN keys treasuryId guardianSetIndex trimmedVaa update s =
     (let priceUpdateKeypair = keys (po_keypairs s) in
      res_bind (parsePriceFeedMessage newBN (upd_message update)) (\<lambda>message. Inr
        \<lparr>po_postInstructions = po_postInstructions s @
           [\<lparr>ri_call = PostUpdateAtomic trimmedVaa update treasuryId priceUpdateKeypair
               (getTreasuryPda (rc_findAddr R) treasuryId (rc_receiverId R)) (getConfigPda (rc_findAddr R) (rc_receiverId R))
               (getGuardianSetPda (rc_findAddr R) guardianSetIndex (rc_wormholeId R)),
             ri_signers = [priceUpdateKeypair], ri_computeUnits = Some POST_UPDATE_ATOMIC_COMPUTE_BUDGET\<rparr>],
         po_priceUpdateAccount = (po_priceUpdateAccount s)(feed_key (pfm_feedId message) \<mapsto> priceUpdateKeypair),
         po_closeInstructions = po_closeInstructions s @ [buildClosePriceUpdateInstruction priceUpdateKeypair],
         po_keypairs = Suc (po_keypairs s)\<rparr>))"

definition post_atomic_data ::
  "'pk receiver \<Rightarrow> (bytes \<Rightarrow> 'bn) \<Rightarrow> (nat \<Rightarrow> 'pk) \<Rightarrow> nat \<Rightarrow> bytes \<Rightarrow> 'pk post_result \<Rightarrow> 'pk post_result res" where
  "post_atomic_data R newBN keys treasuryId priceUpdateData s =
     res_bind (parseAccumulatorUpdateData priceUpdateData) (\<lambda>a.
     res_bind (getGuardianSetIndex (aud_vaa a)) (\<lambda>guardianSetIndex.
     res_bind (trimSignatures (aud_vaa a) DEFAULT_REDUCED_GUARDIAN_SET_SIZE) (\<lambda>trimmedVaa.
     res_fold (post_atomic R newBN keys treasuryId guardianSetIndex trimmedVaa) (aud_updates a) s)))"

text \<open>\<open>random\<close> is the treasury drawn when the receiver has none; the data are decoded from base 64.\<close>

definition buildPostPriceUpdateAtomicInstructions ::
  "'pk receiver \<Rightarrow> (bytes \<Rightarrow> 'bn) \<Rightarrow> (nat \<Rightarrow> 'pk) \<Rightarrow> nat \<Rightarrow> bytes list \<Rightarrow> 'pk post_result res" where
  "buildPostPriceUpdateAtomicInstructions R newBN keys random priceUpdateDataArray =
     res_fold (post_atomic_data R newBN keys (case rc_treasuryId R of None \<Rightarrow> random | Some t \<Rightarrow> t)) priceUpdateDataArray no_instructions"

subsection \<open>Fully verified updates\<close>

text \<open>The instructions for the VAA of an update, with its account.\<close>

definition post_vaa ::
  "'pk receiver \<Rightarrow> (nat \<Rightarrow> 'pk) \<Rightarrow> bytes \<Rightarrow> 'pk post_result \<Rightarrow> ('pk \<times> 'pk post_result) res" where
  "post_vaa R keys vaa s =
     res_bind (buildPostEncodedVaaInstructions (rc_findAddr R) (rc_wormholeId R) (keys (po_keypairs s)) vaa) (\<lambda>p. Inr
       (pv_encodedVaaAddress p,
        s\<lparr>po_postInstructions := po_postInstructions s @ map of_vaa_instruction (pv_postInstructions p),
          po_closeInstructions := po_closeInstructions s @ map of_vaa_instruction (pv_closeInstructions p),
          po_keypairs := Suc (po_keypairs s)\<rparr>))"

definition post_update ::
  "'pk receiver \<Rightarrow> (bytes \<Rightarrow> 'bn) \<Rightarrow> (nat \<Rightarrow> 'pk) \<Rightarrow> nat \<Rightarrow> 'pk \<Rightarrow> accumulator_update \<Rightarrow> 'pk post_result \<Rightarrow> 'pk post_result res" where
  "post_update R newBN keys treasuryId encodedVaa update s =
     (let priceUpdateKeypair = keys (po_keypairs s) in
      res_bind (parsePriceFeedMessage newBN (upd_message update)) (\<lambda>message. Inr
        \<lparr>po_postInstructions = po_postInstructions s @
           [\<lparr>ri_call = PostUpdate update treasuryId encodedVaa priceUpdateKeypair
               (getTreasuryPda (rc_findAddr R) treasuryId (rc_receiverId R)) (getConfigPda (rc_findAddr R) (rc_receiverId R)),
             ri_signers = [priceUpdateKeypair], ri_computeUnits = Some POST_UPDATE_COMPUTE_BUDGET\<rparr>],
         po_priceUpdateAccount = (po_priceUpdateAccount s)(feed_key (pfm_feedId message) \<mapsto> priceUpdateKeypair),
         po_closeInstructions = po_closeInstructions s @ [buildClosePriceUpdateInstruction priceUpdateKeypair],
         po_keypairs = Suc (po_keypairs s)\<rparr>))"

definition post_update_data ::
  "'pk receiver \<Rightarrow> (bytes \<Rightarrow> 'bn) \<Rightarrow> (nat \<Rightarrow> 'pk) \<Rightarrow> nat \<Rightarrow> bytes \<Rightarrow> 'pk post_result \<Rightarrow> 'pk post_result res" where
  "post_update_data R newBN keys treasuryId priceUpdateData s =
     res_bind (parseAccumulatorUpdateData priceUpdateData) (\<lambda>a.
     res_bind (post_vaa R keys (aud_vaa a) s) (\<lambda>(encodedVaa, s).
     res_fold (post_update R newBN keys treasuryId encodedVaa) (aud_updates a) s))"

definition buildPostPriceUpdateInstructions ::
  "'pk receiver \<Rightarrow> (bytes \<Rightarrow> 'bn) \<Rightarrow> (nat \<Rightarrow> 'pk) \<Rightarrow> nat \<Rightarrow> bytes list \<Rightarrow> 'pk post_result res" where
  "buildPostPriceUpdateInstructions R newBN keys random priceUpdateDataArray =
     res_fold (post_update_data R newBN keys (case rc_treasuryId R of None \<Rightarrow> random | Some t \<Rightarrow> t)) priceUpdateDataArray no_instructions"

subsection \<open>Price feed accounts\<close>

definition update_feed ::
  "'pk receiver \<Rightarrow> (bytes \<Rightarrow> 'bn) \<Rightarrow> nat \<Rightarrow> nat \<Rightarrow> 'pk \<Rightarrow> accumulator_update \<Rightarrow> 'pk post_result \<Rightarrow> 'pk post_result res" where
  "update_feed R newBN treasuryId shardId encodedVaa update s =
     res_bind (parsePriceFeedMessage newBN (upd_message update)) (\<lambda>message.
     let feedId = pfm_feedId message in
     res_bind (getPriceFeedAccountAddress R shardId (FeedBytes feedId)) (\<lambda>priceFeedAccount. Inr
       (s\<lparr>po_postInstructions := po_postInstructions s @
            [\<lparr>ri_call = UpdatePriceFeed update treasuryId shardId feedId (rc_receiverId R) encodedVaa priceFeedAccount
                (getTreasuryPda (rc_findAddr R) treasuryId (rc_receiverId R)) (getConfigPda (rc_findAddr R) (rc_receiverId R)),
              ri_signers = [], ri_computeUnits = Some UPDATE_PRICE_FEED_COMPUTE_BUDGET\<rparr>],
          po_priceUpdateAccount := (po_priceUpdateAccount s)(feed_key feedId \<mapsto> priceFeedAccount)\<rparr>)))"

definition update_feed_data ::
  "'pk receiver \<Rightarrow> (bytes \<Rightarrow> 'bn) \<Rightarrow> (nat \<Rightarrow> 'pk) \<Rightarrow> nat \<Rightarrow> nat \<Rightarrow> bytes \<Rightarrow> 'pk post_result \<Rightarrow> 'pk post_result res" where
  "update_feed_data R newBN keys treasuryId shardId priceUpdateData s =
     res_bind (parseAccumulatorUpdateData priceUpdateData) (\<lambda>a.
     res_bind (post_vaa R keys (aud_vaa a) s) (\<lambda>(encodedVaa, s).
     res_fold (update_feed R newBN treasuryId shardId encodedVaa) (aud_updates a) s))"

definition buildUpdatePriceFeedInstructions ::
  "'pk receiver \<Rightarrow> (bytes \<Rightarrow> 'bn) \<Rightarrow> (nat \<Rightarrow> 'pk) \<Rightarrow> nat \<Rightarrow> bytes list \<Rightarrow> nat \<Rightarrow> 'pk post_result res" where
  "buildUpdatePriceFeedInstructions R newBN keys random priceUpdateDataArray shardId =
     res_fold (update_feed_data R newBN keys (case rc_treasuryId R of None \<Rightarrow> random | Some t \<Rightarrow> t) shardId) priceUpdateDataArray
       no_instructions"

text \<open>The accounts are those the wallet owns.\<close>

definition buildClosePreviousEncodedVaasInstructions :: "'pk list \<Rightarrow> int \<Rightarrow> 'pk receiver_instruction list" where
  "buildClosePreviousEncodedVaasInstructions encodedVaas maxInstructions =
     js_slice (Some 0) (Some maxInstructions) (map (\<lambda>v. of_vaa_instruction (buildCloseEncodedVaaInstruction v)) encodedVaas)"

section \<open>The transaction builder\<close>

record 'pk pyth_builder =
  pb_builder :: "('pk, 'pk) transaction_builder"
  pb_closeInstructions :: "'pk receiver_instruction list"
  pb_priceUpdateAccount :: "string \<rightharpoonup> 'pk"
  pb_closeUpdateAccounts :: bool

definition new_pyth_builder :: "'pk \<Rightarrow> bool option \<Rightarrow> 'pk list option \<Rightarrow> 'pk pyth_builder" where
  "new_pyth_builder wallet closeUpdateAccounts addressLookupTable =
     \<lparr>pb_builder = new_builder wallet addressLookupTable, pb_closeInstructions = [], pb_priceUpdateAccount = Map.empty,
      pb_closeUpdateAccounts = (case closeUpdateAccounts of None \<Rightarrow> True | Some b \<Rightarrow> b)\<rparr>"

text \<open>\<open>client\<close> serializes an instruction; \<open>draws\<close> are the random numbers drawn for the instructions of a call.\<close>

definition add_receiver_instructions ::
  "'pk tx_env \<Rightarrow> ('pk receiver_instruction \<Rightarrow> ('pk, 'pk) ix_with_signers) \<Rightarrow> (nat \<Rightarrow> nat) \<Rightarrow> 'pk receiver_instruction list \<Rightarrow>
   ('pk, 'pk) transaction_builder \<Rightarrow> ('pk, 'pk) transaction_builder" where
  "add_receiver_instructions env client draws is bd =
     addInstructions env (map (\<lambda>(n, i). (draws n, client i)) (List.enumerate 0 is)) bd"

text \<open>\<^verbatim>\<open>addPostPriceUpdates\<close>, \<^verbatim>\<open>addPostPartiallyVerifiedPriceUpdates\<close> and \<^verbatim>\<open>addUpdatePriceFeed\<close>, for what their builder returns.\<close>

definition add_post_result ::
  "'pk tx_env \<Rightarrow> ('pk receiver_instruction \<Rightarrow> ('pk, 'pk) ix_with_signers) \<Rightarrow> (nat \<Rightarrow> nat) \<Rightarrow> 'pk post_result \<Rightarrow> 'pk pyth_builder \<Rightarrow>
   'pk pyth_builder" where
  "add_post_result env client draws r b =
     b\<lparr>pb_closeInstructions := pb_closeInstructions b @ po_closeInstructions r,
       pb_priceUpdateAccount := pb_priceUpdateAccount b ++ po_priceUpdateAccount r,
       pb_builder := add_receiver_instructions env client draws (po_postInstructions r) (pb_builder b)\<rparr>"

definition getPriceUpdateAccount :: "'pk pyth_builder \<Rightarrow> string \<Rightarrow> 'pk res" where
  "getPriceUpdateAccount b priceFeedId =
     (case pb_priceUpdateAccount b priceFeedId of
        None \<Rightarrow> Inl (Error (''No price update account found for the price feed ID '' @ priceFeedId @
          ''. Make sure to call addPostPriceUpdates or addPostPartiallyVerifiedPriceUpdates before calling this function.''))
      | Some account \<Rightarrow> Inr account)"

definition addPriceConsumerInstructions ::
  "'pk tx_env \<Rightarrow> (nat \<Rightarrow> nat) \<Rightarrow> ((string \<Rightarrow> 'pk res) \<Rightarrow> ('pk, 'pk) ix_with_signers list res) \<Rightarrow> 'pk pyth_builder \<Rightarrow> 'pk pyth_builder res" where
  "addPriceConsumerInstructions env draws getInstructions b =
     res_bind (getInstructions (getPriceUpdateAccount b)) (\<lambda>is.
     Inr (b\<lparr>pb_builder := addInstructions env (map (\<lambda>(n, i). (draws n, i)) (List.enumerate 0 is)) (pb_builder b)\<rparr>))"

definition addClosePreviousEncodedVaasInstructions ::
  "'pk tx_env \<Rightarrow> ('pk receiver_instruction \<Rightarrow> ('pk, 'pk) ix_with_signers) \<Rightarrow> (nat \<Rightarrow> nat) \<Rightarrow> 'pk list \<Rightarrow> int option \<Rightarrow> 'pk pyth_builder \<Rightarrow>
   'pk pyth_builder" where
  "addClosePreviousEncodedVaasInstructions env client draws encodedVaas maxInstructions b =
     b\<lparr>pb_builder := add_receiver_instructions env client draws
       (buildClosePreviousEncodedVaasInstructions encodedVaas (case maxInstructions of None \<Rightarrow> 40 | Some m \<Rightarrow> m)) (pb_builder b)\<rparr>"

text \<open>The part that the two overridden build methods share: the builder with the instructions that close the accounts.\<close>

definition with_close_instructions ::
  "'pk tx_env \<Rightarrow> ('pk receiver_instruction \<Rightarrow> ('pk, 'pk) ix_with_signers) \<Rightarrow> (nat \<Rightarrow> nat) \<Rightarrow> 'pk pyth_builder \<Rightarrow> 'pk pyth_builder" where
  "with_close_instructions env client draws b =
     (if pb_closeUpdateAccounts b
      then b\<lparr>pb_builder := add_receiver_instructions env client draws (pb_closeInstructions b) (pb_builder b)\<rparr> else b)"

definition receiver_buildVersionedTransactions ::
  "'pk tx_env \<Rightarrow> ('pk receiver_instruction \<Rightarrow> ('pk, 'pk) ix_with_signers) \<Rightarrow> (nat \<Rightarrow> nat) \<Rightarrow> (nat \<Rightarrow> nat) \<Rightarrow> priority_fee_config \<Rightarrow>
   'pk pyth_builder \<Rightarrow> ('pk ix list \<times> 'pk list) list" where
  "receiver_buildVersionedTransactions env client draws random args b =
     buildVersionedTransactions env random args (pb_builder (with_close_instructions env client draws b))"

definition receiver_buildLegacyTransactions ::
  "'pk tx_env \<Rightarrow> ('pk receiver_instruction \<Rightarrow> ('pk, 'pk) ix_with_signers) \<Rightarrow> (nat \<Rightarrow> nat) \<Rightarrow> (nat \<Rightarrow> nat) \<Rightarrow> priority_fee_config \<Rightarrow>
   'pk pyth_builder \<Rightarrow> ('pk ix list \<times> 'pk list) list res" where
  "receiver_buildLegacyTransactions env client draws random args b =
     buildLegacyTransactions env random args (pb_builder (with_close_instructions env client draws b))"

section \<open>Properties\<close>

text \<open>The accounts a call creates, those it closes, and the update it posts with the account it posts it to.\<close>

fun opened_by :: "'pk receiver_call \<Rightarrow> 'pk list" where
  "opened_by (WormholeCall (CreateEncodedVaa k n)) = [k]"
| "opened_by (PostUpdateAtomic v u t k a b c) = [k]"
| "opened_by (PostUpdate u t v k a b) = [k]"
| "opened_by _ = []"

fun closed_by :: "'pk receiver_call \<Rightarrow> 'pk list" where
  "closed_by (WormholeCall (CloseEncodedVaa k)) = [k]"
| "closed_by (ReclaimRent k) = [k]"
| "closed_by _ = []"

fun posted_by :: "'pk receiver_call \<Rightarrow> (accumulator_update \<times> 'pk) list" where
  "posted_by (PostUpdateAtomic v u t k a b c) = [(u, k)]"
| "posted_by (PostUpdate u t v k a b) = [(u, k)]"
| "posted_by (UpdatePriceFeed u t sh f r v k a b) = [(u, k)]"
| "posted_by _ = []"

definition opened :: "'pk post_result \<Rightarrow> 'pk list" where
  "opened r = concat (map (\<lambda>i. opened_by (ri_call i)) (po_postInstructions r))"

definition closed :: "'pk post_result \<Rightarrow> 'pk list" where
  "closed r = concat (map (\<lambda>i. closed_by (ri_call i)) (po_closeInstructions r))"

definition posted :: "'pk post_result \<Rightarrow> (accumulator_update \<times> 'pk) list" where
  "posted r = concat (map (\<lambda>i. posted_by (ri_call i)) (po_postInstructions r))"

definition update_key :: "(bytes \<Rightarrow> 'bn) \<Rightarrow> accumulator_update \<Rightarrow> string" where
  "update_key newBN u = feed_key (pfm_feedId (projr (parsePriceFeedMessage newBN (upd_message u))))"

text \<open>
  The invariant of the builders: the accounts created are the keypairs so far, each is closed, and the table has for each feed the
  account of the last update posted for it.
\<close>

definition post_ok :: "(bytes \<Rightarrow> 'bn) \<Rightarrow> (nat \<Rightarrow> 'pk) \<Rightarrow> 'pk post_result \<Rightarrow> bool" where
  "post_ok newBN keys r \<longleftrightarrow> opened r = map keys [0..<po_keypairs r] \<and> closed r = map keys [0..<po_keypairs r] \<and>
     po_priceUpdateAccount r = map_of (rev (map (\<lambda>(u, k). (update_key newBN u, k)) (posted r)))"

named_theorems post_defs

lemmas [post_defs] = post_ok_def opened_def closed_def posted_def update_key_def

lemma post_ok_init: "post_ok newBN keys no_instructions" "posted no_instructions = []"
  by (simp_all add: post_defs no_instructions_def)

text \<open>What a step adds: it keeps the invariant and posts the updates \<open>us\<close>.\<close>

definition adds :: "(bytes \<Rightarrow> 'bn) \<Rightarrow> (nat \<Rightarrow> 'pk) \<Rightarrow> accumulator_update list \<Rightarrow> 'pk post_result \<Rightarrow> 'pk post_result \<Rightarrow> bool" where
  "adds newBN keys us s t \<longleftrightarrow> (post_ok newBN keys s \<longrightarrow> post_ok newBN keys t) \<and> map fst (posted t) = map fst (posted s) @ us"

lemma adds_trans: "adds newBN keys us s t \<Longrightarrow> adds newBN keys vs t r \<Longrightarrow> adds newBN keys (us @ vs) s r"
  by (simp add: adds_def)

lemma res_fold_adds:
  assumes "res_fold f xs s = Inr t" and "\<And>x s t. x \<in> set xs \<Longrightarrow> f x s = Inr t \<Longrightarrow> adds newBN keys (h x) s t"
  shows "adds newBN keys (concat (map h xs)) s t"
  using assms
proof (induction xs arbitrary: s)
  case Nil
  then show ?case by (simp add: adds_def)
next
  case (Cons x xs)
  obtain r where r: "f x s = Inr r" "res_fold f xs r = Inr t" using Cons.prems(1) by (auto simp: res_bind_eq_Inr)
  have "adds newBN keys (h x) s r" using Cons.prems(2) r(1) by simp
  moreover have "adds newBN keys (concat (map h xs)) r t" by (rule Cons.IH [OF r(2)]) (use Cons.prems(2) in simp)
  ultimately show ?case using adds_trans by fastforce
qed

lemma post_atomic_adds: "post_atomic R newBN keys t g v u s = Inr s' \<Longrightarrow> adds newBN keys [u] s s'"
  by (auto simp: post_atomic_def Let_def res_bind_eq_Inr adds_def post_defs buildClosePriceUpdateInstruction_def)

lemma post_update_adds: "post_update R newBN keys t v u s = Inr s' \<Longrightarrow> adds newBN keys [u] s s'"
  by (auto simp: post_update_def Let_def res_bind_eq_Inr adds_def post_defs buildClosePriceUpdateInstruction_def)

lemma update_feed_adds: "update_feed R newBN t sh v u s = Inr s' \<Longrightarrow> adds newBN keys [u] s s'"
  by (auto simp: update_feed_def Let_def res_bind_eq_Inr adds_def post_defs)

lemma post_vaa_adds: "post_vaa R keys vaa s = Inr (v, s') \<Longrightarrow> adds newBN keys [] s s'"
  by (auto simp: post_vaa_def res_bind_eq_Inr adds_def post_defs buildPostEncodedVaaInstructions_def generateVaaInstructionGroups_def
      of_vaa_instruction_def buildEncodedVaaCreateInstruction_def)

lemma data_adds:
  "post_atomic_data R newBN keys t d s = Inr s' \<Longrightarrow> adds newBN keys (aud_updates (projr (parseAccumulatorUpdateData d))) s s'"
  "post_update_data R newBN keys t d s = Inr s' \<Longrightarrow> adds newBN keys (aud_updates (projr (parseAccumulatorUpdateData d))) s s'"
  "update_feed_data R newBN keys t sh d s = Inr s' \<Longrightarrow> adds newBN keys (aud_updates (projr (parseAccumulatorUpdateData d))) s s'"
proof -
  have single: "concat (map (\<lambda>u. [u]) us) = us" for us :: "accumulator_update list" by (induction us) auto
  note fold = res_fold_adds [where h = "\<lambda>u. [u]", unfolded single]
  show "post_atomic_data R newBN keys t d s = Inr s' \<Longrightarrow> adds newBN keys (aud_updates (projr (parseAccumulatorUpdateData d))) s s'"
    by (auto simp: post_atomic_data_def res_bind_eq_Inr intro: fold post_atomic_adds)
  show "adds newBN keys (aud_updates (projr (parseAccumulatorUpdateData d))) s s'" if "post_update_data R newBN keys t d s = Inr s'"
  proof -
    obtain a v m where "parseAccumulatorUpdateData d = Inr a" "post_vaa R keys (aud_vaa a) s = Inr (v, m)"
        "res_fold (post_update R newBN keys t v) (aud_updates a) m = Inr s'"
      using \<open>post_update_data R newBN keys t d s = Inr s'\<close> by (auto simp: post_update_data_def res_bind_eq_Inr)
    then show ?thesis using adds_trans [OF post_vaa_adds fold [OF _ post_update_adds]] by fastforce
  qed
  show "adds newBN keys (aud_updates (projr (parseAccumulatorUpdateData d))) s s'" if "update_feed_data R newBN keys t sh d s = Inr s'"
  proof -
    obtain a v m where "parseAccumulatorUpdateData d = Inr a" "post_vaa R keys (aud_vaa a) s = Inr (v, m)"
        "res_fold (update_feed R newBN t sh v) (aud_updates a) m = Inr s'"
      using \<open>update_feed_data R newBN keys t sh d s = Inr s'\<close> by (auto simp: update_feed_data_def res_bind_eq_Inr)
    then show ?thesis using adds_trans [OF post_vaa_adds fold [OF _ update_feed_adds]] by fastforce
  qed
qed

text \<open>
  C32. The receiver's client posts every update once and closes every account it creates.  Whichever of the three kinds of
  instructions it builds, the updates they post are exactly the updates of the given data, in order; the
  accounts they create are those of the new keypairs, and the closing instructions close exactly these, each once; and
  the table gives for each feed the account of the last update posted for it.
\<close>

theorem receiver_posts_and_closes:
  assumes "buildPostPriceUpdateInstructions R newBN keys random data = Inr r \<or>
      buildPostPriceUpdateAtomicInstructions R newBN keys random data = Inr r \<or>
      buildUpdatePriceFeedInstructions R newBN keys random data shardId = Inr r"
  shows "map fst (posted r) = concat (map (\<lambda>d. aud_updates (projr (parseAccumulatorUpdateData d))) data) \<and>
    opened r = map keys [0..<po_keypairs r] \<and> closed r = opened r \<and>
    po_priceUpdateAccount r = map_of (rev (map (\<lambda>(u, k). (update_key newBN u, k)) (posted r)))"
proof -
  have adds: "adds newBN keys (concat (map (\<lambda>d. aud_updates (projr (parseAccumulatorUpdateData d))) data)) no_instructions r"
    using assms unfolding buildPostPriceUpdateInstructions_def buildPostPriceUpdateAtomicInstructions_def
      buildUpdatePriceFeedInstructions_def
    by (elim disjE) (rule res_fold_adds, assumption, erule data_adds)+
  then have "post_ok newBN keys r" using post_ok_init(1) unfolding adds_def by blast
  moreover have "map fst (posted r) = concat (map (\<lambda>d. aud_updates (projr (parseAccumulatorUpdateData d))) data)"
    using adds unfolding adds_def by (simp add: post_ok_init(2))
  ultimately show ?thesis by (simp add: post_ok_def)
qed

text \<open>The built transactions: first the instructions that post, then those of the consumer, then those that close.\<close>

lemma add_receiver_instructions_order:
  assumes "builder_ok env bd"
  shows "builder_ok env (add_receiver_instructions env client draws is bd) \<and>
    concat (map tb_instructions (bd_transactionInstructions (add_receiver_instructions env client draws is bd))) =
      concat (map tb_instructions (bd_transactionInstructions bd)) @ map (\<lambda>i. iws_instruction (client i)) is"
proof -
  have "map (\<lambda>x. iws_instruction (snd x)) (map (\<lambda>(n, i). (draws n, client i)) (List.enumerate m is)) = map (\<lambda>i. iws_instruction (client i)) is" for m
    by (induction "is" arbitrary: m) auto
  then show ?thesis using addInstructions_ok [OF assms, of "map (\<lambda>(n, i). (draws n, client i)) (List.enumerate 0 is)"]
    by (simp add: add_receiver_instructions_def)
qed

lemma receiver_builder_order:
  assumes "addPriceConsumerInstructions env d2 getInstructions (add_post_result env client d1 r (new_pyth_builder wallet None table)) = Inr b"
  shows "\<exists>consumer. getInstructions (getPriceUpdateAccount (add_post_result env client d1 r (new_pyth_builder wallet None table))) = Inr consumer \<and>
    concat (map tb_instructions (bd_transactionInstructions (pb_builder (with_close_instructions env client d3 b)))) =
      map (\<lambda>i. iws_instruction (client i)) (po_postInstructions r) @ map iws_instruction consumer @
      map (\<lambda>i. iws_instruction (client i)) (po_closeInstructions r)"
proof -
  let ?b1 = "add_post_result env client d1 r (new_pyth_builder wallet None table)"
  obtain consumer where c: "getInstructions (getPriceUpdateAccount ?b1) = Inr consumer"
      "b = ?b1\<lparr>pb_builder := addInstructions env (map (\<lambda>(n, i). (d2 n, i)) (List.enumerate 0 consumer)) (pb_builder ?b1)\<rparr>"
    using assms by (auto simp: addPriceConsumerInstructions_def res_bind_eq_Inr)
  have new: "builder_ok env (new_builder wallet table)" by (simp add: builder_ok_def new_builder_def)
  have b1: "builder_ok env (pb_builder ?b1)"
      "concat (map tb_instructions (bd_transactionInstructions (pb_builder ?b1))) = map (\<lambda>i. iws_instruction (client i)) (po_postInstructions r)"
    using add_receiver_instructions_order [OF new, of client d1 "po_postInstructions r"]
    by (simp_all add: add_post_result_def new_pyth_builder_def) (simp add: new_builder_def)
  have en: "map (\<lambda>x. iws_instruction (snd x)) (map (\<lambda>(n, i). (d2 n, i)) (List.enumerate m consumer)) = map iws_instruction consumer" for m
    by (induction consumer arbitrary: m) auto
  have b2: "builder_ok env (pb_builder b)"
      "concat (map tb_instructions (bd_transactionInstructions (pb_builder b))) =
       map (\<lambda>i. iws_instruction (client i)) (po_postInstructions r) @ map iws_instruction consumer"
    using addInstructions_ok [OF b1(1), of "map (\<lambda>(n, i). (d2 n, i)) (List.enumerate 0 consumer)"] b1(2) en by (simp_all add: c(2))
  have "pb_closeUpdateAccounts b" "pb_closeInstructions b = po_closeInstructions r"
    by (simp_all add: c(2) add_post_result_def new_pyth_builder_def)
  then show ?thesis using c(1) b2(2) add_receiver_instructions_order [OF b2(1), of client d3 "po_closeInstructions r"]
    by (simp add: with_close_instructions_def)
qed

section \<open>Example\<close>

definition sample_message :: "bytes price_feed_message" where
  "sample_message = \<lparr>pfm_feedId = replicate 32 1, pfm_price = replicate 8 2, pfm_confidence = replicate 8 3, pfm_exponent = - 8,
     pfm_publishTime = replicate 8 4, pfm_prevPublishTime = replicate 8 5, pfm_emaPrice = replicate 8 6, pfm_emaConf = replicate 8 7\<rparr>"

definition sample_accumulator :: accumulator_update_data where
  "sample_accumulator = \<lparr>aud_vaa = [1, 0, 0, 0, 4, 0, 9, 9],
     aud_updates = replicate 2 \<lparr>upd_message = encode_price_feed_message sample_message, upd_proof = [replicate 20 8]\<rparr>\<rparr>"

definition sample_receiver :: "nat receiver" where
  "sample_receiver = \<lparr>rc_findAddr = (\<lambda>_ p. (p + 1000, 255)), rc_receiverId = 100, rc_wormholeId = 200, rc_pushOracleId = 300, rc_treasuryId = Some 0\<rparr>"

lemma sample_parses:
  "parsePriceFeedMessage id (encode_price_feed_message sample_message) = Inr sample_message"
  "parseAccumulatorUpdateData (encode_accumulator [] 0 sample_accumulator) = Inr sample_accumulator"
proof -
  have wf: "wf_price_feed_message sample_message" by (simp add: wf_price_feed_message_def sample_message_def)
  have "map_price_feed_message id sample_message = sample_message" by (simp add: map_price_feed_message_def sample_message_def)
  then show "parsePriceFeedMessage id (encode_price_feed_message sample_message) = Inr sample_message"
    using parsePriceFeedMessage_encode_aux [OF wf, of id "[]"] by simp
  have "length (encode_price_feed_message sample_message) = 85"
    by (simp add: encode_price_feed_message_def sample_message_def)
  then show "parseAccumulatorUpdateData (encode_accumulator [] 0 sample_accumulator) = Inr sample_accumulator"
    by (intro parse_encode_accumulator) (simp_all add: wf_accumulator_def wf_update_def sample_accumulator_def KECCAK160_HASH_SIZE_def list_all_iff)
qed

lemma sample_post:
  "\<exists>r. buildPostPriceUpdateInstructions sample_receiver id (\<lambda>k. k) 7 [encode_accumulator [] 0 sample_accumulator] = Inr r \<and> po_keypairs r = 3"
proof -
  obtain n where "getGuardianSetIndex (aud_vaa sample_accumulator) = Inr n"
    by (simp add: getGuardianSetIndex_def read_be_def sample_accumulator_def)
  then obtain p where p: "\<And>k. buildPostEncodedVaaInstructions (rc_findAddr sample_receiver) (rc_wormholeId sample_receiver) k (aud_vaa sample_accumulator) = Inr (p k)"
    by (simp add: buildPostEncodedVaaInstructions_def generateVaaInstructionGroups_def)
  have us: "aud_updates sample_accumulator = replicate 2 \<lparr>upd_message = encode_price_feed_message sample_message, upd_proof = [replicate 20 8]\<rparr>"
    by (simp add: sample_accumulator_def)
  show ?thesis
    by (simp add: buildPostPriceUpdateInstructions_def post_update_data_def sample_parses post_vaa_def p us post_update_def
        no_instructions_def eval_nat_numeral)
qed

theorem receiver_posts_and_closes_witness:
  "\<exists>r. buildPostPriceUpdateInstructions sample_receiver id (\<lambda>k. k) 7 [encode_accumulator [] 0 sample_accumulator] = Inr r \<and>
    closed r = [0, 1, 2] \<and> opened r = [0, 1, 2] \<and> map fst (posted r) = aud_updates sample_accumulator"
proof -
  obtain r where r: "buildPostPriceUpdateInstructions sample_receiver id (\<lambda>k. k) 7 [encode_accumulator [] 0 sample_accumulator] = Inr r"
      "po_keypairs r = 3"
    using sample_post by blast
  from receiver_posts_and_closes [OF disjI1, OF r(1)] show ?thesis
    using r by (intro exI [of _ r]) (simp add: sample_parses(2) upt_rec)
qed

end
