(* ===== verification/Sui_Client.thy ===== *)
theory Sui_Client
  imports Accumulator Evm_Pusher
begin

text \<open>
  The Sui SDK (\<^verbatim>\<open>target_chains/sui/sdk/js/src/client.ts\<close>): the client that the Sui pusher uses to turn an update into the
  commands of a transaction.  A method is a function on the client, with its caches, and the commands added so far; it returns the
  changed pair with a result or an exception.  The node, the serialization of arguments (\<^verbatim>\<open>bcs\<close>) and the object of the clock
  are fields of \<open>sui_env\<close>.
\<close>

section \<open>Client and transactions\<close>

datatype sui_arg =
    ObjectArg string
  | PureArg bytes
  | NestedResult nat nat

datatype sui_command =
    MoveCall string "sui_arg list" "string list"
  | SplitGas "sui_arg list"

record sui_client =
  cl_pythPackageId :: "string option"
  cl_wormholePackageId :: "string option"
  cl_priceTableInfo :: "(string \<times> string) option"
  cl_priceFeedObjectIdCache :: "string \<rightharpoonup> string"
  cl_baseUpdateFee :: "jsnum option"

text \<open>
  The answers of the node: the data type of an object with what is read of its fields (\<open>None\<close> when it has no content), the type and id
  of the price table (\<open>None\<close> when it has no type), and the entry of a feed.
\<close>

record sui_env =
  sv_pythStateId :: string
  sv_wormholeStateId :: string
  sv_clock :: string
  sv_upgrade_cap :: "string \<Rightarrow> (string \<times> string option) option res"
  sv_base_update_fee :: "(string \<times> jsnum) option res"
  sv_price_table :: "(string \<times> string) option res"
  sv_price_object :: "string \<Rightarrow> string \<Rightarrow> bytes \<Rightarrow> (string \<times> string) option res"
  sv_serialize :: "bytes \<Rightarrow> bytes res"
  sv_pure_u64 :: "jsnum \<Rightarrow> bytes res"

type_synonym 'a sui_method = "sui_client \<times> sui_command list \<Rightarrow> (sui_client \<times> sui_command list) \<times> 'a res"

definition m_return :: "'a \<Rightarrow> 'a sui_method" where
  "m_return x s = (s, Inr x)"

definition m_lift :: "'a res \<Rightarrow> 'a sui_method" where
  "m_lift r s = (s, r)"

definition m_bind :: "'a sui_method \<Rightarrow> ('a \<Rightarrow> 'b sui_method) \<Rightarrow> 'b sui_method" where
  "m_bind m f s = (case m s of (s', Inl e) \<Rightarrow> (s', Inl e) | (s', Inr x) \<Rightarrow> f x s')"

definition the_client :: "sui_client sui_method" where
  "the_client s = (s, Inr (fst s))"

definition set_client :: "sui_client \<Rightarrow> unit sui_method" where
  "set_client c s = ((c, snd s), Inr ())"

text \<open>A command is added at the end; its results are named by its position.\<close>

definition add_command :: "sui_command \<Rightarrow> nat sui_method" where
  "add_command c s = ((fst s, snd s @ [c]), Inr (length (snd s)))"

definition moveCall :: "string \<Rightarrow> sui_arg list \<Rightarrow> string list \<Rightarrow> sui_arg sui_method" where
  "moveCall target args types = m_bind (add_command (MoveCall target args types)) (\<lambda>n. m_return (NestedResult n 0))"

section \<open>The VAA of an update\<close>

definition extractVaaBytesFromAccumulatorMessage :: "bytes \<Rightarrow> bytes res" where
  "extractVaaBytesFromAccumulatorMessage accumulatorMessage =
     res_bind (readUInt8 accumulatorMessage 6) (\<lambda>trailingPayloadSize.
     let vaaSizeOffset = 7 + trailingPayloadSize + 1 in
     res_bind (readUInt16BE accumulatorMessage vaaSizeOffset) (\<lambda>vaaSize.
     let vaaOffset = vaaSizeOffset + 2 in Inr (buf_subarray accumulatorMessage vaaOffset (vaaOffset + vaaSize))))"

section \<open>Cached answers of the node\<close>

definition getBaseUpdateFee :: "sui_env \<Rightarrow> jsnum sui_method" where
  "getBaseUpdateFee env = m_bind the_client (\<lambda>c.
     case cl_baseUpdateFee c of
       Some fee \<Rightarrow> m_return fee
     | None \<Rightarrow> m_bind (m_lift (sv_base_update_fee env)) (\<lambda>result.
         case result of
           None \<Rightarrow> m_lift (Inl (Error ''Unable to fetch pyth state object''))
         | Some (dataType, fee) \<Rightarrow>
             if dataType \<noteq> ''moveObject'' then m_lift (Inl (Error ''Unable to fetch pyth state object''))
             else m_bind (set_client (c\<lparr>cl_baseUpdateFee := Some fee\<rparr>)) (\<lambda>_. m_return fee)))"

definition client_getPackageId :: "sui_env \<Rightarrow> string \<Rightarrow> string res" where
  "client_getPackageId env objectId =
     res_bind (sv_upgrade_cap env objectId) (\<lambda>content.
     case content of
       None \<Rightarrow> Inl (Error (''Cannot fetch package id for object '' @ objectId))
     | Some (dataType, upgrade_cap) \<Rightarrow>
         if dataType \<noteq> ''moveObject'' then Inl (Error (''Cannot fetch package id for object '' @ objectId))
         else case upgrade_cap of None \<Rightarrow> Inl (Error ''upgrade_cap not found'') | Some package \<Rightarrow> Inr package)"

text \<open>An empty id counts as not cached.\<close>

definition getWormholePackageId :: "sui_env \<Rightarrow> string sui_method" where
  "getWormholePackageId env = m_bind the_client (\<lambda>c.
     case cl_wormholePackageId c of
       Some (x # xs) \<Rightarrow> m_return (x # xs)
     | _ \<Rightarrow> m_bind (m_lift (client_getPackageId env (sv_wormholeStateId env))) (\<lambda>package.
         m_bind (set_client (c\<lparr>cl_wormholePackageId := Some package\<rparr>)) (\<lambda>_. m_return package)))"

definition getPythPackageId :: "sui_env \<Rightarrow> string sui_method" where
  "getPythPackageId env = m_bind the_client (\<lambda>c.
     case cl_pythPackageId c of
       Some (x # xs) \<Rightarrow> m_return (x # xs)
     | _ \<Rightarrow> m_bind (m_lift (client_getPackageId env (sv_pythStateId env))) (\<lambda>package.
         m_bind (set_client (c\<lparr>cl_pythPackageId := Some package\<rparr>)) (\<lambda>_. m_return package)))"

text \<open>\<^verbatim>\<open>s.replace(pattern, "")\<close> removes the first occurrence.\<close>

fun remove_first :: "string \<Rightarrow> string \<Rightarrow> string" where
  "remove_first pat [] = []"
| "remove_first pat (c # s) = (if startsWith (c # s) pat then drop (length pat) (c # s) else c # remove_first pat s)"

definition getPriceTableInfo :: "sui_env \<Rightarrow> (string \<times> string) sui_method" where
  "getPriceTableInfo env = m_bind the_client (\<lambda>c.
     case cl_priceTableInfo c of
       Some info \<Rightarrow> m_return info
     | None \<Rightarrow> m_bind (m_lift (sv_price_table env)) (\<lambda>result.
         case result of
           None \<Rightarrow> m_lift (Inl (Error ''Price Table not found, contract may not be initialized''))
         | Some (objectId, type) \<Rightarrow>
             let fieldType = remove_first ''::price_identifier::PriceIdentifier, 0x2::object::ID>'' (remove_first ''0x2::table::Table<'' type)
             in m_bind (set_client (c\<lparr>cl_priceTableInfo := Some (objectId, fieldType)\<rparr>)) (\<lambda>_. m_return (objectId, fieldType))))"

definition getPriceFeedObjectId :: "sui_env \<Rightarrow> string \<Rightarrow> string option sui_method" where
  "getPriceFeedObjectId env feedId =
     (let normalizedFeedId = remove_first ''0x'' feedId in
      m_bind the_client (\<lambda>c.
      case cl_priceFeedObjectIdCache c normalizedFeedId of
        Some objectId \<Rightarrow> m_return (Some objectId)
      | None \<Rightarrow>
          m_bind (getPriceTableInfo env) (\<lambda>(tableId, fieldType).
          m_bind (m_lift (sv_price_object env tableId (fieldType @ ''::price_identifier::PriceIdentifier'') (hex_to_bytes normalizedFeedId)))
            (\<lambda>result.
            case result of
              None \<Rightarrow> m_return None
            | Some (dataType, v) \<Rightarrow>
                if dataType \<noteq> ''moveObject'' then m_lift (Inl (Error ''Price feed type mismatch''))
                else m_bind the_client (\<lambda>c.
                  m_bind (set_client (c\<lparr>cl_priceFeedObjectIdCache := (cl_priceFeedObjectIdCache c)(normalizedFeedId \<mapsto> v)\<rparr>)) (\<lambda>_.
                  m_return (Some v)))))))"

section \<open>Commands\<close>

fun verifyVaas :: "sui_env \<Rightarrow> string \<Rightarrow> bytes list \<Rightarrow> sui_arg list sui_method" where
  "verifyVaas env wormholePackageId [] = m_return []"
| "verifyVaas env wormholePackageId (vaa # vaas) =
     m_bind (m_lift (sv_serialize env vaa)) (\<lambda>v.
     m_bind (moveCall (wormholePackageId @ ''::vaa::parse_and_verify'')
       [ObjectArg (sv_wormholeStateId env), PureArg v, ObjectArg (sv_clock env)] []) (\<lambda>verifiedVaa.
     m_bind (verifyVaas env wormholePackageId vaas) (\<lambda>verifiedVaas. m_return (verifiedVaa # verifiedVaas))))"

text \<open>The part that the updates and \<^verbatim>\<open>createPriceFeed\<close> share: the verified VAA and the serialized update, for a single update.\<close>

definition verify_update :: "sui_env \<Rightarrow> bytes list \<Rightarrow> (bytes \<times> sui_arg) sui_method" where
  "verify_update env updates =
     (case updates of
        [] \<Rightarrow> m_lift (Inl TypeError)
      | [update] \<Rightarrow>
          m_bind (m_lift (extractVaaBytesFromAccumulatorMessage update)) (\<lambda>vaa.
          m_bind (getWormholePackageId env) (\<lambda>wormholePackageId.
          m_bind (verifyVaas env wormholePackageId [vaa]) (\<lambda>verifiedVaas.
          m_bind (m_lift (sv_serialize env update)) (\<lambda>u. m_return (u, hd verifiedVaas)))))
      | _ \<Rightarrow> m_lift (Inl (Error ''SDK does not support sending multiple accumulator messages in a single transaction'')))"

definition verifyVaasAndGetHotPotato :: "sui_env \<Rightarrow> bytes list \<Rightarrow> string \<Rightarrow> sui_arg sui_method" where
  "verifyVaasAndGetHotPotato env updates packageId =
     m_bind (verify_update env updates) (\<lambda>(u, verifiedVaa).
     moveCall (packageId @ ''::pyth::create_authenticated_price_infos_using_accumulator'')
       [ObjectArg (sv_pythStateId env), PureArg u, verifiedVaa, ObjectArg (sv_clock env)] [])"

text \<open>The loop over the feeds; \<open>coins\<close> gives the coin of each.  An empty object id counts as none.\<close>

fun update_feeds :: "sui_env \<Rightarrow> string \<Rightarrow> string list \<Rightarrow> sui_arg \<Rightarrow> (nat \<Rightarrow> sui_arg) \<Rightarrow> nat \<Rightarrow> (string list \<times> sui_arg) sui_method" where
  "update_feeds env packageId [] hotPotato coins coinId = m_return ([], hotPotato)"
| "update_feeds env packageId (feedId # feedIds) hotPotato coins coinId =
     m_bind (getPriceFeedObjectId env feedId) (\<lambda>priceInfoObjectId.
     case priceInfoObjectId of
       None \<Rightarrow> m_lift (Inl (Error (''Price feed '' @ feedId @ '' not found, please create it first'')))
     | Some i \<Rightarrow>
         if i = '''' then m_lift (Inl (Error (''Price feed '' @ feedId @ '' not found, please create it first'')))
         else
           m_bind (moveCall (packageId @ ''::pyth::update_single_price_feed'')
             [ObjectArg (sv_pythStateId env), hotPotato, ObjectArg i, coins coinId, ObjectArg (sv_clock env)] []) (\<lambda>hotPotato.
           m_bind (update_feeds env packageId feedIds hotPotato coins (coinId + 1)) (\<lambda>(objects, hotPotato).
           m_return (i # objects, hotPotato))))"

definition executePriceFeedUpdates ::
  "sui_env \<Rightarrow> string \<Rightarrow> string list \<Rightarrow> sui_arg \<Rightarrow> (nat \<Rightarrow> sui_arg) \<Rightarrow> string list sui_method" where
  "executePriceFeedUpdates env packageId feedIds priceUpdatesHotPotato coins =
     m_bind (update_feeds env packageId feedIds priceUpdatesHotPotato coins 0) (\<lambda>(priceInfoObjects, hotPotato).
     m_bind (moveCall (packageId @ ''::hot_potato_vector::destroy'') [hotPotato] [packageId @ ''::price_info::PriceInfo'']) (\<lambda>_.
     m_return priceInfoObjects))"

definition updatePriceFeeds :: "sui_env \<Rightarrow> bytes list \<Rightarrow> string list \<Rightarrow> string list sui_method" where
  "updatePriceFeeds env updates feedIds =
     m_bind (getPythPackageId env) (\<lambda>packageId.
     m_bind (verifyVaasAndGetHotPotato env updates packageId) (\<lambda>priceUpdatesHotPotato.
     m_bind (getBaseUpdateFee env) (\<lambda>baseUpdateFee.
     m_bind (m_lift (map_res (\<lambda>_. sv_pure_u64 env baseUpdateFee) feedIds)) (\<lambda>amounts.
     m_bind (add_command (SplitGas (map PureArg amounts))) (\<lambda>split.
     executePriceFeedUpdates env packageId feedIds priceUpdatesHotPotato (\<lambda>i. NestedResult split i))))))"

definition updatePriceFeedsWithCoins :: "sui_env \<Rightarrow> bytes list \<Rightarrow> string list \<Rightarrow> (nat \<Rightarrow> sui_arg) \<Rightarrow> string list sui_method" where
  "updatePriceFeedsWithCoins env updates feedIds coins =
     m_bind (getPythPackageId env) (\<lambda>packageId.
     m_bind (verifyVaasAndGetHotPotato env updates packageId) (\<lambda>priceUpdatesHotPotato.
     executePriceFeedUpdates env packageId feedIds priceUpdatesHotPotato coins))"

definition createPriceFeed :: "sui_env \<Rightarrow> bytes list \<Rightarrow> unit sui_method" where
  "createPriceFeed env updates =
     m_bind (getPythPackageId env) (\<lambda>packageId.
     m_bind (verify_update env updates) (\<lambda>(u, verifiedVaa).
     m_bind (moveCall (packageId @ ''::pyth::create_price_feeds_using_accumulator'')
       [ObjectArg (sv_pythStateId env), PureArg u, verifiedVaa, ObjectArg (sv_clock env)] []) (\<lambda>_. m_return ())))"

section \<open>Properties\<close>

text \<open>
  The Sui client takes the same VAA out of an update as the price service SDK: for every update that
  \<^verbatim>\<open>parseAccumulatorUpdateData\<close> accepts, \<^verbatim>\<open>extractVaaBytesFromAccumulatorMessage\<close> returns the VAA it returns.
\<close>

theorem extractVaa_agrees:
  assumes "parseAccumulatorUpdateData d = Inr a"
  shows "extractVaaBytesFromAccumulatorMessage d = Inr (aud_vaa a)"
  using assms
  by (auto simp: parseAccumulatorUpdateData_def extractVaaBytesFromAccumulatorMessage_def accumulator_header_def Let_def res_bind_eq_Inr
      add.assoc split: if_splits)

named_theorems method_simps

lemmas [method_simps] = m_return_def m_lift_def the_client_def set_client_def add_command_def moveCall_def

lemma m_bind_Inr [method_simps]: "m_bind m f s = (t, Inr y) \<longleftrightarrow> (\<exists>s' x. m s = (s', Inr x) \<and> f x s' = (t, Inr y))"
  by (auto simp: m_bind_def split: prod.splits sum.splits)

text \<open>
  What the node says: the package of a state object, the fee, the table of the feeds with the package its type names, and the object of a
  feed (which counts as missing when its id is empty).  A client is up to date when its caches hold what the node says, as those of a new client do.
\<close>

definition node_package :: "sui_env \<Rightarrow> string \<Rightarrow> string \<Rightarrow> bool" where
  "node_package env stateId package \<longleftrightarrow> sv_upgrade_cap env stateId = Inr (Some (''moveObject'', Some package))"

definition node_fee :: "sui_env \<Rightarrow> jsnum \<Rightarrow> bool" where
  "node_fee env fee \<longleftrightarrow> sv_base_update_fee env = Inr (Some (''moveObject'', fee))"

definition node_table :: "sui_env \<Rightarrow> string \<times> string \<Rightarrow> bool" where
  "node_table env info \<longleftrightarrow> (\<exists>type. sv_price_table env = Inr (Some (fst info, type)) \<and>
     snd info = remove_first ''::price_identifier::PriceIdentifier, 0x2::object::ID>'' (remove_first ''0x2::table::Table<'' type))"

definition node_entry :: "sui_env \<Rightarrow> string \<Rightarrow> string \<Rightarrow> bool" where
  "node_entry env digits obj \<longleftrightarrow> (\<exists>info. node_table env info \<and>
     sv_price_object env (fst info) (snd info @ ''::price_identifier::PriceIdentifier'') (hex_to_bytes digits) = Inr (Some (''moveObject'', obj)))"

definition node_object :: "sui_env \<Rightarrow> string \<Rightarrow> string \<Rightarrow> bool" where
  "node_object env feedId obj \<longleftrightarrow> obj \<noteq> '''' \<and> node_entry env (remove_first ''0x'' feedId) obj"

definition up_to_date :: "sui_env \<Rightarrow> sui_client \<Rightarrow> bool" where
  "up_to_date env c \<longleftrightarrow>
     (\<forall>p. cl_pythPackageId c = Some p \<longrightarrow> node_package env (sv_pythStateId env) p) \<and>
     (\<forall>p. cl_wormholePackageId c = Some p \<longrightarrow> node_package env (sv_wormholeStateId env) p) \<and>
     (\<forall>info. cl_priceTableInfo c = Some info \<longrightarrow> node_table env info) \<and>
     (\<forall>k obj. cl_priceFeedObjectIdCache c k = Some obj \<longrightarrow> node_entry env k obj) \<and>
     (\<forall>fee. cl_baseUpdateFee c = Some fee \<longrightarrow> node_fee env fee)"

lemmas node_defs = node_package_def node_fee_def node_table_def node_entry_def

lemma node_unique:
  "node_package env i x \<Longrightarrow> node_package env i y \<Longrightarrow> x = y"
  "node_fee env f \<Longrightarrow> node_fee env g \<Longrightarrow> f = g"
  "node_table env info \<Longrightarrow> node_table env info' \<Longrightarrow> info = info'"
  "node_entry env k obj \<Longrightarrow> node_entry env k obj' \<Longrightarrow> obj = obj'"
  by (auto simp: node_defs prod_eq_iff)

text \<open>
  A method reads \<open>R\<close> when, on a client that is up to date, it returns a value exactly if some value is in \<open>R\<close>, that value, and
  changes nothing but the caches, which stay up to date.
\<close>

definition reads :: "sui_env \<Rightarrow> 'a sui_method \<Rightarrow> ('a \<Rightarrow> bool) \<Rightarrow> bool" where
  "reads env m R \<longleftrightarrow> (\<forall>c cmds c' cmds' r. up_to_date env c \<longrightarrow> m (c, cmds) = ((c', cmds'), r) \<longrightarrow>
     cmds' = cmds \<and> up_to_date env c' \<and> (case r of Inl e \<Rightarrow> \<forall>x. \<not> R x | Inr x \<Rightarrow> R x))"

lemma readsD:
  fixes x :: 'a
  assumes "reads env m R" and "up_to_date env (fst s)" and "m s = (t, Inr x)"
  shows "R x" and "up_to_date env (fst t)" and "snd t = snd s"
proof -
  have "m (fst s, snd s) = ((fst t, snd t), Inr x)" using assms(3) by simp
  then have "snd t = snd s \<and> up_to_date env (fst t) \<and> (case (Inr x :: 'a res) of Inl e \<Rightarrow> \<forall>x. \<not> R x | Inr x \<Rightarrow> R x)"
    using assms(1,2) unfolding reads_def by blast
  then show "R x" "up_to_date env (fst t)" "snd t = snd s" by simp_all
qed

lemma reads_returns:
  assumes "reads env m R" and "up_to_date env c" and "R x" and "\<And>y. R y \<Longrightarrow> y = x"
  shows "\<exists>c'. m (c, cmds) = ((c', cmds), Inr x) \<and> up_to_date env c'"
proof -
  obtain c' cmds' r where m: "m (c, cmds) = ((c', cmds'), r)" by (metis surj_pair)
  have "cmds' = cmds \<and> up_to_date env c' \<and> (case r of Inl e \<Rightarrow> \<forall>x. \<not> R x | Inr x \<Rightarrow> R x)"
    using assms(1,2) m unfolding reads_def by blast
  then show ?thesis using m assms(3) assms(4) [of "projr r"] by (cases r) auto
qed

lemma client_getPackageId_node: "client_getPackageId env i = Inr p \<longleftrightarrow> node_package env i p"
  by (cases "sv_upgrade_cap env i") (auto simp: client_getPackageId_def node_package_def split: option.splits if_splits)

lemma reads_package:
  "reads env (getPythPackageId env) (node_package env (sv_pythStateId env))"
  "reads env (getWormholePackageId env) (node_package env (sv_wormholeStateId env))"
  by (auto simp: reads_def getPythPackageId_def getWormholePackageId_def m_bind_def m_return_def m_lift_def
      the_client_def set_client_def up_to_date_def client_getPackageId_node [symmetric]
      split: option.splits list.splits sum.splits prod.splits)

lemma reads_fee: "reads env (getBaseUpdateFee env) (node_fee env)"
  by (auto simp: reads_def getBaseUpdateFee_def m_bind_def m_return_def m_lift_def
      the_client_def set_client_def up_to_date_def node_fee_def split: option.splits sum.splits prod.splits if_splits)

lemma reads_table: "reads env (getPriceTableInfo env) (node_table env)"
  by (auto simp: reads_def getPriceTableInfo_def m_bind_def m_return_def m_lift_def Let_def
      the_client_def set_client_def up_to_date_def node_table_def split: option.splits sum.splits prod.splits)

text \<open>The object of a feed, or that there is none.\<close>

definition node_answer :: "sui_env \<Rightarrow> string \<Rightarrow> string option \<Rightarrow> bool" where
  "node_answer env feedId r \<longleftrightarrow> (case r of
     Some obj \<Rightarrow> node_entry env (remove_first ''0x'' feedId) obj
   | None \<Rightarrow> \<exists>info. node_table env info \<and> sv_price_object env (fst info) (snd info @ ''::price_identifier::PriceIdentifier'')
       (hex_to_bytes (remove_first ''0x'' feedId)) = Inr None)"

lemma reads_object: "reads env (getPriceFeedObjectId env feedId) (node_answer env feedId)"
proof -
  let ?k = "remove_first ''0x'' feedId"
  have "cmds' = cmds \<and> up_to_date env c' \<and> (case r of Inl e \<Rightarrow> \<forall>x. \<not> node_answer env feedId x | Inr x \<Rightarrow> node_answer env feedId x)"
    if c: "up_to_date env c" and run: "getPriceFeedObjectId env feedId (c, cmds) = ((c', cmds'), r)" for c cmds c' cmds' r
  proof (cases "cl_priceFeedObjectIdCache c ?k")
    case (Some obj)
    then have "node_entry env ?k obj" using c by (simp add: up_to_date_def)
    then show ?thesis using Some c run
      by (auto simp: getPriceFeedObjectId_def m_bind_def the_client_def m_return_def node_answer_def Let_def)
  next
    case None
    obtain c1 cmds1 q where t0: "getPriceTableInfo env (c, cmds) = ((c1, cmds1), q)" by (metis surj_pair)
    have t: "cmds1 = cmds \<and> up_to_date env c1 \<and> (case q of Inl e \<Rightarrow> \<forall>x. \<not> node_table env x | Inr x \<Rightarrow> node_table env x)"
      using reads_table [of env] c t0 unfolding reads_def by blast
    show ?thesis
    proof (cases q)
      case (Inl e)
      then have "\<not> node_table env x" for x using t by (cases x) simp
      then have "\<not> node_answer env feedId x" for x by (auto simp: node_answer_def node_entry_def split: option.split)
      then show ?thesis using t t0 None run Inl by (auto simp: getPriceFeedObjectId_def m_bind_def the_client_def Let_def)
    next
      case (Inr info)
      then have "node_table env info" using t by simp
      then have uniq: "node_table env x \<longleftrightarrow> x = info" for x using node_unique(3) by blast
      have only: "node_answer env feedId x \<longleftrightarrow> sv_price_object env (fst info) (snd info @ ''::price_identifier::PriceIdentifier'')
          (hex_to_bytes ?k) = Inr (case x of None \<Rightarrow> None | Some obj \<Rightarrow> Some (''moveObject'', obj))" for x
        by (cases x) (simp_all add: node_answer_def node_entry_def uniq)
      have keep: "up_to_date env (c1\<lparr>cl_priceFeedObjectIdCache := (cl_priceFeedObjectIdCache c1)(?k \<mapsto> obj)\<rparr>)"
        if "node_answer env feedId (Some obj)" for obj
        using t that by (simp add: up_to_date_def node_answer_def)
      show ?thesis using t t0 None run Inr keep
        by (cases info) (auto simp: getPriceFeedObjectId_def m_bind_def the_client_def set_client_def m_return_def m_lift_def Let_def only
            split: option.splits sum.splits if_splits)
    qed
  qed
  then show ?thesis unfolding reads_def by blast
qed

text \<open>The call for the feed with index \<open>i\<close> when the hot potato comes from the command \<open>h\<close> and the next command is \<open>n\<close>.\<close>

definition update_call :: "sui_env \<Rightarrow> string \<Rightarrow> (nat \<Rightarrow> sui_arg) \<Rightarrow> sui_arg \<Rightarrow> nat \<Rightarrow> string \<Rightarrow> sui_command" where
  "update_call env packageId coins hotPotato i obj =
     MoveCall (packageId @ ''::pyth::update_single_price_feed'')
       [ObjectArg (sv_pythStateId env), hotPotato, ObjectArg obj, coins i, ObjectArg (sv_clock env)] []"

fun update_calls :: "sui_env \<Rightarrow> string \<Rightarrow> (nat \<Rightarrow> sui_arg) \<Rightarrow> sui_arg \<Rightarrow> nat \<Rightarrow> nat \<Rightarrow> string list \<Rightarrow> sui_command list" where
  "update_calls env packageId coins hotPotato n i [] = []"
| "update_calls env packageId coins hotPotato n i (obj # objs) =
     update_call env packageId coins hotPotato i obj # update_calls env packageId coins (NestedResult n 0) (n + 1) (i + 1) objs"

text \<open>The result of the last call, or the first one if there is no call.\<close>

definition last_result :: "sui_arg \<Rightarrow> nat \<Rightarrow> 'a list \<Rightarrow> sui_arg" where
  "last_result hotPotato n objs = (if objs = [] then hotPotato else NestedResult (n + length objs - 1) 0)"

lemma update_feeds_step:
  "update_feeds env packageId (f # fs) hotPotato coins i s = (t, Inr (objects, hotPotato')) \<longleftrightarrow>
   (\<exists>s1 obj objs. getPriceFeedObjectId env f s = (s1, Inr (Some obj)) \<and> obj \<noteq> '''' \<and> objects = obj # objs \<and>
     update_feeds env packageId fs (NestedResult (length (snd s1)) 0) coins (i + 1)
       (fst s1, snd s1 @ [update_call env packageId coins hotPotato i obj]) = (t, Inr (objs, hotPotato')))"
proof -
  obtain s1 r where r: "getPriceFeedObjectId env f s = (s1, r)" by (metis surj_pair)
  show ?thesis
  proof (cases "\<exists>obj. r = Inr (Some obj) \<and> obj \<noteq> ''''")
    case True
    then show ?thesis using r by (cases t) (auto simp: method_simps update_call_def)
  next
    case False
    then show ?thesis using r by (cases r) (auto simp: m_bind_def m_lift_def split: option.splits)
  qed
qed

lemma update_feeds_commands:
  "up_to_date env (fst s) \<Longrightarrow> update_feeds env packageId feedIds hotPotato coins i s = (t, Inr (objects, hotPotato')) \<Longrightarrow>
   list_all2 (node_object env) feedIds objects \<and> snd t = snd s @ update_calls env packageId coins hotPotato (length (snd s)) i objects \<and>
   hotPotato' = last_result hotPotato (length (snd s)) objects"
proof (induction feedIds arbitrary: hotPotato i s objects)
  case Nil
  then show ?case by (simp add: method_simps last_result_def)
next
  case (Cons f fs)
  obtain s1 obj objs where s1: "getPriceFeedObjectId env f s = (s1, Inr (Some obj))" "obj \<noteq> ''''" "objects = obj # objs"
      "update_feeds env packageId fs (NestedResult (length (snd s1)) 0) coins (i + 1)
        (fst s1, snd s1 @ [update_call env packageId coins hotPotato i obj]) = (t, Inr (objs, hotPotato'))"
    using Cons.prems(2) unfolding update_feeds_step by blast
  note read = readsD [OF reads_object Cons.prems(1) s1(1)]
  have "node_object env f obj" using read(1) s1(2) by (simp add: node_answer_def node_object_def)
  then show ?case using Cons.IH [OF _ s1(4)] read(2,3) s1(3) by (auto simp: last_result_def)
qed

lemma update_feeds_returns:
  "up_to_date env c \<Longrightarrow> list_all2 (node_object env) feedIds objects \<Longrightarrow>
   \<exists>t h. update_feeds env packageId feedIds hotPotato coins i (c, cmds) = (t, Inr (objects, h))"
proof (induction feedIds arbitrary: hotPotato i c cmds objects)
  case Nil
  then show ?case by (simp add: method_simps)
next
  case (Cons f fs)
  then obtain obj objs where obj: "objects = obj # objs" "node_object env f obj" "list_all2 (node_object env) fs objs"
    by (auto simp: list_all2_Cons1)
  have "node_answer env f (Some obj)" using obj(2) by (simp add: node_answer_def node_object_def)
  moreover have "y = Some obj" if "node_answer env f y" for y
    using that obj(2) node_unique(3,4) by (fastforce simp: node_answer_def node_object_def node_entry_def split: option.splits)
  ultimately obtain c' where c': "getPriceFeedObjectId env f (c, cmds) = ((c', cmds), Inr (Some obj))" "up_to_date env c'"
    using reads_returns [OF reads_object Cons.prems(1)] by blast
  from Cons.IH [OF c'(2) obj(3), of "NestedResult (length cmds) 0" "i + 1" "cmds @ [update_call env packageId coins hotPotato i obj]"]
  show ?case using c'(1) obj(1,2) unfolding update_feeds_step node_object_def by auto
qed

text \<open>The commands of an update of the objects \<open>objs\<close>, the first of which is command \<open>n\<close>.\<close>

definition update_commands ::
  "sui_env \<Rightarrow> string \<Rightarrow> string \<Rightarrow> bytes \<Rightarrow> bytes \<Rightarrow> bytes \<Rightarrow> nat \<Rightarrow> string list \<Rightarrow> sui_command list" where
  "update_commands env wormholePackageId packageId vaa update fee n objs =
     [MoveCall (wormholePackageId @ ''::vaa::parse_and_verify'')
        [ObjectArg (sv_wormholeStateId env), PureArg vaa, ObjectArg (sv_clock env)] [],
      MoveCall (packageId @ ''::pyth::create_authenticated_price_infos_using_accumulator'')
        [ObjectArg (sv_pythStateId env), PureArg update, NestedResult n 0, ObjectArg (sv_clock env)] [],
      SplitGas (replicate (length objs) (PureArg fee))] @
     update_calls env packageId (\<lambda>i. NestedResult (n + 2) i) (NestedResult (n + 1) 0) (n + 3) 0 objs @
     [MoveCall (packageId @ ''::hot_potato_vector::destroy'')
        [last_result (NestedResult (n + 1) 0) (n + 3) objs] [packageId @ ''::price_info::PriceInfo'']]"

lemma verify_update_commands:
  assumes "up_to_date env (fst s)" and "verify_update env updates s = (t, Inr (u, v))"
  shows "\<exists>update vaa vb w. updates = [update] \<and> extractVaaBytesFromAccumulatorMessage update = Inr vaa \<and>
    sv_serialize env vaa = Inr vb \<and> sv_serialize env update = Inr u \<and> node_package env (sv_wormholeStateId env) w \<and>
    v = NestedResult (length (snd s)) 0 \<and> up_to_date env (fst t) \<and>
    snd t = snd s @ [MoveCall (w @ ''::vaa::parse_and_verify'')
      [ObjectArg (sv_wormholeStateId env), PureArg vb, ObjectArg (sv_clock env)] []]"
proof -
  obtain update where up: "updates = [update]"
    using assms(2) by (auto simp: verify_update_def m_lift_def split: list.splits)
  then obtain vaa s1 w vb where s1: "getWormholePackageId env s = (s1, Inr w)" and rest: "extractVaaBytesFromAccumulatorMessage update = Inr vaa"
      "sv_serialize env vaa = Inr vb" "sv_serialize env update = Inr u" "v = NestedResult (length (snd s1)) 0"
      "t = (fst s1, snd s1 @ [MoveCall (w @ ''::vaa::parse_and_verify'')
        [ObjectArg (sv_wormholeStateId env), PureArg vb, ObjectArg (sv_clock env)] []])"
    using assms(2) by (auto simp: verify_update_def method_simps)
  from readsD [OF reads_package(2) assms(1) s1] rest show ?thesis unfolding up by auto
qed

lemma verify_update_returns:
  assumes "up_to_date env c" and "node_package env (sv_wormholeStateId env) w"
    and "extractVaaBytesFromAccumulatorMessage update = Inr vaa" and "sv_serialize env vaa = Inr vb" and "sv_serialize env update = Inr u"
  shows "\<exists>t v. verify_update env [update] (c, cmds) = (t, Inr (u, v))"
proof -
  obtain c' where "getWormholePackageId env (c, cmds) = ((c', cmds), Inr w)"
    using reads_returns [OF reads_package(2) assms(1,2)] node_unique(1) [OF _ assms(2)] by blast
  then show ?thesis using assms(3-5) by (auto simp: verify_update_def method_simps)
qed

text \<open>The serialized fees, one per feed.\<close>

lemma fee_amounts:
  "map_res (\<lambda>_. r) fs = Inr amounts \<longleftrightarrow> (\<exists>a. (fs \<noteq> [] \<longrightarrow> r = Inr a) \<and> amounts = replicate (length fs) a)"
proof (induction fs arbitrary: amounts)
  case (Cons f fs)
  then show ?case by (cases r; cases fs) (auto simp: res_bind_eq_Inr)
qed auto

text \<open>When nothing is missing, the update returns.\<close>

lemma updatePriceFeeds_returns:
  assumes "up_to_date env (fst s)" and "extractVaaBytesFromAccumulatorMessage update = Inr vaa"
    and "sv_serialize env vaa = Inr v" and "sv_serialize env update = Inr u"
    and "node_package env (sv_wormholeStateId env) w" and "node_package env (sv_pythStateId env) p"
    and "node_fee env fee" and "feedIds \<noteq> [] \<longrightarrow> sv_pure_u64 env fee = Inr a" and "list_all2 (node_object env) feedIds objects"
  shows "\<exists>t. updatePriceFeeds env [update] feedIds s = (t, Inr objects)"
proof -
  obtain s1 where s1: "getPythPackageId env s = (s1, Inr p)" "up_to_date env (fst s1)"
    using reads_returns [OF reads_package(1) assms(1,6), of "snd s"] node_unique(1) [OF _ assms(6)] by auto
  obtain s2 x where s2: "verify_update env [update] s1 = (s2, Inr (u, x))"
    using verify_update_returns [OF s1(2) assms(5,2,3,4), of "snd s1"] by auto
  define s3 where "s3 = (fst s2, snd s2 @ [MoveCall (p @ ''::pyth::create_authenticated_price_infos_using_accumulator'')
    [ObjectArg (sv_pythStateId env), PureArg u, x, ObjectArg (sv_clock env)] []])"
  have "up_to_date env (fst s3)" using verify_update_commands [OF s1(2) s2] by (auto simp: s3_def)
  then obtain s4 where s4: "getBaseUpdateFee env s3 = (s4, Inr fee)" "up_to_date env (fst s4)"
    using reads_returns [OF reads_fee _ assms(7), of "fst s3" "snd s3"] node_unique(2) [OF _ assms(7)] by auto
  have amounts: "map_res (\<lambda>_. sv_pure_u64 env fee) feedIds = Inr (replicate (length feedIds) a)"
    using assms(8) unfolding fee_amounts by blast
  obtain t h where "update_feeds env p feedIds (NestedResult (length (snd s2)) 0) (\<lambda>i. NestedResult (length (snd s4)) i) 0
      (fst s4, snd s4 @ [SplitGas (map PureArg (replicate (length feedIds) a))]) = (t, Inr (objects, h))"
    using update_feeds_returns [OF s4(2) assms(9)] by blast
  then show ?thesis using s1(1) s2 s4(1) amounts
    by (simp add: updatePriceFeeds_def verifyVaasAndGetHotPotato_def executePriceFeedUpdates_def m_bind_def m_return_def m_lift_def
        add_command_def moveCall_def s3_def)
qed

lemma updatePriceFeeds_commands:
  assumes "up_to_date env (fst s)" and run: "updatePriceFeeds env updates feedIds s = ((c, commands), Inr objects)"
  shows "\<exists>update vaa v u fee a w p. updates = [update] \<and> extractVaaBytesFromAccumulatorMessage update = Inr vaa \<and>
      sv_serialize env vaa = Inr v \<and> sv_serialize env update = Inr u \<and>
      node_package env (sv_wormholeStateId env) w \<and> node_package env (sv_pythStateId env) p \<and>
      node_fee env fee \<and> (feedIds \<noteq> [] \<longrightarrow> sv_pure_u64 env fee = Inr a) \<and> list_all2 (node_object env) feedIds objects \<and>
      commands = snd s @ update_commands env w p v u a (length (snd s)) objects"
proof -
  obtain s1 p s2 hot s3 fee amounts where steps: "getPythPackageId env s = (s1, Inr p)"
      "verifyVaasAndGetHotPotato env updates p s1 = (s2, Inr hot)" "getBaseUpdateFee env s2 = (s3, Inr fee)"
      "map_res (\<lambda>_. sv_pure_u64 env fee) feedIds = Inr amounts"
      "executePriceFeedUpdates env p feedIds hot (\<lambda>i. NestedResult (length (snd s3)) i)
        (fst s3, snd s3 @ [SplitGas (map PureArg amounts)]) = ((c, commands), Inr objects)"
    using run by (auto simp: updatePriceFeeds_def method_simps)
  note package = readsD [OF reads_package(1) assms(1) steps(1)]
  obtain m u v where m: "verify_update env updates s1 = (m, Inr (u, v))" "hot = NestedResult (length (snd m)) 0"
      "s2 = (fst m, snd m @ [MoveCall (p @ ''::pyth::create_authenticated_price_infos_using_accumulator'')
        [ObjectArg (sv_pythStateId env), PureArg u, v, ObjectArg (sv_clock env)] []])"
    using steps(2) by (auto simp: verifyVaasAndGetHotPotato_def method_simps)
  obtain update vaa vb w where up: "updates = [update]" "extractVaaBytesFromAccumulatorMessage update = Inr vaa"
      "sv_serialize env vaa = Inr vb" "sv_serialize env update = Inr u" "node_package env (sv_wormholeStateId env) w"
      "v = NestedResult (length (snd s1)) 0" "up_to_date env (fst m)"
      "snd m = snd s1 @ [MoveCall (w @ ''::vaa::parse_and_verify'')
        [ObjectArg (sv_wormholeStateId env), PureArg vb, ObjectArg (sv_clock env)] []]"
    using verify_update_commands [OF package(2) m(1)] by blast
  have s2: "up_to_date env (fst s2)" using up(7) m(3) by simp
  note fees = readsD [OF reads_fee s2 steps(3)]
  obtain t1 h where ex: "update_feeds env p feedIds hot (\<lambda>i. NestedResult (length (snd s3)) i) 0
        (fst s3, snd s3 @ [SplitGas (map PureArg amounts)]) = (t1, Inr (objects, h))"
      "commands = snd t1 @ [MoveCall (p @ ''::hot_potato_vector::destroy'') [h] [p @ ''::price_info::PriceInfo'']]"
    using steps(5) by (auto simp: executePriceFeedUpdates_def method_simps)
  have "up_to_date env (fst (fst s3, snd s3 @ [SplitGas (map PureArg amounts)]))" using fees(2) by simp
  note feeds = update_feeds_commands [OF this ex(1)]
  have len: "length feedIds = length objects" using feeds list_all2_lengthD by blast
  obtain a where a: "feedIds \<noteq> [] \<longrightarrow> sv_pure_u64 env fee = Inr a" "amounts = replicate (length feedIds) a"
    using steps(4) unfolding fee_amounts by blast
  have "commands = snd s @ update_commands env w p vb u a (length (snd s)) objects"
    using feeds by (simp add: ex(2) update_commands_def a(2) package(3) fees(3) m(2,3) up(6,8) len eval_nat_numeral)
  then show ?thesis using up(1-5) package(1) fees(1) a(1) feeds by blast
qed

text \<open>
  C33. The commands of a Sui update.  For a client whose caches hold what the node says, \<^verbatim>\<open>updatePriceFeeds\<close> returns \<open>objects\<close> exactly if there is a single
  update that contains a VAA, both can be serialized, the node knows both packages and the fee, and \<open>objects\<close> are the objects it names for
  the feeds, feed by feed.  It then adds exactly these commands to the transaction: the verification of the VAA, the authentication of the
  update with the verified VAA, a split of one fee per feed from the gas coin, for each feed in order a call that takes the result of the previous
  call, the object of that feed and the coin of its own, and the destruction of the last result.
\<close>

theorem sui_update_commands:
  assumes "up_to_date env (fst s)"
  shows "(\<exists>c. updatePriceFeeds env updates feedIds s = ((c, commands), Inr objects)) \<longleftrightarrow>
    (\<exists>update vaa v u fee a w p. updates = [update] \<and> extractVaaBytesFromAccumulatorMessage update = Inr vaa \<and>
      sv_serialize env vaa = Inr v \<and> sv_serialize env update = Inr u \<and>
      node_package env (sv_wormholeStateId env) w \<and> node_package env (sv_pythStateId env) p \<and>
      node_fee env fee \<and> (feedIds \<noteq> [] \<longrightarrow> sv_pure_u64 env fee = Inr a) \<and> list_all2 (node_object env) feedIds objects \<and>
      commands = snd s @ update_commands env w p v u a (length (snd s)) objects)"
proof
  assume "\<exists>c. updatePriceFeeds env updates feedIds s = ((c, commands), Inr objects)"
  then obtain c where "updatePriceFeeds env updates feedIds s = ((c, commands), Inr objects)" by blast
  then show "\<exists>update vaa v u fee a w p. updates = [update] \<and> extractVaaBytesFromAccumulatorMessage update = Inr vaa \<and>
      sv_serialize env vaa = Inr v \<and> sv_serialize env update = Inr u \<and>
      node_package env (sv_wormholeStateId env) w \<and> node_package env (sv_pythStateId env) p \<and>
      node_fee env fee \<and> (feedIds \<noteq> [] \<longrightarrow> sv_pure_u64 env fee = Inr a) \<and> list_all2 (node_object env) feedIds objects \<and>
      commands = snd s @ update_commands env w p v u a (length (snd s)) objects"
    by (rule updatePriceFeeds_commands [OF assms])
next
  assume "\<exists>update vaa v u fee a w p. updates = [update] \<and> extractVaaBytesFromAccumulatorMessage update = Inr vaa \<and>
      sv_serialize env vaa = Inr v \<and> sv_serialize env update = Inr u \<and>
      node_package env (sv_wormholeStateId env) w \<and> node_package env (sv_pythStateId env) p \<and>
      node_fee env fee \<and> (feedIds \<noteq> [] \<longrightarrow> sv_pure_u64 env fee = Inr a) \<and> list_all2 (node_object env) feedIds objects \<and>
      commands = snd s @ update_commands env w p v u a (length (snd s)) objects"
  then obtain update vaa v u fee a w p where facts: "updates = [update]" "extractVaaBytesFromAccumulatorMessage update = Inr vaa"
      "sv_serialize env vaa = Inr v" "sv_serialize env update = Inr u"
      "node_package env (sv_wormholeStateId env) w" "node_package env (sv_pythStateId env) p"
      "node_fee env fee" "feedIds \<noteq> [] \<longrightarrow> sv_pure_u64 env fee = Inr a" "list_all2 (node_object env) feedIds objects"
      "commands = snd s @ update_commands env w p v u a (length (snd s)) objects" by blast
  obtain c commands' where run: "updatePriceFeeds env updates feedIds s = ((c, commands'), Inr objects)"
    using updatePriceFeeds_returns [OF assms facts(2-9)] facts(1) by (metis surj_pair)
  obtain update' vaa' v' u' fee' a' w' p' where same0: "updates = [update']" "extractVaaBytesFromAccumulatorMessage update' = Inr vaa'"
      and same: "sv_serialize env vaa' = Inr v'" "sv_serialize env update' = Inr u'"
      "node_package env (sv_wormholeStateId env) w'" "node_package env (sv_pythStateId env) p'"
      "node_fee env fee'" "feedIds \<noteq> [] \<longrightarrow> sv_pure_u64 env fee' = Inr a'"
      "commands' = snd s @ update_commands env w' p' v' u' a' (length (snd s)) objects"
    using updatePriceFeeds_commands [OF assms run] by blast
  have "update' = update" "vaa' = vaa" using same0 facts(1,2) by simp_all
  have "v' = v" "u' = u" "w' = w" "p' = p" "fee' = fee" using same facts node_unique \<open>update' = update\<close> \<open>vaa' = vaa\<close> by auto
  moreover have "objects = [] \<or> a' = a" using same(6) facts(8,9) \<open>fee' = fee\<close> by auto
  ultimately have "commands' = commands" using same(7) facts(10) by (auto simp: update_commands_def)
  then show "\<exists>c. updatePriceFeeds env updates feedIds s = ((c, commands), Inr objects)" using run by blast
qed

section \<open>Examples\<close>

definition sample_sui_env :: sui_env where
  "sample_sui_env = \<lparr>sv_pythStateId = ''0x1'', sv_wormholeStateId = ''0x2'', sv_clock = ''0x6'',
     sv_upgrade_cap = (\<lambda>i. Inr (Some (''moveObject'', Some (''p'' @ i)))),
     sv_base_update_fee = Inr (Some (''moveObject'', Fin 1)), sv_price_table = Inr (Some (''0x3'', ''0x2::table::Table<0x9'')),
     sv_price_object = (\<lambda>_ _ b. Inr (Some (''moveObject'', ''feed'' @ bytes_to_hex b))),
     sv_serialize = Inr, sv_pure_u64 = (\<lambda>_. Inr [1])\<rparr>"

definition sample_client :: sui_client where
  "sample_client = \<lparr>cl_pythPackageId = None, cl_wormholePackageId = None, cl_priceTableInfo = None,
     cl_priceFeedObjectIdCache = Map.empty, cl_baseUpdateFee = None\<rparr>"

definition sample_update_bytes :: bytes where
  "sample_update_bytes = [80, 78, 65, 85, 1, 0, 0, 0, 0, 1, 9, 0]"

lemma sample_update_vaa: "extractVaaBytesFromAccumulatorMessage sample_update_bytes = Inr [9]"
  by (simp add: extractVaaBytesFromAccumulatorMessage_def sample_update_bytes_def read_be_def buf_subarray_def be_nat_def)

theorem sui_update_commands_witness:
  "\<exists>c. updatePriceFeeds sample_sui_env [sample_update_bytes] [''0xaa'', ''bb''] (sample_client, []) =
     ((c, update_commands sample_sui_env ''p0x2'' ''p0x1'' [9] sample_update_bytes [1] 0 [''feedaa'', ''feedbb'']), Inr [''feedaa'', ''feedbb''])"
proof -
  have digits: "remove_first ''0x'' ''0xaa'' = ''aa''" "remove_first ''0x'' ''bb'' = ''bb''"
    "bytes_to_hex (hex_to_bytes ''aa'') = ''aa''" "bytes_to_hex (hex_to_bytes ''bb'') = ''bb''" by code_simp+
  have "list_all2 (node_object sample_sui_env) [''0xaa'', ''bb''] [''feedaa'', ''feedbb'']"
    by (simp add: node_object_def node_entry_def node_table_def digits sample_sui_env_def del: remove_first.simps hex_to_bytes.simps)
  moreover have "up_to_date sample_sui_env (fst (sample_client, [] :: sui_command list))" by (simp add: up_to_date_def sample_client_def)
  moreover have "node_package sample_sui_env (sv_wormholeStateId sample_sui_env) ''p0x2''"
    "node_package sample_sui_env (sv_pythStateId sample_sui_env) ''p0x1''" "node_fee sample_sui_env (Fin 1)"
    "sv_serialize sample_sui_env x = Inr x" "sv_pure_u64 sample_sui_env (Fin 1) = Inr [1]" for x
    by (simp_all add: node_package_def node_fee_def sample_sui_env_def)
  ultimately show ?thesis using sample_update_vaa by (subst sui_update_commands) auto
qed

theorem extractVaa_agrees_witness:
  "extractVaaBytesFromAccumulatorMessage (encode_accumulator [7, 7] 0 \<lparr>aud_vaa = [1, 2, 3], aud_updates = []\<rparr>) = Inr [1, 2, 3]"
proof -
  have "parseAccumulatorUpdateData (encode_accumulator [7, 7] 0 \<lparr>aud_vaa = [1, 2, 3], aud_updates = []\<rparr>) =
      Inr \<lparr>aud_vaa = [1, 2, 3], aud_updates = []\<rparr>"
    by (rule parse_encode_accumulator) (simp_all add: wf_accumulator_def)
  from extractVaa_agrees [OF this] show ?thesis by simp
qed

end
