(* ===== verification/Spec2Isabelle.thy ===== *)
theory Spec2Isabelle
  imports Accumulator Governance_Codec Price_Store Evm_Pusher Solana_Vaa Staking Price_Service Web_Socket
    Rate_Limiter Update_Filler Core_Upload Multisig_Execution Sui_Pusher
    Aptos_Pusher Solana_Pusher Other_Pushers Injective_Pusher Solana_Receiver Sui_Client
begin

text \<open>
  This library verifies the TypeScript core of the Pyth cross-chain repository: the code that carries prices
  from the price service to the target chains, and the code that builds and reads the governance messages that
  control the contracts there.  File names below are relative to \<^verbatim>\<open>src/\<close>.

  \<^bold>\<open>The program.\<close>  Pyth publishes signed price updates.  The price service SDK parses the
  accumulator format of an update and the JSON form of a price feed; the price service client keeps
  subscriptions alive over a web socket.  The price pusher listens to the price service and to a target chain,
  decides for every feed whether the chain is behind, and pushes updates through a back end for the chain.  The Solana SDK cuts an
  update into transactions, the TON SDK into cells, the Ethereum SDK finds out which updates a call needs.  Governance messages (new
  contract code, fees, data sources) are encoded by \<^verbatim>\<open>xc_admin_common\<close>, proposed to a multisig, approved, executed and carried
  by Wormhole; the same package reads, compares and uploads the configuration of the oracle program.  The staking
  SDK computes positions, vesting and yields.

  \<^bold>\<open>Theories and sources.\<close>
  \<^item> \<open>Prelude\<close> (results with JavaScript exceptions, byte buffers, big endian numbers, \<^verbatim>\<open>Set\<close>), \<open>Hex\<close>
    (hexadecimal and decimal strings), \<open>Js_Number\<close> (IEEE doubles with round to nearest even, exact rational
    arithmetic below, and the error bounds of the operations), \<open>Js_Print\<close> (how numbers are printed), \<open>Step_System\<close> (runs of step relations and the
    locale \<open>step_invariant\<close>).
  \<^item> \<open>Accumulator\<close>: \<^verbatim>\<open>price_service/sdk/js/src/AccumulatorUpdateData.ts\<close>.
  \<^item> \<open>Price_Feed\<close>: \<^verbatim>\<open>price_service/sdk/js/src/index.ts\<close> and \<^verbatim>\<open>schemas/PriceFeed.ts\<close>.
  \<^item> \<open>Price_Service\<close>, \<open>Web_Socket\<close>: \<^verbatim>\<open>PriceServiceConnection.ts\<close> and \<^verbatim>\<open>ResillientWebSocket.ts\<close> of
    \<^verbatim>\<open>price_service/client/js/src\<close>.
  \<^item> \<open>Price_Config\<close>, \<open>Price_Pusher\<close>, \<open>Evm_Pusher\<close>: \<^verbatim>\<open>price-config.ts\<close>; \<^verbatim>\<open>controller.ts\<close>,
    \<^verbatim>\<open>interface.ts\<close>, \<^verbatim>\<open>pyth-price-listener.ts\<close>, \<^verbatim>\<open>utils.ts\<close>; \<^verbatim>\<open>evm/\<close> of \<^verbatim>\<open>apps/price_pusher/src\<close>.
  \<^item> \<open>Sui_Pusher\<close>, \<open>Aptos_Pusher\<close>, \<open>Solana_Pusher\<close>, \<open>Injective_Pusher\<close>, \<open>Other_Pushers\<close>: \<^verbatim>\<open>sui/sui.ts\<close>, \<^verbatim>\<open>aptos/aptos.ts\<close>,
    \<^verbatim>\<open>solana/solana.ts\<close> with \<^verbatim>\<open>solana_utils/src/jito.ts\<close>, \<^verbatim>\<open>injective/injective.ts\<close>, and \<^verbatim>\<open>near/near.ts\<close>, \<^verbatim>\<open>ton/ton.ts\<close>, \<^verbatim>\<open>fuel/fuel.ts\<close> with
    \<^verbatim>\<open>target_chains/ton/sdk/js/src/index.ts\<close>.
  \<^item> \<open>Core_Config\<close>, \<open>Core_Instructions\<close>, \<open>Core_Upload\<close>: \<^verbatim>\<open>programs/core/core_functions.ts\<close>, \<^verbatim>\<open>programs/types.ts\<close>,
    \<^verbatim>\<open>cluster.ts\<close>, \<^verbatim>\<open>deterministic_oracle_accounts.ts\<close> and \<^verbatim>\<open>message_buffer.ts\<close> of \<^verbatim>\<open>xc_admin_common/src\<close>: the configuration, the
    instructions of an upload, and the effect of executing them.
  \<^item> \<open>Multisig\<close>, \<open>Multisig_Parser\<close>, \<open>Multisig_Execution\<close>: \<^verbatim>\<open>propose.ts\<close>, \<^verbatim>\<open>multisig.ts\<close>, \<^verbatim>\<open>wormhole.ts\<close>,
    \<^verbatim>\<open>remote_executor.ts\<close>; \<^verbatim>\<open>multisig_transaction/\<close>; \<^verbatim>\<open>executor.ts\<close> of the same package.
  \<^item> \<open>Chains\<close>, \<open>Buffer_Layout\<close>, \<open>Governance_Header\<close>, \<open>Governance_Payload\<close>, \<open>Governance_Codec\<close>,
    \<open>Price_Store\<close>: \<^verbatim>\<open>chains.ts\<close>, \<^verbatim>\<open>governance_payload/\<close> and \<^verbatim>\<open>price_store.ts\<close> of
    \<^verbatim>\<open>governance/xc_admin/packages/xc_admin_common/src\<close>.
  \<^item> \<open>Solana_Transaction\<close>, \<open>Solana_Vaa\<close>, \<open>Solana_Receiver\<close>: \<^verbatim>\<open>solana_utils/src\<close>, and \<^verbatim>\<open>vaa.ts\<close>, \<^verbatim>\<open>address.ts\<close> and
    \<^verbatim>\<open>PythSolanaReceiver.ts\<close> of \<^verbatim>\<open>pyth_solana_receiver/src\<close>, of \<^verbatim>\<open>target_chains/solana/sdk/js\<close>.
  \<^item> \<open>Sui_Client\<close>: \<^verbatim>\<open>target_chains/sui/sdk/js/src/client.ts\<close>.
  \<^item> \<open>Update_Filler\<close>: \<^verbatim>\<open>target_chains/ethereum/sdk/js/src\<close>.
  \<^item> \<open>Staking\<close>: \<^verbatim>\<open>governance/pyth_staking_sdk/src/utils\<close>.
  \<^item> \<open>Rate_Limiter\<close>: \<^verbatim>\<open>apps/developer-hub/src/lib/rate-limiter.ts\<close>.

  \<^bold>\<open>How the code is modelled.\<close>  An object with state is a record and a method a function that returns
  the changed record; definitions have the names of the source.  An exception is the left value of a sum
  (\<open>'a res\<close> of \<open>Prelude\<close>), \<^verbatim>\<open>undefined\<close> is \<open>None\<close>.  Byte arrays are lists of 8 bit words, with the reads that
  throw and the \<^verbatim>\<open>subarray\<close> that clamps kept apart.  A \<^verbatim>\<open>number\<close> is a natural number or an integer where it is an index
  or a byte count, and a double of \<open>Js_Number\<close> where the code computes with it (prices, times, gas prices);
  a \<^verbatim>\<open>bigint\<close> is an \<open>int\<close>.  An object used as a table is the list of its entries in insertion order where the
  order shows, and a map where it does not.  Code between two \<^verbatim>\<open>await\<close>s runs without
  interruption, so asynchronous components are step relations whose events are calls, answers and timers
  (\<open>tracker_step\<close>, \<open>conn_step\<close>, \<open>ws_step\<close>, \<open>limiter_step\<close>, \<open>sui_step\<close>, \<open>aptos_step\<close>), or functions with what happens in the meantime as an argument;
  tasks joined by \<^verbatim>\<open>Promise.all\<close> have the order in which they end as an argument.  A loop that may not end is a
  \<open>partial_function\<close> with the value \<open>None\<close> for not returning, and that it returns is a theorem.

  \<^bold>\<open>What is proved.\<close>
  \<^item> Formats: the accumulator parser accepts exactly the wire format, and slicing agrees with parsing;
    every governance action encodes to a message that decodes to it, and a decoded action has the chain
    and kind of its header; a price store instruction is accepted exactly if it is one that would be built;
    JSON price feeds are accepted exactly in the described shape and round trip except for the VAA.
  \<^item> Decisions: the test of the price deviation in doubles is right up to a relative margin of \<open>2 ^ -50\<close>; the controller
    pushes exactly the feeds that are due; what it pushes was received from the price service and is newer than
    an observation on the chain; with a cap of at least 1, the gas price stays between the current price and the capped one.
  \<^item> State: caches keep newest observations; subscriptions reach the server across reconnects if waiting messages are sent in order; there is one
    socket until the user closes it; a client is granted at most the configured number of requests in any
    window; the balance tracker runs one loop until it is stopped.
  \<^item> Sizes and cuts: the computed size of a Solana transaction whose payer signs is the size of its serialization, or 34 bytes more when the
    given lookup table is not used (and up to 96 bytes less when the payer is in no instruction); batches hold all
    instructions in order, with their signers, within the limit; a VAA is trimmed to its first signatures, and written completely and
    verified by the posting instructions; Jito bundles hold all updates
    once and in order; a buffer packed into TON cells is read back.  Arrays of signers that instructions of a batch share are in a
    store (\<open>addInstruction_shared\<close>), and the model without a store agrees with it when no array is shared.
  \<^item> Clients: the Solana receiver client posts every update once and closes every account it creates; a Sui update adds exactly
    the described commands for the objects the node names for the feeds, each hot potato taken by the next command, and reads the same VAA out of a message as the parser.
  \<^item> Back ends: Sui transactions that run in parallel never share a gas coin, an update is cut into chunks that take
    the coins of the pool in order, and merging the coins of a wallet ends unless the node rejects the same payment for ever; concurrent Aptos updates get
    consecutive sequence numbers; an Injective push recovers from a stale sequence number with one lost push.
  \<^item> Configuration: an upload is validated exactly, uploading what was downloaded changes nothing, and the generated
    instructions, when the oracle accepts them and no two symbols share an account, bring the accounts to the uploaded configuration;
    reading the price accounts of a product ends.
  \<^item> Multisig: proposed instructions are shown by the parser as they were proposed and with all their accounts,
    interrupted proposals are completed, sending stops at the first transaction that fails ten times with all before it landed, and execution keeps the order.
  \<^item> Ends: the loops with a limit end, with the result they are after when the limit is large enough.
  \<^item> Where the code does not do what it means to, a theorem shows what it does (a negative
    price is read as a number near \<open>2 ^ 64\<close>, a subscription is lost when messages overtake each other, a failing gas station
    makes the push throw, and others in the theories).

  \<^bold>\<open>Interfaces.\<close>  \<open>governance_action_impl\<close> (\<open>Governance_Header\<close>) is the contract between a payload
  class and the base class that adds the header; every class of \<open>Governance_Payload\<close> with a fixed layout
  interprets it.  \<open>price_listener\<close> (\<open>Price_Pusher\<close>) is what the controller relies on in a price
  cache; the chain cache, the Hermes cache and the EVM event listener interpret it.  \<open>step_invariant\<close> is interpreted by
  the balance tracker, the subscriptions (twice), the web socket, the rate limiter, the gas pool of Sui and the
  sequence numbers of Aptos.

  \<^bold>\<open>Parameters.\<close>  Code outside the repository is an argument: \<^verbatim>\<open>@solana/buffer-layout\<close> with \<^verbatim>\<open>bigint-buffer\<close> and
  \<^verbatim>\<open>PublicKey\<close> (\<open>gov_env\<close>, with \<open>gov_env_ok\<close> as the documented behaviour), the keys of \<open>Price_Store\<close>, the instruction constructors of
  \<open>tx_env\<close>, the answers of Hermes and of RPC nodes, viem's codecs and errors, \<^verbatim>\<open>BN\<close>, \<^verbatim>\<open>JSON.parse\<close>, \<^verbatim>\<open>JSON.stringify\<close>, the YAML reader and the validator,
  the oracle program (\<open>oracle_ok\<close>) and the Wormhole program (\<open>bridge_ok\<close>) on Solana with the documented effects of their instructions,
  the Squads, Wormhole and Anchor clients with their decoders and interface descriptions, the parsers of oracle accounts, \<^verbatim>\<open>localeCompare\<close>, the
  keypairs, the derivation of addresses, the BCS serialization, the
  clients of Sui, Aptos, Injective, NEAR, TON and Fuel, the TON cell library (\<open>cells_hold\<close>), the block engines and the clock of Jito,
  and the power \<^verbatim>\<open>10 ** expo\<close>, which the language leaves to the implementation.  Each hypothesis on them
  is shown to hold of a concrete instance by the witness of the theorem that has it.

  \<^bold>\<open>Bounds.\<close>  \<open>fill_loop\<close> counts down \<^verbatim>\<open>maxIter\<close>; its theorem asks for more iterations than there are feeds
  to be found.  \<open>wait_ready\<close> ends because the waited time grows to 5010 milliseconds.  \<open>transform\<close> ends because
  the rank of the type falls, also through references.  \<open>merge_loop\<close> ends because a retry has fewer coins to use or repeats its payment,
  which the node does not reject for ever,
  \<open>follow_prices\<close> because no account is taken twice, \<open>jito_cycles\<close> because the clock passes the limit.  Integers up to \<open>2 ^ 53\<close> are exact doubles.

  \<^bold>\<open>Assumptions of the model.\<close>  Buffers are values: that \<^verbatim>\<open>subarray\<close> shares memory does not show, because no
  modelled function writes into a buffer it has handed out.  Callbacks do not call back into the client that calls
  them.  No field or symbol is called like a member of \<^verbatim>\<open>Object.prototype\<close> or is a number.  The wall clock does not run
  backwards in the rate limiter and in the submission of bundles.  Counts given on a command line (gas coins, bundle sizes) are
  natural numbers.  The thresholds of a configuration file of the pusher are written as numbers.  A push of the Injective back end runs
  without interruption.

  \<^bold>\<open>Not modelled.\<close>  Logging, metrics servers, HTTP requests, signing, RPC submission, command lines, generated
  clients and interface descriptions, user interfaces, and code in other languages (contracts, Rust services): they pass values on
  or hold data.  The health check of the Solana listener and the balance trackers only report.  The contract manager is scripts around RPC
  clients and YAML stores; the governance messages it sends are those of \<open>Governance_Payload\<close>.  The readers of TON guardian sets and
  data sources, and the Lazer SDKs, which wrap single calls, are left out.
\<close>

end
